(* ===== verification/Prelude.thy ===== *)
theory Prelude
  imports Main "HOL-Library.Word" "HOL-Library.AList"
begin

text \<open>
  The vocabulary every component shares: the fixed-width integers of the source, the big- and
  little-endian byte conversions, 32- and 64-byte frames as lists, and the state-passing form of a
  fallible asynchronous method. A Rust method \<open>async fn f(&mut self) -> Result<A, E>\<close> is an
  action \<open>'s \<Rightarrow> ('e + 'a) \<times> 's\<close>: the state after the call is returned on the error path too,
  because the code keeps it there. \<open>andthen\<close> is the question mark operator.
\<close>

unbundle bit_operations_syntax

section \<open>Integers\<close>

type_synonym u8 = "8 word"
type_synonym u16 = "16 word"
type_synonym u32 = "32 word"
type_synonym u64 = "64 word"
type_synonym bytes = "8 word list"
type_synonym key_pos = "8 word \<times> 8 word \<times> 8 word"

definition u16_hi :: "u16 \<Rightarrow> u8" where
  "u16_hi w = ucast (drop_bit 8 w)"

definition u16_lo :: "u16 \<Rightarrow> u8" where
  "u16_lo w = ucast w"

definition u16_of :: "u8 \<Rightarrow> u8 \<Rightarrow> u16" where
  "u16_of hi lo = push_bit 8 (ucast hi) OR ucast lo"

lemma u16_of_hi_lo [simp]: "u16_of (u16_hi w) (u16_lo w) = w"
  unfolding u16_of_def u16_hi_def u16_lo_def
  by (rule bit_word_eqI) (auto simp: bit_simps)

lemma u16_hi_of [simp]: "u16_hi (u16_of h l) = h"
  unfolding u16_of_def u16_hi_def
  by (rule bit_word_eqI) (auto simp: bit_simps dest: bit_imp_le_length)

lemma u16_lo_of [simp]: "u16_lo (u16_of h l) = l"
  unfolding u16_of_def u16_lo_def
  by (rule bit_word_eqI) (auto simp: bit_simps)

lemma unat_u8_less: "unat (v :: u8) < 256"
  using unsigned_less[of v, where 'a = nat] by simp

lemma unat_ucast_u16 [simp]: "unat (ucast (v :: u8) :: u16) = unat v"
  using unat_u8_less[of v] by (simp add: unsigned_ucast_eq take_bit_nat_eq_self)

lemma unat_u16_add: "unat (a :: u16) + unat b < 65536 \<Longrightarrow> unat (a + b) = unat a + unat b"
  by (simp add: unat_word_ariths)

lemma unat_u16_mult: "unat (a :: u16) * unat b < 65536 \<Longrightarrow> unat (a * b) = unat a * unat b"
  by (simp add: unat_word_ariths)

lemma unat_u16_sub: "unat (b :: u16) \<le> unat a \<Longrightarrow> unat (a - b) = unat a - unat b"
  by (simp add: unat_sub word_le_nat_alt)

lemma unat_u8_of_u16: "unat (x :: u16) < 256 \<Longrightarrow> unat (ucast x :: u8) = unat x"
  by (simp add: unsigned_ucast_eq take_bit_nat_eq_self)

section \<open>Fallible actions on a state\<close>

type_synonym ('s, 'e, 'a) act = "'s \<Rightarrow> ('e + 'a) \<times> 's"

definition ok :: "'a \<Rightarrow> ('s, 'e, 'a) act" where
  "ok x s = (Inr x, s)"

definition throw :: "'e \<Rightarrow> ('s, 'e, 'a) act" where
  "throw e s = (Inl e, s)"

definition andthen :: "('s, 'e, 'a) act \<Rightarrow> ('a \<Rightarrow> ('s, 'e, 'b) act) \<Rightarrow> ('s, 'e, 'b) act" where
  "andthen m k s = (case m s of (Inl e, s') \<Rightarrow> (Inl e, s') | (Inr x, s') \<Rightarrow> k x s')"

text \<open>\<open>lift_res\<close> runs a pure check (\<open>validate_echo(..)?\<close>) inside an action.\<close>

definition lift_res :: "'e + 'a \<Rightarrow> ('s, 'e, 'a) act" where
  "lift_res r s = (r, s)"

definition is_ok :: "'e + 'a \<Rightarrow> bool" where
  "is_ok r = (case r of Inl _ \<Rightarrow> False | Inr _ \<Rightarrow> True)"

lemma is_ok_simps [simp]: "is_ok (Inr x)" "\<not> is_ok (Inl e)"
  by (simp_all add: is_ok_def)

lemma not_is_ok_iff: "\<not> is_ok r \<longleftrightarrow> (\<exists>e. r = Inl e)"
  by (cases r) auto

lemma andthen_ok [simp]: "andthen (ok x) k = k x"
  by (rule ext) (simp add: andthen_def ok_def)

lemma andthen_throw [simp]: "andthen (throw e) k = throw e"
  by (rule ext) (simp add: andthen_def throw_def)

lemma andthen_Inr: "m s = (Inr x, s') \<Longrightarrow> andthen m k s = k x s'"
  by (simp add: andthen_def)

lemma andthen_Inl: "m s = (Inl e, s') \<Longrightarrow> andthen m k s = (Inl e, s')"
  by (simp add: andthen_def)

lemma andthen_assoc: "andthen (andthen m k) l = andthen m (\<lambda>x. andthen (k x) l)"
  by (rule ext) (auto simp: andthen_def split: prod.split sum.split)

lemma andthen_Inr_iff:
  "andthen m k s = (Inr y, t) \<longleftrightarrow> (\<exists>x s'. m s = (Inr x, s') \<and> k x s' = (Inr y, t))"
  by (auto simp: andthen_def split: prod.split sum.split)

lemma andthen_cases:
  assumes "andthen m k s = (r, t)"
  obtains (failed) e where "m s = (Inl e, t)" and "r = Inl e"
    | (continued) x s' where "m s = (Inr x, s')" and "k x s' = (r, t)"
  using assms by (auto simp: andthen_def split: prod.splits sum.splits)

text \<open>
  Preservation of a state predicate by an action, on success and on error. The rules below
  reduce it along the structure of an action.
\<close>

definition preserves :: "('s \<Rightarrow> bool) \<Rightarrow> ('s, 'e, 'a) act \<Rightarrow> bool" where
  "preserves P m \<longleftrightarrow> (\<forall>s. P s \<longrightarrow> P (snd (m s)))"

named_theorems preserves_intros "rules that reduce preservation along the structure of an action"

lemma preservesI: "(\<And>s. P s \<Longrightarrow> P (snd (m s))) \<Longrightarrow> preserves P m"
  by (simp add: preserves_def)

lemma preservesD: "preserves P m \<Longrightarrow> P s \<Longrightarrow> P (snd (m s))"
  by (simp add: preserves_def)

lemma preserves_ok [preserves_intros]: "preserves P (ok x)"
  by (simp add: preserves_def ok_def)

lemma preserves_throw [preserves_intros]: "preserves P (throw e)"
  by (simp add: preserves_def throw_def)

lemma preserves_lift_res [preserves_intros]: "preserves P (lift_res r)"
  by (simp add: preserves_def lift_res_def)

lemma preserves_andthen [preserves_intros]:
  assumes "preserves P m" and "\<And>x. preserves P (k x)"
  shows "preserves P (andthen m k)"
proof (rule preservesI)
  fix s assume "P s"
  then have "P (snd (m s))" using assms(1) by (rule preservesD[rotated])
  with assms(2) show "P (snd (andthen m k s))"
    by (auto simp: andthen_def preserves_def split: prod.split sum.split)
qed

section \<open>Lists\<close>

text \<open>\<open>put_at i ys xs\<close> is \<open>xs[i..i + ys.len()].copy_from_slice(ys)\<close> on a buffer that is long
  enough; \<open>slice i n xs\<close> is \<open>xs[i..i + n]\<close>.\<close>

definition put_at :: "nat \<Rightarrow> 'a list \<Rightarrow> 'a list \<Rightarrow> 'a list" where
  "put_at i ys xs = take i xs @ ys @ drop (i + length ys) xs"

definition slice :: "nat \<Rightarrow> nat \<Rightarrow> 'a list \<Rightarrow> 'a list" where
  "slice i n xs = take n (drop i xs)"

text \<open>\<open>nth_opt xs i\<close> is Rust's \<open>xs.get(i)\<close>, and an index expression \<open>xs[i]\<close> panics where it is None.\<close>

definition nth_opt :: "'a list \<Rightarrow> nat \<Rightarrow> 'a option" where
  "nth_opt xs i = (if i < length xs then Some (xs ! i) else None)"

lemma nth_opt_Some [simp]: "i < length xs \<Longrightarrow> nth_opt xs i = Some (xs ! i)"
  by (simp add: nth_opt_def)

lemma nth_opt_None [simp]: "length xs \<le> i \<Longrightarrow> nth_opt xs i = None"
  by (simp add: nth_opt_def)

lemma length_put_at [simp]: "i + length ys \<le> length xs \<Longrightarrow> length (put_at i ys xs) = length xs"
  by (simp add: put_at_def)

lemma nth_put_at:
  assumes "i + length ys \<le> length xs" and "j < length xs"
  shows "put_at i ys xs ! j = (if i \<le> j \<and> j < i + length ys then ys ! (j - i) else xs ! j)"
  using assms by (auto simp: put_at_def nth_append min_def)

lemma length_slice [simp]: "i + n \<le> length xs \<Longrightarrow> length (slice i n xs) = n"
  by (simp add: slice_def)

lemma slice_put_at [simp]:
  "i + length ys \<le> length xs \<Longrightarrow> slice i (length ys) (put_at i ys xs) = ys"
  by (simp add: slice_def put_at_def)

section \<open>Hash maps and hash sets\<close>

text \<open>
  \<open>std::collections::HashMap\<close> and \<open>HashSet\<close>: a finite map whose iteration order is unspecified.
  The order is a function carried in the map, as the random hasher is in Rust; the
  well-formedness predicate says only that it lists the same keys.
\<close>

record ('k, 'v) hash_map =
  hm_entries :: "('k \<times> 'v) list"
  hm_order :: "'k list \<Rightarrow> 'k list"

definition hm_new :: "('k list \<Rightarrow> 'k list) \<Rightarrow> ('k, 'v) hash_map" where
  "hm_new ord = \<lparr>hm_entries = [], hm_order = ord\<rparr>"

definition hm_get :: "('k, 'v) hash_map \<Rightarrow> 'k \<Rightarrow> 'v option" where
  "hm_get m k = map_of (hm_entries m) k"

definition hm_insert :: "'k \<Rightarrow> 'v \<Rightarrow> ('k, 'v) hash_map \<Rightarrow> ('k, 'v) hash_map" where
  "hm_insert k v m = m\<lparr>hm_entries := AList.update k v (hm_entries m)\<rparr>"

definition hm_remove :: "'k \<Rightarrow> ('k, 'v) hash_map \<Rightarrow> ('k, 'v) hash_map" where
  "hm_remove k m = m\<lparr>hm_entries := AList.delete k (hm_entries m)\<rparr>"

definition hm_keys :: "('k, 'v) hash_map \<Rightarrow> 'k list" where
  "hm_keys m = hm_order m (map fst (hm_entries m))"

definition hm_is_empty :: "('k, 'v) hash_map \<Rightarrow> bool" where
  "hm_is_empty m \<longleftrightarrow> hm_entries m = []"

definition reorders :: "('k list \<Rightarrow> 'k list) \<Rightarrow> bool" where
  "reorders ord \<longleftrightarrow> (\<forall>xs. set (ord xs) = set xs \<and> (distinct xs \<longrightarrow> distinct (ord xs)))"

definition hm_wf :: "('k, 'v) hash_map \<Rightarrow> bool" where
  "hm_wf m \<longleftrightarrow> distinct (map fst (hm_entries m)) \<and> reorders (hm_order m)"

lemma reorders_id [simp]: "reorders (\<lambda>xs. xs)"
  by (simp add: reorders_def)

lemma hm_get_insert [simp]: "hm_get (hm_insert k v m) = (hm_get m)(k \<mapsto> v)"
  by (rule ext) (simp add: hm_get_def hm_insert_def update_conv')

lemma hm_get_remove [simp]: "hm_get (hm_remove k m) = (hm_get m)(k := None)"
  by (rule ext) (simp add: hm_get_def hm_remove_def delete_conv')

lemma hm_get_new [simp]: "hm_get (hm_new ord) = Map.empty"
  by (rule ext) (simp add: hm_get_def hm_new_def)

lemma hm_wf_new [simp]: "hm_wf (hm_new ord) = reorders ord"
  by (simp add: hm_wf_def hm_new_def)

lemma hm_wf_insert [simp]: "hm_wf m \<Longrightarrow> hm_wf (hm_insert k v m)"
  by (simp add: hm_wf_def hm_insert_def distinct_update)

lemma hm_wf_remove [simp]: "hm_wf m \<Longrightarrow> hm_wf (hm_remove k m)"
  by (simp add: hm_wf_def hm_remove_def distinct_delete)

lemma set_hm_keys: "hm_wf m \<Longrightarrow> set (hm_keys m) = dom (hm_get m)"
  by (simp add: hm_wf_def reorders_def hm_keys_def hm_get_def[abs_def] dom_map_of_conv_image_fst)

lemma distinct_hm_keys: "hm_wf m \<Longrightarrow> distinct (hm_keys m)"
  by (simp add: hm_wf_def reorders_def hm_keys_def)

lemma hm_is_empty_iff: "hm_is_empty m \<longleftrightarrow> hm_get m = Map.empty"
  by (auto simp: hm_is_empty_def hm_get_def[abs_def] map_of_eq_empty_iff)

record 'a hash_set =
  hs_elems :: "'a list"
  hs_order :: "'a list \<Rightarrow> 'a list"

definition hs_new :: "('a list \<Rightarrow> 'a list) \<Rightarrow> 'a hash_set" where
  "hs_new ord = \<lparr>hs_elems = [], hs_order = ord\<rparr>"

definition hs_insert :: "'a \<Rightarrow> 'a hash_set \<Rightarrow> 'a hash_set" where
  "hs_insert x s = s\<lparr>hs_elems := List.insert x (hs_elems s)\<rparr>"

definition hs_remove :: "'a \<Rightarrow> 'a hash_set \<Rightarrow> 'a hash_set" where
  "hs_remove x s = s\<lparr>hs_elems := removeAll x (hs_elems s)\<rparr>"

definition hs_iter :: "'a hash_set \<Rightarrow> 'a list" where
  "hs_iter s = hs_order s (hs_elems s)"

definition hs_set :: "'a hash_set \<Rightarrow> 'a set" where
  "hs_set s = set (hs_elems s)"

definition hs_wf :: "'a hash_set \<Rightarrow> bool" where
  "hs_wf s \<longleftrightarrow> distinct (hs_elems s) \<and> reorders (hs_order s)"

lemma hs_set_simps [simp]:
  "hs_set (hs_new ord) = {}"
  "hs_set (hs_insert x s) = insert x (hs_set s)"
  "hs_set (hs_remove x s) = hs_set s - {x}"
  by (auto simp: hs_set_def hs_new_def hs_insert_def hs_remove_def)

lemma hs_wf_simps [simp]:
  "hs_wf (hs_new ord) = reorders ord"
  "hs_wf s \<Longrightarrow> hs_wf (hs_insert x s)"
  "hs_wf s \<Longrightarrow> hs_wf (hs_remove x s)"
  by (auto simp: hs_wf_def hs_new_def hs_insert_def hs_remove_def distinct_removeAll)

lemma set_hs_iter: "hs_wf s \<Longrightarrow> set (hs_iter s) = hs_set s"
  by (simp add: hs_wf_def reorders_def hs_iter_def hs_set_def)

lemma distinct_hs_iter: "hs_wf s \<Longrightarrow> distinct (hs_iter s)"
  by (simp add: hs_wf_def reorders_def hs_iter_def)

section \<open>A map in front of a function\<close>

definition overlay :: "('k \<Rightarrow> 'v option) \<Rightarrow> ('k \<Rightarrow> 'v) \<Rightarrow> 'k \<Rightarrow> 'v" where
  "overlay m f = (\<lambda>p. case m p of Some v \<Rightarrow> v | None \<Rightarrow> f p)"

lemma overlay_empty [simp]: "overlay Map.empty f = f"
  by (simp add: overlay_def)

lemma overlay_insert [simp]: "overlay (m(k \<mapsto> v)) f = (overlay m f)(k := v)"
  by (auto simp: overlay_def)

lemma overlay_Some: "m p = Some v \<Longrightarrow> overlay m f p = v"
  by (simp add: overlay_def)

lemma overlay_None: "m p = None \<Longrightarrow> overlay m f p = f p"
  by (simp add: overlay_def)

lemma overlay_move: "m p = Some v \<Longrightarrow> overlay (m(p := None)) (f(p := v)) = overlay m f"
  by (auto simp: overlay_def fun_eq_iff split: option.split)

end
