(* ===== verification/Hal.thy ===== *)
theory Hal
  imports Prelude
begin

text \<open>
  \<open>src/hal/mod.rs\<close>: the error type of the hardware layer and the \<open>KeyboardDriver\<close> trait. The
  trait is a record of methods over a driver state (the vtable of a \<open>Box<dyn KeyboardDriver>\<close>);
  its contract is the locale \<open>keyboard_driver\<close>, which every backend interprets and the
  device worker relies on.
\<close>

section \<open>I/O errors\<close>

text \<open>
  \<open>std::io::Error\<close> as the drivers build and inspect it: an operating-system error number, or an
  error made with \<open>Error::other\<close>. \<open>io_kind_of\<close> is \<open>Error::kind\<close> of the standard library on
  Linux, for the kinds the source tells apart; every other number (EIO, ENODEV, EINVAL and so
  on) has a kind that no arm of the source names.
\<close>

datatype io_error = OsError nat | CustomError string

datatype io_kind = KindPermissionDenied | KindNotFound | KindBrokenPipe | KindWouldBlock | KindOther

definition EPERM :: nat where "EPERM = 1"
definition ENOENT :: nat where "ENOENT = 2"
definition EIO :: nat where "EIO = 5"
definition EAGAIN :: nat where "EAGAIN = 11"
definition EACCES :: nat where "EACCES = 13"
definition ENODEV :: nat where "ENODEV = 19"
definition EPIPE :: nat where "EPIPE = 32"

lemmas errno_defs = EPERM_def ENOENT_def EIO_def EAGAIN_def EACCES_def ENODEV_def EPIPE_def

fun io_kind_of :: "io_error \<Rightarrow> io_kind" where
  "io_kind_of (OsError n) =
     (if n = EACCES \<or> n = EPERM then KindPermissionDenied
      else if n = ENOENT then KindNotFound
      else if n = EPIPE then KindBrokenPipe
      else if n = EAGAIN then KindWouldBlock
      else KindOther)"
| "io_kind_of (CustomError _) = KindOther"

section \<open>\<open>DriverError\<close>\<close>

datatype driver_error =
    Io io_error
  | Timeout string string
  | PermissionDenied string
  | ProtocolViolation string
  | Disconnected
  | Unsupported string
  | VendorCompile string string

text \<open>\<open>classify_open_errno\<close> and \<open>classify_io_error\<close> are the same functions in \<open>via.rs\<close> and \<open>gmk67.rs\<close>.\<close>

definition classify_open_errno :: "nat \<Rightarrow> string \<Rightarrow> driver_error" where
  "classify_open_errno errno path =
     (if errno = EACCES \<or> errno = EPERM then PermissionDenied path
      else if errno = ENODEV \<or> errno = ENOENT then Disconnected
      else Io (OsError errno))"

definition classify_io_error :: "io_error \<Rightarrow> driver_error" where
  "classify_io_error e =
     (case io_kind_of e of
        KindPermissionDenied \<Rightarrow> PermissionDenied ''''
      | KindNotFound \<Rightarrow> Disconnected
      | KindBrokenPipe \<Rightarrow> Disconnected
      | _ \<Rightarrow> Io e)"

definition io_from_errno :: "nat \<Rightarrow> io_error" where
  "io_from_errno errno = OsError errno"

text \<open>The two variants that retire a worker (\<open>is_fatal_driver_error\<close>).\<close>

fun retires_worker :: "driver_error \<Rightarrow> bool" where
  "retires_worker Disconnected = True"
| "retires_worker (PermissionDenied _) = True"
| "retires_worker _ = False"

lemma classify_open_retires:
  "retires_worker (classify_open_errno n p) \<longleftrightarrow> n \<in> {EACCES, EPERM, ENODEV, ENOENT}"
  by (auto simp: classify_open_errno_def errno_defs)

lemma classify_io_retires:
  "retires_worker (classify_io_error (OsError n)) \<longleftrightarrow> n \<in> {EACCES, EPERM, ENOENT, EPIPE}"
  by (auto simp: classify_io_error_def errno_defs)

section \<open>Device names\<close>

text \<open>\<open>Path::file_name\<close> of an absolute device path: the part after the last slash. Both
  drivers name a device after its node.\<close>

definition file_name :: "string \<Rightarrow> string option" where
  "file_name path =
     (let base = rev (takeWhile (\<lambda>ch. ch \<noteq> CHR ''/'') (dropWhile (\<lambda>ch. ch = CHR ''/'') (rev path)))
      in if base = [] \<or> base = ''..'' then None else Some base)"

definition device_id_of_path :: "string \<Rightarrow> string" where
  "device_id_of_path path = (case file_name path of Some s \<Rightarrow> s | None \<Rightarrow> ''unknown-hidraw'')"

section \<open>The \<open>KeyboardDriver\<close> trait\<close>

record 's driver_ops =
  kd_get_matrix_dimensions :: "('s, driver_error, u8 \<times> u8) act"
  kd_get_layer_count :: "('s, driver_error, u8) act"
  kd_get_keycode :: "u8 \<Rightarrow> u8 \<Rightarrow> u8 \<Rightarrow> ('s, driver_error, u16) act"
  kd_set_keycode :: "u8 \<Rightarrow> u8 \<Rightarrow> u8 \<Rightarrow> u16 \<Rightarrow> ('s, driver_error, unit) act"
  kd_get_macro_buffer :: "u16 \<Rightarrow> u8 \<Rightarrow> ('s, driver_error, bytes) act"
  kd_set_macro_buffer :: "u16 \<Rightarrow> bytes \<Rightarrow> ('s, driver_error, unit) act"
  kd_get_lighting :: "u8 \<Rightarrow> u8 \<Rightarrow> ('s, driver_error, bytes) act"
  kd_set_lighting :: "u8 \<Rightarrow> u8 \<Rightarrow> bytes \<Rightarrow> ('s, driver_error, unit) act"
  kd_commit_to_nvram :: "('s, driver_error, unit) act"
  kd_emits_layout_event_per_set :: "'s \<Rightarrow> bool"
  kd_model_name :: "'s \<Rightarrow> string"

text \<open>One call of any method, with its reply dropped.\<close>

datatype kd_call =
    CallMatrixDimensions | CallLayerCount
  | CallGetKeycode u8 u8 u8 | CallSetKeycode u8 u8 u8 u16
  | CallGetMacro u16 u8 | CallSetMacro u16 bytes
  | CallGetLighting u8 u8 | CallSetLighting u8 u8 bytes
  | CallCommit

fun kd_invoke :: "('s, 'z) driver_ops_scheme \<Rightarrow> kd_call \<Rightarrow> 's \<Rightarrow> 's" where
  "kd_invoke ops CallMatrixDimensions s = snd (kd_get_matrix_dimensions ops s)"
| "kd_invoke ops CallLayerCount s = snd (kd_get_layer_count ops s)"
| "kd_invoke ops (CallGetKeycode l r c) s = snd (kd_get_keycode ops l r c s)"
| "kd_invoke ops (CallSetKeycode l r c k) s = snd (kd_set_keycode ops l r c k s)"
| "kd_invoke ops (CallGetMacro off len) s = snd (kd_get_macro_buffer ops off len s)"
| "kd_invoke ops (CallSetMacro off data) s = snd (kd_set_macro_buffer ops off data s)"
| "kd_invoke ops (CallGetLighting ch v) s = snd (kd_get_lighting ops ch v s)"
| "kd_invoke ops (CallSetLighting ch v data) s = snd (kd_set_lighting ops ch v data s)"
| "kd_invoke ops CallCommit s = snd (kd_commit_to_nvram ops s)"

text \<open>The two default methods of the trait.\<close>

definition default_emits_layout_event_per_set :: "'s \<Rightarrow> bool" where
  "default_emits_layout_event_per_set s = True"

definition default_model_name :: "'s \<Rightarrow> string" where
  "default_model_name s = ''VIA keyboard''"

text \<open>
  A client's session with a keyboard, as operations and replies, and its meaning on a plain
  keymap: a get answers the last value set.
\<close>

datatype keymap_op = KGet u8 u8 u8 | KSet u8 u8 u8 u16 | KCommit

datatype keymap_reply = KKeycode "driver_error + u16" | KDone "driver_error + unit"

fun kb_step :: "('s, 'z) driver_ops_scheme \<Rightarrow> keymap_op \<Rightarrow> 's \<Rightarrow> keymap_reply \<times> 's" where
  "kb_step ops (KGet l r c) s = (case kd_get_keycode ops l r c s of (x, s') \<Rightarrow> (KKeycode x, s'))"
| "kb_step ops (KSet l r c k) s = (case kd_set_keycode ops l r c k s of (x, s') \<Rightarrow> (KDone x, s'))"
| "kb_step ops KCommit s = (case kd_commit_to_nvram ops s of (x, s') \<Rightarrow> (KDone x, s'))"

fun kb_run :: "('s, 'z) driver_ops_scheme \<Rightarrow> keymap_op list \<Rightarrow> 's \<Rightarrow> keymap_reply list \<times> 's" where
  "kb_run ops [] s = ([], s)"
| "kb_run ops (x # xs) s =
     (case kb_step ops x s of (y, s') \<Rightarrow> (case kb_run ops xs s' of (ys, s'') \<Rightarrow> (y # ys, s'')))"

fun keymap_step :: "keymap_op \<Rightarrow> (key_pos \<Rightarrow> u16) \<Rightarrow> keymap_reply \<times> (key_pos \<Rightarrow> u16)" where
  "keymap_step (KGet l r c) m = (KKeycode (Inr (m (l, r, c))), m)"
| "keymap_step (KSet l r c k) m = (KDone (Inr ()), m((l, r, c) := k))"
| "keymap_step KCommit m = (KDone (Inr ()), m)"

fun keymap_run :: "keymap_op list \<Rightarrow> (key_pos \<Rightarrow> u16) \<Rightarrow> keymap_reply list \<times> (key_pos \<Rightarrow> u16)" where
  "keymap_run [] m = ([], m)"
| "keymap_run (x # xs) m =
     (case keymap_step x m of (y, m') \<Rightarrow> (case keymap_run xs m' of (ys, m'') \<Rightarrow> (y # ys, m'')))"

fun op_within :: "key_pos set \<Rightarrow> keymap_op \<Rightarrow> bool" where
  "op_within V (KGet l r c) = ((l, r, c) \<in> V)"
| "op_within V (KSet l r c k) = ((l, r, c) \<in> V)"
| "op_within V KCommit = True"

text \<open>
  The contract of the trait, for a device that answers: \<open>view\<close> is the keymap a client observes,
  \<open>V\<close> the positions the board has, \<open>healthy\<close> the driver states whose hardware behaves as
  documented. Reads return the view, a write changes exactly its position, and a commit changes
  nothing a client can observe.
\<close>

locale keyboard_driver =
  fixes ops :: "('s, 'z) driver_ops_scheme"
    and healthy :: "'s \<Rightarrow> bool"
    and view :: "'s \<Rightarrow> key_pos \<Rightarrow> u16"
    and V :: "key_pos set"
  assumes get_view: "healthy s \<Longrightarrow> (l, r, c) \<in> V \<Longrightarrow>
      \<exists>s'. kd_get_keycode ops l r c s = (Inr (view s (l, r, c)), s') \<and> healthy s' \<and> view s' = view s"
    and set_view: "healthy s \<Longrightarrow> (l, r, c) \<in> V \<Longrightarrow>
      \<exists>s'. kd_set_keycode ops l r c k s = (Inr (), s') \<and> healthy s' \<and> view s' = (view s)((l, r, c) := k)"
    and commit_view: "healthy s \<Longrightarrow>
      \<exists>s'. kd_commit_to_nvram ops s = (Inr (), s') \<and> healthy s' \<and> view s' = view s"
begin

lemma kb_step_refines:
  assumes "healthy s" and "op_within V x"
  shows "\<exists>s'. kb_step ops x s = (fst (keymap_step x (view s)), s') \<and> healthy s'
    \<and> view s' = snd (keymap_step x (view s))"
proof (cases x)
  case (KGet l r c)
  with get_view[OF assms(1)] assms(2) show ?thesis by fastforce
next
  case (KSet l r c k)
  with set_view[OF assms(1), of l r c k] assms(2) show ?thesis by auto
next
  case KCommit
  with commit_view[OF assms(1)] show ?thesis by fastforce
qed

text \<open>A session on the driver is a session on the plain keymap.\<close>

lemma kb_run_refines:
  assumes "healthy s" and "list_all (op_within V) xs"
  shows "\<exists>s'. kb_run ops xs s = (fst (keymap_run xs (view s)), s') \<and> healthy s'
    \<and> view s' = snd (keymap_run xs (view s))"
  using assms
proof (induction xs arbitrary: s)
  case Nil
  then show ?case by simp
next
  case (Cons x xs)
  have ins: "op_within V x" "list_all (op_within V) xs" using Cons.prems(2) by simp_all
  from kb_step_refines[OF Cons.prems(1) ins(1)] obtain s1 where
    s1: "kb_step ops x s = (fst (keymap_step x (view s)), s1)" "healthy s1"
      "view s1 = snd (keymap_step x (view s))" by blast
  from Cons.IH[OF s1(2) ins(2)] obtain s2 where
    "kb_run ops xs s1 = (fst (keymap_run xs (view s1)), s2)" "healthy s2"
    "view s2 = snd (keymap_run xs (view s1))" by blast
  with s1 show ?case by (auto split: prod.splits)
qed

end

end
