(* ===== verification/Hid_Descriptor.thy ===== *)
theory Hid_Descriptor
  imports Hal
begin

text \<open>
  The two HID report-descriptor walks: \<open>hid_descriptor_has_usage_page\<close> of \<open>src/hal/via.rs\<close> and
  \<open>descriptor_has_feature_report\<close> of \<open>src/hal/legacy/gmk67.rs\<close>. Both are index loops over an
  untrusted byte slice in which every \<open>descriptor[i]\<close> could panic; here an index out of range is
  \<open>None\<close>, and the loops are proved never to reach it. A reference walk that first splits the
  descriptor into items gives the meaning of both loops.
\<close>

section \<open>Items\<close>

text \<open>
  One short item: prefix byte and the number of data bytes the prefix announces. A long item
  (prefix \<open>0xFE\<close>) is skipped. Data bytes may be cut off by the end of the descriptor.
\<close>

definition size_of_code :: "u8 \<Rightarrow> nat" where
  "size_of_code prefix =
     (let c = prefix AND 3 in if c = 0 then 0 else if c = 1 then 1 else if c = 2 then 2 else 4)"

section \<open>\<open>hid_descriptor_has_usage_page\<close>\<close>

text \<open>
  The loop of \<open>via.rs\<close>, from index \<open>i\<close>. The result is \<open>None\<close> for an index panic and \<open>Some b\<close> for
  \<open>return b\<close>. In the arm for a page of one, two or four bytes the guard of the match is the
  length test; when no arm applies the item is skipped (\<open>continue\<close>).
\<close>

definition usage_page_item :: "bytes \<Rightarrow> nat \<Rightarrow> nat \<Rightarrow> u16 option option" where
  "usage_page_item d i data_len =
     (if data_len = 1 \<and> i + 1 < length d then
        Option.bind (nth_opt d (i + 1)) (\<lambda>b. Some (Some (ucast b)))
      else if data_len = 2 \<and> i + 2 < length d then
        Option.bind (nth_opt d (i + 1)) (\<lambda>lo. Option.bind (nth_opt d (i + 2)) (\<lambda>hi. Some (Some (u16_of hi lo))))
      else if data_len = 4 \<and> i + 4 < length d then
        Option.bind (nth_opt d (i + 1)) (\<lambda>lo. Option.bind (nth_opt d (i + 2)) (\<lambda>hi. Some (Some (u16_of hi lo))))
      else Some None)"

function has_usage_page_from :: "bytes \<Rightarrow> u16 \<Rightarrow> nat \<Rightarrow> bool option" where
  "has_usage_page_from d target i =
     (if i < length d then
        Option.bind (nth_opt d i) (\<lambda>prefix.
          if prefix = 0xFE then
            (if length d \<le> i + 1 then Some False
             else Option.bind (nth_opt d (i + 1)) (\<lambda>n. has_usage_page_from d target (i + (3 + unat n))))
          else
            let data_len = size_of_code prefix;
                tag_type = prefix AND 0xFC
            in if tag_type = 0x04 then
                 (case usage_page_item d i data_len of
                    None \<Rightarrow> None
                  | Some None \<Rightarrow> has_usage_page_from d target (i + (1 + data_len))
                  | Some (Some page) \<Rightarrow>
                      if page = target then Some True
                      else has_usage_page_from d target (i + (1 + data_len)))
               else has_usage_page_from d target (i + (1 + data_len)))
      else Some False)"
  by pat_completeness auto
termination
  by (relation "measure (\<lambda>(d, target, i). length d - i)") auto

declare has_usage_page_from.simps [simp del]

definition hid_descriptor_has_usage_page :: "bytes \<Rightarrow> u16 \<Rightarrow> bool option" where
  "hid_descriptor_has_usage_page descriptor target = has_usage_page_from descriptor target 0"

section \<open>\<open>descriptor_has_feature_report\<close>\<close>

definition u32_of_le :: "u8 \<Rightarrow> u8 \<Rightarrow> u8 \<Rightarrow> u8 \<Rightarrow> u32" where
  "u32_of_le b0 b1 b2 b3 =
     ucast b0 OR push_bit 8 (ucast b1) OR push_bit 16 (ucast b2) OR push_bit 24 (ucast b3)"

text \<open>The new Report Count read from \<open>slice = &descriptor[i + 1..]\<close> (in range, since \<open>i < len\<close>).\<close>

definition report_count_of :: "bytes \<Rightarrow> nat \<Rightarrow> u32" where
  "report_count_of sl data_len =
     (if data_len = 1 \<and> sl \<noteq> [] then ucast (sl ! 0)
      else if data_len = 2 \<and> 2 \<le> length sl then ucast (u16_of (sl ! 1) (sl ! 0))
      else if data_len = 4 \<and> 4 \<le> length sl then
        u32_of_le (sl ! 0) (sl ! 1) (sl ! 2) (sl ! 3)
      else 0)"

function has_feature_report_from :: "bytes \<Rightarrow> u32 \<Rightarrow> u32 \<Rightarrow> nat \<Rightarrow> bool option" where
  "has_feature_report_from d min_count report_count i =
     (if i < length d then
        Option.bind (nth_opt d i) (\<lambda>prefix.
          if prefix = 0xFE then
            (if length d \<le> i + 1 then Some False
             else Option.bind (nth_opt d (i + 1))
                    (\<lambda>n. has_feature_report_from d min_count report_count (i + (3 + unat n))))
          else
            let data_len = size_of_code prefix;
                tag_type = prefix AND 0xFC
            in if tag_type = 0x94 then
                 has_feature_report_from d min_count (report_count_of (drop (i + 1) d) data_len)
                   (i + (1 + data_len))
               else if tag_type = 0xB0 \<and> min_count \<le> report_count then Some True
               else has_feature_report_from d min_count report_count (i + (1 + data_len)))
      else Some False)"
  by pat_completeness auto
termination
  by (relation "measure (\<lambda>(d, m, r, i). length d - i)") auto

declare has_feature_report_from.simps [simp del]

definition descriptor_has_feature_report :: "bytes \<Rightarrow> u32 \<Rightarrow> bool option" where
  "descriptor_has_feature_report descriptor min_count =
     has_feature_report_from descriptor min_count 0 0"

section \<open>Reference walk\<close>

text \<open>
  \<open>items\<close> splits a descriptor into its short items (prefix, available data bytes), skipping long
  items; an item whose data is cut off keeps the bytes that are there.
\<close>

function items :: "bytes \<Rightarrow> (u8 \<times> bytes) list" where
  "items [] = []"
| "items (p # rest) =
     (if p = 0xFE then
        (case rest of [] \<Rightarrow> [] | n # rest' \<Rightarrow> items (drop (1 + unat n) rest'))
      else (p, take (size_of_code p) rest) # items (drop (size_of_code p) rest))"
  by pat_completeness auto
termination
  by (relation "measure length") auto

fun item_usage_page :: "u8 \<times> bytes \<Rightarrow> u16 option" where
  "item_usage_page (p, data) =
     (if p AND 0xFC = 0x04 \<and> length data = size_of_code p then
        (case data of
           [b] \<Rightarrow> Some (ucast b)
         | [lo, hi] \<Rightarrow> Some (u16_of hi lo)
         | [lo, hi, _, _] \<Rightarrow> Some (u16_of hi lo)
         | _ \<Rightarrow> None)
      else None)"

definition declares_usage_page :: "bytes \<Rightarrow> u16 \<Rightarrow> bool" where
  "declares_usage_page d target \<longleftrightarrow> (\<exists>it \<in> set (items d). item_usage_page it = Some target)"

text \<open>For feature reports: the Report Count in force is the one of the last Report Count item.\<close>

fun item_report_count :: "u8 \<times> bytes \<Rightarrow> u32" where
  "item_report_count (p, data) =
     (if length data = size_of_code p then
        (case data of
           [b] \<Rightarrow> ucast b
         | [lo, hi] \<Rightarrow> ucast (u16_of hi lo)
         | [b0, b1, b2, b3] \<Rightarrow> u32_of_le b0 b1 b2 b3
         | _ \<Rightarrow> 0)
      else 0)"

fun feature_in_items :: "u32 \<Rightarrow> u32 \<Rightarrow> (u8 \<times> bytes) list \<Rightarrow> bool" where
  "feature_in_items m rc [] = False"
| "feature_in_items m rc (it # its) =
     (if fst it AND 0xFC = 0x94 then feature_in_items m (item_report_count it) its
      else if fst it AND 0xFC = 0xB0 \<and> m \<le> rc then True
      else feature_in_items m rc its)"

section \<open>The loops compute the reference walk\<close>

lemma size_of_code_in: "size_of_code p \<in> {0, 1, 2, 4}"
  by (simp add: size_of_code_def Let_def)

lemma size_of_code_cases:
  obtains "size_of_code p = 0" | "size_of_code p = 1" | "size_of_code p = 2" | "size_of_code p = 4"
  using size_of_code_in[of p] by fastforce

lemma drop_eq_Cons_nth: "i < length d \<Longrightarrow> drop i d = d ! i # drop (Suc i) d"
  by (simp add: Cons_nth_drop_Suc)

lemma items_at:
  assumes "i < length d" and "d ! i \<noteq> 0xFE"
  shows "items (drop i d) =
    (d ! i, take (size_of_code (d ! i)) (drop (Suc i) d)) # items (drop (i + (1 + size_of_code (d ! i))) d)"
  using assms by (simp add: drop_eq_Cons_nth add.commute)

lemma items_at_long:
  assumes "i < length d" and "d ! i = 0xFE"
  shows "items (drop i d) =
    (if length d \<le> i + 1 then [] else items (drop (i + (3 + unat (d ! (i + 1)))) d))"
proof (cases "length d \<le> i + 1")
  case True
  with assms show ?thesis by (simp add: drop_eq_Cons_nth)
next
  case False
  then have "drop (Suc i) d = d ! (i + 1) # drop (i + 2) d"
    by (simp add: drop_eq_Cons_nth)
  with assms False show ?thesis by (simp add: drop_eq_Cons_nth numeral_3_eq_3 add.commute)
qed

lemma take_drop_lengths:
  assumes "i < length d"
  shows "1 \<le> length (drop (Suc i) d) \<Longrightarrow> take 1 (drop (Suc i) d) = [d ! (i + 1)]"
    and "2 \<le> length (drop (Suc i) d) \<Longrightarrow> take 2 (drop (Suc i) d) = [d ! (i + 1), d ! (i + 2)]"
    and "4 \<le> length (drop (Suc i) d) \<Longrightarrow>
      take 4 (drop (Suc i) d) = [d ! (i + 1), d ! (i + 2), d ! (i + 3), d ! (i + 4)]"
  by (auto intro!: nth_equalityI simp: less_Suc_eq numeral_eq_Suc)

lemma usage_page_item_ref:
  assumes "i < length d" and "d ! i AND 0xFC = 0x04"
  shows "usage_page_item d i (size_of_code (d ! i)) =
    Some (item_usage_page (d ! i, take (size_of_code (d ! i)) (drop (Suc i) d)))"
  using assms take_drop_lengths[OF assms(1)]
  by (cases rule: size_of_code_cases[of "d ! i"]) (auto simp: usage_page_item_def)

lemma has_usage_page_from_ref:
  "has_usage_page_from d target i = Some (\<exists>it \<in> set (items (drop i d)). item_usage_page it = Some target)"
proof (induction d target i rule: has_usage_page_from.induct)
  case (1 d target i)
  show ?case
  proof (cases "i < length d")
    case False
    then show ?thesis by (simp add: has_usage_page_from.simps[of d target i])
  next
    case i: True
    show ?thesis
    proof (cases "d ! i = 0xFE")
      case True
      with i 1(1) show ?thesis
        by (auto simp: has_usage_page_from.simps[of d target i] items_at_long)
    next
      case False
      note unf = has_usage_page_from.simps[of d target i] items_at[OF i False] Let_def
      show ?thesis
      proof (cases "d ! i AND 0xFC = 0x04")
        case tag: True
        define u where "u = item_usage_page (d ! i, take (size_of_code (d ! i)) (drop (Suc i) d))"
        have item: "usage_page_item d i (size_of_code (d ! i)) = Some u"
          unfolding u_def by (rule usage_page_item_ref[OF i tag])
        show ?thesis
          using i False tag item 1(2,3)
          by (cases u) (auto simp: unf u_def[symmetric] simp del: item_usage_page.simps)
      next
        case False
        then show ?thesis
          using i \<open>d ! i \<noteq> 0xFE\<close> 1(4) by (auto simp: unf)
      qed
    qed
  qed
qed

lemma report_count_ref:
  assumes "i < length d"
  shows "report_count_of (drop (i + 1) d) (size_of_code (d ! i)) =
    item_report_count (d ! i, take (size_of_code (d ! i)) (drop (Suc i) d))"
  using assms take_drop_lengths[OF assms]
  by (cases rule: size_of_code_cases[of "d ! i"]) (auto simp: report_count_of_def eval_nat_numeral)

lemma has_feature_report_from_ref:
  "has_feature_report_from d m rc i = Some (feature_in_items m rc (items (drop i d)))"
proof (induction d m rc i rule: has_feature_report_from.induct)
  case (1 d m rc i)
  show ?case
  proof (cases "i < length d")
    case False
    then show ?thesis by (simp add: has_feature_report_from.simps[of d m rc i])
  next
    case i: True
    show ?thesis
    proof (cases "d ! i = 0xFE")
      case True
      with i 1(1) show ?thesis
        by (auto simp: has_feature_report_from.simps[of d m rc i] items_at_long)
    next
      case False
      with i 1(2-) show ?thesis
        by (auto simp: has_feature_report_from.simps[of d m rc i] items_at Let_def
                 simp del: item_report_count.simps simp flip: report_count_ref)
    qed
  qed
qed

text \<open>
  C39. The walk of an untrusted descriptor terminates, never indexes out of range, and answers
  exactly whether some complete Usage Page item of the descriptor carries the target page.
\<close>

theorem hid_descriptor_has_usage_page_correct:
  "hid_descriptor_has_usage_page d target = Some (declares_usage_page d target)"
  by (simp add: hid_descriptor_has_usage_page_def has_usage_page_from_ref declares_usage_page_def)

text \<open>
  C40. The feature-report walk likewise never panics and finds exactly a Feature item in force
  under a large enough Report Count.
\<close>

theorem descriptor_has_feature_report_correct:
  "descriptor_has_feature_report d m = Some (feature_in_items m 0 (items d))"
  by (simp add: descriptor_has_feature_report_def has_feature_report_from_ref)

end
