(* ===== verification/Topology.thy ===== *)
theory Topology
  imports Prelude
begin

text \<open>
  \<open>src/engine/topology.rs\<close> and the \<open>LifecycleEvent\<close> of \<open>src/engine/mod.rs\<close>: the dimensions the
  engine caches at attach time and checks every keymap request against, and the events it fans
  out to the IPC layer.
\<close>

record key_matrix =
  km_rows :: u8
  km_cols :: u8

record device_topology =
  dt_matrix :: key_matrix
  dt_layer_count :: u8

definition matrix_contains :: "key_matrix \<Rightarrow> u8 \<Rightarrow> u8 \<Rightarrow> bool" where
  "matrix_contains m row col \<longleftrightarrow> row < km_rows m \<and> col < km_cols m"

definition topology_contains :: "device_topology \<Rightarrow> u8 \<Rightarrow> u8 \<Rightarrow> u8 \<Rightarrow> bool" where
  "topology_contains t layer row col \<longleftrightarrow>
     layer < dt_layer_count t \<and> matrix_contains (dt_matrix t) row col"

datatype lifecycle_event = DeviceAdded string | DeviceRemoved string | LayoutUpdated string

text \<open>The positions a topology admits are a box, so a check never admits a coordinate that does
  not fit the array dimensions the device reported.\<close>

definition topology_positions :: "device_topology \<Rightarrow> key_pos set" where
  "topology_positions t = {(l, r, c). topology_contains t l r c}"

lemma topology_contains_unat:
  "topology_contains t l r c \<longleftrightarrow>
     unat l < unat (dt_layer_count t) \<and> unat r < unat (km_rows (dt_matrix t))
     \<and> unat c < unat (km_cols (dt_matrix t))"
  by (simp add: topology_contains_def matrix_contains_def word_less_nat_alt)

end
