(* ===== verification/Via_Transport.thy ===== *)
theory Via_Transport
  imports Hal
begin

text \<open>
  \<open>ViaTransport\<close> of \<open>src/hal/via.rs\<close>: 32-byte frame round trips over a non-blocking hidraw file
  descriptor, and the eleven VIA operations built on them. The kernel side (\<open>read(2)\<close>,
  \<open>write(2)\<close>, and how long each takes to become possible) is the record \<open>hidraw\<close>, a parameter of
  the model carried in the transport as the \<open>AsyncFd\<close> is.
\<close>

section \<open>Constants\<close>

definition VIA_FRAME_LEN :: nat where "VIA_FRAME_LEN = 32"
definition VIA_HIDRAW_REPORT_ID :: u8 where "VIA_HIDRAW_REPORT_ID = 0x00"
definition ID_GET_PROTOCOL_VERSION :: u8 where "ID_GET_PROTOCOL_VERSION = 0x01"
definition ID_DYNAMIC_KEYMAP_GET_KEYCODE :: u8 where "ID_DYNAMIC_KEYMAP_GET_KEYCODE = 0x04"
definition ID_DYNAMIC_KEYMAP_SET_KEYCODE :: u8 where "ID_DYNAMIC_KEYMAP_SET_KEYCODE = 0x05"
definition ID_DYNAMIC_KEYMAP_GET_LAYER_COUNT :: u8 where "ID_DYNAMIC_KEYMAP_GET_LAYER_COUNT = 0x11"
definition ID_LIGHTING_SET_VALUE :: u8 where "ID_LIGHTING_SET_VALUE = 0x07"
definition ID_LIGHTING_GET_VALUE :: u8 where "ID_LIGHTING_GET_VALUE = 0x08"
definition ID_CUSTOM_SAVE :: u8 where "ID_CUSTOM_SAVE = 0x09"
definition ID_MACRO_GET_COUNT :: u8 where "ID_MACRO_GET_COUNT = 0x0C"
definition ID_MACRO_GET_BUFFER_SIZE :: u8 where "ID_MACRO_GET_BUFFER_SIZE = 0x0D"
definition ID_MACRO_GET_BUFFER :: u8 where "ID_MACRO_GET_BUFFER = 0x0E"
definition ID_MACRO_SET_BUFFER :: u8 where "ID_MACRO_SET_BUFFER = 0x0F"
definition MAX_MACRO_CHUNK :: nat where "MAX_MACRO_CHUNK = VIA_FRAME_LEN - 4"
definition MAX_LIGHTING_VALUE :: nat where "MAX_LIGHTING_VALUE = VIA_FRAME_LEN - 3"
definition DEFAULT_TIMEOUT_MS :: nat where "DEFAULT_TIMEOUT_MS = 1000"

lemmas via_ids =
  ID_GET_PROTOCOL_VERSION_def ID_DYNAMIC_KEYMAP_GET_KEYCODE_def ID_DYNAMIC_KEYMAP_SET_KEYCODE_def
  ID_DYNAMIC_KEYMAP_GET_LAYER_COUNT_def ID_LIGHTING_SET_VALUE_def ID_LIGHTING_GET_VALUE_def
  ID_CUSTOM_SAVE_def ID_MACRO_GET_COUNT_def ID_MACRO_GET_BUFFER_SIZE_def ID_MACRO_GET_BUFFER_def
  ID_MACRO_SET_BUFFER_def

lemmas via_lens = VIA_FRAME_LEN_def MAX_MACRO_CHUNK_def MAX_LIGHTING_VALUE_def

text \<open>The two commands of the protocol that the source never sends: EEPROM reset and bootloader jump.\<close>

definition destructive_ids :: "u8 set" where
  "destructive_ids = {0x0A, 0x0B}"

section \<open>Frame checks\<close>

definition validate_echo :: "bytes \<Rightarrow> bytes \<Rightarrow> string \<Rightarrow> driver_error + unit" where
  "validate_echo resp expected reason =
     (if take (length expected) resp = expected then Inr () else Inl (ProtocolViolation reason))"

definition validate_macro_range :: "u16 \<Rightarrow> nat \<Rightarrow> u16 \<Rightarrow> driver_error + unit" where
  "validate_macro_range offset len buffer_size =
     (if MAX_MACRO_CHUNK < len then
        Inl (ProtocolViolation ''macro chunk exceeds 28-byte frame capacity'')
      else if unat buffer_size < unat offset + len then
        Inl (ProtocolViolation ''macro range exceeds device macro buffer size'')
      else Inr ())"

section \<open>The file descriptor\<close>

text \<open>
  One pass of a poll loop awaits readiness and then tries the system call: the readiness or the call fails,
  or the call succeeds. \<open>fd_writable d\<close> and \<open>fd_readable d\<close> say in how many microseconds the descriptor becomes
  ready from the device state \<open>d\<close>, or that it never does.
\<close>

datatype (discs_sels) 'a attempt = ReadinessFailed io_error | SyscallFailed nat | SyscallDone 'a

record 'd hidraw =
  fd_writable :: "'d \<Rightarrow> nat option"
  fd_readable :: "'d \<Rightarrow> nat option"
  fd_write :: "bytes \<Rightarrow> 'd \<Rightarrow> nat attempt \<times> 'd"
  fd_read :: "'d \<Rightarrow> bytes attempt \<times> 'd"

text \<open>
  An \<open>async\<close> block is a future: it has returned, or it awaits something for some time, or for ever, and then
  goes on. A future may await without end. The device is in the state shown while the future awaits.
\<close>

codatatype ('d, 'r) future = Returned 'r 'd | Awaiting 'd "nat option" "('d, 'r) future"

text \<open>The two poll loops, which end only when a system call succeeds or fails for good, and what is done with the result.\<close>

primcorec write_frame :: "'d hidraw \<Rightarrow> bytes \<Rightarrow> (driver_error + unit \<Rightarrow> 'd \<Rightarrow> ('d, 'r) future) \<Rightarrow> 'd \<Rightarrow> ('d, 'r) future" where
  "write_frame hw frame k d = Awaiting d (fd_writable hw d)
     (case fd_write hw (VIA_HIDRAW_REPORT_ID # frame) d of
        (a, d') \<Rightarrow> (case a of
          ReadinessFailed e \<Rightarrow> k (Inl (Io e)) d'
        | SyscallDone m \<Rightarrow>
            if m = length (VIA_HIDRAW_REPORT_ID # frame) then k (Inr ()) d'
            else k (Inl (ProtocolViolation ''short write to hidraw node'')) d'
        | SyscallFailed errno \<Rightarrow>
            if io_kind_of (io_from_errno errno) = KindWouldBlock then write_frame hw frame k d'
            else k (Inl (classify_io_error (io_from_errno errno))) d'))"

primcorec read_frame :: "'d hidraw \<Rightarrow> 'd \<Rightarrow> ('d, driver_error + bytes) future" where
  "read_frame hw d = Awaiting d (fd_readable hw d)
     (case fd_read hw d of
        (a, d') \<Rightarrow> (case a of
          ReadinessFailed e \<Rightarrow> Returned (Inl (Io e)) d'
        | SyscallDone buf \<Rightarrow>
            if length buf = VIA_FRAME_LEN then Returned (Inr buf) d'
            else Returned (Inl (ProtocolViolation ''short read from hidraw node'')) d'
        | SyscallFailed errno \<Rightarrow>
            if io_kind_of (io_from_errno errno) = KindWouldBlock then read_frame hw d'
            else Returned (Inl (classify_io_error (io_from_errno errno))) d'))"

text \<open>The \<open>async\<close> block of \<open>roundtrip\<close>: write, then read.\<close>

definition write_then_read :: "'d hidraw \<Rightarrow> bytes \<Rightarrow> 'd \<Rightarrow> ('d, driver_error + bytes) future" where
  "write_then_read hw request d =
     write_frame hw request (\<lambda>r d'. case r of Inl e \<Rightarrow> Returned (Inl e) d' | Inr _ \<Rightarrow> read_frame hw d') d"

text \<open>
  \<open>tokio::time::timeout\<close>: the result of the future, unless \<open>ms\<close> milliseconds are over first; then the future is dropped
  where it awaits. An await takes its time and at least one microsecond, which makes this total whatever the future.
\<close>

function timeout_after :: "nat \<Rightarrow> nat \<Rightarrow> ('d, 'r) future \<Rightarrow> 'r option \<times> 'd" where
  "timeout_after ms elapsed f =
     (case f of
        Returned r d \<Rightarrow> (Some r, d)
      | Awaiting d wait f' \<Rightarrow>
          (case wait of
             None \<Rightarrow> (None, d)
           | Some k \<Rightarrow>
               if Suc (elapsed + k) div 1000 < ms then timeout_after ms (Suc (elapsed + k)) f' else (None, d)))"
  by pat_completeness auto
termination
  by (relation "measure (\<lambda>(ms, elapsed, f). 1000 * ms - elapsed)") (auto simp: div_less_iff_less_mult)

declare timeout_after.simps [simp del]

definition exchange :: "'d hidraw \<Rightarrow> nat \<Rightarrow> bytes \<Rightarrow> 'd \<Rightarrow> (driver_error option + bytes) \<times> 'd" where
  "exchange hw ms request d =
     (case timeout_after ms 0 (write_then_read hw request d) of
        (None, d') \<Rightarrow> (Inl None, d')
      | (Some r, d') \<Rightarrow> (map_sum Some id r, d'))"

text \<open>What a future returns when nothing cuts it off, with the time it takes; a future that hangs returns nothing.\<close>

inductive returns :: "('d, 'r) future \<Rightarrow> nat \<Rightarrow> 'r \<Rightarrow> 'd \<Rightarrow> bool" where
  returns_now: "returns (Returned r d) 0 r d"
| returns_later: "returns f n r d \<Longrightarrow> returns (Awaiting d0 (Some k) f) (Suc (k + n)) r d"

inductive_cases returns_AwaitingE: "returns (Awaiting d0 w f) n r d"

lemma timeout_unfold:
  "timeout_after ms elapsed (Returned r d) = (Some r, d)"
  "timeout_after ms elapsed (Awaiting d None f) = (None, d)"
  "timeout_after ms elapsed (Awaiting d (Some k) f) =
     (if Suc (elapsed + k) div 1000 < ms then timeout_after ms (Suc (elapsed + k)) f else (None, d))"
  by (simp_all add: timeout_after.simps[of _ _ "Returned _ _"] timeout_after.simps[of _ _ "Awaiting _ _ _"])

lemma timeout_in_time:
  "returns f n r d \<Longrightarrow> (elapsed + n) div 1000 < ms \<Longrightarrow> timeout_after ms elapsed f = (Some r, d)"
proof (induction arbitrary: elapsed rule: returns.induct)
  case (returns_later f n r d d0 k)
  have "Suc (elapsed + k) div 1000 \<le> (elapsed + Suc (k + n)) div 1000" by (rule div_le_mono) simp
  with returns_later.prems have "Suc (elapsed + k) div 1000 < ms" by simp
  moreover have "(Suc (elapsed + k) + n) div 1000 < ms" using returns_later.prems by (simp add: ac_simps)
  ultimately show ?case using returns_later.IH by (simp add: timeout_unfold)
qed (simp add: timeout_unfold)

lemma timeout_Some:
  "timeout_after ms elapsed f = (Some r, d) \<Longrightarrow> \<exists>n. returns f n r d \<and> (n = 0 \<or> (elapsed + n) div 1000 < ms)"
proof (induction ms elapsed f rule: timeout_after.induct)
  case (1 ms elapsed f)
  show ?case
  proof (cases f)
    case (Returned r' d')
    with "1.prems" show ?thesis by (auto simp: timeout_unfold intro: returns_now)
  next
    case (Awaiting d0 wait f')
    with "1.prems" obtain k where k: "wait = Some k" "Suc (elapsed + k) div 1000 < ms"
      "timeout_after ms (Suc (elapsed + k)) f' = (Some r, d)"
      by (cases wait) (auto simp: timeout_unfold split: if_splits)
    from "1.IH"[OF Awaiting k(1,2,3)] obtain n where n: "returns f' n r d" "n = 0 \<or> (Suc (elapsed + k) + n) div 1000 < ms" by blast
    have "(elapsed + Suc (k + n)) div 1000 < ms" using n(2) k(2) by (auto simp: ac_simps)
    with returns_later[OF n(1)] Awaiting k(1) show ?thesis by blast
  qed
qed

text \<open>A predicate that holds of the device at every await and at the return holds when the deadline cuts in.\<close>

coinductive all_along :: "('d \<Rightarrow> bool) \<Rightarrow> ('d, 'r) future \<Rightarrow> bool" for P where
  along_returned: "P d \<Longrightarrow> all_along P (Returned r d)"
| along_awaiting: "P d \<Longrightarrow> all_along P f \<Longrightarrow> all_along P (Awaiting d wait f)"

inductive_cases along_AwaitingE: "all_along P (Awaiting d wait f)"
inductive_cases along_ReturnedE: "all_along P (Returned r d)"

lemma timeout_along: "all_along P f \<Longrightarrow> P (snd (timeout_after ms elapsed f))"
proof (induction ms elapsed f rule: timeout_after.induct)
  case (1 ms elapsed f)
  show ?case
  proof (cases f)
    case (Returned r d)
    with "1.prems" show ?thesis by (auto simp: timeout_unfold elim: along_ReturnedE)
  next
    case (Awaiting d wait f')
    with "1.prems" have f': "P d" "all_along P f'" by (auto elim: along_AwaitingE)
    show ?thesis
    proof (cases wait)
      case None
      with Awaiting f' show ?thesis by (simp add: timeout_unfold)
    next
      case (Some k)
      with "1.IH"[OF Awaiting Some _ f'(2)] Awaiting f'(1) show ?thesis by (simp add: timeout_unfold)
    qed
  qed
qed

lemma read_frame_along:
  assumes "\<And>d a d'. P d \<Longrightarrow> fd_read hw d = (a, d') \<Longrightarrow> P d'" and "P d"
  shows "all_along P (read_frame hw d)"
  using assms(2)
proof (coinduction arbitrary: d)
  case (all_along d)
  obtain a d' where a: "fd_read hw d = (a, d')" by fastforce
  from assms(1)[OF all_along a] all_along show ?case
    by (subst (2) read_frame.code) (cases a; auto simp: read_frame.code[of hw d] a along_returned)
qed

lemma write_frame_along:
  assumes "\<And>d a d'. P d \<Longrightarrow> fd_write hw (VIA_HIDRAW_REPORT_ID # frame) d = (a, d') \<Longrightarrow> P d'"
    and "\<And>r d. P d \<Longrightarrow> all_along P (k r d)" and "P d"
  shows "all_along P (write_frame hw frame k d)"
  using assms(3)
proof (coinduction arbitrary: d)
  case (all_along d)
  obtain a d' where a: "fd_write hw (VIA_HIDRAW_REPORT_ID # frame) d = (a, d')" by fastforce
  from assms(1)[OF all_along a] assms(2) all_along show ?case
    by (cases a; auto simp: write_frame.code[of hw frame k d] a)
qed

lemma exchange_along:
  assumes "\<And>d a d'. P d \<Longrightarrow> fd_write hw (VIA_HIDRAW_REPORT_ID # frame) d = (a, d') \<Longrightarrow> P d'"
    and "\<And>d a d'. P d \<Longrightarrow> fd_read hw d = (a, d') \<Longrightarrow> P d'" and "P d"
  shows "P (snd (exchange hw ms frame d))"
proof -
  have "all_along P (write_then_read hw frame d)"
    unfolding write_then_read_def
  proof (rule write_frame_along)
    show "P d'" if "P d" "fd_write hw (VIA_HIDRAW_REPORT_ID # frame) d = (a, d')" for d a d'
      using assms(1) that by blast
    show "all_along P (case r of Inl e \<Rightarrow> Returned (Inl e) d' | Inr _ \<Rightarrow> read_frame hw d')" if "P d'" for r :: "driver_error + unit" and d'
      using that assms(2) by (auto split: sum.split intro: along_returned read_frame_along)
  qed (rule assms(3))
  from timeout_along[OF this, of ms 0] show ?thesis
    by (auto simp: exchange_def split: prod.split option.split)
qed

section \<open>\<open>ViaTransport\<close>\<close>

record 'd via_transport =
  vt_fd :: "'d hidraw"
  vt_dev :: "'d"
  vt_device_id :: string
  vt_timeout :: nat
  vt_macro_buffer_size :: "u16 option"

type_synonym ('d, 'a) via_act = "('d via_transport, driver_error, 'a) act"

definition via_transport_on :: "'d hidraw \<Rightarrow> 'd \<Rightarrow> string \<Rightarrow> nat \<Rightarrow> 'd via_transport" where
  "via_transport_on fd dev device_id timeout =
     \<lparr>vt_fd = fd, vt_dev = dev, vt_device_id = device_id, vt_timeout = timeout,
      vt_macro_buffer_size = None\<rparr>"

text \<open>\<open>AsyncFd::new\<close> registers the descriptor with the reactor, which may fail.\<close>

definition via_transport_new :: "io_error + unit \<Rightarrow> 'd hidraw \<Rightarrow> 'd \<Rightarrow> string \<Rightarrow> nat \<Rightarrow> driver_error + 'd via_transport" where
  "via_transport_new registered fd dev device_id timeout =
     (case registered of Inl e \<Rightarrow> Inl (Io e) | Inr _ \<Rightarrow> Inr (via_transport_on fd dev device_id timeout))"

definition roundtrip :: "bytes \<Rightarrow> string \<Rightarrow> ('d, bytes) via_act" where
  "roundtrip request op t =
     (case exchange (vt_fd t) (vt_timeout t) request (vt_dev t) of
        (Inl None, d') \<Rightarrow> (Inl (Timeout (vt_device_id t) op), t\<lparr>vt_dev := d'\<rparr>)
      | (Inl (Some e), d') \<Rightarrow> (Inl e, t\<lparr>vt_dev := d'\<rparr>)
      | (Inr resp, d') \<Rightarrow> (Inr resp, t\<lparr>vt_dev := d'\<rparr>))"

text \<open>\<open>[0u8; VIA_FRAME_LEN]\<close> with its first bytes set.\<close>

definition req_frame :: "bytes \<Rightarrow> bytes" where
  "req_frame bs = bs @ replicate (VIA_FRAME_LEN - length bs) 0"

lemma length_req_frame [simp]: "length bs \<le> VIA_FRAME_LEN \<Longrightarrow> length (req_frame bs) = VIA_FRAME_LEN"
  by (simp add: req_frame_def)

lemma hd_req_frame [simp]: "req_frame (b # bs) ! 0 = b"
  by (simp add: req_frame_def)

definition ensure_macro_buffer_size :: "('d, u16) via_act" where
  "ensure_macro_buffer_size t =
     (case vt_macro_buffer_size t of
        Some sz \<Rightarrow> (Inr sz, t)
      | None \<Rightarrow>
          andthen (roundtrip (req_frame [ID_MACRO_GET_BUFFER_SIZE]) ''get_macro_buffer_size'') (\<lambda>resp.
          andthen (lift_res (validate_echo resp [ID_MACRO_GET_BUFFER_SIZE]
                     ''command-id echo mismatch on get_macro_buffer_size'')) (\<lambda>_ t'.
          let sz = u16_of (resp ! 1) (resp ! 2)
          in (Inr sz, t'\<lparr>vt_macro_buffer_size := Some sz\<rparr>))) t)"

definition via_get_macro_count :: "('d, u8) via_act" where
  "via_get_macro_count =
     andthen (roundtrip (req_frame [ID_MACRO_GET_COUNT]) ''get_macro_count'') (\<lambda>resp.
     andthen (lift_res (validate_echo resp [ID_MACRO_GET_COUNT]
                ''command-id echo mismatch on get_macro_count'')) (\<lambda>_.
     ok (resp ! 1)))"

definition via_get_protocol_version :: "('d, u16) via_act" where
  "via_get_protocol_version =
     andthen (roundtrip (req_frame [ID_GET_PROTOCOL_VERSION]) ''get_protocol_version'') (\<lambda>resp.
     andthen (lift_res (validate_echo resp [ID_GET_PROTOCOL_VERSION]
                ''command-id echo mismatch on get_protocol_version'')) (\<lambda>_.
     ok (u16_of (resp ! 1) (resp ! 2))))"

definition via_custom_save :: "u8 \<Rightarrow> ('d, unit) via_act" where
  "via_custom_save channel =
     andthen (roundtrip (req_frame [ID_CUSTOM_SAVE, channel]) ''custom_save'') (\<lambda>resp.
     andthen (lift_res (validate_echo resp [ID_CUSTOM_SAVE, channel]
                ''(cmd, channel) echo mismatch on custom_save'')) (\<lambda>_.
     ok ()))"

definition via_get_keycode :: "u8 \<Rightarrow> u8 \<Rightarrow> u8 \<Rightarrow> ('d, u16) via_act" where
  "via_get_keycode layer row col =
     andthen (roundtrip (req_frame [ID_DYNAMIC_KEYMAP_GET_KEYCODE, layer, row, col]) ''get_keycode'') (\<lambda>resp.
     andthen (lift_res (validate_echo resp [ID_DYNAMIC_KEYMAP_GET_KEYCODE, layer, row, col]
                ''(cmd, layer, row, col) echo mismatch on get_keycode'')) (\<lambda>_.
     ok (u16_of (resp ! 4) (resp ! 5))))"

definition via_set_keycode :: "u8 \<Rightarrow> u8 \<Rightarrow> u8 \<Rightarrow> u16 \<Rightarrow> ('d, unit) via_act" where
  "via_set_keycode layer row col keycode =
     (let kc_hi = u16_hi keycode; kc_lo = u16_lo keycode in
      andthen (roundtrip (req_frame [ID_DYNAMIC_KEYMAP_SET_KEYCODE, layer, row, col, kc_hi, kc_lo])
                 ''set_keycode'') (\<lambda>resp.
      andthen (lift_res (validate_echo resp [ID_DYNAMIC_KEYMAP_SET_KEYCODE, layer, row, col, kc_hi, kc_lo]
                 ''(cmd, layer, row, col, keycode) echo mismatch on set_keycode'')) (\<lambda>_.
      ok ())))"

definition via_get_layer_count :: "('d, u8) via_act" where
  "via_get_layer_count =
     andthen (roundtrip (req_frame [ID_DYNAMIC_KEYMAP_GET_LAYER_COUNT]) ''get_layer_count'') (\<lambda>resp.
     if resp ! 0 \<noteq> ID_DYNAMIC_KEYMAP_GET_LAYER_COUNT
     then throw (ProtocolViolation ''command-id echo mismatch on get_layer_count'')
     else ok (resp ! 1))"

definition via_get_macro_buffer :: "u16 \<Rightarrow> u8 \<Rightarrow> ('d, bytes) via_act" where
  "via_get_macro_buffer offset len =
     andthen ensure_macro_buffer_size (\<lambda>buffer_size.
     andthen (lift_res (validate_macro_range offset (unat len) buffer_size)) (\<lambda>_.
     let off_hi = u16_hi offset; off_lo = u16_lo offset in
     andthen (roundtrip (req_frame [ID_MACRO_GET_BUFFER, off_hi, off_lo, len]) ''get_macro_buffer'') (\<lambda>resp.
     andthen (lift_res (validate_echo resp [ID_MACRO_GET_BUFFER, off_hi, off_lo, len]
                ''(cmd, offset, size) echo mismatch on get_macro_buffer'')) (\<lambda>_.
     ok (slice 4 (unat len) resp)))))"

definition via_set_macro_buffer :: "u16 \<Rightarrow> bytes \<Rightarrow> ('d, unit) via_act" where
  "via_set_macro_buffer offset data =
     andthen ensure_macro_buffer_size (\<lambda>buffer_size.
     andthen (lift_res (validate_macro_range offset (length data) buffer_size)) (\<lambda>_.
     let off_hi = u16_hi offset; off_lo = u16_lo offset; sz = word_of_nat (length data) in
     andthen (roundtrip (req_frame ([ID_MACRO_SET_BUFFER, off_hi, off_lo, sz] @ data))
                ''set_macro_buffer'') (\<lambda>resp.
     andthen (lift_res (validate_echo resp [ID_MACRO_SET_BUFFER, off_hi, off_lo, sz]
                ''(cmd, offset, size) echo mismatch on set_macro_buffer'')) (\<lambda>_.
     ok ()))))"

definition via_get_lighting :: "u8 \<Rightarrow> u8 \<Rightarrow> ('d, bytes) via_act" where
  "via_get_lighting channel value_id =
     andthen (roundtrip (req_frame [ID_LIGHTING_GET_VALUE, channel, value_id]) ''get_lighting'') (\<lambda>resp.
     andthen (lift_res (validate_echo resp [ID_LIGHTING_GET_VALUE, channel, value_id]
                ''(cmd, channel, value_id) echo mismatch on get_lighting'')) (\<lambda>_.
     ok (drop 3 resp)))"

definition via_set_lighting :: "u8 \<Rightarrow> u8 \<Rightarrow> bytes \<Rightarrow> ('d, unit) via_act" where
  "via_set_lighting channel value_id data =
     (if MAX_LIGHTING_VALUE < length data
      then throw (ProtocolViolation ''lighting value exceeds 29-byte frame capacity'')
      else andthen (roundtrip (req_frame ([ID_LIGHTING_SET_VALUE, channel, value_id] @ data))
                      ''set_lighting'') (\<lambda>_. ok ()))"

lemmas via_op_defs =
  via_get_macro_count_def via_get_protocol_version_def via_custom_save_def via_get_keycode_def
  via_set_keycode_def via_get_layer_count_def via_get_lighting_def via_set_lighting_def

section \<open>What goes over the wire\<close>

text \<open>
  \<open>logged_fd\<close> is any descriptor with a record of the buffers handed to \<open>write(2)\<close>. A buffer is
  well formed for a cached macro size when it is a report id and a 32-byte frame with one of the
  command ids of the source, and, when it writes macro bytes, stays inside the reported buffer.
\<close>

definition logged_fd :: "'d hidraw \<Rightarrow> ('d \<times> bytes list) hidraw" where
  "logged_fd hw =
     \<lparr>fd_writable = (\<lambda>d. fd_writable hw (fst d)), fd_readable = (\<lambda>d. fd_readable hw (fst d)),
      fd_write = (\<lambda>buf d. case fd_write hw buf (fst d) of (a, d') \<Rightarrow> (a, d', snd d @ [buf])),
      fd_read = (\<lambda>d. case fd_read hw (fst d) of (a, d') \<Rightarrow> (a, d', snd d))\<rparr>"

definition sent_ids :: "u8 list" where
  "sent_ids = [ID_GET_PROTOCOL_VERSION, ID_DYNAMIC_KEYMAP_GET_KEYCODE, ID_DYNAMIC_KEYMAP_SET_KEYCODE,
     ID_DYNAMIC_KEYMAP_GET_LAYER_COUNT, ID_LIGHTING_SET_VALUE, ID_LIGHTING_GET_VALUE, ID_CUSTOM_SAVE,
     ID_MACRO_GET_COUNT, ID_MACRO_GET_BUFFER_SIZE, ID_MACRO_GET_BUFFER, ID_MACRO_SET_BUFFER]"

definition wire_ok :: "u16 option \<Rightarrow> bytes \<Rightarrow> bool" where
  "wire_ok macro_size buf \<longleftrightarrow>
     length buf = 33 \<and> buf ! 0 = 0 \<and> buf ! 1 \<in> set sent_ids
     \<and> (buf ! 1 = ID_MACRO_SET_BUFFER \<longrightarrow>
         (\<exists>sz. macro_size = Some sz
             \<and> unat (u16_of (buf ! 2) (buf ! 3)) + unat (buf ! 4) \<le> unat sz))"

definition wire_inv :: "('d \<times> bytes list) via_transport \<Rightarrow> bool" where
  "wire_inv t \<longleftrightarrow> (\<exists>hw. vt_fd t = logged_fd hw)
     \<and> (\<forall>buf \<in> set (snd (vt_dev t)). wire_ok (vt_macro_buffer_size t) buf)"

lemma sent_ids_not_destructive: "i \<in> set sent_ids \<Longrightarrow> i \<notin> destructive_ids"
  by (auto simp: sent_ids_def via_ids destructive_ids_def)

lemma logged_write: "fd_write (logged_fd hw) buf d = (a, d') \<Longrightarrow> snd d' = snd d @ [buf]"
  by (auto simp: logged_fd_def split: prod.splits)

lemma logged_read: "fd_read (logged_fd hw) d = (a, d') \<Longrightarrow> snd d' = snd d"
  by (auto simp: logged_fd_def split: prod.splits)

lemma exchange_log:
  assumes "exchange (logged_fd hw) ms frame d = (r, d')"
  shows "set (snd d') \<subseteq> insert (0 # frame) (set (snd d))"
  using exchange_along[where P = "\<lambda>e. set (snd e) \<subseteq> insert (0 # frame) (set (snd d))" and hw = "logged_fd hw"
      and frame = frame and d = d and ms = ms] assms logged_write logged_read
  by (fastforce simp: VIA_HIDRAW_REPORT_ID_def)

lemma roundtrip_fields:
  "roundtrip req op t = (r, t') \<Longrightarrow>
     vt_fd t' = vt_fd t \<and> vt_timeout t' = vt_timeout t \<and> vt_device_id t' = vt_device_id t
     \<and> vt_macro_buffer_size t' = vt_macro_buffer_size t"
  by (auto simp: roundtrip_def split: prod.splits sum.splits option.splits)

lemma roundtrip_dev:
  "roundtrip req op t = (r, t') \<Longrightarrow> \<exists>q. exchange (vt_fd t) (vt_timeout t) req (vt_dev t) = (q, vt_dev t')"
  by (auto simp: roundtrip_def split: prod.splits sum.splits option.splits)

lemma roundtrip_wire_inv:
  assumes "wire_inv t" and "wire_ok (vt_macro_buffer_size t) (0 # req)"
  shows "wire_inv (snd (roundtrip req op t))"
proof -
  obtain r t' where t': "roundtrip req op t = (r, t')" by fastforce
  from assms(1) obtain hw where hw: "vt_fd t = logged_fd hw" by (auto simp: wire_inv_def)
  obtain q where "exchange (logged_fd hw) (vt_timeout t) req (vt_dev t) = (q, vt_dev t')"
    using roundtrip_dev[OF t'] hw by auto
  from exchange_log[OF this] assms roundtrip_fields[OF t'] t' hw show ?thesis
    by (auto simp: wire_inv_def)
qed

text \<open>Every command but a macro write is well formed whatever the state; the id decides.\<close>

lemma roundtrip_preserves_wire [preserves_intros]:
  assumes "cmd \<in> set sent_ids" and "cmd \<noteq> ID_MACRO_SET_BUFFER" and "length bs \<le> 31"
  shows "preserves wire_inv (roundtrip (req_frame (cmd # bs)) op)"
  using assms
  by (intro preservesI roundtrip_wire_inv)
     (auto simp: wire_ok_def req_frame_def VIA_FRAME_LEN_def)

lemma preserves_ensure_macro_buffer_size [preserves_intros]:
  "preserves wire_inv ensure_macro_buffer_size"
proof (rule preservesI)
  fix t :: "('d \<times> bytes list) via_transport"
  assume t: "wire_inv t"
  have "preserves wire_inv (roundtrip (req_frame [ID_MACRO_GET_BUFFER_SIZE]) ''get_macro_buffer_size''
      :: ('d \<times> bytes list, bytes) via_act)"
    by (intro preserves_intros) (auto simp: sent_ids_def via_ids)
  with t have rt: "wire_inv (snd (roundtrip (req_frame [ID_MACRO_GET_BUFFER_SIZE]) ''get_macro_buffer_size'' t))"
    by (rule preservesD[rotated])
  have fields: "vt_macro_buffer_size (snd (roundtrip req op t)) = vt_macro_buffer_size t" for req op
    using roundtrip_fields[of req op t] by (cases "roundtrip req op t") auto
  show "wire_inv (snd (ensure_macro_buffer_size t))"
    using t rt fields[of "req_frame [ID_MACRO_GET_BUFFER_SIZE]" "''get_macro_buffer_size''"]
    by (auto simp: ensure_macro_buffer_size_def andthen_def lift_res_def Let_def wire_inv_def wire_ok_def
             split: option.split prod.split sum.split)
qed

lemma ensure_macro_buffer_size_cached:
  "ensure_macro_buffer_size t = (Inr sz, t') \<Longrightarrow> vt_macro_buffer_size t' = Some sz"
  by (auto simp: ensure_macro_buffer_size_def andthen_def lift_res_def Let_def
           split: option.splits prod.splits sum.splits)

lemma validate_macro_range_ok:
  "validate_macro_range offset n sz = Inr () \<longleftrightarrow> n \<le> 28 \<and> unat offset + n \<le> unat sz"
  by (auto simp: validate_macro_range_def via_lens)

lemma preserves_set_macro_buffer [preserves_intros]:
  "preserves wire_inv (via_set_macro_buffer offset data)"
proof (rule preservesI)
  fix t :: "('d \<times> bytes list) via_transport"
  assume t: "wire_inv t"
  obtain r t1 where e: "ensure_macro_buffer_size t = (r, t1)" by fastforce
  from t have t1: "wire_inv t1"
    using preservesD[OF preserves_ensure_macro_buffer_size t] e by simp
  show "wire_inv (snd (via_set_macro_buffer offset data t))"
  proof (cases "\<exists>sz. r = Inr sz \<and> validate_macro_range offset (length data) sz = Inr ()")
    case False
    with e t1 show ?thesis
      by (cases r) (auto simp: via_set_macro_buffer_def andthen_def lift_res_def split: sum.split)
  next
    case True
    then obtain sz where sz: "r = Inr sz" "length data \<le> 28" "unat offset + length data \<le> unat sz"
      by (auto simp: validate_macro_range_ok)
    let ?req = "req_frame ([ID_MACRO_SET_BUFFER, u16_hi offset, u16_lo offset, word_of_nat (length data)] @ data)"
    have "vt_macro_buffer_size t1 = Some sz"
      using e sz(1) by (auto dest: ensure_macro_buffer_size_cached)
    moreover have "unat (word_of_nat (length data) :: u8) = length data"
      using sz(2) by (simp add: unat_of_nat)
    ultimately have "wire_ok (vt_macro_buffer_size t1) (0 # ?req)"
      using sz by (auto simp: wire_ok_def req_frame_def VIA_FRAME_LEN_def sent_ids_def)
    moreover have "validate_macro_range offset (length data) sz = Inr ()"
      using sz by (simp add: validate_macro_range_ok)
    ultimately show ?thesis
      using roundtrip_wire_inv[OF t1, of ?req "''set_macro_buffer''"] e sz
      by (auto simp: via_set_macro_buffer_def andthen_def lift_res_def ok_def Let_def
               split: prod.split sum.split)
  qed
qed

lemma preserves_get_macro_buffer [preserves_intros]:
  "preserves wire_inv (via_get_macro_buffer offset len)"
  unfolding via_get_macro_buffer_def Let_def
  by (intro preserves_intros) (auto simp: sent_ids_def via_ids)

lemma preserves_wire_ops [preserves_intros]:
  "preserves wire_inv via_get_macro_count"
  "preserves wire_inv via_get_protocol_version"
  "preserves wire_inv (via_custom_save channel)"
  "preserves wire_inv (via_get_keycode layer row col)"
  "preserves wire_inv (via_set_keycode layer row col keycode)"
  "preserves wire_inv (via_get_lighting channel value_id)"
  unfolding via_op_defs Let_def
  by (intro preserves_intros; simp add: sent_ids_def via_ids)+

lemma preserves_if [preserves_intros]:
  "preserves P m \<Longrightarrow> preserves P n \<Longrightarrow> preserves P (if b then m else n)"
  by simp

lemma preserves_get_layer_count [preserves_intros]: "preserves wire_inv via_get_layer_count"
  unfolding via_get_layer_count_def
  by (intro preserves_intros; simp add: sent_ids_def via_ids)

lemma preserves_set_lighting [preserves_intros]:
  "preserves wire_inv (via_set_lighting channel value_id data)"
proof (cases "length data \<le> 29")
  case True
  have "preserves wire_inv (roundtrip (req_frame (ID_LIGHTING_SET_VALUE # channel # value_id # data)) ''set_lighting'')"
    by (rule roundtrip_preserves_wire) (use True in \<open>auto simp: sent_ids_def via_ids\<close>)
  from preserves_andthen[OF this preserves_ok] show ?thesis
    unfolding via_set_lighting_def append_Cons append_Nil
    by (intro preserves_if preserves_throw)
next
  case False
  then show ?thesis
    unfolding via_set_lighting_def by (auto simp: via_lens intro: preserves_intros)
qed

section \<open>A silent device\<close>

text \<open>
  A round trip is the write and the read under the deadline: it has their result when they return in time, and is a
  timeout that names the device and the operation when they do not.
\<close>

lemma exchange_in_time:
  assumes "returns (write_then_read hw req d) n r d'" and "n div 1000 < ms"
  shows "exchange hw ms req d = (map_sum Some id r, d')"
  using timeout_in_time[OF assms(1), of 0 ms] assms(2) by (simp add: exchange_def)

lemma exchange_answered:
  assumes "fd_writable hw d = Some j" and "fd_write hw (VIA_HIDRAW_REPORT_ID # req) d = (SyscallDone (Suc (length req)), d1)"
    and "fd_readable hw d1 = Some k" and "fd_read hw d1 = (SyscallDone resp, d2)" and "length resp = VIA_FRAME_LEN"
    and "Suc (Suc (j + k)) div 1000 < ms"
  shows "exchange hw ms req d = (Inr resp, d2)"
proof -
  have "read_frame hw d1 = Awaiting d1 (Some k) (Returned (Inr resp) d2)"
    by (subst read_frame.code) (simp add: assms(3-5))
  then have "returns (read_frame hw d1) (Suc (k + 0)) (Inr resp) d2" by (simp only: returns_later returns_now)
  moreover have "write_then_read hw req d = Awaiting d (Some j) (read_frame hw d1)"
    unfolding write_then_read_def by (subst write_frame.code) (simp add: assms(1,2))
  ultimately have "returns (write_then_read hw req d) (Suc (j + Suc (k + 0))) (Inr resp) d2"
    by (simp only: returns_later)
  from exchange_in_time[OF this] assms(6) show ?thesis by simp
qed

lemma exchange_too_late:
  assumes "\<nexists>n r d'. returns (write_then_read hw req d) n r d' \<and> n div 1000 < ms"
  shows "\<exists>d'. exchange hw ms req d = (Inl None, d')"
proof -
  obtain q d' where t: "timeout_after ms 0 (write_then_read hw req d) = (q, d')" by fastforce
  have "q = None"
  proof (rule ccontr)
    assume "q \<noteq> None"
    with t obtain r n where r: "returns (write_then_read hw req d) n r d'" "n = 0 \<or> n div 1000 < ms"
      using timeout_Some[of ms 0 _ _ d'] by fastforce
    have "n \<noteq> 0" using r(1) by (auto simp: write_then_read_def write_frame.code elim: returns_AwaitingE)
    with r assms show False by blast
  qed
  with t show ?thesis by (simp add: exchange_def)
qed

lemma roundtrip_deadline:
  "returns (write_then_read (vt_fd t) req (vt_dev t)) n r d' \<Longrightarrow> n div 1000 < vt_timeout t \<Longrightarrow>
     roundtrip req op t = (r, t\<lparr>vt_dev := d'\<rparr>)"
  "\<nexists>n r d'. returns (write_then_read (vt_fd t) req (vt_dev t)) n r d' \<and> n div 1000 < vt_timeout t \<Longrightarrow>
     fst (roundtrip req op t) = Inl (Timeout (vt_device_id t) op)"
proof -
  show "roundtrip req op t = (r, t\<lparr>vt_dev := d'\<rparr>)"
    if "returns (write_then_read (vt_fd t) req (vt_dev t)) n r d'" "n div 1000 < vt_timeout t"
    using exchange_in_time[OF that] by (cases r) (simp_all add: roundtrip_def)
  show "fst (roundtrip req op t) = Inl (Timeout (vt_device_id t) op)"
    if "\<nexists>n r d'. returns (write_then_read (vt_fd t) req (vt_dev t)) n r d' \<and> n div 1000 < vt_timeout t"
    using exchange_too_late[OF that] by (auto simp: roundtrip_def)
qed

text \<open>A device that takes every frame and never has one to read: the node does not become readable, or the read would block.\<close>

definition never_answers :: "'d hidraw \<Rightarrow> bool" where
  "never_answers hw \<longleftrightarrow>
     (\<forall>d. fd_readable hw d = None \<or> (\<exists>d'. fd_read hw d = (SyscallFailed EAGAIN, d')))
   \<and> (\<forall>buf d. \<exists>d'. fd_write hw buf d = (SyscallDone (length buf), d'))"

lemma read_frame_hangs:
  assumes "returns f n r d'" and "never_answers hw" and "f = read_frame hw d"
  shows False
  using assms(1,3)
proof (induction arbitrary: d rule: returns.induct)
  case (returns_now r d')
  then show ?case by (simp add: read_frame.code[of hw d])
next
  case (returns_later f n r d' d0 k)
  then have f: "fd_readable hw d = Some k" "f = (case fd_read hw d of (a, d') \<Rightarrow> (case a of
          ReadinessFailed e \<Rightarrow> Returned (Inl (Io e)) d'
        | SyscallDone buf \<Rightarrow>
            if length buf = VIA_FRAME_LEN then Returned (Inr buf) d'
            else Returned (Inl (ProtocolViolation ''short read from hidraw node'')) d'
        | SyscallFailed errno \<Rightarrow>
            if io_kind_of (io_from_errno errno) = KindWouldBlock then read_frame hw d'
            else Returned (Inl (classify_io_error (io_from_errno errno))) d'))"
    by (simp_all add: read_frame.code[of hw d])
  from assms(2) have "fd_readable hw d = None \<or> (\<exists>e. fd_read hw d = (SyscallFailed EAGAIN, e))"
    unfolding never_answers_def by blast
  with f(1) obtain e where "fd_read hw d = (SyscallFailed EAGAIN, e)" by auto
  with f(2) have "f = read_frame hw e" by (simp add: io_from_errno_def errno_defs)
  with returns_later.IH show ?case by blast
qed

lemma write_then_read_hangs:
  assumes "never_answers hw"
  shows "\<not> returns (write_then_read hw req d) n r d'"
proof
  assume ret: "returns (write_then_read hw req d) n r d'"
  obtain e where "fd_write hw (VIA_HIDRAW_REPORT_ID # req) d = (SyscallDone (Suc (length req)), e)"
    using assms unfolding never_answers_def by (metis length_Cons)
  with ret have "\<exists>n. returns (read_frame hw e) n r d'"
    by (auto simp: write_then_read_def write_frame.code[of hw req _ d] elim: returns_AwaitingE)
  with read_frame_hangs[OF _ assms] show False by blast
qed

lemma roundtrip_silent:
  "never_answers (vt_fd t) \<Longrightarrow> fst (roundtrip req op t) = Inl (Timeout (vt_device_id t) op)"
  by (rule roundtrip_deadline(2)) (simp add: write_then_read_hangs)

section \<open>A firmware that answers\<close>

text \<open>
  What QMK documents of the commands the keymap path uses, for the positions \<open>V\<close> of the board's
  matrix and the custom channels \<open>H\<close> it handles: from a state with no reply outstanding each
  request frame is answered by one frame that echoes the header, a get returns the stored
  keycode in bytes 4 and 5, a set stores it. \<open>km d\<close> is the keymap the device state holds.
\<close>

definition via_firmware ::
  "'d hidraw \<Rightarrow> nat \<Rightarrow> key_pos set \<Rightarrow> u8 set \<Rightarrow> ('d \<Rightarrow> bool) \<Rightarrow> ('d \<Rightarrow> key_pos \<Rightarrow> u16) \<Rightarrow> bool" where
  "via_firmware hw ms V H ready km \<longleftrightarrow> (\<forall>d. ready d \<longrightarrow>
     (\<forall>l r c. (l, r, c) \<in> V \<longrightarrow> (\<exists>resp d'.
        exchange hw ms (req_frame [0x04, l, r, c]) d = (Inr resp, d') \<and> take 4 resp = [0x04, l, r, c]
        \<and> resp ! 4 = u16_hi (km d (l, r, c)) \<and> resp ! 5 = u16_lo (km d (l, r, c))
        \<and> ready d' \<and> km d' = km d))
   \<and> (\<forall>l r c k. (l, r, c) \<in> V \<longrightarrow> (\<exists>resp d'.
        exchange hw ms (req_frame [0x05, l, r, c, u16_hi k, u16_lo k]) d = (Inr resp, d')
        \<and> take 6 resp = [0x05, l, r, c, u16_hi k, u16_lo k]
        \<and> ready d' \<and> km d' = (km d)((l, r, c) := k)))
   \<and> (\<forall>ch \<in> H. \<exists>resp d'.
        exchange hw ms (req_frame [0x09, ch]) d = (Inr resp, d') \<and> take 2 resp = [0x09, ch]
        \<and> ready d' \<and> km d' = km d))"

lemma validate_echo_take:
  "take n resp = expected \<Longrightarrow> length expected = n \<Longrightarrow> validate_echo resp expected reason = Inr ()"
  by (auto simp: validate_echo_def)

lemma roundtrip_Inr:
  "exchange (vt_fd t) (vt_timeout t) req (vt_dev t) = (Inr resp, d') \<Longrightarrow>
   roundtrip req op t = (Inr resp, t\<lparr>vt_dev := d'\<rparr>)"
  by (simp add: roundtrip_def)

text \<open>
  The requests \<open>F\<close> beside the keymap, such as those for macros and lighting: each is answered, with whatever
  frame, and does not touch the keymap.
\<close>

definition answers_also :: "'d hidraw \<Rightarrow> nat \<Rightarrow> bytes set \<Rightarrow> ('d \<Rightarrow> bool) \<Rightarrow> ('d \<Rightarrow> key_pos \<Rightarrow> u16) \<Rightarrow> bool" where
  "answers_also hw ms F ready km \<longleftrightarrow> (\<forall>d. ready d \<longrightarrow> (\<forall>bs \<in> F. \<exists>resp d'.
     exchange hw ms (req_frame bs) d = (Inr resp, d') \<and> ready d' \<and> km d' = km d))"

lemma answers_also_none [simp]: "answers_also hw ms {} ready km"
  by (simp add: answers_also_def)

text \<open>The keymap observed through the driver, and the states whose hardware is such a firmware.\<close>

definition vt_healthy :: "key_pos set \<Rightarrow> u8 set \<Rightarrow> bytes set \<Rightarrow> 'd via_transport \<Rightarrow> bool" where
  "vt_healthy V H F t \<longleftrightarrow>
     (\<exists>ready km. via_firmware (vt_fd t) (vt_timeout t) V H ready km
        \<and> answers_also (vt_fd t) (vt_timeout t) F ready km \<and> ready (vt_dev t))"

definition vt_view :: "key_pos set \<Rightarrow> 'd via_transport \<Rightarrow> key_pos \<Rightarrow> u16" where
  "vt_view V t p =
     (if p \<in> V then (case p of (l, r, c) \<Rightarrow>
        (case fst (via_get_keycode l r c t) of Inr k \<Rightarrow> k | Inl _ \<Rightarrow> 0)) else 0)"

lemma via_get_keycode_firmware:
  assumes "via_firmware (vt_fd t) (vt_timeout t) V H ready km" and "ready (vt_dev t)" and "(l, r, c) \<in> V"
  shows "\<exists>d'. via_get_keycode l r c t = (Inr (km (vt_dev t) (l, r, c)), t\<lparr>vt_dev := d'\<rparr>)
    \<and> ready d' \<and> km d' = km (vt_dev t)"
proof -
  from assms obtain resp d' where
    x: "exchange (vt_fd t) (vt_timeout t) (req_frame [0x04, l, r, c]) (vt_dev t) = (Inr resp, d')"
      "take 4 resp = [0x04, l, r, c]" "resp ! 4 = u16_hi (km (vt_dev t) (l, r, c))"
      "resp ! 5 = u16_lo (km (vt_dev t) (l, r, c))"
      "ready d'" "km d' = km (vt_dev t)"
    unfolding via_firmware_def by blast
  from x(2-) show ?thesis
    by (auto simp: via_get_keycode_def andthen_def roundtrip_Inr[OF x(1)] lift_res_def ok_def
                   validate_echo_take[OF x(2)] Let_def ID_DYNAMIC_KEYMAP_GET_KEYCODE_def)
qed

lemma via_set_keycode_firmware:
  assumes "via_firmware (vt_fd t) (vt_timeout t) V H ready km" and "ready (vt_dev t)" and "(l, r, c) \<in> V"
  shows "\<exists>d'. via_set_keycode l r c k t = (Inr (), t\<lparr>vt_dev := d'\<rparr>)
    \<and> ready d' \<and> km d' = (km (vt_dev t))((l, r, c) := k)"
proof -
  from assms obtain resp d' where
    x: "exchange (vt_fd t) (vt_timeout t) (req_frame [0x05, l, r, c, u16_hi k, u16_lo k]) (vt_dev t) = (Inr resp, d')"
      "take 6 resp = [0x05, l, r, c, u16_hi k, u16_lo k]"
      "ready d'" "km d' = (km (vt_dev t))((l, r, c) := k)"
    unfolding via_firmware_def by blast
  from x(2-) show ?thesis
    by (auto simp: via_set_keycode_def andthen_def roundtrip_Inr[OF x(1)] lift_res_def ok_def
                   validate_echo_take[OF x(2)] Let_def ID_DYNAMIC_KEYMAP_SET_KEYCODE_def)
qed

lemma via_custom_save_firmware:
  assumes "via_firmware (vt_fd t) (vt_timeout t) V H ready km" and "ready (vt_dev t)" and "ch \<in> H"
  shows "\<exists>d'. via_custom_save ch t = (Inr (), t\<lparr>vt_dev := d'\<rparr>) \<and> ready d' \<and> km d' = km (vt_dev t)"
proof -
  from assms obtain resp d' where
    x: "exchange (vt_fd t) (vt_timeout t) (req_frame [0x09, ch]) (vt_dev t) = (Inr resp, d')"
      "take 2 resp = [0x09, ch]" "ready d'" "km d' = km (vt_dev t)"
    unfolding via_firmware_def by blast
  from x(2-) show ?thesis
    by (auto simp: via_custom_save_def andthen_def roundtrip_Inr[OF x(1)] lift_res_def ok_def
                   validate_echo_take[OF x(2)] Let_def ID_CUSTOM_SAVE_def)
qed

lemma vt_view_firmware:
  assumes "via_firmware (vt_fd t) (vt_timeout t) V H ready km" and "ready (vt_dev t)"
  shows "vt_view V t = (\<lambda>p. if p \<in> V then km (vt_dev t) p else 0)"
proof
  fix p :: key_pos
  obtain l r c where p: "p = (l, r, c)" by (cases p)
  show "vt_view V t p = (if p \<in> V then km (vt_dev t) p else 0)"
    using via_get_keycode_firmware[OF assms, of l r c] p by (auto simp: vt_view_def)
qed

lemma vt_healthy_dev:
  assumes "via_firmware (vt_fd t) (vt_timeout t) V H ready km" and "answers_also (vt_fd t) (vt_timeout t) F ready km"
    and "ready d"
  shows "vt_healthy V H F (t\<lparr>vt_dev := d\<rparr>)"
    and "vt_view V (t\<lparr>vt_dev := d\<rparr>) = (\<lambda>p. if p \<in> V then km d p else 0)"
  using assms vt_view_firmware[of "t\<lparr>vt_dev := d\<rparr>" V H ready km]
  by (auto simp: vt_healthy_def)

text \<open>The three laws a client of the transport needs.\<close>

lemma vt_get_law:
  assumes "vt_healthy V H F t" and "(l, r, c) \<in> V"
  shows "\<exists>t'. via_get_keycode l r c t = (Inr (vt_view V t (l, r, c)), t') \<and> vt_healthy V H F t'
    \<and> vt_view V t' = vt_view V t"
proof -
  from assms(1) obtain ready km where
    f: "via_firmware (vt_fd t) (vt_timeout t) V H ready km" "ready (vt_dev t)"
      and side: "answers_also (vt_fd t) (vt_timeout t) F ready km"
    by (auto simp: vt_healthy_def)
  from via_get_keycode_firmware[OF f assms(2)] obtain d' where
    "via_get_keycode l r c t = (Inr (km (vt_dev t) (l, r, c)), t\<lparr>vt_dev := d'\<rparr>)"
    "ready d'" "km d' = km (vt_dev t)" by blast
  with vt_healthy_dev[OF f(1) side, of d'] vt_view_firmware[OF f] assms(2) show ?thesis
    by (simp add: fun_eq_iff)
qed

lemma vt_set_law:
  assumes "vt_healthy V H F t" and "(l, r, c) \<in> V"
  shows "\<exists>t'. via_set_keycode l r c k t = (Inr (), t') \<and> vt_healthy V H F t'
    \<and> vt_view V t' = (vt_view V t)((l, r, c) := k)"
proof -
  from assms(1) obtain ready km where
    f: "via_firmware (vt_fd t) (vt_timeout t) V H ready km" "ready (vt_dev t)"
      and side: "answers_also (vt_fd t) (vt_timeout t) F ready km"
    by (auto simp: vt_healthy_def)
  from via_set_keycode_firmware[OF f assms(2)] obtain d' where
    "via_set_keycode l r c k t = (Inr (), t\<lparr>vt_dev := d'\<rparr>)"
    "ready d'" "km d' = (km (vt_dev t))((l, r, c) := k)" by blast
  with vt_healthy_dev[OF f(1) side, of d'] vt_view_firmware[OF f] assms(2) show ?thesis
    by (auto simp: fun_eq_iff)
qed

lemma vt_save_law:
  assumes "vt_healthy V H F t" and "ch \<in> H"
  shows "\<exists>t'. via_custom_save ch t = (Inr (), t') \<and> vt_healthy V H F t' \<and> vt_view V t' = vt_view V t"
proof -
  from assms(1) obtain ready km where
    f: "via_firmware (vt_fd t) (vt_timeout t) V H ready km" "ready (vt_dev t)"
      and side: "answers_also (vt_fd t) (vt_timeout t) F ready km"
    by (auto simp: vt_healthy_def)
  from via_custom_save_firmware[OF f assms(2)] obtain d' where
    "via_custom_save ch t = (Inr (), t\<lparr>vt_dev := d'\<rparr>)" "ready d'" "km d' = km (vt_dev t)" by blast
  with vt_healthy_dev[OF f(1) side, of d'] vt_view_firmware[OF f] show ?thesis
    by (simp add: fun_eq_iff)
qed

text \<open>A request beside the keymap: it is answered, and the keymap stays.\<close>

lemma vt_also_law:
  assumes "vt_healthy V H F t" and "bs \<in> F"
  shows "\<exists>resp t'. roundtrip (req_frame bs) op t = (Inr resp, t') \<and> vt_healthy V H F t' \<and> vt_view V t' = vt_view V t"
proof -
  from assms(1) obtain ready km where
    f: "via_firmware (vt_fd t) (vt_timeout t) V H ready km" "ready (vt_dev t)"
      and side: "answers_also (vt_fd t) (vt_timeout t) F ready km"
    by (auto simp: vt_healthy_def)
  with assms(2) obtain resp d' where
    x: "exchange (vt_fd t) (vt_timeout t) (req_frame bs) (vt_dev t) = (Inr resp, d')" "ready d'" "km d' = km (vt_dev t)"
    unfolding answers_also_def by blast
  with vt_healthy_dev[OF f(1) side x(2)] vt_view_firmware[OF f] roundtrip_Inr[OF x(1)] show ?thesis
    by (simp add: fun_eq_iff)
qed

end
