(* ===== verification/Coalescer.thy ===== *)
theory Coalescer
  imports Hal Topology Via_Transport
begin

text \<open>
  The opt-in write coalescer of \<open>src/hal/via.rs\<close>: \<open>run_coalescer\<close>, an actor that owns a
  \<open>CoalescerTransport\<close>, buffers \<open>set_keycode\<close> writes and flushes them on a deadline, on an
  explicit \<open>Flush\<close>, and when its command channel closes. The transport trait is a record of
  operations with its contract in the locale \<open>coalescer_transport\<close>.
\<close>

section \<open>The \<open>CoalescerTransport\<close> trait\<close>

record 't transport_ops =
  tr_get_protocol_version :: "('t, driver_error, u16) act"
  tr_get_keycode :: "u8 \<Rightarrow> u8 \<Rightarrow> u8 \<Rightarrow> ('t, driver_error, u16) act"
  tr_set_keycode :: "u8 \<Rightarrow> u8 \<Rightarrow> u8 \<Rightarrow> u16 \<Rightarrow> ('t, driver_error, unit) act"
  tr_get_layer_count :: "('t, driver_error, u8) act"
  tr_custom_save :: "u8 \<Rightarrow> ('t, driver_error, unit) act"
  tr_get_macro_buffer :: "u16 \<Rightarrow> u8 \<Rightarrow> ('t, driver_error, bytes) act"
  tr_set_macro_buffer :: "u16 \<Rightarrow> bytes \<Rightarrow> ('t, driver_error, unit) act"
  tr_get_lighting :: "u8 \<Rightarrow> u8 \<Rightarrow> ('t, driver_error, bytes) act"
  tr_set_lighting :: "u8 \<Rightarrow> u8 \<Rightarrow> bytes \<Rightarrow> ('t, driver_error, unit) act"

text \<open>\<open>impl CoalescerTransport for ViaTransport\<close>.\<close>

definition via_transport_ops :: "'d via_transport transport_ops" where
  "via_transport_ops =
     \<lparr>tr_get_protocol_version = via_get_protocol_version, tr_get_keycode = via_get_keycode,
      tr_set_keycode = via_set_keycode, tr_get_layer_count = via_get_layer_count,
      tr_custom_save = via_custom_save, tr_get_macro_buffer = via_get_macro_buffer,
      tr_set_macro_buffer = via_set_macro_buffer, tr_get_lighting = via_get_lighting,
      tr_set_lighting = via_set_lighting\<rparr>"

section \<open>The actor\<close>

datatype coalescer_op =
    CoGetProtocolVersion
  | CoGetKeycode u8 u8 u8
  | CoSetKeycode u8 u8 u8 u16
  | CoGetLayerCount
  | CoFlush
  | CoGetMacro u16 u8
  | CoSetMacro u16 bytes
  | CoGetLighting u8 u8
  | CoSetLighting u8 u8 bytes

text \<open>What travels back on the \<open>oneshot\<close> of an operation.\<close>

datatype co_reply =
    ReplyU16 "driver_error + u16"
  | ReplyU8 "driver_error + u8"
  | ReplyUnit "driver_error + unit"
  | ReplyBytes "driver_error + bytes"

record 't coalescer =
  co_transport :: "'t"
  co_buffer :: "(key_pos, u16) hash_map"
  co_deadline :: "nat option"
  co_touched :: "u8 hash_set"
  co_flush_interval :: nat
  co_device_id :: string
  co_has_lifecycle_tx :: bool
  co_events :: "lifecycle_event list"

definition run_coalescer_init ::
  "'t \<Rightarrow> nat \<Rightarrow> string \<Rightarrow> bool \<Rightarrow> (key_pos list \<Rightarrow> key_pos list) \<Rightarrow> (u8 list \<Rightarrow> u8 list) \<Rightarrow> 't coalescer" where
  "run_coalescer_init transport flush_interval device_id lifecycle kord cord =
     \<lparr>co_transport = transport, co_buffer = hm_new kord, co_deadline = None, co_touched = hs_new cord,
      co_flush_interval = flush_interval, co_device_id = device_id, co_has_lifecycle_tx = lifecycle,
      co_events = []\<rparr>"

definition emit_layout_updated :: "'t coalescer \<Rightarrow> 't coalescer" where
  "emit_layout_updated c =
     (if co_has_lifecycle_tx c then c\<lparr>co_events := co_events c @ [LayoutUpdated (co_device_id c)]\<rparr> else c)"

text \<open>
  \<open>flush_buffer\<close>: the keys are collected up front, each entry is written and removed, and the
  first error leaves the remaining entries in the buffer. The state is the transport and the
  buffer, the two things the function borrows mutably.
\<close>

fun flush_keys :: "('t, 'z) transport_ops_scheme \<Rightarrow> key_pos list
    \<Rightarrow> ('t \<times> (key_pos, u16) hash_map, driver_error, unit) act" where
  "flush_keys ops [] (t, buf) = (Inr (), t, buf)"
| "flush_keys ops (key # keys) (t, buf) =
     (case hm_get buf key of
        None \<Rightarrow> flush_keys ops keys (t, buf)
      | Some keycode \<Rightarrow>
          (case key of (layer, row, col) \<Rightarrow>
             case tr_set_keycode ops layer row col keycode t of
               (Inl e, t') \<Rightarrow> (Inl e, t', buf)
             | (Inr _, t') \<Rightarrow> flush_keys ops keys (t', hm_remove key buf)))"

definition flush_buffer :: "('t, 'z) transport_ops_scheme
    \<Rightarrow> ('t \<times> (key_pos, u16) hash_map, driver_error, unit) act" where
  "flush_buffer ops s =
     (if hm_is_empty (snd s) then (Inr (), s) else flush_keys ops (hm_keys (snd s)) s)"

fun save_channels :: "('t, 'z) transport_ops_scheme \<Rightarrow> u8 list
    \<Rightarrow> ('t \<times> u8 hash_set, driver_error, unit) act" where
  "save_channels ops [] (t, channels) = (Inr (), t, channels)"
| "save_channels ops (channel # pending) (t, channels) =
     (case tr_custom_save ops channel t of
        (Inl e, t') \<Rightarrow> (Inl e, t', channels)
      | (Inr _, t') \<Rightarrow> save_channels ops pending (t', hs_remove channel channels))"

definition save_touched_channels :: "('t, 'z) transport_ops_scheme
    \<Rightarrow> ('t \<times> u8 hash_set, driver_error, unit) act" where
  "save_touched_channels ops s = save_channels ops (hs_iter (snd s)) s"

text \<open>The two borrows, lifted to the actor's state.\<close>

definition co_flush :: "('t, 'z) transport_ops_scheme \<Rightarrow> ('t coalescer, driver_error, unit) act" where
  "co_flush ops c =
     (case flush_buffer ops (co_transport c, co_buffer c) of
        (r, t, buf) \<Rightarrow> (r, c\<lparr>co_transport := t, co_buffer := buf\<rparr>))"

definition co_save :: "('t, 'z) transport_ops_scheme \<Rightarrow> ('t coalescer, driver_error, unit) act" where
  "co_save ops c =
     (case save_touched_channels ops (co_transport c, co_touched c) of
        (r, t, chs) \<Rightarrow> (r, c\<lparr>co_transport := t, co_touched := chs\<rparr>))"

text \<open>An operation passed straight to the transport.\<close>

definition co_forward :: "('t, driver_error, 'a) act \<Rightarrow> ('t coalescer, driver_error, 'a) act" where
  "co_forward m c = (case m (co_transport c) of (r, t) \<Rightarrow> (r, c\<lparr>co_transport := t\<rparr>))"

definition reply_with :: "('a \<Rightarrow> co_reply) \<Rightarrow> 'a \<times> 't coalescer \<Rightarrow> co_reply \<times> 't coalescer" where
  "reply_with f x = (f (fst x), snd x)"

text \<open>The arm of the \<open>Flush\<close> operation: flush, announce, then save the touched channels.\<close>

definition co_handle_flush :: "('t, 'z) transport_ops_scheme \<Rightarrow> 't coalescer \<Rightarrow> co_reply \<times> 't coalescer" where
  "co_handle_flush ops c =
     (case co_flush ops c of
        (Inl e, c1) \<Rightarrow> (ReplyUnit (Inl e), c1\<lparr>co_deadline := None\<rparr>)
      | (Inr _, c1) \<Rightarrow>
          (case co_save ops (emit_layout_updated c1) of
             (r, c2) \<Rightarrow> (ReplyUnit r, c2\<lparr>co_deadline := None\<rparr>)))"

text \<open>One iteration of the select whose receive branch fired at time \<open>now\<close>.\<close>

fun co_handle :: "('t, 'z) transport_ops_scheme \<Rightarrow> nat \<Rightarrow> coalescer_op \<Rightarrow> 't coalescer
    \<Rightarrow> co_reply \<times> 't coalescer" where
  "co_handle ops now (CoSetKeycode layer row col keycode) c =
     (let c1 = c\<lparr>co_buffer := hm_insert (layer, row, col) keycode (co_buffer c)\<rparr>;
          c2 = (if co_deadline c1 = None then c1\<lparr>co_deadline := Some (now + co_flush_interval c1)\<rparr> else c1)
      in (ReplyUnit (Inr ()), c2))"
| "co_handle ops now (CoGetKeycode layer row col) c =
     (case hm_get (co_buffer c) (layer, row, col) of
        Some kc \<Rightarrow> (ReplyU16 (Inr kc), c)
      | None \<Rightarrow> reply_with ReplyU16 (co_forward (tr_get_keycode ops layer row col) c))"
| "co_handle ops now CoGetLayerCount c = reply_with ReplyU8 (co_forward (tr_get_layer_count ops) c)"
| "co_handle ops now CoGetProtocolVersion c =
     reply_with ReplyU16 (co_forward (tr_get_protocol_version ops) c)"
| "co_handle ops now CoFlush c = co_handle_flush ops c"
| "co_handle ops now (CoGetMacro offset len) c =
     reply_with ReplyBytes (co_forward (tr_get_macro_buffer ops offset len) c)"
| "co_handle ops now (CoSetMacro offset data) c =
     reply_with ReplyUnit (co_forward (tr_set_macro_buffer ops offset data) c)"
| "co_handle ops now (CoGetLighting channel value_id) c =
     reply_with ReplyBytes (co_forward (tr_get_lighting ops channel value_id) c)"
| "co_handle ops now (CoSetLighting channel value_id data) c =
     (case co_forward (tr_set_lighting ops channel value_id data) c of
        (Inl e, c1) \<Rightarrow> (ReplyUnit (Inl e), c1)
      | (Inr _, c1) \<Rightarrow> (ReplyUnit (Inr ()), c1\<lparr>co_touched := hs_insert channel (co_touched c1)\<rparr>))"

text \<open>The sleep branch, which can fire only once a deadline is set and reached.\<close>

definition co_auto_flush :: "('t, 'z) transport_ops_scheme \<Rightarrow> nat \<Rightarrow> 't coalescer \<Rightarrow> 't coalescer" where
  "co_auto_flush ops now c =
     (case co_flush ops c of
        (Inr _, c1) \<Rightarrow> (emit_layout_updated c1)\<lparr>co_deadline := None\<rparr>
      | (Inl _, c1) \<Rightarrow> c1\<lparr>co_deadline := Some (now + co_flush_interval c1)\<rparr>)"

text \<open>After the loop: the final flush and the final save.\<close>

definition co_shutdown :: "('t, 'z) transport_ops_scheme \<Rightarrow> 't coalescer \<Rightarrow> 't coalescer" where
  "co_shutdown ops c =
     (let c1 = (if hm_is_empty (co_buffer c) then c
                else case co_flush ops c of
                       (Inr _, c') \<Rightarrow> emit_layout_updated c'
                     | (Inl _, c') \<Rightarrow> c')
      in if hs_elems (co_touched c1) = [] then c1 else snd (co_save ops c1))"

text \<open>
  The loop: which branch of the (unbiased) select fires is the scheduler's choice, a label of
  the step relation. A closed channel leaves the loop, so it has no step.
\<close>

datatype co_label = CoReceived nat coalescer_op co_reply | CoFlushed nat

inductive co_step :: "('t, 'z) transport_ops_scheme \<Rightarrow> 't coalescer \<Rightarrow> co_label \<Rightarrow> 't coalescer \<Rightarrow> bool"
  for ops where
  co_recv: "co_handle ops now op c = (r, c') \<Longrightarrow> co_step ops c (CoReceived now op r) c'"
| co_sleep: "co_deadline c = Some d \<Longrightarrow> d \<le> now \<Longrightarrow> co_step ops c (CoFlushed now) (co_auto_flush ops now c)"

inductive_cases co_step_recvE: "co_step ops c (CoReceived now op r) c'"
inductive_cases co_step_sleepE: "co_step ops c (CoFlushed now) c'"
inductive_simps co_step_recv_iff: "co_step ops c (CoReceived now op r) c'"
inductive_simps co_step_sleep_iff: "co_step ops c (CoFlushed now) c'"

inductive co_run :: "('t, 'z) transport_ops_scheme \<Rightarrow> 't coalescer \<Rightarrow> co_label list \<Rightarrow> 't coalescer \<Rightarrow> bool"
  for ops where
  co_run_nil: "co_run ops c [] c"
| co_run_cons: "co_step ops c l c' \<Longrightarrow> co_run ops c' ls c'' \<Longrightarrow> co_run ops c (l # ls) c''"

section \<open>No pending write is lost or duplicated\<close>

text \<open>
  \<open>journal_ops\<close> is any transport with a record of the \<open>set_keycode\<close> calls it acknowledged. Nothing
  is assumed of the transport: it may fail at any call.
\<close>

definition journal_ops :: "('t, 'z) transport_ops_scheme
    \<Rightarrow> ('t \<times> (key_pos \<times> u16) list) transport_ops" where
  "journal_ops ops =
     \<lparr>tr_get_protocol_version = (\<lambda>(t, j). case tr_get_protocol_version ops t of (r, t') \<Rightarrow> (r, t', j)),
      tr_get_keycode = (\<lambda>l r c (t, j). case tr_get_keycode ops l r c t of (x, t') \<Rightarrow> (x, t', j)),
      tr_set_keycode = (\<lambda>l r c k (t, j). case tr_set_keycode ops l r c k t of
          (Inl e, t') \<Rightarrow> (Inl e, t', j)
        | (Inr _, t') \<Rightarrow> (Inr (), t', j @ [((l, r, c), k)])),
      tr_get_layer_count = (\<lambda>(t, j). case tr_get_layer_count ops t of (r, t') \<Rightarrow> (r, t', j)),
      tr_custom_save = (\<lambda>ch (t, j). case tr_custom_save ops ch t of (r, t') \<Rightarrow> (r, t', j)),
      tr_get_macro_buffer = (\<lambda>a b (t, j). case tr_get_macro_buffer ops a b t of (r, t') \<Rightarrow> (r, t', j)),
      tr_set_macro_buffer = (\<lambda>a b (t, j). case tr_set_macro_buffer ops a b t of (r, t') \<Rightarrow> (r, t', j)),
      tr_get_lighting = (\<lambda>a b (t, j). case tr_get_lighting ops a b t of (r, t') \<Rightarrow> (r, t', j)),
      tr_set_lighting = (\<lambda>a b d (t, j). case tr_set_lighting ops a b d t of (r, t') \<Rightarrow> (r, t', j))\<rparr>"

lemma flush_keys_conserves:
  assumes "flush_keys (journal_ops ops) keys ((t, j), buf) = (r, (t', j'), buf')" and "distinct keys"
  shows "\<exists>js. j' = j @ js \<and> distinct (map fst js) \<and> set (map fst js) \<subseteq> set keys
    \<and> hm_get buf = hm_get buf' ++ map_of js \<and> (\<forall>k \<in> set (map fst js). hm_get buf' k = None)
    \<and> (r = Inr () \<longrightarrow> (\<forall>k \<in> set keys. hm_get buf' k = None))
    \<and> (r \<noteq> Inr () \<longrightarrow> (\<exists>k \<in> set keys. hm_get buf' k \<noteq> None))"
  using assms
proof (induction keys arbitrary: t j buf)
  case Nil
  then show ?case by auto
next
  case (Cons key keys)
  obtain a b c where key: "key = (a, b, c)" by (cases key)
  show ?case
  proof (cases "hm_get buf key")
    case None
    with Cons.prems have "flush_keys (journal_ops ops) keys ((t, j), buf) = (r, (t', j'), buf')" "distinct keys"
      by auto
    from Cons.IH[OF this] obtain js where js: "j' = j @ js" "distinct (map fst js)"
      "set (map fst js) \<subseteq> set keys" "hm_get buf = hm_get buf' ++ map_of js"
      "\<forall>k \<in> set (map fst js). hm_get buf' k = None"
      "r = Inr () \<longrightarrow> (\<forall>k \<in> set keys. hm_get buf' k = None)"
      "r \<noteq> Inr () \<longrightarrow> (\<exists>k \<in> set keys. hm_get buf' k \<noteq> None)" by blast
    have "hm_get buf' key = None"
      using None js(4) by (metis map_add_None)
    with js show ?thesis by (intro exI[of _ js]) auto
  next
    case (Some k)
    obtain x u where x: "tr_set_keycode ops a b c k t = (x, u)" by fastforce
    show ?thesis
    proof (cases x)
      case (Inl e)
      with Some x key Cons.prems show ?thesis
        by (intro exI[of _ "[]"]) (auto simp: journal_ops_def)
    next
      case (Inr y)
      with Some x key Cons.prems have
        "flush_keys (journal_ops ops) keys ((u, j @ [(key, k)]), hm_remove key buf) = (r, (t', j'), buf')"
        "distinct keys" by (auto simp: journal_ops_def)
      from Cons.IH[OF this] obtain js where js: "j' = (j @ [(key, k)]) @ js" "distinct (map fst js)"
        "set (map fst js) \<subseteq> set keys" "hm_get (hm_remove key buf) = hm_get buf' ++ map_of js"
        "\<forall>k \<in> set (map fst js). hm_get buf' k = None"
        "r = Inr () \<longrightarrow> (\<forall>k \<in> set keys. hm_get buf' k = None)"
        "r \<noteq> Inr () \<longrightarrow> (\<exists>k \<in> set keys. hm_get buf' k \<noteq> None)" by blast
      have gone: "hm_get buf' key = None"
        using js(4) by (metis fun_upd_same hm_get_remove map_add_None)
      have fresh: "key \<notin> set (map fst js)"
        using js(3) Cons.prems(2) by auto
      have eq: "hm_get buf = hm_get buf' ++ map_of ((key, k) # js)"
      proof
        fix p
        show "hm_get buf p = (hm_get buf' ++ map_of ((key, k) # js)) p"
          using fun_cong[OF js(4), of p] Some fresh by (cases "p = key") (auto simp: map_add_def)
      qed
      show ?thesis
      proof (intro exI[of _ "(key, k) # js"] conjI)
        show "hm_get buf = hm_get buf' ++ map_of ((key, k) # js)" by (rule eq)
      qed (use js gone fresh in auto)
    qed
  qed
qed

lemma flush_buffer_conserves:
  assumes "hm_wf buf" and "flush_buffer (journal_ops ops) ((t, j), buf) = (r, (t', j'), buf')"
  shows "\<exists>js. j' = j @ js \<and> distinct (map fst js) \<and> hm_get buf = hm_get buf' ++ map_of js
    \<and> dom (hm_get buf') \<inter> dom (map_of js) = {} \<and> (r = Inr () \<longleftrightarrow> hm_is_empty buf')"
proof (cases "hm_is_empty buf")
  case True
  with assms(2) show ?thesis by (auto simp: flush_buffer_def)
next
  case False
  with assms(2) have "flush_keys (journal_ops ops) (hm_keys buf) ((t, j), buf) = (r, (t', j'), buf')"
    by (simp add: flush_buffer_def)
  from flush_keys_conserves[OF this distinct_hm_keys[OF assms(1)]] obtain js where
    js: "j' = j @ js" "distinct (map fst js)" "hm_get buf = hm_get buf' ++ map_of js"
      "\<forall>k \<in> set (map fst js). hm_get buf' k = None"
      "r = Inr () \<longrightarrow> (\<forall>k \<in> dom (hm_get buf). hm_get buf' k = None)"
      "r \<noteq> Inr () \<longrightarrow> (\<exists>k \<in> dom (hm_get buf). hm_get buf' k \<noteq> None)"
    unfolding set_hm_keys[OF assms(1)] by blast
  have "dom (hm_get buf') \<subseteq> dom (hm_get buf)"
    unfolding js(3) by auto
  with js(5) have "r = Inr () \<Longrightarrow> hm_get buf' = Map.empty" by (metis domIff subsetD ext)
  moreover have "dom (map_of js) = set (map fst js)"
    by (simp add: dom_map_of_conv_image_fst)
  ultimately show ?thesis
    using js by (intro exI[of _ js]) (auto simp: hm_is_empty_iff)
qed

section \<open>The deadline\<close>

lemma co_flush_fields:
  assumes "co_flush ops c = (r, c')"
  shows "co_deadline c' = co_deadline c" "co_touched c' = co_touched c" "co_events c' = co_events c"
    "co_flush_interval c' = co_flush_interval c" "co_device_id c' = co_device_id c"
    "co_has_lifecycle_tx c' = co_has_lifecycle_tx c"
  using assms by (auto simp: co_flush_def split: prod.splits)

lemma co_save_fields:
  assumes "co_save ops c = (r, c')"
  shows "co_deadline c' = co_deadline c" "co_buffer c' = co_buffer c" "co_events c' = co_events c"
    "co_flush_interval c' = co_flush_interval c" "co_device_id c' = co_device_id c"
    "co_has_lifecycle_tx c' = co_has_lifecycle_tx c"
  using assms by (auto simp: co_save_def split: prod.splits)

lemma co_forward_fields:
  assumes "co_forward m c = (r, c')"
  shows "co_deadline c' = co_deadline c" "co_buffer c' = co_buffer c" "co_events c' = co_events c"
    "co_flush_interval c' = co_flush_interval c" "co_device_id c' = co_device_id c"
    "co_has_lifecycle_tx c' = co_has_lifecycle_tx c" "co_touched c' = co_touched c"
  using assms by (auto simp: co_forward_def split: prod.splits)

lemma co_forward_snd [simp]:
  "co_deadline (snd (co_forward m c)) = co_deadline c" "co_buffer (snd (co_forward m c)) = co_buffer c"
  "co_events (snd (co_forward m c)) = co_events c" "co_touched (snd (co_forward m c)) = co_touched c"
  "co_has_lifecycle_tx (snd (co_forward m c)) = co_has_lifecycle_tx c"
  "co_device_id (snd (co_forward m c)) = co_device_id c"
  by (cases "co_forward m c"; simp add: co_forward_fields)+

lemma co_flush_snd [simp]:
  "co_deadline (snd (co_flush ops c)) = co_deadline c" "co_touched (snd (co_flush ops c)) = co_touched c"
  "co_events (snd (co_flush ops c)) = co_events c"
  "co_has_lifecycle_tx (snd (co_flush ops c)) = co_has_lifecycle_tx c"
  "co_device_id (snd (co_flush ops c)) = co_device_id c"
  by (cases "co_flush ops c"; simp add: co_flush_fields)+

lemma co_save_snd [simp]:
  "co_deadline (snd (co_save ops c)) = co_deadline c" "co_buffer (snd (co_save ops c)) = co_buffer c"
  "co_events (snd (co_save ops c)) = co_events c"
  by (cases "co_save ops c"; simp add: co_save_fields)+

lemma emit_layout_updated_fields [simp]:
  "co_deadline (emit_layout_updated c) = co_deadline c" "co_buffer (emit_layout_updated c) = co_buffer c"
  "co_transport (emit_layout_updated c) = co_transport c" "co_touched (emit_layout_updated c) = co_touched c"
  "co_flush_interval (emit_layout_updated c) = co_flush_interval c"
  "co_device_id (emit_layout_updated c) = co_device_id c"
  "co_has_lifecycle_tx (emit_layout_updated c) = co_has_lifecycle_tx c"
  by (simp_all add: emit_layout_updated_def)

lemma emit_layout_updated_events [simp]:
  "co_events (emit_layout_updated c) =
     co_events c @ (if co_has_lifecycle_tx c then [LayoutUpdated (co_device_id c)] else [])"
  by (simp add: emit_layout_updated_def)

lemmas co_fields = co_flush_fields co_save_fields co_forward_fields

text \<open>An operation that is not a flush leaves an armed deadline where it is: the window is not sliding.\<close>

lemma co_handle_deadline:
  assumes "co_handle ops now op c = (r, c')" and "op \<noteq> CoFlush"
  shows "co_deadline c' = (case co_deadline c of
      Some d \<Rightarrow> Some d
    | None \<Rightarrow> (case op of CoSetKeycode _ _ _ _ \<Rightarrow> Some (now + co_flush_interval c) | _ \<Rightarrow> None))"
  using assms
  by (cases op) (auto simp: reply_with_def Let_def dest: co_fields
                      split: option.splits prod.splits sum.splits if_splits)

text \<open>
  \<open>armed\<close>: a non-empty buffer has a deadline. Every iteration keeps it except an explicit flush
  that fails, which clears the deadline and keeps the entries.
\<close>

definition armed :: "'t coalescer \<Rightarrow> bool" where
  "armed c \<longleftrightarrow> hm_is_empty (co_buffer c) \<or> co_deadline c \<noteq> None"

lemma journal_ops_sim:
  "flush_keys (journal_ops ops) keys ((t, j), buf) =
    (case flush_keys ops keys (t, buf) of (r, t', buf') \<Rightarrow>
       (r, (t', snd (fst (snd (flush_keys (journal_ops ops) keys ((t, j), buf))))), buf'))"
proof (induction keys arbitrary: t j buf)
  case Nil
  then show ?case by simp
next
  case (Cons key keys)
  obtain a b c where key: "key = (a, b, c)" by (cases key)
  show ?case
  proof (cases "hm_get buf key")
    case None
    then show ?thesis using Cons.IH[of t j buf] by simp
  next
    case (Some k)
    obtain x u where x: "tr_set_keycode ops a b c k t = (x, u)" by fastforce
    show ?thesis
    proof (cases x)
      case (Inl e)
      with Some x key show ?thesis by (simp add: journal_ops_def)
    next
      case (Inr y)
      have step: "flush_keys (journal_ops ops) (key # keys) ((t, j), buf) =
          flush_keys (journal_ops ops) keys ((u, j @ [(key, k)]), hm_remove key buf)"
        using Some x Inr key by (simp add: journal_ops_def)
      have "flush_keys ops (key # keys) (t, buf) = flush_keys ops keys (u, hm_remove key buf)"
        using Some x Inr key by simp
      with Cons.IH[of u "j @ [(key, k)]" "hm_remove key buf"] step show ?thesis by simp
    qed
  qed
qed

lemma flush_buffer_ok_iff:
  assumes "hm_wf buf" and "flush_buffer ops (t, buf) = (r, t', buf')"
  shows "r = Inr () \<longleftrightarrow> hm_is_empty buf'"
proof -
  have "\<exists>j'. flush_buffer (journal_ops ops) ((t, []), buf) = (r, (t', j'), buf')"
    using assms(2) journal_ops_sim[of ops "hm_keys buf" t "[]" buf]
    by (cases "hm_is_empty buf") (auto simp: flush_buffer_def)
  then show ?thesis using flush_buffer_conserves[OF assms(1)] by metis
qed

lemma co_flush_ok_iff:
  assumes "hm_wf (co_buffer c)" and "co_flush ops c = (r, c')"
  shows "r = Inr () \<longleftrightarrow> hm_is_empty (co_buffer c')"
  using assms by (auto simp: co_flush_def dest: flush_buffer_ok_iff split: prod.splits)

lemma flush_keys_wf:
  "flush_keys ops keys (t, buf) = (r, t', buf') \<Longrightarrow> hm_wf buf \<Longrightarrow> hm_wf buf'"
  by (induction keys arbitrary: t buf) (auto split: option.splits prod.splits sum.splits)

lemma co_flush_wf:
  "co_flush ops c = (r, c') \<Longrightarrow> hm_wf (co_buffer c) \<Longrightarrow> hm_wf (co_buffer c')"
  by (auto simp: co_flush_def flush_buffer_def dest: flush_keys_wf split: prod.splits if_splits)

definition co_wf :: "'t coalescer \<Rightarrow> bool" where
  "co_wf c \<longleftrightarrow> hm_wf (co_buffer c) \<and> hs_wf (co_touched c)"

text \<open>The failed explicit flush: entries are retained and nothing will wake the actor for them.\<close>

lemma co_flush_failure_strands:
  assumes "hm_wf (co_buffer c)" and "co_flush ops c = (Inl e, c1)"
    and "co_handle ops now CoFlush c = (r, c')"
  shows "r = ReplyUnit (Inl e)" "\<not> hm_is_empty (co_buffer c')" "co_deadline c' = None"
    "\<not> co_step ops c' (CoFlushed later) c''"
proof -
  have "\<not> hm_is_empty (co_buffer c1)" using co_flush_ok_iff[OF assms(1,2)] by simp
  with assms(2,3) show "r = ReplyUnit (Inl e)" "\<not> hm_is_empty (co_buffer c')" "co_deadline c' = None"
    by (auto simp: co_handle_flush_def)
  then show "\<not> co_step ops c' (CoFlushed later) c''" by (simp add: co_step_sleep_iff)
qed

lemma co_handle_buffer:
  assumes "co_handle ops now op c = (r, c')" and "op \<noteq> CoFlush"
    and "\<nexists>l r c k. op = CoSetKeycode l r c k"
  shows "co_buffer c' = co_buffer c"
  using assms
  by (cases op) (auto simp: reply_with_def dest: co_fields split: option.splits prod.splits sum.splits)

lemma co_handle_armed:
  assumes "co_handle ops now op c = (r, c')" and "armed c" and "co_wf c"
    and "op = CoFlush \<Longrightarrow> is_ok (fst (co_flush ops c))"
  shows "armed c'"
proof (cases "op = CoFlush")
  case True
  obtain q c1 where q: "co_flush ops c = (q, c1)" by fastforce
  with True assms(4) have "q = Inr ()" by (cases q) auto
  with q assms(1) True co_flush_ok_iff[OF _ q] assms(3) show ?thesis
    by (auto simp: co_handle_flush_def armed_def co_wf_def dest: co_save_fields split: prod.splits)
next
  case False
  note deadline = co_handle_deadline[OF assms(1) False]
  show ?thesis
  proof (cases "\<exists>l r c k. op = CoSetKeycode l r c k")
    case True
    with deadline show ?thesis by (auto simp: armed_def split: option.splits)
  next
    case False
    with \<open>op \<noteq> CoFlush\<close> have "co_buffer c' = co_buffer c"
      using co_handle_buffer[OF assms(1)] by blast
    moreover have "co_deadline c' = co_deadline c"
      using deadline False by (auto split: option.splits coalescer_op.splits)
    ultimately show ?thesis using assms(2) by (simp add: armed_def)
  qed
qed

lemma co_auto_flush_armed:
  assumes "co_wf c"
  shows "armed (co_auto_flush ops now c)"
proof -
  obtain q c1 where q: "co_flush ops c = (q, c1)" by fastforce
  with assms co_flush_ok_iff[OF _ q] show ?thesis
    by (cases q) (auto simp: co_auto_flush_def armed_def co_wf_def)
qed

section \<open>One event per successful flush\<close>

definition flush_of_label :: "co_label \<Rightarrow> bool" where
  "flush_of_label l = (case l of CoReceived _ op _ \<Rightarrow> op = CoFlush | CoFlushed _ \<Rightarrow> True)"

lemma co_step_events:
  assumes "co_step ops c l c'"
  shows "co_events c' = co_events c @
    (if co_has_lifecycle_tx c \<and> flush_of_label l \<and> is_ok (fst (co_flush ops c))
     then [LayoutUpdated (co_device_id c)] else [])"
  using assms
proof cases
  case (co_recv now op r)
  show ?thesis
  proof (cases "op = CoFlush")
    case True
    with co_recv show ?thesis
      by (auto simp: co_handle_flush_def flush_of_label_def prod.case_eq_if is_ok_def split: sum.splits)
  next
    case False
    with co_recv(2) show ?thesis
      unfolding co_recv(1)
      by (cases op) (auto simp: flush_of_label_def reply_with_def Let_def dest: co_fields
                          split: option.splits prod.splits sum.splits if_splits)
  qed
next
  case (co_sleep d now)
  then show ?thesis
    by (auto simp: co_auto_flush_def flush_of_label_def prod.case_eq_if is_ok_def split: sum.splits)
qed

end
