(* ===== verification/Coalescer_Spec.thy ===== *)
theory Coalescer_Spec
  imports Coalescer
begin

text \<open>
  The contract between the coalescer and its transport, and what the actor promises over it: the
  buffered keymap in front of a device is, to every reader, the keymap an unbuffered device
  would hold, through flushes, auto-flushes and the shutdown.
\<close>

section \<open>The transport contract\<close>

text \<open>
  \<open>V\<close> are the positions the board has and \<open>H\<close> the custom channels it handles; \<open>view t\<close> is the
  keymap in the device behind \<open>t\<close>.
\<close>

locale coalescer_transport =
  fixes ops :: "('t, 'z) transport_ops_scheme"
    and healthy :: "'t \<Rightarrow> bool"
    and view :: "'t \<Rightarrow> key_pos \<Rightarrow> u16"
    and V :: "key_pos set"
    and H :: "u8 set" and F :: "bytes set"
  assumes get_law: "healthy t \<Longrightarrow> (l, r, c) \<in> V \<Longrightarrow>
      \<exists>t'. tr_get_keycode ops l r c t = (Inr (view t (l, r, c)), t') \<and> healthy t' \<and> view t' = view t"
    and set_law: "healthy t \<Longrightarrow> (l, r, c) \<in> V \<Longrightarrow>
      \<exists>t'. tr_set_keycode ops l r c k t = (Inr (), t') \<and> healthy t' \<and> view t' = (view t)((l, r, c) := k)"
    and save_law: "healthy t \<Longrightarrow> ch \<in> H \<Longrightarrow>
      \<exists>t'. tr_custom_save ops ch t = (Inr (), t') \<and> healthy t' \<and> view t' = view t"
begin

lemma flush_keys_healthy:
  assumes "healthy t" and "dom (hm_get buf) \<subseteq> V"
  shows "\<exists>t' buf'. flush_keys ops keys (t, buf) = (Inr (), t', buf') \<and> healthy t'
    \<and> hm_get buf' = hm_get buf |` (- set keys)
    \<and> overlay (hm_get buf') (view t') = overlay (hm_get buf) (view t)"
  using assms
proof (induction keys arbitrary: t buf)
  case Nil
  then show ?case by simp
next
  case (Cons key keys)
  obtain a b c where key: "key = (a, b, c)" by (cases key)
  show ?case
  proof (cases "hm_get buf key")
    case None
    then have "hm_get buf |` (- set (key # keys)) = hm_get buf |` (- set keys)"
      by (auto simp: restrict_map_def)
    with None Cons.IH[OF Cons.prems] show ?thesis by simp
  next
    case (Some k)
    with Cons.prems key have "(a, b, c) \<in> V" by auto
    from set_law[OF Cons.prems(1) this, of k] obtain u where
      u: "tr_set_keycode ops a b c k t = (Inr (), u)" "healthy u" "view u = (view t)((a, b, c) := k)" by blast
    have step: "flush_keys ops (key # keys) (t, buf) = flush_keys ops keys (u, hm_remove key buf)"
      using Some u(1) key by simp
    have "dom (hm_get (hm_remove key buf)) \<subseteq> V" using Cons.prems(2) by auto
    from Cons.IH[OF u(2) this] obtain t' buf' where
      IH: "flush_keys ops keys (u, hm_remove key buf) = (Inr (), t', buf')" "healthy t'"
        "hm_get buf' = hm_get (hm_remove key buf) |` (- set keys)"
        "overlay (hm_get buf') (view t') = overlay (hm_get (hm_remove key buf)) (view u)"
      by blast
    have "hm_get (hm_remove key buf) |` (- set keys) = hm_get buf |` (- set (key # keys))"
      by (auto simp: restrict_map_def)
    with IH overlay_move[of "hm_get buf" key k "view t"] Some u(3) key show ?thesis
      unfolding step by auto
  qed
qed

lemma flush_buffer_healthy:
  assumes "healthy t" and "hm_wf buf" and "dom (hm_get buf) \<subseteq> V"
  shows "\<exists>t' buf'. flush_buffer ops (t, buf) = (Inr (), t', buf') \<and> healthy t'
    \<and> hm_wf buf' \<and> hm_get buf' = Map.empty \<and> view t' = overlay (hm_get buf) (view t)"
proof (cases "hm_is_empty buf")
  case True
  then show ?thesis using assms by (auto simp: flush_buffer_def hm_is_empty_iff)
next
  case False
  from flush_keys_healthy[OF assms(1,3), of "hm_keys buf"] obtain t' buf' where
    f: "flush_keys ops (hm_keys buf) (t, buf) = (Inr (), t', buf')" "healthy t'"
      "hm_get buf' = hm_get buf |` (- dom (hm_get buf))"
      "overlay (hm_get buf') (view t') = overlay (hm_get buf) (view t)"
    unfolding set_hm_keys[OF assms(2)] by blast
  have e: "hm_get buf' = Map.empty"
    unfolding f(3) by (auto simp: restrict_map_def)
  have "view t' = overlay (hm_get buf) (view t)"
    using f(4) unfolding e by simp
  with e f(1,2) False flush_keys_wf[OF f(1) assms(2)] show ?thesis
    by (auto simp: flush_buffer_def)
qed

lemma save_channels_healthy:
  assumes "healthy t" and "set pending \<subseteq> H"
  shows "\<exists>t' chs'. save_channels ops pending (t, chs) = (Inr (), t', chs') \<and> healthy t' \<and> view t' = view t
    \<and> hs_set chs' = hs_set chs - set pending \<and> (hs_wf chs \<longrightarrow> hs_wf chs')"
  using assms
proof (induction pending arbitrary: t chs)
  case Nil
  then show ?case by simp
next
  case (Cons ch pending)
  from save_law[OF Cons.prems(1), of ch] Cons.prems(2) obtain u where
    u: "tr_custom_save ops ch t = (Inr (), u)" "healthy u" "view u = view t" by auto
  from Cons.IH[OF u(2), of "hs_remove ch chs"] Cons.prems(2) obtain t' chs' where
    "save_channels ops pending (u, hs_remove ch chs) = (Inr (), t', chs')" "healthy t'" "view t' = view u"
    "hs_set chs' = hs_set chs - {ch} - set pending" "hs_wf (hs_remove ch chs) \<longrightarrow> hs_wf chs'" by auto
  with u show ?case by (intro exI[of _ t'] exI[of _ chs']) auto
qed

section \<open>The buffered keymap\<close>

definition co_view :: "'t coalescer \<Rightarrow> key_pos \<Rightarrow> u16" where
  "co_view c = overlay (hm_get (co_buffer c)) (view (co_transport c))"

definition co_good :: "'t coalescer \<Rightarrow> bool" where
  "co_good c \<longleftrightarrow> healthy (co_transport c) \<and> co_wf c \<and> dom (hm_get (co_buffer c)) \<subseteq> V
     \<and> hs_set (co_touched c) \<subseteq> H"

lemma co_flush_healthy:
  assumes "co_good c"
  shows "\<exists>c'. co_flush ops c = (Inr (), c') \<and> co_good c' \<and> hm_get (co_buffer c') = Map.empty
    \<and> co_view c' = co_view c \<and> view (co_transport c') = co_view c \<and> co_touched c' = co_touched c"
  using assms flush_buffer_healthy[of "co_transport c" "co_buffer c"]
  by (fastforce simp: co_flush_def co_good_def co_wf_def co_view_def)

lemma co_save_healthy:
  assumes "co_good c"
  shows "\<exists>c'. co_save ops c = (Inr (), c') \<and> co_good c' \<and> co_buffer c' = co_buffer c
    \<and> co_view c' = co_view c \<and> hs_set (co_touched c') = {} \<and> view (co_transport c') = view (co_transport c)"
proof -
  have wf: "hs_wf (co_touched c)" and h: "healthy (co_transport c)" and H: "hs_set (co_touched c) \<subseteq> H"
    using assms by (auto simp: co_good_def co_wf_def)
  from save_channels_healthy[OF h, of "hs_iter (co_touched c)" "co_touched c"] H wf
  show ?thesis
    using assms
    by (fastforce simp: co_save_def save_touched_channels_def set_hs_iter co_good_def co_wf_def co_view_def)
qed

lemma co_good_frame:
  "co_good c \<Longrightarrow> co_transport c' = co_transport c \<Longrightarrow> co_buffer c' = co_buffer c
   \<Longrightarrow> co_touched c' = co_touched c \<Longrightarrow> co_good c' \<and> co_view c' = co_view c"
  by (simp add: co_good_def co_wf_def co_view_def)

lemma co_handle_get:
  assumes "co_good c" and "(l, r, k) \<in> V"
  shows "\<exists>c'. co_handle ops now (CoGetKeycode l r k) c = (ReplyU16 (Inr (co_view c (l, r, k))), c')
    \<and> co_good c' \<and> co_view c' = co_view c"
proof (cases "hm_get (co_buffer c) (l, r, k)")
  case None
  from get_law[OF _ assms(2), of "co_transport c"] assms(1) obtain t' where
    "tr_get_keycode ops l r k (co_transport c) = (Inr (view (co_transport c) (l, r, k)), t')"
    "healthy t'" "view t' = view (co_transport c)" by (auto simp: co_good_def)
  with None assms(1) show ?thesis
    by (auto simp: overlay_None co_forward_def reply_with_def co_good_def co_wf_def co_view_def)
next
  case (Some v)
  with assms show ?thesis by (auto simp: co_view_def overlay_Some)
qed

lemma co_handle_set:
  assumes "co_good c" and "(l, r, k) \<in> V"
  shows "\<exists>c'. co_handle ops now (CoSetKeycode l r k v) c = (ReplyUnit (Inr ()), c')
    \<and> co_good c' \<and> co_view c' = (co_view c)((l, r, k) := v)"
  using assms by (auto simp: Let_def co_good_def co_wf_def co_view_def)

lemma co_handle_flush_healthy:
  assumes "co_good c"
  shows "\<exists>c'. co_handle ops now CoFlush c = (ReplyUnit (Inr ()), c')
    \<and> co_good c' \<and> co_view c' = co_view c \<and> view (co_transport c') = co_view c
    \<and> hm_is_empty (co_buffer c') \<and> hs_set (co_touched c') = {}"
proof -
  from co_flush_healthy[OF assms] obtain c1 where
    c1: "co_flush ops c = (Inr (), c1)" "co_good c1" "hm_get (co_buffer c1) = Map.empty"
      "co_view c1 = co_view c" "view (co_transport c1) = co_view c" by blast
  let ?c1 = "emit_layout_updated c1"
  have e: "co_good ?c1" "co_view ?c1 = co_view c"
    using co_good_frame[OF c1(2), of ?c1] c1(4) by simp_all
  from co_save_healthy[OF e(1)] obtain c2 where
    c2: "co_save ops ?c1 = (Inr (), c2)" "co_good c2" "co_buffer c2 = co_buffer c1"
      "co_view c2 = co_view ?c1" "hs_set (co_touched c2) = {}" "view (co_transport c2) = view (co_transport c1)"
    by auto
  have "co_good (c2\<lparr>co_deadline := None\<rparr>) \<and> co_view (c2\<lparr>co_deadline := None\<rparr>) = co_view c2"
    by (rule co_good_frame[OF c2(2)]) simp_all
  with c1 c2 e show ?thesis
    by (simp add: co_handle_flush_def hm_is_empty_iff)
qed

lemma co_auto_flush_healthy:
  assumes "co_good c"
  shows "co_good (co_auto_flush ops now c)" "co_view (co_auto_flush ops now c) = co_view c"
    "view (co_transport (co_auto_flush ops now c)) = co_view c"
proof -
  from co_flush_healthy[OF assms] obtain c1 where
    c1: "co_flush ops c = (Inr (), c1)" "co_good c1" "co_view c1 = co_view c" "view (co_transport c1) = co_view c"
    by blast
  have "co_good ((emit_layout_updated c1)\<lparr>co_deadline := None\<rparr>)
      \<and> co_view ((emit_layout_updated c1)\<lparr>co_deadline := None\<rparr>) = co_view c1"
    by (rule co_good_frame[OF c1(2)]) simp_all
  with c1 show "co_good (co_auto_flush ops now c)" "co_view (co_auto_flush ops now c) = co_view c"
    "view (co_transport (co_auto_flush ops now c)) = co_view c"
    by (simp_all add: co_auto_flush_def)
qed

text \<open>The shutdown of the actor leaves the device with every write the client made.\<close>

lemma co_shutdown_healthy:
  assumes "co_good c"
  shows "view (co_transport (co_shutdown ops c)) = co_view c \<and> co_good (co_shutdown ops c)"
proof -
  let ?c1 = "if hm_is_empty (co_buffer c) then c
     else case co_flush ops c of (Inr _, c') \<Rightarrow> emit_layout_updated c' | (Inl _, c') \<Rightarrow> c'"
  have c1: "co_good ?c1 \<and> view (co_transport ?c1) = co_view c"
  proof (cases "hm_is_empty (co_buffer c)")
    case True
    with assms show ?thesis by (simp add: co_view_def hm_is_empty_iff)
  next
    case False
    from co_flush_healthy[OF assms] obtain c1 where
      c1: "co_flush ops c = (Inr (), c1)" "co_good c1" "view (co_transport c1) = co_view c" by blast
    then have "co_good (emit_layout_updated c1)"
      using co_good_frame[OF c1(2), of "emit_layout_updated c1"] by simp
    with False c1 show ?thesis by simp
  qed
  then show ?thesis
    using co_save_healthy[of ?c1] by (fastforce simp: co_shutdown_def Let_def)
qed

end

section \<open>The VIA transport keeps the contract\<close>

interpretation via_tr: coalescer_transport via_transport_ops "vt_healthy V H F" "vt_view V" V H
  for V :: "key_pos set" and H :: "u8 set" and F :: "bytes set"
  by unfold_locales (auto simp: via_transport_ops_def intro: vt_get_law vt_set_law vt_save_law)

end
