(* ===== verification/Via_Driver.thy ===== *)
theory Via_Driver
  imports Hid_Descriptor Coalescer_Spec
begin

text \<open>
  \<open>ViaDriver\<close> of \<open>src/hal/via.rs\<close>: opening a hidraw node (with the report-descriptor probe), the
  two modes of the driver, and its \<open>KeyboardDriver\<close> implementation. In direct mode each method is
  a round trip; in coalescing mode each method is relayed to the actor, whose state is then part
  of the driver's. The actor's clock is the field \<open>vd_now\<close>, advanced by the environment.
\<close>

section \<open>Opening a node\<close>

text \<open>
  What the kernel answers about a node: \<open>open(2)\<close>, \<open>HIDIOCGRDESCSIZE\<close> and \<open>HIDIOCGRDESC\<close>, which fills the
  size field and the 4096-byte value of \<open>HidrawReportDescriptor\<close>, and the registration of the descriptor with the
  reactor.
\<close>

record 'd hid_node =
  hn_open :: "nat + ('d hidraw \<times> 'd)"
  hn_desc_size :: "nat + int"
  hn_desc :: "u32 \<Rightarrow> nat + (u32 \<times> bytes)"
  hn_register :: "io_error + unit"

definition HID_MAX_DESCRIPTOR_SIZE :: nat where "HID_MAX_DESCRIPTOR_SIZE = 4096"
definition VIA_USAGE_PAGE :: u16 where "VIA_USAGE_PAGE = 0xFF60"
definition COALESCER_CHANNEL_CAPACITY :: nat where "COALESCER_CHANNEL_CAPACITY = 64"

text \<open>\<open>desc_size\<close> is a \<open>c_int\<close>; past the sign test its cast to \<open>usize\<close> is its value.\<close>

definition probe_via_usage_page :: "'d hid_node \<Rightarrow> driver_error + unit" where
  "probe_via_usage_page node =
     (case hn_desc_size node of
        Inl e \<Rightarrow> Inl (Io (io_from_errno e))
      | Inr desc_size \<Rightarrow>
          if desc_size \<le> 0 then Inl (ProtocolViolation ''invalid or empty HID report descriptor size'')
          else
            let sz = min (nat desc_size) HID_MAX_DESCRIPTOR_SIZE in
            (case hn_desc node (word_of_nat sz) of
               Inl e \<Rightarrow> Inl (Io (io_from_errno e))
             | Inr (rpt_size, val) \<Rightarrow>
                 let desc_bytes = take (min (unat rpt_size) HID_MAX_DESCRIPTOR_SIZE) val in
                 if hid_descriptor_has_usage_page desc_bytes VIA_USAGE_PAGE = Some True then Inr ()
                 else Inl (ProtocolViolation ''no VIA Usage Page (0xFF60) in HID descriptor'')))"

definition open_transport :: "string \<Rightarrow> 'd hid_node \<Rightarrow> driver_error + ('d via_transport \<times> string)" where
  "open_transport path node =
     (case hn_open node of
        Inl errno \<Rightarrow> Inl (classify_open_errno errno path)
      | Inr (hw, dev) \<Rightarrow>
          (case probe_via_usage_page node of
             Inl e \<Rightarrow> Inl e
           | Inr _ \<Rightarrow>
               let device_id = device_id_of_path path
               in (case via_transport_new (hn_register node) hw dev device_id DEFAULT_TIMEOUT_MS of
                     Inl e \<Rightarrow> Inl e
                   | Inr transport \<Rightarrow> Inr (transport, device_id))))"

section \<open>The driver\<close>

text \<open>The actor is \<open>None\<close> once it is gone: a send on its channel then fails.\<close>

datatype 'd via_inner =
    Direct "'d via_transport" "u8 hash_set"
  | Coalesced "'d via_transport coalescer option"

record 'd via_driver =
  vd_inner :: "'d via_inner"
  vd_matrix :: "u8 \<times> u8"
  vd_device_id :: string
  vd_protocol_version :: "u16 option"
  vd_now :: nat

definition via_new :: "(u8 list \<Rightarrow> u8 list) \<Rightarrow> string \<Rightarrow> 'd hid_node \<Rightarrow> u8 \<times> u8 \<Rightarrow> nat
    \<Rightarrow> driver_error + 'd via_driver" where
  "via_new cord path node matrix now =
     (case open_transport path node of
        Inl e \<Rightarrow> Inl e
      | Inr (transport, device_id) \<Rightarrow>
          Inr \<lparr>vd_inner = Direct transport (hs_new cord), vd_matrix = matrix, vd_device_id = device_id,
               vd_protocol_version = None, vd_now = now\<rparr>)"

definition via_with_coalescing :: "(key_pos list \<Rightarrow> key_pos list) \<Rightarrow> (u8 list \<Rightarrow> u8 list) \<Rightarrow> string
    \<Rightarrow> 'd hid_node \<Rightarrow> u8 \<times> u8 \<Rightarrow> nat \<Rightarrow> bool \<Rightarrow> nat \<Rightarrow> driver_error + 'd via_driver" where
  "via_with_coalescing kord cord path node matrix flush_interval lifecycle now =
     (case open_transport path node of
        Inl e \<Rightarrow> Inl e
      | Inr (transport, device_id) \<Rightarrow>
          Inr \<lparr>vd_inner = Coalesced (Some (run_coalescer_init transport flush_interval device_id lifecycle kord cord)),
               vd_matrix = matrix, vd_device_id = device_id, vd_protocol_version = None, vd_now = now\<rparr>)"

type_synonym ('d, 'a) vd_act = "('d via_driver, driver_error, 'a) act"

text \<open>
  \<open>relay\<close>: build the operation, send it, await its reply. The projections read the reply off the
  \<open>oneshot\<close> of the operation's type; a reply of another type cannot arrive, and a dropped one is
  a disconnect.
\<close>

fun reply_u16 :: "co_reply \<Rightarrow> driver_error + u16" where
  "reply_u16 (ReplyU16 r) = r" | "reply_u16 _ = Inl Disconnected"

fun reply_u8 :: "co_reply \<Rightarrow> driver_error + u8" where
  "reply_u8 (ReplyU8 r) = r" | "reply_u8 _ = Inl Disconnected"

fun reply_unit :: "co_reply \<Rightarrow> driver_error + unit" where
  "reply_unit (ReplyUnit r) = r" | "reply_unit _ = Inl Disconnected"

fun reply_bytes :: "co_reply \<Rightarrow> driver_error + bytes" where
  "reply_bytes (ReplyBytes r) = r" | "reply_bytes _ = Inl Disconnected"

definition relay :: "(co_reply \<Rightarrow> driver_error + 'a) \<Rightarrow> coalescer_op
    \<Rightarrow> 'd via_transport coalescer option \<Rightarrow> ('d, 'a) vd_act" where
  "relay proj op actor d =
     (case actor of
        None \<Rightarrow> (Inl Disconnected, d)
      | Some c \<Rightarrow>
          (case co_handle via_transport_ops (vd_now d) op c of
             (r, c') \<Rightarrow> (proj r, d\<lparr>vd_inner := Coalesced (Some c')\<rparr>)))"

text \<open>A method of the transport called in direct mode.\<close>

definition direct :: "('d, 'a) via_act \<Rightarrow> 'd via_transport \<Rightarrow> u8 hash_set \<Rightarrow> ('d, 'a) vd_act" where
  "direct m transport touched d =
     (case m transport of (r, t') \<Rightarrow> (r, d\<lparr>vd_inner := Direct t' touched\<rparr>))"

definition via_dispatch :: "('d, 'a) via_act \<Rightarrow> (co_reply \<Rightarrow> driver_error + 'a) \<Rightarrow> coalescer_op
    \<Rightarrow> ('d, 'a) vd_act" where
  "via_dispatch m proj op d =
     (case vd_inner d of
        Direct transport touched \<Rightarrow> direct m transport touched d
      | Coalesced actor \<Rightarrow> relay proj op actor d)"

definition ensure_protocol_version :: "('d, u16) vd_act" where
  "ensure_protocol_version d =
     (case vd_protocol_version d of
        Some version \<Rightarrow> (Inr version, d)
      | None \<Rightarrow>
          andthen (via_dispatch via_get_protocol_version reply_u16 CoGetProtocolVersion) (\<lambda>version d'.
            (Inr version, d'\<lparr>vd_protocol_version := Some version\<rparr>)) d)"

definition vd_get_matrix_dimensions :: "('d, u8 \<times> u8) vd_act" where
  "vd_get_matrix_dimensions = andthen ensure_protocol_version (\<lambda>_ d. (Inr (vd_matrix d), d))"

definition vd_get_layer_count :: "('d, u8) vd_act" where
  "vd_get_layer_count =
     andthen ensure_protocol_version (\<lambda>_. via_dispatch via_get_layer_count reply_u8 CoGetLayerCount)"

definition vd_get_keycode :: "u8 \<Rightarrow> u8 \<Rightarrow> u8 \<Rightarrow> ('d, u16) vd_act" where
  "vd_get_keycode layer row col =
     via_dispatch (via_get_keycode layer row col) reply_u16 (CoGetKeycode layer row col)"

definition vd_set_keycode :: "u8 \<Rightarrow> u8 \<Rightarrow> u8 \<Rightarrow> u16 \<Rightarrow> ('d, unit) vd_act" where
  "vd_set_keycode layer row col keycode =
     via_dispatch (via_set_keycode layer row col keycode) reply_unit (CoSetKeycode layer row col keycode)"

definition vd_get_macro_buffer :: "u16 \<Rightarrow> u8 \<Rightarrow> ('d, bytes) vd_act" where
  "vd_get_macro_buffer offset len =
     via_dispatch (via_get_macro_buffer offset len) reply_bytes (CoGetMacro offset len)"

definition vd_set_macro_buffer :: "u16 \<Rightarrow> bytes \<Rightarrow> ('d, unit) vd_act" where
  "vd_set_macro_buffer offset data =
     via_dispatch (via_set_macro_buffer offset data) reply_unit (CoSetMacro offset data)"

definition vd_get_lighting :: "u8 \<Rightarrow> u8 \<Rightarrow> ('d, bytes) vd_act" where
  "vd_get_lighting channel value_id =
     via_dispatch (via_get_lighting channel value_id) reply_bytes (CoGetLighting channel value_id)"

definition vd_set_lighting :: "u8 \<Rightarrow> u8 \<Rightarrow> bytes \<Rightarrow> ('d, unit) vd_act" where
  "vd_set_lighting channel value_id data d =
     (case vd_inner d of
        Direct transport touched \<Rightarrow>
          (case via_set_lighting channel value_id data transport of
             (Inl e, t') \<Rightarrow> (Inl e, d\<lparr>vd_inner := Direct t' touched\<rparr>)
           | (Inr _, t') \<Rightarrow> (Inr (), d\<lparr>vd_inner := Direct t' (hs_insert channel touched)\<rparr>))
      | Coalesced actor \<Rightarrow> relay reply_unit (CoSetLighting channel value_id data) actor d)"

definition vd_commit_to_nvram :: "('d, unit) vd_act" where
  "vd_commit_to_nvram d =
     (case vd_inner d of
        Direct transport touched \<Rightarrow>
          (case save_touched_channels via_transport_ops (transport, touched) of
             (r, t', touched') \<Rightarrow> (r, d\<lparr>vd_inner := Direct t' touched'\<rparr>))
      | Coalesced actor \<Rightarrow> relay reply_unit CoFlush actor d)"

definition vd_emits_layout_event_per_set :: "'d via_driver \<Rightarrow> bool" where
  "vd_emits_layout_event_per_set d = (case vd_inner d of Direct _ _ \<Rightarrow> True | Coalesced _ \<Rightarrow> False)"

definition via_driver_ops :: "'d via_driver driver_ops" where
  "via_driver_ops =
     \<lparr>kd_get_matrix_dimensions = vd_get_matrix_dimensions, kd_get_layer_count = vd_get_layer_count,
      kd_get_keycode = vd_get_keycode, kd_set_keycode = vd_set_keycode,
      kd_get_macro_buffer = vd_get_macro_buffer, kd_set_macro_buffer = vd_set_macro_buffer,
      kd_get_lighting = vd_get_lighting, kd_set_lighting = vd_set_lighting,
      kd_commit_to_nvram = vd_commit_to_nvram,
      kd_emits_layout_event_per_set = vd_emits_layout_event_per_set,
      kd_model_name = default_model_name\<rparr>"

text \<open>
  Between two calls the clock advances, and the actor's sleep branch may fire once its deadline
  has passed (the select is not biased, so it may also lose the race to the next operation).
\<close>

inductive via_idle :: "'d via_driver \<Rightarrow> 'd via_driver \<Rightarrow> bool" where
  via_elapse: "vd_now d \<le> now \<Longrightarrow> via_idle d (d\<lparr>vd_now := now\<rparr>)"
| via_timer: "vd_inner d = Coalesced (Some c) \<Longrightarrow> co_deadline c = Some dl \<Longrightarrow> dl \<le> vd_now d
    \<Longrightarrow> via_idle d (d\<lparr>vd_inner := Coalesced (Some (co_auto_flush via_transport_ops (vd_now d) c))\<rparr>)"

text \<open>Dropping the driver: the actor drains, the direct transport just closes.\<close>

definition via_drop :: "'d via_driver \<Rightarrow> 'd via_transport option" where
  "via_drop d = (case vd_inner d of
      Direct transport _ \<Rightarrow> Some transport
    | Coalesced (Some c) \<Rightarrow> Some (co_transport (co_shutdown via_transport_ops c))
    | Coalesced None \<Rightarrow> None)"

lemmas vd_defs = vd_get_matrix_dimensions_def vd_get_layer_count_def vd_get_keycode_def
  vd_set_keycode_def vd_get_macro_buffer_def vd_set_macro_buffer_def vd_get_lighting_def
  vd_set_lighting_def vd_commit_to_nvram_def

section \<open>The driver keeps the contract of the trait\<close>

definition vd_healthy :: "key_pos set \<Rightarrow> u8 set \<Rightarrow> bytes set \<Rightarrow> 'd via_driver \<Rightarrow> bool" where
  "vd_healthy V H F d = (case vd_inner d of
      Direct t touched \<Rightarrow> vt_healthy V H F t \<and> hs_wf touched \<and> hs_set touched \<subseteq> H
    | Coalesced (Some c) \<Rightarrow> via_tr.co_good V H F c
    | Coalesced None \<Rightarrow> False)"

definition vd_view :: "key_pos set \<Rightarrow> 'd via_driver \<Rightarrow> key_pos \<Rightarrow> u16" where
  "vd_view V d = (case vd_inner d of
      Direct t _ \<Rightarrow> vt_view V t
    | Coalesced (Some c) \<Rightarrow> via_tr.co_view V c
    | Coalesced None \<Rightarrow> (\<lambda>_. 0))"

lemma vd_healthy_cases:
  assumes "vd_healthy V H F d"
  obtains (direct) t touched where "vd_inner d = Direct t touched" "vt_healthy V H F t" "hs_wf touched"
      "hs_set touched \<subseteq> H" "vd_view V d = vt_view V t"
    | (coalesced) c where "vd_inner d = Coalesced (Some c)" "via_tr.co_good V H F c"
      "vd_view V d = via_tr.co_view V c"
  using assms by (auto simp: vd_healthy_def vd_view_def split: via_inner.splits option.splits)

lemma vd_get_view:
  assumes "vd_healthy V H F d" and "(l, r, c) \<in> V"
  shows "\<exists>d'. vd_get_keycode l r c d = (Inr (vd_view V d (l, r, c)), d') \<and> vd_healthy V H F d'
    \<and> vd_view V d' = vd_view V d"
  using assms(1)
proof (cases rule: vd_healthy_cases)
  case (direct t touched)
  with vt_get_law[OF direct(2) assms(2)] show ?thesis
    by (auto simp: vd_get_keycode_def via_dispatch_def direct_def vd_healthy_def vd_view_def)
next
  case (coalesced co)
  with via_tr.co_handle_get[OF coalesced(2) assms(2), of "vd_now d"] show ?thesis
    by (auto simp: vd_get_keycode_def via_dispatch_def relay_def vd_healthy_def vd_view_def)
qed

lemma vd_set_view:
  assumes "vd_healthy V H F d" and "(l, r, c) \<in> V"
  shows "\<exists>d'. vd_set_keycode l r c k d = (Inr (), d') \<and> vd_healthy V H F d'
    \<and> vd_view V d' = (vd_view V d)((l, r, c) := k)"
  using assms(1)
proof (cases rule: vd_healthy_cases)
  case (direct t touched)
  with vt_set_law[OF direct(2) assms(2), of k] show ?thesis
    by (auto simp: vd_set_keycode_def via_dispatch_def direct_def vd_healthy_def vd_view_def)
next
  case (coalesced co)
  with via_tr.co_handle_set[OF coalesced(2) assms(2), of "vd_now d" k] show ?thesis
    by (auto simp: vd_set_keycode_def via_dispatch_def relay_def vd_healthy_def vd_view_def)
qed

lemma vd_commit_view:
  assumes "vd_healthy V H F d"
  shows "\<exists>d'. vd_commit_to_nvram d = (Inr (), d') \<and> vd_healthy V H F d' \<and> vd_view V d' = vd_view V d"
  using assms
proof (cases rule: vd_healthy_cases)
  case (direct t touched)
  with via_tr.save_channels_healthy[OF direct(2), of "hs_iter touched" touched] show ?thesis
    by (auto simp: vd_commit_to_nvram_def save_touched_channels_def set_hs_iter vd_healthy_def vd_view_def)
next
  case (coalesced co)
  with via_tr.co_handle_flush_healthy[OF coalesced(2), of "vd_now d"] show ?thesis
    by (auto simp: vd_commit_to_nvram_def relay_def vd_healthy_def vd_view_def)
qed

interpretation via_kd: keyboard_driver via_driver_ops "vd_healthy V H F" "vd_view V" V
  for V :: "key_pos set" and H :: "u8 set" and F :: "bytes set"
  by unfold_locales (auto simp: via_driver_ops_def intro: vd_get_view vd_set_view vd_commit_view)

lemma via_idle_view:
  assumes "via_idle d d'" and "vd_healthy V H F d"
  shows "vd_healthy V H F d'" "vd_view V d' = vd_view V d"
  using assms
  by (induction rule: via_idle.induct)
     (auto simp: vd_healthy_def vd_view_def via_tr.co_auto_flush_healthy split: via_inner.splits option.splits)

end
