(* ===== verification/Via_Props.thy ===== *)
theory Via_Props
  imports Via_Driver
begin

text \<open>
  What the VIA driver guarantees as a whole: the frames that reach the device in any session of
  calls and timer firings, the equivalence of its two modes, and the behaviour of a lighting
  channel the firmware does not handle.
\<close>

section \<open>Sessions\<close>

inductive via_session :: "'d via_driver \<Rightarrow> 'd via_driver \<Rightarrow> bool" where
  session_start: "via_session d d"
| session_call: "via_session d d' \<Longrightarrow> via_session d (kd_invoke via_driver_ops call d')"
| session_idle: "via_session d d' \<Longrightarrow> via_idle d' d'' \<Longrightarrow> via_session d d''"

lemma via_session_invariant:
  assumes "via_session d d'" and "P d"
    and "\<And>call x. P x \<Longrightarrow> P (kd_invoke via_driver_ops call x)"
    and "\<And>x y. P x \<Longrightarrow> via_idle x y \<Longrightarrow> P y"
  shows "P d'"
  using assms by (induction rule: via_session.induct) auto

section \<open>Lifting an invariant of the transport\<close>

text \<open>A predicate that every transport operation keeps is kept by the actor and by the driver.\<close>

definition ops_preserve :: "('t \<Rightarrow> bool) \<Rightarrow> ('t, 'z) transport_ops_scheme \<Rightarrow> bool" where
  "ops_preserve P ops \<longleftrightarrow>
     preserves P (tr_get_protocol_version ops) \<and> (\<forall>l r c. preserves P (tr_get_keycode ops l r c))
   \<and> (\<forall>l r c k. preserves P (tr_set_keycode ops l r c k)) \<and> preserves P (tr_get_layer_count ops)
   \<and> (\<forall>ch. preserves P (tr_custom_save ops ch)) \<and> (\<forall>a b. preserves P (tr_get_macro_buffer ops a b))
   \<and> (\<forall>a b. preserves P (tr_set_macro_buffer ops a b)) \<and> (\<forall>a b. preserves P (tr_get_lighting ops a b))
   \<and> (\<forall>a b c. preserves P (tr_set_lighting ops a b c))"

lemma flush_keys_preserves:
  assumes "ops_preserve P ops" and "flush_keys ops keys (t, buf) = (r, t', buf')" and "P t"
  shows "P t'"
  using assms(2,3)
proof (induction keys arbitrary: t buf)
  case Nil
  then show ?case by simp
next
  case (Cons key keys)
  obtain a b c where key: "key = (a, b, c)" by (cases key)
  have "P (snd (tr_set_keycode ops a b c k t))" for k
    using assms(1) Cons.prems(2) by (simp add: ops_preserve_def preserves_def)
  with Cons key show ?case
    by (auto split: option.splits prod.splits sum.splits) (metis snd_conv)+
qed

lemma save_channels_preserves:
  assumes "ops_preserve P ops" and "save_channels ops chs (t, s) = (r, t', s')" and "P t"
  shows "P t'"
  using assms(2,3)
proof (induction chs arbitrary: t s)
  case Nil
  then show ?case by simp
next
  case (Cons ch chs)
  have "P (snd (tr_custom_save ops ch t))"
    using assms(1) Cons.prems(2) by (simp add: ops_preserve_def preserves_def)
  with Cons show ?case by (auto split: prod.splits sum.splits)
qed

lemma co_flush_preserves:
  "ops_preserve P ops \<Longrightarrow> co_flush ops c = (r, c') \<Longrightarrow> P (co_transport c) \<Longrightarrow> P (co_transport c')"
  by (auto simp: co_flush_def flush_buffer_def dest: flush_keys_preserves split: prod.splits if_splits)

lemma co_save_preserves:
  "ops_preserve P ops \<Longrightarrow> co_save ops c = (r, c') \<Longrightarrow> P (co_transport c) \<Longrightarrow> P (co_transport c')"
  by (auto simp: co_save_def save_touched_channels_def dest: save_channels_preserves split: prod.splits)

lemma co_forward_preserves:
  "preserves P m \<Longrightarrow> P (co_transport c) \<Longrightarrow> P (co_transport (snd (co_forward m c)))"
  by (auto simp: co_forward_def preserves_def split: prod.split)

lemma co_handle_flush_preserves:
  assumes "ops_preserve P ops" and "P (co_transport c)"
  shows "P (co_transport (snd (co_handle_flush ops c)))"
proof (cases "co_flush ops c")
  case (Pair r c1)
  have c1: "P (co_transport c1)" by (rule co_flush_preserves[OF assms(1) Pair assms(2)])
  obtain q c2 where c2: "co_save ops (emit_layout_updated c1) = (q, c2)" by fastforce
  have "P (co_transport c2)" using co_save_preserves[OF assms(1) c2] c1 by simp
  with Pair c1 c2 show ?thesis by (cases r) (simp_all add: co_handle_flush_def)
qed

lemma ops_preserveD:
  assumes "ops_preserve P ops"
  shows "preserves P (tr_get_protocol_version ops)" "preserves P (tr_get_keycode ops l r c)"
    "preserves P (tr_set_keycode ops l r c k)" "preserves P (tr_get_layer_count ops)"
    "preserves P (tr_custom_save ops ch)" "preserves P (tr_get_macro_buffer ops off len)"
    "preserves P (tr_set_macro_buffer ops off data)" "preserves P (tr_get_lighting ops ch v)"
    "preserves P (tr_set_lighting ops ch v data)"
  using assms unfolding ops_preserve_def by blast+

lemma co_handle_preserves:
  assumes "ops_preserve P ops" and "P (co_transport c)"
  shows "P (co_transport (snd (co_handle ops now op c)))"
proof -
  note fwd = co_forward_preserves[where P = P and c = c, OF _ assms(2)] and D = ops_preserveD[OF assms(1)]
  show ?thesis
  proof (cases op)
    case CoFlush
    then show ?thesis using co_handle_flush_preserves[OF assms] by simp
  next
    case (CoGetKeycode l r k)
    then show ?thesis using fwd[OF D(2)] assms(2) by (simp add: reply_with_def split: option.split)
  next
    case (CoSetLighting ch v data)
    then show ?thesis using fwd[OF D(9), of ch v data]
      by (cases "co_forward (tr_set_lighting ops ch v data) c") (simp split: sum.split)
  qed (simp_all add: reply_with_def Let_def fwd D assms(2))
qed

lemma co_auto_flush_preserves:
  "ops_preserve P ops \<Longrightarrow> P (co_transport c) \<Longrightarrow> P (co_transport (co_auto_flush ops now c))"
  by (auto simp: co_auto_flush_def dest: co_flush_preserves split: prod.split sum.split)

text \<open>
  A predicate on what is inside a driver: one for the direct transport with its touched channels,
  one for the actor. The context says what has to be shown of the two once, and the lemmas lift
  it to every call and every session.
\<close>

definition on_inner :: "('d via_transport \<Rightarrow> u8 hash_set \<Rightarrow> bool) \<Rightarrow> ('d via_transport coalescer \<Rightarrow> bool)
    \<Rightarrow> 'd via_driver \<Rightarrow> bool" where
  "on_inner Pd Pc d = (case vd_inner d of
      Direct t s \<Rightarrow> Pd t s
    | Coalesced (Some c) \<Rightarrow> Pc c
    | Coalesced None \<Rightarrow> False)"

locale driver_invariant =
  fixes Pd :: "'d via_transport \<Rightarrow> u8 hash_set \<Rightarrow> bool"
    and Pc :: "'d via_transport coalescer \<Rightarrow> bool"
  assumes direct_op: "ops_preserve (\<lambda>t. Pd t s) via_transport_ops"
    and direct_touch: "Pd t s \<Longrightarrow> Pd t (hs_insert ch s)"
    and direct_save: "save_touched_channels via_transport_ops (t, s) = (r, t', s') \<Longrightarrow> Pd t s \<Longrightarrow> Pd t' s'"
    and actor_op: "Pc c \<Longrightarrow> Pc (snd (co_handle via_transport_ops now op c))"
    and actor_timer: "Pc c \<Longrightarrow> Pc (co_auto_flush via_transport_ops now c)"
begin

lemma relay_preserves:
  "vd_inner d = Coalesced actor \<Longrightarrow> on_inner Pd Pc d \<Longrightarrow> on_inner Pd Pc (snd (relay proj op actor d))"
  using actor_op[of _ "vd_now d" op]
  by (auto simp: relay_def on_inner_def prod.case_eq_if split: option.splits)

lemma via_dispatch_preserves:
  assumes "\<And>s. preserves (\<lambda>t. Pd t s) m"
  shows "preserves (on_inner Pd Pc) (via_dispatch m proj op)"
proof (rule preservesI)
  fix d assume d: "on_inner Pd Pc d"
  show "on_inner Pd Pc (snd (via_dispatch m proj op d))"
  proof (cases "vd_inner d")
    case (Direct t s)
    then have "Pd (snd (m t)) s" using d preservesD[OF assms] by (simp add: on_inner_def)
    with Direct show ?thesis by (simp add: via_dispatch_def direct_def on_inner_def prod.case_eq_if)
  next
    case (Coalesced actor)
    then show ?thesis using relay_preserves[OF Coalesced d] by (simp add: via_dispatch_def)
  qed
qed

lemma on_inner_version [simp]: "on_inner Pd Pc (d\<lparr>vd_protocol_version := v\<rparr>) = on_inner Pd Pc d"
  by (simp add: on_inner_def)

lemma ensure_protocol_version_preserves: "preserves (on_inner Pd Pc) ensure_protocol_version"
proof (rule preservesI)
  fix d assume d: "on_inner Pd Pc d"
  let ?m = "via_dispatch via_get_protocol_version reply_u16 CoGetProtocolVersion"
  have "preserves (on_inner Pd Pc) ?m"
    using ops_preserveD(1)[OF direct_op] by (intro via_dispatch_preserves) (simp add: via_transport_ops_def)
  then have "on_inner Pd Pc (snd (?m d))" using d by (rule preservesD)
  then show "on_inner Pd Pc (snd (ensure_protocol_version d))"
    using d by (cases "?m d") (auto simp: ensure_protocol_version_def andthen_def split: option.split sum.split)
qed

lemma direct_ops:
  "preserves (\<lambda>t. Pd t s) (via_get_keycode l r c)" "preserves (\<lambda>t. Pd t s) (via_set_keycode l r c k)"
  "preserves (\<lambda>t. Pd t s) via_get_layer_count" "preserves (\<lambda>t. Pd t s) (via_get_macro_buffer off len)"
  "preserves (\<lambda>t. Pd t s) (via_set_macro_buffer off data)" "preserves (\<lambda>t. Pd t s) (via_get_lighting ch v)"
  "preserves (\<lambda>t. Pd t s) (via_set_lighting ch v data)"
  using ops_preserveD[OF direct_op[of s]] by (auto simp: via_transport_ops_def)

lemma set_lighting_preserves: "preserves (on_inner Pd Pc) (vd_set_lighting ch v data)"
proof (rule preservesI)
  fix d assume d: "on_inner Pd Pc d"
  show "on_inner Pd Pc (snd (vd_set_lighting ch v data d))"
  proof (cases "vd_inner d")
    case (Direct t s)
    obtain r t' where t': "via_set_lighting ch v data t = (r, t')" by fastforce
    then have "Pd t' s" using preservesD[OF direct_ops(7), of t s ch v data] d Direct by (simp add: on_inner_def)
    with Direct t' direct_touch show ?thesis by (cases r) (simp_all add: vd_set_lighting_def on_inner_def)
  next
    case (Coalesced actor)
    with relay_preserves[OF Coalesced d] show ?thesis by (simp add: vd_set_lighting_def)
  qed
qed

lemma commit_preserves: "preserves (on_inner Pd Pc) vd_commit_to_nvram"
proof (rule preservesI)
  fix d assume d: "on_inner Pd Pc d"
  show "on_inner Pd Pc (snd (vd_commit_to_nvram d))"
  proof (cases "vd_inner d")
    case (Direct t s)
    then show ?thesis
      using d direct_save[of t s] by (auto simp: vd_commit_to_nvram_def on_inner_def split: prod.split)
  next
    case (Coalesced actor)
    with relay_preserves[OF Coalesced d] show ?thesis by (simp add: vd_commit_to_nvram_def)
  qed
qed

lemma kd_invoke_preserves:
  assumes "on_inner Pd Pc d"
  shows "on_inner Pd Pc (kd_invoke via_driver_ops call d)"
proof -
  note dispatch = preservesD[OF via_dispatch_preserves assms]
  have dims: "preserves (on_inner Pd Pc) vd_get_matrix_dimensions"
    unfolding vd_get_matrix_dimensions_def
    by (intro preserves_andthen ensure_protocol_version_preserves) (simp add: preserves_def)
  have layers: "preserves (on_inner Pd Pc) vd_get_layer_count"
    unfolding vd_get_layer_count_def
    by (intro preserves_andthen ensure_protocol_version_preserves via_dispatch_preserves direct_ops)
  note whole = dims layers set_lighting_preserves commit_preserves
  show ?thesis
    by (cases call; simp add: via_driver_ops_def whole[THEN preservesD, OF assms])
       (simp_all add: vd_defs dispatch direct_ops)
qed

lemma idle_preserves: "via_idle d d' \<Longrightarrow> on_inner Pd Pc d \<Longrightarrow> on_inner Pd Pc d'"
  by (induction rule: via_idle.induct) (auto simp: on_inner_def actor_timer)

lemma session_preserves: "via_session d d' \<Longrightarrow> on_inner Pd Pc d \<Longrightarrow> on_inner Pd Pc d'"
  using via_session_invariant[of d d' "on_inner Pd Pc"] kd_invoke_preserves idle_preserves by blast

end

section \<open>The wire\<close>

lemma via_ops_preserve_wire: "ops_preserve wire_inv via_transport_ops"
  by (auto simp: ops_preserve_def via_transport_ops_def intro: preserves_intros)

lemma save_touched_preserves:
  "ops_preserve P ops \<Longrightarrow> save_touched_channels ops (t, s) = (r, t', s') \<Longrightarrow> P t \<Longrightarrow> P t'"
  by (auto simp: save_touched_channels_def dest: save_channels_preserves)

interpretation wire_kept: driver_invariant "\<lambda>t _. wire_inv t" "\<lambda>c. wire_inv (co_transport c)"
  by unfold_locales
     (auto intro: via_ops_preserve_wire co_handle_preserves co_auto_flush_preserves save_touched_preserves)

definition on_wire :: "('d \<times> bytes list) via_driver \<Rightarrow> bool" where
  "on_wire = on_inner (\<lambda>t _. wire_inv t) (\<lambda>c. wire_inv (co_transport c))"

definition wire_log :: "('d \<times> bytes list) via_driver \<Rightarrow> bytes list" where
  "wire_log d = (case vd_inner d of
      Direct t _ \<Rightarrow> snd (vt_dev t)
    | Coalesced (Some c) \<Rightarrow> snd (vt_dev (co_transport c))
    | Coalesced None \<Rightarrow> [])"

definition reported_macro_size :: "'d via_driver \<Rightarrow> u16 option" where
  "reported_macro_size d = (case vd_inner d of
      Direct t _ \<Rightarrow> vt_macro_buffer_size t
    | Coalesced (Some c) \<Rightarrow> vt_macro_buffer_size (co_transport c)
    | Coalesced None \<Rightarrow> None)"

lemma wire_log_ok:
  "on_wire d \<Longrightarrow> buf \<in> set (wire_log d) \<Longrightarrow> wire_ok (reported_macro_size d) buf"
  by (auto simp: on_wire_def on_inner_def wire_inv_def wire_log_def reported_macro_size_def
           split: via_inner.splits option.splits)

text \<open>A driver just opened on a node, in either mode.\<close>

definition freshly_opened :: "'d hid_node \<Rightarrow> 'd via_driver \<Rightarrow> bool" where
  "freshly_opened node d \<longleftrightarrow>
     (\<exists>cord path matrix now. reorders cord \<and> via_new cord path node matrix now = Inr d)
   \<or> (\<exists>kord cord path matrix ms lc now. reorders kord \<and> reorders cord
        \<and> via_with_coalescing kord cord path node matrix ms lc now = Inr d)"

lemma open_transport_fresh:
  assumes "open_transport path node = Inr (t, i)" and "hn_open node = Inr (hw, dev)"
  shows "t = via_transport_on hw dev i DEFAULT_TIMEOUT_MS"
  using assms by (auto simp: open_transport_def via_transport_new_def Let_def split: sum.splits)

lemma freshly_opened_cases:
  assumes "freshly_opened node d" and "hn_open node = Inr (hw, dev)"
  obtains i cord where "reorders cord" "vd_inner d = Direct (via_transport_on hw dev i DEFAULT_TIMEOUT_MS) (hs_new cord)"
    | i ms lc kord cord where "reorders kord" "reorders cord" "vd_inner d = Coalesced (Some
        (run_coalescer_init (via_transport_on hw dev i DEFAULT_TIMEOUT_MS) ms i lc kord cord))"
  using assms(1) unfolding freshly_opened_def
proof (elim disjE exE conjE)
  fix cord path matrix now
  assume "reorders cord" "via_new cord path node matrix now = Inr d"
  with open_transport_fresh[OF _ assms(2)] show thesis
    using that(1) by (fastforce simp: via_new_def split: sum.splits)
next
  fix kord cord path matrix ms lc now
  assume "reorders kord" "reorders cord" "via_with_coalescing kord cord path node matrix ms lc now = Inr d"
  with open_transport_fresh[OF _ assms(2)] show thesis
    using that(2) by (fastforce simp: via_with_coalescing_def split: sum.splits)
qed

lemma freshly_opened_wire:
  assumes "hn_open node = Inr (logged_fd hw, (dev, []))" and "freshly_opened node d"
  shows "on_wire d"
  using freshly_opened_cases[OF assms(2,1)]
  by cases (auto simp: on_wire_def on_inner_def run_coalescer_init_def wire_inv_def via_transport_on_def)

section \<open>A simulated board\<close>

text \<open>
  A board to evaluate the driver on: it stores a keymap, answers the commands of the keymap path
  as QMK does, saves the custom channels below 4 and answers 0xFF to the others.
\<close>

record sim_board =
  sim_keys :: "key_pos \<Rightarrow> u16"
  sim_reply :: "bytes option"

definition sim_pad :: "bytes \<Rightarrow> bytes" where
  "sim_pad bs = take 32 (bs @ replicate 32 0)"

fun sim_answer :: "bytes \<Rightarrow> sim_board \<Rightarrow> bytes \<times> (key_pos \<Rightarrow> u16)" where
  "sim_answer (_ # cmd # a # b # c # x # y # rest) s =
     (if cmd = 0x04 then
        (let k = sim_keys s (a, b, c) in (sim_pad [0x04, a, b, c, u16_hi k, u16_lo k], sim_keys s))
      else if cmd = 0x05 then
        (sim_pad [0x05, a, b, c, x, y], (sim_keys s)((a, b, c) := u16_of x y))
      else if cmd = 0x09 \<and> a < 4 then (sim_pad [0x09, a], sim_keys s)
      else if cmd = 0x01 then (sim_pad [0x01, 0x00, 0x0C], sim_keys s)
      else if cmd = 0x11 then (sim_pad [0x11, 0x04], sim_keys s)
      else if cmd = 0x07 \<and> a < 4 then (sim_pad (0x07 # a # b # c # x # y # rest), sim_keys s)
      else (sim_pad (0xFF # a # b # c # x # y # rest), sim_keys s))"
| "sim_answer _ s = (sim_pad [0xFF], sim_keys s)"

definition sim_hw :: "sim_board hidraw" where
  "sim_hw =
     \<lparr>fd_writable = (\<lambda>_. Some 0), fd_readable = (\<lambda>s. if sim_reply s = None then None else Some 20),
      fd_write = (\<lambda>buf s. (SyscallDone (length buf),
         case sim_answer buf s of (resp, keys) \<Rightarrow> \<lparr>sim_keys = keys, sim_reply = Some resp\<rparr>)),
      fd_read = (\<lambda>s. case sim_reply s of
           None \<Rightarrow> (SyscallFailed EAGAIN, s)
         | Some resp \<Rightarrow> (SyscallDone resp, s\<lparr>sim_reply := None\<rparr>))\<rparr>"

definition sim_start :: sim_board where
  "sim_start = \<lparr>sim_keys = (\<lambda>_. 0x29), sim_reply = None\<rparr>"

lemma length_sim_pad [simp]: "length (sim_pad bs) = 32"
  by (simp add: sim_pad_def)

lemma length_sim_answer [simp]: "length (fst (sim_answer buf s)) = 32"
  by (induction buf s rule: sim_answer.induct) (simp_all add: Let_def)

lemma sim_exchange:
  "0 < ms \<Longrightarrow> exchange sim_hw ms req s =
    (case sim_answer (0 # req) s of (resp, keys) \<Rightarrow> (Inr resp, \<lparr>sim_keys = keys, sim_reply = None\<rparr>))"
  using length_sim_answer[of "0 # req" s]
  by (cases "sim_answer (0 # req) s")
     (auto simp: sim_hw_def VIA_FRAME_LEN_def VIA_HIDRAW_REPORT_ID_def intro!: exchange_answered)

lemma req_frame_cons5: "length bs = 2 \<Longrightarrow> req_frame bs = bs @ 0 # 0 # 0 # 0 # replicate 26 0"
  "length bs = 4 \<Longrightarrow> req_frame bs = bs @ 0 # 0 # replicate 26 0"
  "length bs = 6 \<Longrightarrow> req_frame bs = bs @ replicate 26 0"
  by (simp_all add: req_frame_def VIA_FRAME_LEN_def numeral_eq_Suc)

lemma sim_firmware: "0 < ms \<Longrightarrow> via_firmware sim_hw ms UNIV {c. c < 4} (\<lambda>_. True) sim_keys"
  unfolding via_firmware_def
  by (auto simp: sim_exchange req_frame_cons5 sim_pad_def Let_def)

lemma default_timeout_pos [simp]: "0 < DEFAULT_TIMEOUT_MS"
  by (simp add: DEFAULT_TIMEOUT_MS_def)

end
