(* ===== verification/Via_Claims.thy ===== *)
theory Via_Claims
  imports Via_Props
begin

text \<open>
  The properties of the VIA backend: the frames that can reach a device, the keymap a client
  observes through either mode, conservation of buffered writes under failures, the deadline of
  the coalescer, and what a lighting channel without firmware support does to commits.
\<close>

section \<open>Wire safety\<close>

text \<open>C6. Whatever calls a client makes and whatever the timer does, every buffer the driver hands to
  the hidraw node is report id 0 and one 32-byte frame whose command is neither the EEPROM reset
  (0x0A) nor the bootloader jump (0x0B); a frame that writes macro bytes stays inside the buffer
  size the device reported. The kernel and the device behind the node are arbitrary.\<close>

theorem via_wire_safety:
  assumes "hn_open node = Inr (logged_fd hw, (dev, []))" and "freshly_opened node d"
    and "via_session d d'" and "buf \<in> set (wire_log d')"
  shows "length buf = 33 \<and> buf ! 0 = VIA_HIDRAW_REPORT_ID \<and> buf ! 1 \<notin> destructive_ids
    \<and> (buf ! 1 = ID_MACRO_SET_BUFFER \<longrightarrow> (\<exists>sz. reported_macro_size d' = Some sz
         \<and> unat (u16_of (buf ! 2) (buf ! 3)) + unat (buf ! 4) \<le> unat sz))"
proof -
  have "on_wire d'"
    using wire_kept.session_preserves[OF assms(3)] freshly_opened_wire[OF assms(1,2)] by (simp add: on_wire_def)
  from wire_log_ok[OF this assms(4)] show ?thesis
    using sent_ids_not_destructive by (auto simp: wire_ok_def VIA_HIDRAW_REPORT_ID_def)
qed

definition sim_node :: "sim_board hid_node" where
  "sim_node = \<lparr>hn_open = Inr (sim_hw, sim_start), hn_desc_size = Inr 3,
     hn_desc = (\<lambda>_. Inr (3, [0x06, 0x60, 0xFF])), hn_register = Inr ()\<rparr>"

definition sim_logged_node :: "(sim_board \<times> bytes list) hid_node" where
  "sim_logged_node = \<lparr>hn_open = Inr (logged_fd sim_hw, (sim_start, [])), hn_desc_size = Inr 3,
     hn_desc = (\<lambda>_. Inr (3, [0x06, 0x60, 0xFF])), hn_register = Inr ()\<rparr>"

definition sim_logged_driver :: "(sim_board \<times> bytes list) via_driver" where
  "sim_logged_driver = \<lparr>vd_inner = Direct (via_transport_on (logged_fd sim_hw) (sim_start, []) ''hidraw3'' DEFAULT_TIMEOUT_MS)
      (hs_new (\<lambda>xs. xs)), vd_matrix = (16, 16), vd_device_id = ''hidraw3'', vd_protocol_version = None, vd_now = 0\<rparr>"

lemma sim_probe: "hid_descriptor_has_usage_page [0x06, 0x60, 0xFF] VIA_USAGE_PAGE = Some True"
  by code_simp

lemma sim_logged_opened: "freshly_opened sim_logged_node sim_logged_driver"
proof -
  have "via_new (\<lambda>xs. xs) ''/dev/hidraw3'' sim_logged_node (16, 16) 0 = Inr sim_logged_driver"
    using sim_probe
    by (simp add: via_new_def open_transport_def via_transport_new_def probe_via_usage_page_def sim_logged_node_def Let_def
        HID_MAX_DESCRIPTOR_SIZE_def device_id_of_path_def file_name_def sim_logged_driver_def)
  then show ?thesis unfolding freshly_opened_def using reorders_id by blast
qed

theorem via_wire_safety_witness:
  "\<exists>d' buf. via_session sim_logged_driver d' \<and> buf \<in> set (wire_log d') \<and> buf ! 1 \<notin> destructive_ids"
proof -
  let ?d = "kd_invoke via_driver_ops (CallGetKeycode 0 0 0) sim_logged_driver"
  let ?buf = "0 # req_frame [0x04, 0, 0, 0]"
  have s: "via_session sim_logged_driver ?d" by (intro session_call session_start)
  have b: "?buf \<in> set (wire_log ?d)"
    by code_simp
  have "?buf ! 1 \<notin> destructive_ids"
    using via_wire_safety[OF _ sim_logged_opened s b] by (simp add: sim_logged_node_def)
  with s b show ?thesis by blast
qed

section \<open>The keymap a client observes\<close>

text \<open>
  A served session: keymap operations with the replies they got, with clock ticks and timer
  firings in between at any point.
\<close>

inductive via_serves :: "'d via_driver \<Rightarrow> (keymap_op \<times> keymap_reply) list \<Rightarrow> 'd via_driver \<Rightarrow> bool" where
  serves_start: "via_serves d [] d"
| serves_op: "via_serves d tr d' \<Longrightarrow> kb_step via_driver_ops x d' = (y, d'') \<Longrightarrow> via_serves d (tr @ [(x, y)]) d''"
| serves_idle: "via_serves d tr d' \<Longrightarrow> via_idle d' d'' \<Longrightarrow> via_serves d tr d''"

lemma keymap_run_snoc:
  "keymap_run (xs @ [x]) m =
    (case keymap_run xs m of (ys, m') \<Rightarrow> (case keymap_step x m' of (y, m'') \<Rightarrow> (ys @ [y], m'')))"
  by (induction xs arbitrary: m) (auto split: prod.split)

lemma via_serves_refines:
  assumes "via_serves d tr d'" and "vd_healthy V H F d" and "list_all (op_within V) (map fst tr)"
  shows "vd_healthy V H F d' \<and> map snd tr = fst (keymap_run (map fst tr) (vd_view V d))
    \<and> vd_view V d' = snd (keymap_run (map fst tr) (vd_view V d))"
  using assms
proof (induction rule: via_serves.induct)
  case (serves_start d)
  then show ?case by simp
next
  case (serves_op d tr d' x y d'')
  then have IH: "vd_healthy V H F d'" "map snd tr = fst (keymap_run (map fst tr) (vd_view V d))"
    "vd_view V d' = snd (keymap_run (map fst tr) (vd_view V d))" and x: "op_within V x" by auto
  from via_kd.kb_step_refines[OF IH(1) x] serves_op.hyps(2) IH show ?case
    by (auto simp: keymap_run_snoc split: prod.split)
next
  case (serves_idle d tr d' d'')
  then show ?case using via_idle_view by fastforce
qed

lemma freshly_opened_healthy:
  assumes "hn_open node = Inr (hw, dev)" and "via_firmware hw DEFAULT_TIMEOUT_MS V H ready km" and "ready dev"
    and "freshly_opened node d"
  shows "vd_healthy V H {} d" "vd_view V d = (\<lambda>p. if p \<in> V then km dev p else 0)"
proof -
  let ?t = "\<lambda>i. via_transport_on hw dev i DEFAULT_TIMEOUT_MS"
  have t: "vt_healthy V H {} (?t i)" "vt_view V (?t i) = (\<lambda>p. if p \<in> V then km dev p else 0)" for i
    using vt_view_firmware[of "?t i" V H ready km] assms(2,3)
    by (auto simp: vt_healthy_def via_transport_on_def)
  have "vd_healthy V H {} d \<and> vd_view V d = (\<lambda>p. if p \<in> V then km dev p else 0)"
    by (rule freshly_opened_cases[OF assms(4,1)])
       (simp_all add: t vd_healthy_def vd_view_def run_coalescer_init_def via_tr.co_good_def
          via_tr.co_view_def co_wf_def)
  then show "vd_healthy V H {} d" "vd_view V d = (\<lambda>p. if p \<in> V then km dev p else 0)" by simp_all
qed

lemma via_drop_view:
  assumes "vd_healthy V H F d"
  shows "\<exists>t. via_drop d = Some t \<and> vt_healthy V H F t \<and> vt_view V t = vd_view V d"
  using assms
proof (cases rule: vd_healthy_cases)
  case (direct t touched)
  then show ?thesis by (simp add: via_drop_def)
next
  case (coalesced c)
  with via_tr.co_shutdown_healthy[OF coalesced(2)] show ?thesis
    by (simp add: via_drop_def via_tr.co_good_def)
qed

text \<open>C10. In front of a board that answers as QMK documents, a driver opened in either mode answers
  every interleaving of reads, writes, commits and timer firings exactly as a plain keymap would:
  a read returns the last write, buffered or not. When the driver is dropped the board itself
  holds the final keymap, so no acknowledged write is lost.\<close>

theorem via_driver_is_a_keymap:
  assumes "hn_open node = Inr (hw, dev)" and "via_firmware hw DEFAULT_TIMEOUT_MS V H ready km" and "ready dev"
    and "freshly_opened node d" and "via_serves d tr d'" and "list_all (op_within V) (map fst tr)"
  shows "map snd tr = fst (keymap_run (map fst tr) (\<lambda>p. if p \<in> V then km dev p else 0))
    \<and> (\<exists>t. via_drop d' = Some t \<and> (\<forall>l r c. (l, r, c) \<in> V \<longrightarrow>
      fst (via_get_keycode l r c t)
        = Inr (snd (keymap_run (map fst tr) (\<lambda>p. if p \<in> V then km dev p else 0)) (l, r, c))))"
proof -
  note start = freshly_opened_healthy[OF assms(1-4)]
  from via_serves_refines[OF assms(5) start(1) assms(6)] have s: "vd_healthy V H {} d'"
    "map snd tr = fst (keymap_run (map fst tr) (vd_view V d))"
    "vd_view V d' = snd (keymap_run (map fst tr) (vd_view V d))" by auto
  from via_drop_view[OF s(1)] obtain t where
    t: "via_drop d' = Some t" "vt_healthy V H {} t" "vt_view V t = vd_view V d'" by blast
  have "fst (via_get_keycode l r c t) = Inr (vd_view V d' (l, r, c))" if "(l, r, c) \<in> V" for l r c
    using vt_get_law[OF t(2) that] t(3) by auto
  with s t(1) show ?thesis unfolding start(2) by simp
qed

definition sim_driver :: "sim_board via_driver" where
  "sim_driver = \<lparr>vd_inner = Coalesced (Some (run_coalescer_init
        (via_transport_on sim_hw sim_start ''hidraw3'' DEFAULT_TIMEOUT_MS) 50 ''hidraw3'' True (\<lambda>xs. xs) (\<lambda>xs. xs))),
     vd_matrix = (16, 16), vd_device_id = ''hidraw3'', vd_protocol_version = None, vd_now = 0\<rparr>"

lemma sim_opened: "freshly_opened sim_node sim_driver"
proof -
  have "via_with_coalescing (\<lambda>xs. xs) (\<lambda>xs. xs) ''/dev/hidraw3'' sim_node (16, 16) 50 True 0 = Inr sim_driver"
    using sim_probe
    by (simp add: via_with_coalescing_def open_transport_def via_transport_new_def probe_via_usage_page_def sim_node_def Let_def
        HID_MAX_DESCRIPTOR_SIZE_def device_id_of_path_def file_name_def sim_driver_def)
  then have "\<exists>kord cord path matrix ms lc now. reorders kord \<and> reorders cord
      \<and> via_with_coalescing kord cord path sim_node matrix ms lc now = Inr sim_driver"
    by (metis reorders_id)
  then show ?thesis unfolding freshly_opened_def by (rule disjI2)
qed

lemma sim_node_open: "hn_open sim_node = Inr (sim_hw, sim_start)"
  by (simp add: sim_node_def)

theorem via_driver_is_a_keymap_witness:
  "\<exists>d'. via_serves sim_driver [(KSet 0 1 2 7, KDone (Inr ())), (KGet 0 1 2, KKeycode (Inr 7))] d'
    \<and> (\<exists>t. via_drop d' = Some t \<and> fst (via_get_keycode 0 1 2 t) = Inr 7)"
proof -
  let ?ops = "[KSet 0 1 2 7, KGet 0 1 2]"
  obtain y1 d1 where d1: "kb_step via_driver_ops (KSet 0 1 2 7) sim_driver = (y1, d1)" by fastforce
  obtain y2 d2 where d2: "kb_step via_driver_ops (KGet 0 1 2) d1 = (y2, d2)" by fastforce
  have s: "via_serves sim_driver ([] @ [(KSet 0 1 2 7, y1)] @ [(KGet 0 1 2, y2)]) d2"
    using serves_op[OF serves_op[OF serves_start d1] d2] by simp
  note k = via_driver_is_a_keymap[OF sim_node_open sim_firmware[OF default_timeout_pos] _ sim_opened s]
  have "[y1, y2] = [KDone (Inr ()), KKeycode (Inr 7)]"
    using k by simp
  moreover obtain t where "via_drop d2 = Some t" "fst (via_get_keycode 0 1 2 t) = Inr 7"
    using k by auto
  ultimately show ?thesis using s by auto
qed

section \<open>Conservation of buffered writes\<close>

text \<open>The keymap a sequence of received operations asks for, and where its entries are: in the
  journal of acknowledged device writes, overridden by what is still buffered.\<close>

fun accept_label :: "(key_pos \<Rightarrow> u16 option) \<Rightarrow> co_label \<Rightarrow> (key_pos \<Rightarrow> u16 option)" where
  "accept_label m (CoReceived _ (CoSetKeycode l r c k) _) = m((l, r, c) \<mapsto> k)"
| "accept_label m _ = m"

definition accepted_writes :: "co_label list \<Rightarrow> key_pos \<Rightarrow> u16 option" where
  "accepted_writes ls = foldl accept_label Map.empty ls"

definition accounted :: "('t \<times> (key_pos \<times> u16) list) coalescer \<Rightarrow> key_pos \<Rightarrow> u16 option" where
  "accounted c = map_of (rev (snd (co_transport c))) ++ hm_get (co_buffer c)"

lemma co_flush_accounted:
  assumes "hm_wf (co_buffer c)" and "co_flush (journal_ops ops) c = (r, c')"
  shows "accounted c' = accounted c"
proof -
  obtain t j where t: "co_transport c = (t, j)" by fastforce
  obtain t' j' where t': "co_transport c' = (t', j')" by fastforce
  have "flush_buffer (journal_ops ops) ((t, j), co_buffer c) = (r, (t', j'), co_buffer c')"
    using assms(2) t t' by (auto simp: co_flush_def split: prod.splits)
  from flush_buffer_conserves[OF assms(1) this] obtain js where js: "j' = j @ js" "distinct (map fst js)"
    "hm_get (co_buffer c) = hm_get (co_buffer c') ++ map_of js"
    "dom (hm_get (co_buffer c')) \<inter> dom (map_of js) = {}" by blast
  have r: "map_of (rev js) = map_of js"
    using map_of_inject_set[of "rev js" js] js(2) by (simp add: rev_map[symmetric])
  have "hm_get (co_buffer c') ++ map_of js = map_of js ++ hm_get (co_buffer c')"
    using map_add_comm[of "map_of js" "hm_get (co_buffer c')"] js(4) by (simp add: Int_commute)
  with r js(1,3) show ?thesis by (simp add: accounted_def t t')
qed

lemma save_channels_journal:
  "save_channels (journal_ops ops) chs (t, s) = (r, t', s') \<Longrightarrow> snd t' = snd t"
proof (induction chs arbitrary: t s)
  case Nil
  then show ?case by simp
next
  case (Cons ch chs)
  obtain x u where u: "tr_custom_save (journal_ops ops) ch t = (x, u)"
    by (cases "tr_custom_save (journal_ops ops) ch t")
  then have "snd u = snd t" by (auto simp: journal_ops_def split: prod.splits)
  with Cons u show ?case by (cases x) auto
qed

lemma co_save_accounted: "co_save (journal_ops ops) c = (r, c') \<Longrightarrow> accounted c' = accounted c"
  by (auto simp: co_save_def save_touched_channels_def accounted_def dest: save_channels_journal
           split: prod.splits)

lemma co_forward_accounted:
  assumes "\<And>t. snd (snd (m t)) = snd t"
  shows "accounted (snd (co_forward m c)) = accounted c"
  using assms[of "co_transport c"] by (simp add: co_forward_def accounted_def prod.case_eq_if)

lemma journal_reads:
  "snd (snd (tr_get_protocol_version (journal_ops ops) t)) = snd t"
  "snd (snd (tr_get_keycode (journal_ops ops) l r c t)) = snd t"
  "snd (snd (tr_get_layer_count (journal_ops ops) t)) = snd t"
  "snd (snd (tr_get_macro_buffer (journal_ops ops) off len t)) = snd t"
  "snd (snd (tr_set_macro_buffer (journal_ops ops) off data t)) = snd t"
  "snd (snd (tr_get_lighting (journal_ops ops) ch v t)) = snd t"
  "snd (snd (tr_set_lighting (journal_ops ops) ch v data t)) = snd t"
  by (simp_all add: journal_ops_def prod.case_eq_if)

lemma journal_forwards:
  "accounted (snd (co_forward (tr_get_protocol_version (journal_ops ops)) x)) = accounted x"
  "accounted (snd (co_forward (tr_get_keycode (journal_ops ops) l r c) x)) = accounted x"
  "accounted (snd (co_forward (tr_get_layer_count (journal_ops ops)) x)) = accounted x"
  "accounted (snd (co_forward (tr_get_macro_buffer (journal_ops ops) off len) x)) = accounted x"
  "accounted (snd (co_forward (tr_set_macro_buffer (journal_ops ops) off data) x)) = accounted x"
  "accounted (snd (co_forward (tr_get_lighting (journal_ops ops) ch v) x)) = accounted x"
  "accounted (snd (co_forward (tr_set_lighting (journal_ops ops) ch v data) x)) = accounted x"
  by (rule co_forward_accounted, rule journal_reads)+

lemma accounted_frame:
  "co_transport c' = co_transport c \<Longrightarrow> co_buffer c' = co_buffer c \<Longrightarrow> accounted c' = accounted c"
  by (simp add: accounted_def)

lemma co_handle_flush_accounted:
  assumes "hm_wf (co_buffer c)"
  shows "accounted (snd (co_handle_flush (journal_ops ops) c)) = accounted c"
proof -
  obtain r c1 where c1: "co_flush (journal_ops ops) c = (r, c1)" by fastforce
  obtain q c2 where c2: "co_save (journal_ops ops) (emit_layout_updated c1) = (q, c2)" by fastforce
  have "accounted (emit_layout_updated c1) = accounted c1" by (rule accounted_frame) simp_all
  with co_flush_accounted[OF assms c1] co_save_accounted[OF c2] c1 c2 show ?thesis
    by (cases r) (simp_all add: co_handle_flush_def accounted_def)
qed

lemma co_step_accounted:
  assumes "co_step (journal_ops ops) c lab c'" and "hm_wf (co_buffer c)"
  shows "accounted c' = accept_label (accounted c) lab \<and> hm_wf (co_buffer c')"
  using assms(1)
proof cases
  case (co_recv now op r)
  then have c': "c' = snd (co_handle (journal_ops ops) now op c)" by simp
  show ?thesis
  proof (cases op)
    case (CoSetKeycode l r k v)
    then show ?thesis using assms(2) co_recv(1) unfolding c' by (simp add: Let_def accounted_def)
  next
    case (CoSetLighting ch v data)
    then show ?thesis
      using assms(2) co_recv(1) journal_forwards(7)[of ops ch v data c]
        co_forward_snd(2)[of "tr_set_lighting (journal_ops ops) ch v data" c] unfolding c'
      by (cases "co_forward (tr_set_lighting (journal_ops ops) ch v data) c")
         (auto simp: accounted_def split: sum.split)
  next
    case CoFlush
    obtain q c1 where "co_flush (journal_ops ops) c = (q, c1)" by fastforce
    then have "hm_wf (co_buffer c')"
      using co_flush_wf[OF _ assms(2)] CoFlush unfolding c'
      by (auto simp: co_handle_flush_def dest: co_save_fields split: sum.split prod.split)
    then show ?thesis
      using CoFlush co_recv(1) co_handle_flush_accounted[OF assms(2)] unfolding c' by simp
  next
    case (CoGetKeycode l r k)
    then show ?thesis using assms(2) co_recv(1) unfolding c'
      by (simp add: reply_with_def journal_forwards split: option.split)
  qed (use assms(2) co_recv(1) in \<open>simp_all add: c' reply_with_def journal_forwards\<close>)
next
  case (co_sleep d now)
  obtain q c1 where q: "co_flush (journal_ops ops) c = (q, c1)" by fastforce
  with co_flush_accounted[OF assms(2) q] co_flush_wf[OF q assms(2)] co_sleep show ?thesis
    by (cases q) (auto simp: co_auto_flush_def accounted_def)
qed

lemma co_run_accounted:
  "co_run (journal_ops ops) c ls c' \<Longrightarrow> hm_wf (co_buffer c) \<Longrightarrow>
   accounted c' = foldl accept_label (accounted c) ls \<and> hm_wf (co_buffer c')"
  by (induction rule: co_run.induct) (use co_step_accounted in fastforce)+

lemma co_shutdown_accounted:
  assumes "hm_wf (co_buffer c)"
  shows "accounted (co_shutdown (journal_ops ops) c) = accounted c"
proof -
  obtain r c1 where c1: "co_flush (journal_ops ops) c = (r, c1)" by fastforce
  have e: "accounted (emit_layout_updated c1) = accounted c1" by (rule accounted_frame) simp_all
  have s: "accounted (snd (co_save (journal_ops ops) x)) = accounted x" for x
    using co_save_accounted[of ops x] by (cases "co_save (journal_ops ops) x") auto
  from c1 e co_flush_accounted[OF assms c1] show ?thesis
    by (cases r) (auto simp: co_shutdown_def Let_def s)
qed

text \<open>C14. Over a transport that may fail at any call, an actor that started empty accounts for every
  keycode write it accepted at every moment: the last accepted value of a position is either
  buffered, or is the last value the device acknowledged there. A failed flush and the shutdown
  lose and duplicate nothing.\<close>

theorem coalescer_conserves_writes:
  assumes "reorders kord"
    and "co_run (journal_ops ops) (run_coalescer_init (t, []) ms device lifecycle kord cord) ls c"
  shows "map_of (rev (snd (co_transport c))) ++ hm_get (co_buffer c) = accepted_writes ls
    \<and> map_of (rev (snd (co_transport (co_shutdown (journal_ops ops) c))))
        ++ hm_get (co_buffer (co_shutdown (journal_ops ops) c)) = accepted_writes ls"
proof -
  let ?c0 = "run_coalescer_init (t, []) ms device lifecycle kord cord"
  have c0: "accounted ?c0 = Map.empty" "hm_wf (co_buffer ?c0)"
    using assms(1) by (simp_all add: accounted_def run_coalescer_init_def)
  from co_run_accounted[OF assms(2) c0(2)] have "accounted c = accepted_writes ls" "hm_wf (co_buffer c)"
    unfolding c0(1) by (simp_all add: accepted_writes_def)
  with co_shutdown_accounted[of c ops] show ?thesis by (simp add: accounted_def)
qed

text \<open>A transport whose device has gone, to evaluate the failure paths on.\<close>

definition unplugged_ops :: "unit transport_ops" where
  "unplugged_ops =
     \<lparr>tr_get_protocol_version = throw Disconnected, tr_get_keycode = (\<lambda>_ _ _. throw Disconnected),
      tr_set_keycode = (\<lambda>_ _ _ _. throw Disconnected), tr_get_layer_count = throw Disconnected,
      tr_custom_save = (\<lambda>_. throw Disconnected), tr_get_macro_buffer = (\<lambda>_ _. throw Disconnected),
      tr_set_macro_buffer = (\<lambda>_ _. throw Disconnected), tr_get_lighting = (\<lambda>_ _. throw Disconnected),
      tr_set_lighting = (\<lambda>_ _ _. throw Disconnected)\<rparr>"

definition unplugged_start :: "(unit \<times> (key_pos \<times> u16) list) coalescer" where
  "unplugged_start = run_coalescer_init ((), []) 50 ''hidraw3'' True (\<lambda>xs. xs) (\<lambda>xs. xs)"

definition unplugged_set :: "(unit \<times> (key_pos \<times> u16) list) coalescer" where
  "unplugged_set = snd (co_handle (journal_ops unplugged_ops) 0 (CoSetKeycode 0 1 2 7) unplugged_start)"

lemmas unplugged_defs = unplugged_ops_def unplugged_start_def unplugged_set_def journal_ops_def throw_def
  run_coalescer_init_def hm_new_def hm_insert_def hm_get_def hm_is_empty_def hm_keys_def

lemma unplugged_flush:
  "fst (co_flush (journal_ops unplugged_ops) unplugged_set) = Inl Disconnected"
  by (simp add: co_flush_def flush_buffer_def unplugged_defs)

lemma unplugged_run:
  "co_run (journal_ops unplugged_ops) unplugged_start
     [CoReceived 0 (CoSetKeycode 0 1 2 7) (ReplyUnit (Inr ())), CoFlushed 60]
     (co_auto_flush (journal_ops unplugged_ops) 60 unplugged_set)"
proof -
  have "co_step (journal_ops unplugged_ops) unplugged_start
      (CoReceived 0 (CoSetKeycode 0 1 2 7) (ReplyUnit (Inr ()))) unplugged_set"
    by (rule co_recv) (simp add: unplugged_set_def Let_def)
  moreover have "co_step (journal_ops unplugged_ops) unplugged_set (CoFlushed 60)
      (co_auto_flush (journal_ops unplugged_ops) 60 unplugged_set)"
    by (rule co_sleep[where d = 50]) (simp_all add: unplugged_set_def unplugged_start_def run_coalescer_init_def Let_def)
  ultimately show ?thesis by (rule co_run_cons[OF _ co_run_cons[OF _ co_run_nil]])
qed

theorem coalescer_conserves_writes_witness:
  "hm_get (co_buffer (co_auto_flush (journal_ops unplugged_ops) 60 unplugged_set)) (0, 1, 2) = Some 7"
proof -
  let ?c = "co_auto_flush (journal_ops unplugged_ops) 60 unplugged_set"
  have "map_of (rev (snd (co_transport ?c))) ++ hm_get (co_buffer ?c) = accepted_writes
      [CoReceived 0 (CoSetKeycode 0 1 2 7) (ReplyUnit (Inr ())), CoFlushed 60]"
    using coalescer_conserves_writes[OF reorders_id unplugged_run[unfolded unplugged_start_def]] by blast
  moreover have "snd (co_transport ?c) = []"
    by (simp add: co_auto_flush_def co_flush_def flush_buffer_def unplugged_defs)
  ultimately show ?thesis by (simp add: accepted_writes_def)
qed

section \<open>The flush timer\<close>

text \<open>An actor whose buffer is not empty has a deadline, as long as no explicit flush has failed.\<close>

fun flush_failed :: "co_label \<Rightarrow> bool" where
  "flush_failed (CoReceived _ op r) = (op = CoFlush \<and> r \<noteq> ReplyUnit (Inr ()))"
| "flush_failed (CoFlushed _) = False"

lemma save_channels_wf: "save_channels ops chs (t, u) = (r, t', u') \<Longrightarrow> hs_wf u \<Longrightarrow> hs_wf u'"
  by (induction chs arbitrary: t u) (auto split: prod.splits sum.splits)

lemma save_touched_wf: "save_touched_channels ops (t, u) = (r, t', u') \<Longrightarrow> hs_wf u \<Longrightarrow> hs_wf u'"
  by (auto simp: save_touched_channels_def dest: save_channels_wf)

lemma co_handle_wf:
  assumes "co_wf c"
  shows "co_wf (snd (co_handle ops now op c))"
proof -
  have s: "hs_wf (co_touched (snd (co_save ops x)))" if "hs_wf (co_touched x)" for x
    using that by (auto simp: co_save_def dest: save_touched_wf split: prod.split)
  show ?thesis
  proof (cases op)
    case CoFlush
    obtain r c1 where c1: "co_flush ops c = (r, c1)" by fastforce
    obtain q c2 where c2: "co_save ops (emit_layout_updated c1) = (q, c2)" by fastforce
    have "hm_wf (co_buffer c1)" "co_touched c1 = co_touched c"
      using co_flush_wf[OF c1] co_flush_fields[OF c1] assms by (auto simp: co_wf_def)
    moreover have "hs_wf (co_touched c2)" "co_buffer c2 = co_buffer c1"
      using s[of "emit_layout_updated c1"] c2 co_save_fields[OF c2] assms \<open>co_touched c1 = co_touched c\<close>
      by (auto simp: co_wf_def)
    ultimately show ?thesis
      using CoFlush c1 c2 assms by (cases r) (simp_all add: co_handle_flush_def co_wf_def)
  next
    case (CoSetLighting ch v data)
    then show ?thesis
      using assms co_forward_fields[of "tr_set_lighting ops ch v data" c]
      by (cases "co_forward (tr_set_lighting ops ch v data) c") (auto simp: co_wf_def split: sum.split)
  qed (use assms in \<open>auto simp: co_wf_def Let_def reply_with_def split: option.split\<close>)
qed

lemma co_auto_flush_wf:
  assumes "co_wf c"
  shows "co_wf (co_auto_flush ops now c)"
proof -
  obtain q c1 where q: "co_flush ops c = (q, c1)" by fastforce
  then show ?thesis
    using co_flush_wf[OF q] co_flush_fields[OF q] assms by (cases q) (auto simp: co_auto_flush_def co_wf_def)
qed

lemma co_step_armed:
  assumes "co_step ops c lab c'" and "co_wf c" and "armed c" and "\<not> flush_failed lab"
  shows "co_wf c' \<and> armed c'"
  using assms(1)
proof cases
  case (co_recv now op r)
  have "is_ok (fst (co_flush ops c))" if "op = CoFlush"
    using co_recv assms(4) that
    by (cases "co_flush ops c") (auto simp: co_handle_flush_def is_ok_def split: sum.splits)
  with co_handle_armed[OF co_recv(2) assms(3,2)] co_handle_wf[OF assms(2), of ops now op] co_recv(2)
  show ?thesis by simp
next
  case (co_sleep d now)
  then show ?thesis by (simp add: co_auto_flush_armed co_auto_flush_wf assms(2))
qed

lemma co_run_armed:
  "co_run ops c ls c' \<Longrightarrow> co_wf c \<Longrightarrow> armed c \<Longrightarrow> list_all (\<lambda>l. \<not> flush_failed l) ls \<Longrightarrow> co_wf c' \<and> armed c'"
  by (induction rule: co_run.induct) (use co_step_armed in fastforce)+

text \<open>C15. Over any transport: as long as no explicit flush has failed, a buffered write always has a
  deadline, and once that deadline is reached the timer branch can fire. A failed automatic flush
  re-arms it.\<close>

theorem coalescer_timer_is_armed:
  assumes "reorders kord" and "reorders cord"
    and "co_run ops (run_coalescer_init t ms device lifecycle kord cord) ls c"
    and "list_all (\<lambda>l. \<not> flush_failed l) ls" and "hm_get (co_buffer c) p = Some k"
  shows "\<exists>d. co_deadline c = Some d
    \<and> (\<forall>now \<ge> d. co_step ops c (CoFlushed now) (co_auto_flush ops now c))"
proof -
  let ?c0 = "run_coalescer_init t ms device lifecycle kord cord"
  have "co_wf ?c0" "armed ?c0"
    using assms(1,2) by (simp_all add: co_wf_def armed_def run_coalescer_init_def hm_is_empty_iff)
  with co_run_armed[OF assms(3)] assms(4) have "armed c" by blast
  with assms(5) show ?thesis by (auto simp: armed_def hm_is_empty_iff co_step_sleep_iff)
qed

theorem coalescer_timer_is_armed_witness:
  "\<exists>d. co_deadline (co_auto_flush (journal_ops unplugged_ops) 60 unplugged_set) = Some d"
proof -
  have b: "hm_get (co_buffer (co_auto_flush (journal_ops unplugged_ops) 60 unplugged_set)) (0, 1, 2) = Some 7"
    by (simp add: co_auto_flush_def co_flush_def flush_buffer_def unplugged_defs)
  show ?thesis
    using coalescer_timer_is_armed[OF reorders_id reorders_id unplugged_run[unfolded unplugged_start_def] _ b]
    by auto
qed

text \<open>The window of the coalescer does not slide: an operation other than a flush leaves an armed
  deadline where it is, and the first write of an idle actor arms it one interval ahead.\<close>

theorem coalescer_window_does_not_slide:
  assumes "op \<noteq> CoFlush"
  shows "co_deadline (snd (co_handle ops now op c)) = (case co_deadline c of
      Some d \<Rightarrow> Some d
    | None \<Rightarrow> (case op of CoSetKeycode _ _ _ _ \<Rightarrow> Some (now + co_flush_interval c) | _ \<Rightarrow> None))"
proof -
  obtain r c' where "co_handle ops now op c = (r, c')" by fastforce
  with co_handle_deadline[OF this assms] show ?thesis by simp
qed

theorem coalescer_window_does_not_slide_witness:
  "co_deadline (snd (co_handle (journal_ops unplugged_ops) 40 (CoSetKeycode 0 0 0 9) unplugged_set)) = Some 50"
  using coalescer_window_does_not_slide[of "CoSetKeycode 0 0 0 9" "journal_ops unplugged_ops" 40 unplugged_set]
  by (simp add: unplugged_set_def unplugged_start_def run_coalescer_init_def Let_def)

text \<open>An explicit flush that fails strands what is left: the error goes back to the client, at least
  one entry stays in the buffer, and no deadline is set, so the timer branch cannot fire for it.\<close>

theorem coalescer_failed_flush_strands:
  assumes "hm_wf (co_buffer c)" and "fst (co_flush ops c) = Inl e"
  shows "fst (co_handle ops now CoFlush c) = ReplyUnit (Inl e)
    \<and> (\<exists>p k. hm_get (co_buffer (snd (co_handle ops now CoFlush c))) p = Some k)
    \<and> (\<forall>later c''. \<not> co_step ops (snd (co_handle ops now CoFlush c)) (CoFlushed later) c'')"
proof -
  obtain r c' where c': "co_handle ops now CoFlush c = (r, c')" by fastforce
  have "co_flush ops c = (Inl e, snd (co_flush ops c))" using assms(2) by (metis prod.collapse)
  from co_flush_failure_strands[OF assms(1) this c'] show ?thesis
    using c' by (auto simp: hm_is_empty_iff fun_eq_iff)
qed

theorem coalescer_failed_flush_strands_witness:
  "\<exists>p k. hm_get (co_buffer (snd (co_handle (journal_ops unplugged_ops) 10 CoFlush unplugged_set))) p = Some k"
proof -
  have "hm_wf (co_buffer unplugged_set)"
    by (simp add: unplugged_set_def unplugged_start_def run_coalescer_init_def Let_def)
  from coalescer_failed_flush_strands[OF this unplugged_flush] show ?thesis by blast
qed

section \<open>A lighting channel without firmware support\<close>

text \<open>The descriptor of a driver and its deadline never change.\<close>

definition runs_on :: "'d hidraw \<Rightarrow> nat \<Rightarrow> 'd via_transport \<Rightarrow> bool" where
  "runs_on hw ms t \<longleftrightarrow> vt_fd t = hw \<and> vt_timeout t = ms"

lemma roundtrip_runs_on [preserves_intros]: "preserves (runs_on hw ms) (roundtrip req op)"
proof (rule preservesI)
  fix t :: "'a via_transport" assume t: "runs_on hw ms t"
  obtain r t' where rt: "roundtrip req op t = (r, t')" by fastforce
  from roundtrip_fields[OF rt] t show "runs_on hw ms (snd (roundtrip req op t))"
    unfolding runs_on_def rt by simp
qed

lemma ensure_macro_runs_on [preserves_intros]: "preserves (runs_on hw ms) ensure_macro_buffer_size"
proof (rule preservesI)
  fix t :: "'a via_transport" assume t: "runs_on hw ms t"
  show "runs_on hw ms (snd (ensure_macro_buffer_size t))"
  proof (cases "vt_macro_buffer_size t")
    case None
    obtain r u where u: "roundtrip (req_frame [ID_MACRO_GET_BUFFER_SIZE]) ''get_macro_buffer_size'' t = (r, u)"
      by fastforce
    have "runs_on hw ms u" using preservesD[OF roundtrip_runs_on t] u by (metis snd_conv)
    then show ?thesis
      using None u by (cases r)
        (auto simp: ensure_macro_buffer_size_def andthen_def lift_res_def Let_def runs_on_def split: sum.split)
  next
    case (Some sz)
    with t show ?thesis by (simp add: ensure_macro_buffer_size_def)
  qed
qed

lemma via_ops_run_on: "ops_preserve (runs_on hw ms) via_transport_ops"
  unfolding ops_preserve_def via_transport_ops_def
  by (auto simp: via_op_defs via_get_macro_buffer_def via_set_macro_buffer_def Let_def intro!: preserves_intros)

text \<open>
  \<open>rejects_save\<close>: the firmware answers every save of the channel with the unhandled id 0xFF. A
  driver is \<open>stuck\<close> on such a channel when the channel is in its touched set.
\<close>

definition rejects_save :: "'d hidraw \<Rightarrow> nat \<Rightarrow> u8 \<Rightarrow> bool" where
  "rejects_save hw ms ch \<longleftrightarrow> (\<forall>d. \<exists>resp d'.
     exchange hw ms (req_frame [ID_CUSTOM_SAVE, ch]) d = (Inr resp, d') \<and> resp ! 0 = 0xFF)"

text \<open>A channel the firmware does not implement: it gives back every lighting frame for it with the unhandled id, too.\<close>

definition unhandled :: "'d hidraw \<Rightarrow> nat \<Rightarrow> u8 \<Rightarrow> bool" where
  "unhandled hw ms ch \<longleftrightarrow> rejects_save hw ms ch \<and> (\<forall>d v data. length data \<le> 29 \<longrightarrow> (\<exists>resp d'.
     exchange hw ms (req_frame ([ID_LIGHTING_SET_VALUE, ch, v] @ data)) d = (Inr resp, d') \<and> resp ! 0 = 0xFF))"

definition rejecting :: "u8 \<Rightarrow> 'd via_transport \<Rightarrow> bool" where
  "rejecting ch t \<longleftrightarrow> unhandled (vt_fd t) (vt_timeout t) ch"

lemma rejecting_of_runs_on: "(\<And>hw ms. preserves (runs_on hw ms) m) \<Longrightarrow> preserves (rejecting ch) m"
  by (simp add: preserves_def runs_on_def rejecting_def)

lemma rejecting_kept: "ops_preserve (rejecting ch) via_transport_ops"
  unfolding ops_preserve_def
  by (intro conjI allI rejecting_of_runs_on ops_preserveD[OF via_ops_run_on])

lemma custom_save_rejected:
  assumes "rejecting ch t"
  shows "\<exists>e t'. via_custom_save ch t = (Inl e, t')"
proof -
  from assms obtain resp d' where
    x: "exchange (vt_fd t) (vt_timeout t) (req_frame [ID_CUSTOM_SAVE, ch]) (vt_dev t) = (Inr resp, d')"
      "resp ! 0 = 0xFF"
    unfolding rejecting_def unhandled_def rejects_save_def by blast
  have "take 2 resp \<noteq> [ID_CUSTOM_SAVE, ch]"
    using x(2) by (cases resp) (auto simp: ID_CUSTOM_SAVE_def)
  then show ?thesis
    by (auto simp: via_custom_save_def andthen_def roundtrip_Inr[OF x(1)] lift_res_def validate_echo_def
                   numeral_2_eq_2)
qed

lemma set_lighting_reported:
  assumes "rejecting ch t" and "length data \<le> 29"
  shows "\<exists>t'. via_set_lighting ch v data t = (Inr (), t')"
proof -
  from assms obtain resp d' where
    x: "exchange (vt_fd t) (vt_timeout t) (req_frame ([ID_LIGHTING_SET_VALUE, ch, v] @ data)) (vt_dev t) = (Inr resp, d')"
    unfolding rejecting_def unhandled_def by blast
  with assms(2) show ?thesis by (simp add: via_set_lighting_def andthen_def roundtrip_def ok_def via_lens)
qed

lemma save_channels_blocked:
  assumes "rejecting ch t" and "ch \<in> hs_set s" and "save_channels via_transport_ops chs (t, s) = (r, t', s')"
  shows "ch \<in> hs_set s' \<and> (hs_wf s \<longrightarrow> hs_wf s') \<and> (ch \<in> set chs \<longrightarrow> (\<exists>e. r = Inl e))"
  using assms
proof (induction chs arbitrary: t s)
  case Nil
  then show ?case by simp
next
  case (Cons x chs)
  obtain q u where q: "via_custom_save x t = (q, u)" by fastforce
  have "preserves (rejecting ch) (via_custom_save x)"
    using ops_preserveD(5)[OF rejecting_kept, of ch x] by (simp add: via_transport_ops_def)
  then have u: "rejecting ch u" using Cons.prems(1) q by (auto dest: preservesD)
  show ?case
  proof (cases q)
    case (Inl e)
    with Cons.prems q show ?thesis by (auto simp: via_transport_ops_def)
  next
    case (Inr y)
    with custom_save_rejected[OF Cons.prems(1)] q have "x \<noteq> ch" by auto
    with Cons.IH[OF u, of "hs_remove x s"] Cons.prems q Inr show ?thesis
      by (auto simp: via_transport_ops_def)
  qed
qed

definition stuck_direct :: "u8 \<Rightarrow> 'd via_transport \<Rightarrow> u8 hash_set \<Rightarrow> bool" where
  "stuck_direct ch t s \<longleftrightarrow> rejecting ch t \<and> hs_wf s \<and> ch \<in> hs_set s"

definition stuck_actor :: "u8 \<Rightarrow> 'd via_transport coalescer \<Rightarrow> bool" where
  "stuck_actor ch c \<longleftrightarrow> rejecting ch (co_transport c) \<and> co_wf c \<and> ch \<in> hs_set (co_touched c)"

lemma save_touched_blocked:
  assumes "save_touched_channels via_transport_ops (t, s) = (r, t', s')" and "stuck_direct ch t s"
  shows "stuck_direct ch t' s' \<and> (\<exists>e. r = Inl e)"
  using assms save_channels_blocked[of ch t s "hs_iter s" r t' s'] save_touched_preserves[OF rejecting_kept, of t s r t' s' ch]
  by (auto simp: save_touched_channels_def stuck_direct_def set_hs_iter)

lemma co_handle_flush_blocked:
  assumes "stuck_actor ch c"
  shows "\<exists>e. fst (co_handle_flush via_transport_ops c) = ReplyUnit (Inl e)"
    and "ch \<in> hs_set (co_touched (snd (co_handle_flush via_transport_ops c)))"
proof -
  obtain r c1 where c1: "co_flush via_transport_ops c = (r, c1)" by fastforce
  have k: "stuck_direct ch (co_transport c1) (co_touched c1)"
    using assms co_flush_fields(2)[OF c1] co_flush_preserves[OF rejecting_kept c1]
    by (simp add: stuck_actor_def stuck_direct_def co_wf_def)
  obtain q c2 where c2: "co_save via_transport_ops (emit_layout_updated c1) = (q, c2)" by fastforce
  then have "save_touched_channels via_transport_ops (co_transport c1, co_touched c1) = (q, co_transport c2, co_touched c2)"
    by (auto simp: co_save_def split: prod.splits)
  from save_touched_blocked[OF this k] k show "\<exists>e. fst (co_handle_flush via_transport_ops c) = ReplyUnit (Inl e)"
    and "ch \<in> hs_set (co_touched (snd (co_handle_flush via_transport_ops c)))"
    using c1 c2 by (cases r; auto simp: co_handle_flush_def stuck_direct_def)+
qed

lemma co_handle_blocked:
  assumes "stuck_actor ch c"
  shows "stuck_actor ch (snd (co_handle via_transport_ops now op c))"
proof -
  have "ch \<in> hs_set (co_touched (snd (co_handle via_transport_ops now op c)))"
  proof (cases op)
    case CoFlush
    with co_handle_flush_blocked(2)[OF assms] show ?thesis by simp
  next
    case (CoSetLighting x v data)
    then show ?thesis
      using assms co_forward_fields(7)[of "tr_set_lighting via_transport_ops x v data" c]
      by (cases "co_forward (tr_set_lighting via_transport_ops x v data) c")
         (auto simp: stuck_actor_def split: sum.split)
  qed (use assms in \<open>auto simp: stuck_actor_def reply_with_def Let_def split: option.split\<close>)
  with assms show ?thesis
    by (simp add: stuck_actor_def co_handle_wf co_handle_preserves[OF rejecting_kept])
qed

lemma co_auto_flush_blocked:
  assumes "stuck_actor ch c"
  shows "stuck_actor ch (co_auto_flush via_transport_ops now c)"
proof -
  have "co_touched (co_auto_flush via_transport_ops now c) = co_touched c"
    by (auto simp: co_auto_flush_def dest: co_flush_fields(2) split: prod.split sum.split)
  with assms show ?thesis
    by (simp add: stuck_actor_def co_auto_flush_wf co_auto_flush_preserves[OF rejecting_kept])
qed

lemma ops_preserve_const: "ops_preserve P ops \<Longrightarrow> ops_preserve (\<lambda>t. P t \<and> Q) ops"
  by (simp add: ops_preserve_def preserves_def)

interpretation stuck: driver_invariant "stuck_direct ch" "stuck_actor ch" for ch
  by unfold_locales
     (auto intro: ops_preserve_const rejecting_kept co_handle_blocked co_auto_flush_blocked
           simp: stuck_direct_def[abs_def] dest: save_touched_blocked[unfolded stuck_direct_def])

definition tidy_direct :: "u8 \<Rightarrow> 'd via_transport \<Rightarrow> u8 hash_set \<Rightarrow> bool" where
  "tidy_direct ch t s \<longleftrightarrow> rejecting ch t \<and> hs_wf s"

definition tidy_actor :: "u8 \<Rightarrow> 'd via_transport coalescer \<Rightarrow> bool" where
  "tidy_actor ch c \<longleftrightarrow> rejecting ch (co_transport c) \<and> co_wf c"

interpretation tidy: driver_invariant "tidy_direct ch" "tidy_actor ch" for ch
proof
  show "tidy_direct ch t' s'"
    if "save_touched_channels via_transport_ops (t, s) = (r, t', s')" "tidy_direct ch t s" for t s r t' s'
    using that save_touched_preserves[OF rejecting_kept] save_touched_wf by (auto simp: tidy_direct_def)
qed (auto intro: ops_preserve_const rejecting_kept
     simp: tidy_direct_def[abs_def] tidy_actor_def co_handle_wf co_auto_flush_wf
       co_handle_preserves[OF rejecting_kept] co_auto_flush_preserves[OF rejecting_kept])

lemma freshly_opened_tidy:
  assumes "hn_open node = Inr (hw, dev)" and "freshly_opened node d" and "unhandled hw DEFAULT_TIMEOUT_MS ch"
  shows "on_inner (tidy_direct ch) (tidy_actor ch) d"
  by (rule freshly_opened_cases[OF assms(2,1)])
     (simp_all add: on_inner_def tidy_direct_def tidy_actor_def rejecting_def via_transport_on_def assms(3)
        run_coalescer_init_def co_wf_def)

lemma set_lighting_gets_stuck:
  assumes "on_inner (tidy_direct ch) (tidy_actor ch) d" and "length data \<le> 29"
  shows "\<exists>d'. vd_set_lighting ch v data d = (Inr (), d') \<and> on_inner (stuck_direct ch) (stuck_actor ch) d'"
proof (cases "vd_inner d")
  case (Direct t s)
  then have "rejecting ch t" using assms(1) by (simp add: on_inner_def tidy_direct_def)
  from set_lighting_reported[OF this assms(2)] obtain t' where t': "via_set_lighting ch v data t = (Inr (), t')" by blast
  then have "rejecting ch t'" "hs_wf s"
    using Direct assms(1) ops_preserveD(9)[OF rejecting_kept, of ch ch v data]
    by (auto simp: on_inner_def tidy_direct_def via_transport_ops_def dest: preservesD)
  with Direct t' show ?thesis by (simp add: vd_set_lighting_def on_inner_def stuck_direct_def)
next
  case (Coalesced actor)
  with assms(1) obtain c where c: "actor = Some c" "tidy_actor ch c" by (cases actor) (auto simp: on_inner_def)
  from set_lighting_reported[of ch "co_transport c", OF _ assms(2)] c(2) obtain t' where
    "via_set_lighting ch v data (co_transport c) = (Inr (), t')" by (auto simp: tidy_actor_def)
  then have "\<exists>c1. co_forward (tr_set_lighting via_transport_ops ch v data) c = (Inr (), c1)"
    by (simp add: co_forward_def via_transport_ops_def)
  then obtain c1 where c1: "co_forward (tr_set_lighting via_transport_ops ch v data) c = (Inr (), c1)" by blast
  let ?c' = "c1\<lparr>co_touched := hs_insert ch (co_touched c1)\<rparr>"
  have "?c' = snd (co_handle via_transport_ops (vd_now d) (CoSetLighting ch v data) c)" using c1 by simp
  then have "tidy_actor ch ?c'" using tidy.actor_op c(2) by metis
  moreover have "vd_set_lighting ch v data d = (Inr (), d\<lparr>vd_inner := Coalesced (Some ?c')\<rparr>)"
    using Coalesced c(1) c1 by (simp add: vd_set_lighting_def relay_def)
  ultimately show ?thesis by (simp add: on_inner_def stuck_actor_def tidy_actor_def)
qed

lemma stuck_commit_fails:
  assumes "on_inner (stuck_direct ch) (stuck_actor ch) d"
  shows "\<exists>e. fst (vd_commit_to_nvram d) = Inl e"
proof (cases "vd_inner d")
  case (Direct t s)
  obtain r t' s' where r: "save_touched_channels via_transport_ops (t, s) = (r, t', s')" by (metis prod_cases3)
  with save_touched_blocked[OF r] Direct assms show ?thesis
    by (auto simp: vd_commit_to_nvram_def on_inner_def)
next
  case (Coalesced actor)
  then show ?thesis
    using co_handle_flush_blocked(1) assms
    by (cases actor) (fastforce simp: vd_commit_to_nvram_def on_inner_def relay_def prod.case_eq_if)+
qed

text \<open>C37. A lighting write to a channel the firmware does not implement, which gives back every lighting and
  save frame for it with the unhandled id 0xFF, is reported as a success in either mode, since its echo is not examined;
  and from then on every commit of the driver fails, whatever the client does and the timer does: the
  channel is in the touched set, and only a successful save would take it out.\<close>

theorem unhandled_lighting_channel_blocks_commits:
  assumes "hn_open node = Inr (hw, dev)" and "freshly_opened node d"
    and "unhandled hw DEFAULT_TIMEOUT_MS ch" and "via_session d d1" and "length data \<le> 29"
  shows "\<exists>d2. vd_set_lighting ch v data d1 = (Inr (), d2)
    \<and> (\<forall>d3. via_session d2 d3 \<longrightarrow> (\<exists>e. fst (vd_commit_to_nvram d3) = Inl e))"
proof -
  have "on_inner (tidy_direct ch) (tidy_actor ch) d1"
    using tidy.session_preserves[OF assms(4)] freshly_opened_tidy[OF assms(1-3)] .
  from set_lighting_gets_stuck[OF this assms(5)] obtain d2 where
    "vd_set_lighting ch v data d1 = (Inr (), d2)" "on_inner (stuck_direct ch) (stuck_actor ch) d2" by blast
  with stuck.session_preserves stuck_commit_fails show ?thesis by blast
qed

lemma sim_unhandled: "0 < ms \<Longrightarrow> unhandled sim_hw ms 9"
proof -
  assume ms: "0 < ms"
  have set: "\<exists>x y z rest. req_frame ([0x07, 9, v] @ data) = 0x07 # 9 # v # x # y # z # rest" if "length data \<le> 29" for v :: u8 and data
  proof -
    have "Suc (Suc (Suc 0)) \<le> length (data @ replicate (29 - length data) 0)" using that by simp
    then obtain x y z rest where "data @ replicate (29 - length data) 0 = x # y # z # rest"
      by (metis Suc_le_length_iff)
    then show ?thesis by (simp add: req_frame_def VIA_FRAME_LEN_def)
  qed
  show ?thesis
    unfolding unhandled_def
  proof (intro conjI allI impI)
    show "rejects_save sim_hw ms 9"
      using ms by (simp add: rejects_save_def sim_exchange req_frame_cons5 ID_CUSTOM_SAVE_def sim_pad_def)
  next
    fix d v and data :: bytes
    assume "length data \<le> 29"
    from set[OF this, of v] obtain x y z rest where "req_frame ([0x07, 9, v] @ data) = 0x07 # 9 # v # x # y # z # rest" by blast
    then show "\<exists>resp d'. exchange sim_hw ms (req_frame ([ID_LIGHTING_SET_VALUE, 9, v] @ data)) d = (Inr resp, d') \<and> resp ! 0 = 0xFF"
      using ms by (simp add: sim_exchange ID_LIGHTING_SET_VALUE_def sim_pad_def prod.case_eq_if Let_def)
  qed
qed

theorem unhandled_lighting_channel_blocks_commits_witness:
  "\<exists>d2 e. vd_set_lighting 9 1 [0] sim_driver = (Inr (), d2) \<and> fst (vd_commit_to_nvram d2) = Inl e"
proof -
  have "length [0 :: u8] \<le> 29" by simp
  from unhandled_lighting_channel_blocks_commits[OF sim_node_open sim_opened sim_unhandled[OF default_timeout_pos]
      session_start this, of 1] session_start show ?thesis by blast
qed

section \<open>Opening\<close>

text \<open>C8. A driver exists only for a board that declares VIA: opening succeeds exactly when the node
  opens and can be registered, its descriptor can be read, and the descriptor has a usage-page item 0xFF60 (as the item
  grammar of HID defines it).\<close>

theorem via_opens_only_via_boards:
  "is_ok (open_transport path node) \<longleftrightarrow>
     (\<exists>hw dev n sz val. hn_open node = Inr (hw, dev) \<and> hn_register node = Inr () \<and> hn_desc_size node = Inr n \<and> 0 < n
        \<and> hn_desc node (word_of_nat (min (nat n) 4096)) = Inr (sz, val)
        \<and> declares_usage_page (take (min (unat sz) 4096) val) 0xFF60)"
  by (auto simp: hid_descriptor_has_usage_page_def has_usage_page_from_ref declares_usage_page_def
        open_transport_def via_transport_new_def probe_via_usage_page_def Let_def HID_MAX_DESCRIPTOR_SIZE_def
        VIA_USAGE_PAGE_def split: sum.splits prod.splits if_splits)

section \<open>Failing devices\<close>

lemma silent_andthen:
  "never_answers (vt_fd t) \<Longrightarrow> fst (andthen (roundtrip req op) k t) = Inl (Timeout (vt_device_id t) op)"
  using roundtrip_silent[of t req op] by (cases "roundtrip req op t") (simp add: andthen_def)

text \<open>C38. No call hangs, because every round trip runs under the deadline. The write and the read poll until a
  system call ends; if they return within the deadline, the round trip has their result, and if they take
  longer or never return, it is a timeout that names the device and the operation. With a device that
  takes every frame and never answers, they never return; yet a read of a keycode, a write and a save each end with
  such a timeout, which does not retire the worker.\<close>

theorem silent_device_times_out:
  assumes "never_answers (vt_fd t)"
  shows "(returns (write_then_read (vt_fd u) req (vt_dev u)) n y d' \<and> n div 1000 < vt_timeout u \<longrightarrow>
         roundtrip req op u = (y, u\<lparr>vt_dev := d'\<rparr>))
    \<and> ((\<nexists>n y d'. returns (write_then_read (vt_fd u) req (vt_dev u)) n y d' \<and> n div 1000 < vt_timeout u) \<longrightarrow>
         fst (roundtrip req op u) = Inl (Timeout (vt_device_id u) op))
    \<and> \<not> returns (write_then_read (vt_fd t) req d) n y d'
    \<and> fst (via_get_keycode l r c t) = Inl (Timeout (vt_device_id t) ''get_keycode'')
    \<and> fst (via_set_keycode l r c k t) = Inl (Timeout (vt_device_id t) ''set_keycode'')
    \<and> fst (via_custom_save ch t) = Inl (Timeout (vt_device_id t) ''custom_save'')
    \<and> \<not> retires_worker (Timeout (vt_device_id t) op)"
proof (intro conjI impI)
  show "roundtrip req op u = (y, u\<lparr>vt_dev := d'\<rparr>)"
    if "returns (write_then_read (vt_fd u) req (vt_dev u)) n y d' \<and> n div 1000 < vt_timeout u"
    by (rule roundtrip_deadline(1)[where n = n]) (use that in simp_all)
  show "fst (roundtrip req op u) = Inl (Timeout (vt_device_id u) op)"
    if "\<nexists>n y d'. returns (write_then_read (vt_fd u) req (vt_dev u)) n y d' \<and> n div 1000 < vt_timeout u"
    using that by (rule roundtrip_deadline(2))
qed (simp_all add: write_then_read_hangs assms via_get_keycode_def via_set_keycode_def via_custom_save_def Let_def
      silent_andthen[OF assms])

text \<open>A node that takes a frame in 10 microseconds and wakes its reader every millisecond for nothing.\<close>

definition silent_hw :: "nat hidraw" where
  "silent_hw = \<lparr>fd_writable = (\<lambda>_. Some 10), fd_readable = (\<lambda>_. Some 1000),
     fd_write = (\<lambda>buf d. (SyscallDone (length buf), d + 1)), fd_read = (\<lambda>d. (SyscallFailed EAGAIN, d))\<rparr>"

theorem silent_device_times_out_witness:
  "fst (via_get_keycode 0 1 2 (via_transport_on silent_hw 0 ''hidraw3'' 1000)) = Inl (Timeout ''hidraw3'' ''get_keycode'')
    \<and> (\<forall>req n y d'. \<not> returns (write_then_read silent_hw req 0) n y d')"
proof -
  let ?t = "via_transport_on silent_hw 0 ''hidraw3'' 1000"
  have t: "never_answers (vt_fd ?t)" by (simp add: never_answers_def via_transport_on_def silent_hw_def)
  have "\<not> returns (write_then_read (vt_fd ?t) req 0) n y d'" for req n y d'
    using silent_device_times_out[OF t] by blast
  moreover have "fst (via_get_keycode 0 1 2 ?t) = Inl (Timeout (vt_device_id ?t) ''get_keycode'')"
    using silent_device_times_out[OF t] by blast
  ultimately show ?thesis by (simp add: via_transport_on_def)
qed

end
