(* ===== verification/Shadow.thy ===== *)
theory Shadow
  imports Hal "HOL-Library.Product_Lexorder"
begin

text \<open>
  \<open>src/hal/legacy/mod.rs\<close>: the shadow keymap of a keyboard that cannot be read back, with its
  dirty set, its commit life cycle and its JSON file. The file system and \<open>serde_json\<close> are the
  record \<open>disk_ops\<close>, a parameter of the model; a \<open>BTreeMap\<close> is a list sorted by key.
\<close>

section \<open>\<open>BTreeMap\<close>\<close>

type_synonym ('k, 'v) btree_map = "('k \<times> 'v) list"

fun bt_insert :: "'k::linorder \<Rightarrow> 'v \<Rightarrow> ('k, 'v) btree_map \<Rightarrow> ('k, 'v) btree_map" where
  "bt_insert k v [] = [(k, v)]"
| "bt_insert k v ((a, b) # xs) =
     (if k < a then (k, v) # (a, b) # xs
      else if k = a then (k, v) # xs
      else (a, b) # bt_insert k v xs)"

definition bt_get :: "('k, 'v) btree_map \<Rightarrow> 'k \<Rightarrow> 'v option" where
  "bt_get m k = map_of m k"

definition bt_wf :: "('k::linorder, 'v) btree_map \<Rightarrow> bool" where
  "bt_wf m \<longleftrightarrow> sorted_wrt (<) (map fst m)"

lemma set_keys_bt_insert: "fst ` set (bt_insert k v m) = insert k (fst ` set m)"
  by (induction m rule: bt_insert.induct[case_names Nil Cons]) auto

lemma bt_wf_insert [simp]: "bt_wf m \<Longrightarrow> bt_wf (bt_insert k v m)"
proof (induction m)
  case Nil
  then show ?case by (simp add: bt_wf_def)
next
  case (Cons x m)
  obtain a b where x: "x = (a, b)" by fastforce
  have "fst ` set (bt_insert k v m) = insert k (fst ` set m)" by (rule set_keys_bt_insert)
  with Cons x show ?case by (auto simp: bt_wf_def)
qed

lemma bt_wf_Nil [simp]: "bt_wf []"
  by (simp add: bt_wf_def)

lemma bt_get_Nil [simp]: "bt_get [] = Map.empty"
  by (simp add: bt_get_def fun_eq_iff)

lemma bt_wf_ConsD: "bt_wf ((a, b) # m) \<Longrightarrow> bt_wf m \<and> (\<forall>p \<in> set m. a < fst p)"
  by (auto simp: bt_wf_def)

lemma bt_get_less: "bt_wf m \<Longrightarrow> \<forall>p \<in> set m. k < fst p \<Longrightarrow> bt_get m k = None"
  by (auto simp: bt_get_def map_of_eq_None_iff)

lemma bt_get_insert [simp]: "bt_wf m \<Longrightarrow> bt_get (bt_insert k v m) = (bt_get m)(k \<mapsto> v)"
proof (induction m)
  case Nil
  then show ?case by (auto simp: bt_get_def)
next
  case (Cons x m)
  obtain a b where x: "x = (a, b)" by fastforce
  with Cons.IH bt_wf_ConsD[of a b m] Cons.prems show ?case
    by (auto simp: bt_get_def fun_eq_iff)
qed

lemma bt_distinct: "bt_wf m \<Longrightarrow> distinct (map fst m)"
  by (simp add: bt_wf_def strict_sorted_iff)

lemma bt_in_set_iff: "bt_wf m \<Longrightarrow> (k, v) \<in> set m \<longleftrightarrow> bt_get m k = Some v"
  unfolding bt_get_def using bt_distinct by (metis map_of_eq_Some_iff)

text \<open>Two maps with the same lookups are the same map, as a \<open>BTreeMap\<close> has one iteration order.\<close>

lemma bt_ext: "bt_wf m \<Longrightarrow> bt_wf n \<Longrightarrow> bt_get m = bt_get n \<Longrightarrow> m = n"
proof -
  assume wf: "bt_wf m" "bt_wf n" and eq: "bt_get m = bt_get n"
  have s: "set m = set n" using bt_in_set_iff[OF wf(1)] bt_in_set_iff[OF wf(2)] eq by auto
  have "inj_on fst (set m \<union> set n)"
    using s bt_distinct[OF wf(1)] by (simp add: distinct_map)
  then show "m = n"
    using wf s by (intro map_sorted_distinct_set_unique[where f = fst]) (auto simp: bt_wf_def strict_sorted_iff)
qed

section \<open>Files\<close>

text \<open>
  A path is a directory and a file name; \<open>with_extension\<close> replaces what follows the last dot of the
  name. \<open>dk_data_dir\<close> is the answer of \<open>ProjectDirs\<close>.
\<close>

type_synonym path = "string \<times> string"

definition with_extension :: "string \<Rightarrow> path \<Rightarrow> path" where
  "with_extension ext p =
     (let name = snd p; stem = rev (drop 1 (dropWhile (\<lambda>ch. ch \<noteq> CHR ''.'') (rev name)))
      in (fst p, (if stem = [] then name else stem) @ ''.'' @ ext))"

record keymap_entry =
  ke_layer :: u8
  ke_row :: u8
  ke_col :: u8
  ke_keycode :: u16

record lighting_state =
  ls_mode :: u8
  ls_r :: u8
  ls_g :: u8
  ls_b :: u8
  ls_brightness :: u8
  ls_speed :: u8
  ls_direction :: u8
  ls_random :: bool

definition lighting_state_default :: lighting_state where
  "lighting_state_default =
     \<lparr>ls_mode = 0x01, ls_r = 0xFF, ls_g = 0xFF, ls_b = 0xFF, ls_brightness = 0x0F, ls_speed = 0x00,
      ls_direction = 0x00, ls_random = False\<rparr>"

record shadow_file =
  sf_version :: u32
  sf_keymap :: "keymap_entry list"
  sf_lighting :: "lighting_state option"

record 'f disk_ops =
  dk_data_dir :: "string option"
  dk_read_to_string :: "path \<Rightarrow> 'f \<Rightarrow> io_error + string"
  dk_create_dir_all :: "string \<Rightarrow> ('f, io_error, unit) act"
  dk_write :: "path \<Rightarrow> string \<Rightarrow> ('f, io_error, unit) act"
  dk_rename :: "path \<Rightarrow> path \<Rightarrow> ('f, io_error, unit) act"
  js_from_str :: "string \<Rightarrow> shadow_file option"
  js_to_string_pretty :: "shadow_file \<Rightarrow> string option"

section \<open>\<open>ShadowState\<close>\<close>

datatype cache_status = Confirmed | Pending | Failed

record 'f shadow_state =
  sh_keymap :: "(key_pos, u16) btree_map"
  sh_confirmed :: "(key_pos, u16) btree_map"
  sh_dirty :: "(key_pos, u16) btree_map"
  sh_lighting :: lighting_state
  sh_status :: cache_status
  sh_data_path :: "path option"
  sh_os :: "'f disk_ops"
  sh_disk :: "'f"

definition resolve_data_path :: "'f disk_ops \<Rightarrow> string \<Rightarrow> path option" where
  "resolve_data_path os device_id =
     (case dk_data_dir os of None \<Rightarrow> None | Some data_dir \<Rightarrow> Some (data_dir, device_id @ ''.json''))"

definition keymap_of_entries :: "keymap_entry list \<Rightarrow> (key_pos, u16) btree_map" where
  "keymap_of_entries es =
     foldl (\<lambda>km e. bt_insert (ke_layer e, ke_row e, ke_col e) (ke_keycode e) km) [] es"

definition shadow_load :: "'f disk_ops \<Rightarrow> 'f \<Rightarrow> string \<Rightarrow> 'f shadow_state" where
  "shadow_load os disk device_id =
     (let data_path = resolve_data_path os device_id;
          (keymap, lighting) =
            (case data_path of
               Some path \<Rightarrow>
                 (case dk_read_to_string os path disk of
                    Inr contents \<Rightarrow>
                      (case js_from_str os contents of
                         Some sf \<Rightarrow>
                           (keymap_of_entries (sf_keymap sf),
                            (case sf_lighting sf of Some l \<Rightarrow> l | None \<Rightarrow> lighting_state_default))
                       | None \<Rightarrow> ([], lighting_state_default))
                  | Inl _ \<Rightarrow> ([], lighting_state_default))
             | None \<Rightarrow> ([], lighting_state_default))
      in \<lparr>sh_keymap = keymap, sh_confirmed = keymap, sh_dirty = [], sh_lighting = lighting,
          sh_status = Confirmed, sh_data_path = data_path, sh_os = os, sh_disk = disk\<rparr>)"

definition shadow_ephemeral :: "'f disk_ops \<Rightarrow> 'f \<Rightarrow> 'f shadow_state" where
  "shadow_ephemeral os disk =
     \<lparr>sh_keymap = [], sh_confirmed = [], sh_dirty = [], sh_lighting = lighting_state_default,
      sh_status = Confirmed, sh_data_path = None, sh_os = os, sh_disk = disk\<rparr>"

definition shadow_get_keycode :: "u8 \<Rightarrow> u8 \<Rightarrow> u8 \<Rightarrow> 'f shadow_state \<Rightarrow> u16" where
  "shadow_get_keycode layer row col s =
     (case bt_get (sh_keymap s) (layer, row, col) of Some k \<Rightarrow> k | None \<Rightarrow> 0)"

definition shadow_set_keycode :: "u8 \<Rightarrow> u8 \<Rightarrow> u8 \<Rightarrow> u16 \<Rightarrow> 'f shadow_state \<Rightarrow> 'f shadow_state" where
  "shadow_set_keycode layer row col keycode s =
     s\<lparr>sh_keymap := bt_insert (layer, row, col) keycode (sh_keymap s),
       sh_dirty := bt_insert (layer, row, col) keycode (sh_dirty s),
       sh_status := Pending\<rparr>"

definition shadow_is_dirty :: "'f shadow_state \<Rightarrow> bool" where
  "shadow_is_dirty s \<longleftrightarrow> sh_dirty s \<noteq> []"

text \<open>\<open>Vec::dedup\<close> drops consecutive repetitions.\<close>

definition shadow_dirty_layers :: "'f shadow_state \<Rightarrow> u8 list" where
  "shadow_dirty_layers s = remdups_adj (sort (map (\<lambda>(k, _). fst k) (sh_dirty s)))"

definition shadow_layer_entries :: "u8 \<Rightarrow> 'f shadow_state \<Rightarrow> (u8 \<times> u8 \<times> u16) list" where
  "shadow_layer_entries layer s =
     map (\<lambda>((_, row, col), keycode). (row, col, keycode))
       (filter (\<lambda>((l, _, _), _). l = layer) (sh_keymap s))"

definition shadow_set_lighting :: "lighting_state \<Rightarrow> 'f shadow_state \<Rightarrow> 'f shadow_state" where
  "shadow_set_lighting l s = s\<lparr>sh_lighting := l\<rparr>"

definition file_of_shadow :: "'f shadow_state \<Rightarrow> shadow_file" where
  "file_of_shadow s =
     \<lparr>sf_version = 1,
      sf_keymap = map (\<lambda>((layer, row, col), keycode).
        \<lparr>ke_layer = layer, ke_row = row, ke_col = col, ke_keycode = keycode\<rparr>) (sh_keymap s),
      sf_lighting = Some (sh_lighting s)\<rparr>"

definition shadow_save :: "'f shadow_state \<Rightarrow> 'f shadow_state" where
  "shadow_save s =
     (case sh_data_path s of
        None \<Rightarrow> s
      | Some path \<Rightarrow>
          (case js_to_string_pretty (sh_os s) (file_of_shadow s) of
             None \<Rightarrow> s
           | Some json \<Rightarrow>
               (case dk_create_dir_all (sh_os s) (fst path) (sh_disk s) of
                  (Inl _, d1) \<Rightarrow> s\<lparr>sh_disk := d1\<rparr>
                | (Inr _, d1) \<Rightarrow>
                    let tmp_path = with_extension ''json.tmp'' path in
                    (case dk_write (sh_os s) tmp_path json d1 of
                       (Inl _, d2) \<Rightarrow> s\<lparr>sh_disk := d2\<rparr>
                     | (Inr _, d2) \<Rightarrow>
                         (case dk_rename (sh_os s) tmp_path path d2 of (_, d3) \<Rightarrow> s\<lparr>sh_disk := d3\<rparr>)))))"

definition shadow_persist_lighting :: "'f shadow_state \<Rightarrow> 'f shadow_state" where
  "shadow_persist_lighting s = shadow_save s"

definition shadow_adopt_confirmed :: "(key_pos, u16) btree_map \<Rightarrow> 'f shadow_state \<Rightarrow> 'f shadow_state" where
  "shadow_adopt_confirmed keymap s =
     shadow_save (s\<lparr>sh_keymap := keymap, sh_confirmed := keymap, sh_dirty := [], sh_status := Confirmed\<rparr>)"

definition shadow_prepare_commit :: "'f shadow_state \<Rightarrow> 'f shadow_state" where
  "shadow_prepare_commit s = s\<lparr>sh_status := Pending\<rparr>"

definition shadow_confirm_commit :: "'f shadow_state \<Rightarrow> 'f shadow_state" where
  "shadow_confirm_commit s =
     shadow_save (s\<lparr>sh_confirmed := sh_keymap s, sh_dirty := [], sh_status := Confirmed\<rparr>)"

definition shadow_rollback :: "'f shadow_state \<Rightarrow> 'f shadow_state" where
  "shadow_rollback s = s\<lparr>sh_keymap := sh_confirmed s, sh_dirty := [], sh_status := Failed\<rparr>"

lemmas shadow_defs = shadow_set_keycode_def shadow_set_lighting_def shadow_persist_lighting_def
  shadow_adopt_confirmed_def shadow_prepare_commit_def shadow_confirm_commit_def shadow_rollback_def

section \<open>The commit life cycle\<close>

text \<open>
  \<open>shadow_wf\<close>: the keymap a client sees is the confirmed keymap overridden by the pending edits,
  and a state that is not pending has none.
\<close>

definition shadow_wf :: "'f shadow_state \<Rightarrow> bool" where
  "shadow_wf s \<longleftrightarrow> bt_wf (sh_keymap s) \<and> bt_wf (sh_confirmed s) \<and> bt_wf (sh_dirty s)
     \<and> bt_get (sh_keymap s) = bt_get (sh_confirmed s) ++ bt_get (sh_dirty s)
     \<and> (sh_status s \<noteq> Pending \<longrightarrow> sh_dirty s = [])"

lemma shadow_save_fields [simp]:
  "sh_keymap (shadow_save s) = sh_keymap s" "sh_confirmed (shadow_save s) = sh_confirmed s"
  "sh_dirty (shadow_save s) = sh_dirty s" "sh_lighting (shadow_save s) = sh_lighting s"
  "sh_status (shadow_save s) = sh_status s" "sh_data_path (shadow_save s) = sh_data_path s"
  "sh_os (shadow_save s) = sh_os s"
  by (simp_all add: shadow_save_def Let_def split: option.split sum.split prod.split)

lemma keymap_of_entries_wf: "bt_wf (keymap_of_entries es)"
proof -
  have "bt_wf km \<Longrightarrow> bt_wf (foldl (\<lambda>km e. bt_insert (ke_layer e, ke_row e, ke_col e) (ke_keycode e) km) km es)"
    for km by (induction es arbitrary: km) simp_all
  then show ?thesis by (simp add: keymap_of_entries_def)
qed

lemma shadow_load_wf [simp]: "shadow_wf (shadow_load os disk device_id)"
  by (auto simp: shadow_load_def shadow_wf_def Let_def keymap_of_entries_wf
           split: option.split sum.split prod.split)

lemma shadow_ephemeral_wf [simp]: "shadow_wf (shadow_ephemeral os disk)"
  by (simp add: shadow_ephemeral_def shadow_wf_def)

lemma shadow_wf_frame:
  "shadow_wf s \<Longrightarrow> sh_keymap s' = sh_keymap s \<Longrightarrow> sh_confirmed s' = sh_confirmed s
   \<Longrightarrow> sh_dirty s' = sh_dirty s \<Longrightarrow> sh_status s' = sh_status s \<or> sh_status s' = Pending \<Longrightarrow> shadow_wf s'"
  by (auto simp: shadow_wf_def)

lemma shadow_ops_wf [simp]:
  assumes "shadow_wf s"
  shows "shadow_wf (shadow_set_keycode l r c k s)" "shadow_wf (shadow_set_lighting x s)"
    "shadow_wf (shadow_persist_lighting s)" "shadow_wf (shadow_prepare_commit s)"
    "shadow_wf (shadow_confirm_commit s)" "shadow_wf (shadow_rollback s)"
    "bt_wf km \<Longrightarrow> shadow_wf (shadow_adopt_confirmed km s)"
  using assms by (simp_all add: shadow_defs shadow_wf_def)

lemma shadow_get_set [simp]:
  "shadow_wf s \<Longrightarrow> shadow_get_keycode l r c (shadow_set_keycode l' r' c' k s) =
     (if (l, r, c) = (l', r', c') then k else shadow_get_keycode l r c s)"
  by (auto simp: shadow_get_keycode_def shadow_set_keycode_def shadow_wf_def)

lemma set_shadow_layer_entries:
  assumes "shadow_wf s"
  shows "(r, c, k) \<in> set (shadow_layer_entries l s) \<longleftrightarrow> bt_get (sh_keymap s) (l, r, c) = Some k"
  using assms bt_in_set_iff[of "sh_keymap s" "(l, r, c)" k]
  by (force simp: shadow_layer_entries_def shadow_wf_def image_iff)

lemma distinct_shadow_layer_entries:
  assumes "shadow_wf s"
  shows "distinct (map (\<lambda>(r, c, k). (r, c)) (shadow_layer_entries l s))"
proof -
  have d: "distinct (map fst (filter (\<lambda>((l', _, _), _). l' = l) (sh_keymap s)))"
    using assms by (simp add: shadow_wf_def bt_distinct distinct_map_filter)
  have "map (\<lambda>(r, c, k). (r, c)) (shadow_layer_entries l s)
      = map snd (map fst (filter (\<lambda>((l', _, _), _). l' = l) (sh_keymap s)))"
    by (auto simp: shadow_layer_entries_def)
  moreover have "inj_on snd (fst ` set (filter (\<lambda>((l', _, _), _). l' = l) (sh_keymap s)))"
    by (auto simp: inj_on_def)
  ultimately show ?thesis using d by (simp only: distinct_map[of snd] set_map)
qed

lemma set_shadow_dirty_layers:
  "set (shadow_dirty_layers s) = (\<lambda>(l, _, _). l) ` dom (bt_get (sh_dirty s))"
  by (force simp: shadow_dirty_layers_def bt_get_def[abs_def] dom_map_of_conv_image_fst image_iff)

lemma distinct_shadow_dirty_layers: "distinct (shadow_dirty_layers s)"
proof -
  have "sorted xs \<Longrightarrow> distinct (remdups_adj xs)" for xs :: "u8 list"
    by (induction xs rule: remdups_adj.induct) auto
  then show ?thesis by (simp add: shadow_dirty_layers_def)
qed

section \<open>The file\<close>

text \<open>
  What is relied on of the file system, as POSIX documents it: making directories changes no file,
  a write touches only its path and a successful one sets its content, a rename that succeeds
  moves the content, and one that fails changes nothing.
\<close>

definition disk_lawful :: "'f disk_ops \<Rightarrow> bool" where
  "disk_lawful os \<longleftrightarrow>
     (\<forall>dir d p. dk_read_to_string os p (snd (dk_create_dir_all os dir d)) = dk_read_to_string os p d)
   \<and> (\<forall>q txt d p. p \<noteq> q \<longrightarrow> dk_read_to_string os p (snd (dk_write os q txt d)) = dk_read_to_string os p d)
   \<and> (\<forall>q txt d d'. dk_write os q txt d = (Inr (), d') \<longrightarrow> dk_read_to_string os q d' = Inr txt)
   \<and> (\<forall>a b d d'. dk_rename os a b d = (Inr (), d') \<longrightarrow> dk_read_to_string os b d' = dk_read_to_string os a d)
   \<and> (\<forall>a b d d' e p. dk_rename os a b d = (Inl e, d') \<longrightarrow> dk_read_to_string os p d' = dk_read_to_string os p d)"

lemma disk_lawfulD:
  assumes "disk_lawful os"
  shows "dk_create_dir_all os dir d = (r, d') \<Longrightarrow> dk_read_to_string os p d' = dk_read_to_string os p d"
    "dk_write os q txt d = (r, d') \<Longrightarrow> p \<noteq> q \<Longrightarrow> dk_read_to_string os p d' = dk_read_to_string os p d"
    "dk_write os q txt d = (Inr (), d') \<Longrightarrow> dk_read_to_string os q d' = Inr txt"
    "dk_rename os a b d = (Inr (), d') \<Longrightarrow> dk_read_to_string os b d' = dk_read_to_string os a d"
    "dk_rename os a b d = (Inl e, d') \<Longrightarrow> dk_read_to_string os p d' = dk_read_to_string os p d"
  using assms unfolding disk_lawful_def by (metis snd_conv | blast)+

lemma with_extension_tmp:
  "with_extension ''json.tmp'' (dir, stem @ ''.json'') = (dir, (if stem = [] then ''.json'' else stem) @ ''.json.tmp'')"
  by (simp add: with_extension_def Let_def)

lemma tmp_path_differs: "with_extension ''json.tmp'' (dir, stem @ ''.json'') \<noteq> (dir, stem @ ''.json'')"
  unfolding with_extension_tmp by (auto dest: arg_cong[where f = length])

lemma keymap_of_sorted_entries:
  assumes "bt_wf m"
  shows "keymap_of_entries (map (\<lambda>((layer, row, col), keycode).
      \<lparr>ke_layer = layer, ke_row = row, ke_col = col, ke_keycode = keycode\<rparr>) m) = m"
proof -
  let ?f = "\<lambda>((layer, row, col), keycode).
      \<lparr>ke_layer = layer, ke_row = row, ke_col = col, ke_keycode = keycode\<rparr>"
  have snoc: "bt_insert a b n = n @ [(a, b)]" if "\<forall>p \<in> set n. fst p < a" for a :: key_pos and b :: u16 and n
    using that by (induction n) auto
  have "keymap_of_entries (map ?f m) = m"
    using assms
  proof (induction m rule: rev_induct)
    case Nil
    then show ?case by (simp add: keymap_of_entries_def)
  next
    case (snoc x m)
    obtain l r c k where x: "x = ((l, r, c), k)" by (metis prod.exhaust)
    have "bt_wf m" "\<forall>p \<in> set m. fst p < (l, r, c)"
      using snoc.prems x by (auto simp: bt_wf_def sorted_wrt_append)
    with snoc.IH \<open>\<And>n b a. _ \<Longrightarrow> bt_insert a b n = _\<close> x show ?case
      by (simp add: keymap_of_entries_def)
  qed
  then show ?thesis .
qed

lemma shadow_save_file:
  assumes "disk_lawful (sh_os s)" and "sh_data_path s = Some (dir, stem @ ''.json'')"
  shows "dk_read_to_string (sh_os s) (dir, stem @ ''.json'') (sh_disk (shadow_save s)) =
           dk_read_to_string (sh_os s) (dir, stem @ ''.json'') (sh_disk s)
    \<or> (\<exists>json. js_to_string_pretty (sh_os s) (file_of_shadow s) = Some json
         \<and> dk_read_to_string (sh_os s) (dir, stem @ ''.json'') (sh_disk (shadow_save s)) = Inr json)"
proof -
  let ?os = "sh_os s" and ?p = "(dir, stem @ ''.json'')"
  let ?tmp = "with_extension ''json.tmp'' ?p" and ?read = "dk_read_to_string (sh_os s) (dir, stem @ ''.json'')"
  note laws = disk_lawfulD[OF assms(1)]
  show ?thesis
  proof (cases "js_to_string_pretty ?os (file_of_shadow s)")
    case None
    then show ?thesis using assms(2) by (simp add: shadow_save_def)
  next
    case (Some json)
    obtain r1 d1 where d1: "dk_create_dir_all ?os dir (sh_disk s) = (r1, d1)" by fastforce
    have k1: "?read d1 = ?read (sh_disk s)" by (rule laws(1)[OF d1])
    obtain r2 d2 where d2: "dk_write ?os ?tmp json d1 = (r2, d2)" by fastforce
    have k2: "?read d2 = ?read d1" by (rule laws(2)[OF d2 tmp_path_differs[symmetric]])
    obtain r3 d3 where d3: "dk_rename ?os ?tmp ?p d2 = (r3, d3)" by fastforce
    show ?thesis
    proof (cases "is_ok r1 \<and> is_ok r2")
      case False
      with Some assms(2) d1 d2 k1 k2 show ?thesis
        by (cases r1; cases r2) (simp_all add: shadow_save_def Let_def)
    next
      case True
      then have r: "r1 = Inr ()" "r2 = Inr ()" by (cases r1; cases r2; simp)+
      have save: "sh_disk (shadow_save s) = d3"
        using Some assms(2) d1 d2 d3 r by (simp add: shadow_save_def Let_def)
      show ?thesis
      proof (cases r3)
        case (Inl e)
        with laws(5)[OF d3[unfolded Inl]] k1 k2 save show ?thesis by simp
      next
        case (Inr u)
        then have "?read d3 = Inr json" using laws(4)[of ?tmp ?p d2 d3] laws(3)[OF d2[unfolded r]] d3 by simp
        then show ?thesis using Some save by simp
      qed
    qed
  qed
qed

text \<open>A save that the file system lets through.\<close>

definition save_succeeds :: "'f shadow_state \<Rightarrow> bool" where
  "save_succeeds s \<longleftrightarrow> (\<exists>json dir stem d1 d2 d3. sh_data_path s = Some (dir, stem @ ''.json'')
     \<and> js_to_string_pretty (sh_os s) (file_of_shadow s) = Some json
     \<and> js_from_str (sh_os s) json = Some (file_of_shadow s)
     \<and> dk_create_dir_all (sh_os s) dir (sh_disk s) = (Inr (), d1)
     \<and> dk_write (sh_os s) (with_extension ''json.tmp'' (dir, stem @ ''.json'')) json d1 = (Inr (), d2)
     \<and> dk_rename (sh_os s) (with_extension ''json.tmp'' (dir, stem @ ''.json'')) (dir, stem @ ''.json'') d2 = (Inr (), d3))"

lemma shadow_save_load:
  assumes "disk_lawful (sh_os s)" and "save_succeeds s" and "sh_data_path s = resolve_data_path (sh_os s) device_id"
    and "bt_wf (sh_keymap s)"
  shows "shadow_load (sh_os s) (sh_disk (shadow_save s)) device_id =
    (shadow_save s)\<lparr>sh_confirmed := sh_keymap s, sh_dirty := [], sh_status := Confirmed\<rparr>"
proof -
  from assms(2) obtain json dir stem d1 d2 d3 where
    a: "sh_data_path s = Some (dir, stem @ ''.json'')"
      "js_to_string_pretty (sh_os s) (file_of_shadow s) = Some json"
      "js_from_str (sh_os s) json = Some (file_of_shadow s)"
      "dk_create_dir_all (sh_os s) dir (sh_disk s) = (Inr (), d1)"
      "dk_write (sh_os s) (with_extension ''json.tmp'' (dir, stem @ ''.json'')) json d1 = (Inr (), d2)"
      "dk_rename (sh_os s) (with_extension ''json.tmp'' (dir, stem @ ''.json'')) (dir, stem @ ''.json'') d2 = (Inr (), d3)"
    by (auto simp: save_succeeds_def)
  have save: "shadow_save s = s\<lparr>sh_disk := d3\<rparr>" using a by (simp add: shadow_save_def)
  note laws = disk_lawfulD[OF assms(1)]
  have read: "dk_read_to_string (sh_os s) (dir, stem @ ''.json'') d3 = Inr json"
    using laws(4)[OF a(6)] laws(3)[OF a(5)] by simp
  have path: "resolve_data_path (sh_os s) device_id = Some (dir, stem @ ''.json'')" using a(1) assms(3) by simp
  have entries: "keymap_of_entries (sf_keymap (file_of_shadow s)) = sh_keymap s"
    "sf_lighting (file_of_shadow s) = Some (sh_lighting s)"
    using keymap_of_sorted_entries[OF assms(4)] by (simp_all add: file_of_shadow_def)
  show ?thesis
    unfolding shadow_load_def path by (simp add: read a(1,3) entries save)
qed

section \<open>The shadow as two keymaps\<close>

text \<open>The specification: the keymap known to be on the device, and the edits on top of it.\<close>

datatype shadow_op =
    ShSet u8 u8 u8 u16 | ShLighting lighting_state | ShPersist | ShPrepare | ShConfirm | ShRollback

fun shadow_step :: "shadow_op \<Rightarrow> 'f shadow_state \<Rightarrow> 'f shadow_state" where
  "shadow_step (ShSet l r c k) s = shadow_set_keycode l r c k s"
| "shadow_step (ShLighting x) s = shadow_set_lighting x s"
| "shadow_step ShPersist s = shadow_persist_lighting s"
| "shadow_step ShPrepare s = shadow_prepare_commit s"
| "shadow_step ShConfirm s = shadow_confirm_commit s"
| "shadow_step ShRollback s = shadow_rollback s"

type_synonym edits = "(key_pos \<Rightarrow> u16 option) \<times> (key_pos \<Rightarrow> u16 option)"

fun edits_step :: "shadow_op \<Rightarrow> edits \<Rightarrow> edits" where
  "edits_step (ShSet l r c k) (base, pend) = (base, pend((l, r, c) \<mapsto> k))"
| "edits_step ShConfirm (base, pend) = (base ++ pend, Map.empty)"
| "edits_step ShRollback (base, pend) = (base, Map.empty)"
| "edits_step _ e = e"

definition edits_of :: "'f shadow_state \<Rightarrow> edits" where
  "edits_of s = (bt_get (sh_confirmed s), bt_get (sh_dirty s))"

lemma shadow_step_refines:
  assumes "shadow_wf s"
  shows "shadow_wf (shadow_step x s) \<and> edits_of (shadow_step x s) = edits_step x (edits_of s)"
  using assms by (cases x) (simp_all add: edits_of_def shadow_defs shadow_wf_def)

lemma shadow_fold_refines:
  "shadow_wf s \<Longrightarrow> shadow_wf (fold shadow_step xs s) \<and> edits_of (fold shadow_step xs s) = fold edits_step xs (edits_of s)"
  by (induction xs arbitrary: s) (simp_all add: shadow_step_refines)

lemma edits_of_load: "edits_of (shadow_load os disk device_id) = (bt_get (sh_keymap (shadow_load os disk device_id)), Map.empty)"
  by (simp add: edits_of_def shadow_load_def Let_def split: option.split prod.split)

text \<open>C34. The shadow is the two-keymap specification: after any sequence of edits, commits and
  rollbacks on a freshly loaded shadow, a read returns the pending edit of its position, else the
  confirmed value, else KC_NO; and the set of layers a commit pushes is the set of layers with
  a pending edit. A file system that fails at any point changes none of this.\<close>

theorem shadow_refines_edits:
  "let s = fold shadow_step xs (shadow_load os disk dev);
       (base, pend) = fold edits_step xs (bt_get (sh_keymap (shadow_load os disk dev)), Map.empty)
   in shadow_get_keycode l r c s = (case (base ++ pend) (l, r, c) of Some k \<Rightarrow> k | None \<Rightarrow> 0)
     \<and> set (shadow_dirty_layers s) = (\<lambda>(l, _, _). l) ` dom pend"
proof -
  let ?s = "fold shadow_step xs (shadow_load os disk dev)"
  from shadow_fold_refines[OF shadow_load_wf, of xs os disk dev] have "shadow_wf ?s"
    and e: "fold edits_step xs (bt_get (sh_keymap (shadow_load os disk dev)), Map.empty)
      = (bt_get (sh_confirmed ?s), bt_get (sh_dirty ?s))"
    unfolding edits_of_load by (simp_all add: edits_of_def)
  then have "bt_get (sh_keymap ?s) = bt_get (sh_confirmed ?s) ++ bt_get (sh_dirty ?s)"
    by (simp add: shadow_wf_def)
  then show ?thesis unfolding Let_def e by (simp add: shadow_get_keycode_def set_shadow_dirty_layers)
qed

text \<open>C35. Saving is atomic: whichever of the file operations fails, the shadow file afterwards reads
  exactly as before or as the complete new document.\<close>

theorem shadow_save_is_atomic:
  assumes "disk_lawful (sh_os s)" and "sh_data_path s = resolve_data_path (sh_os s) device_id"
    and "resolve_data_path (sh_os s) device_id = Some path"
  shows "dk_read_to_string (sh_os s) path (sh_disk (shadow_save s)) = dk_read_to_string (sh_os s) path (sh_disk s)
    \<or> Some (dk_read_to_string (sh_os s) path (sh_disk (shadow_save s)))
        = map_option Inr (js_to_string_pretty (sh_os s) (file_of_shadow s))"
  using assms shadow_save_file[of s "fst path" device_id]
  by (fastforce simp: resolve_data_path_def split: option.splits)

text \<open>A file system that keeps what it is given, and renders one document.\<close>

definition plain_disk :: "shadow_file \<Rightarrow> (path \<Rightarrow> string option) disk_ops" where
  "plain_disk doc =
     \<lparr>dk_data_dir = Some ''/home/u/.local/share/clackd'',
      dk_read_to_string = (\<lambda>p d. case d p of None \<Rightarrow> Inl (OsError ENOENT) | Some x \<Rightarrow> Inr x),
      dk_create_dir_all = (\<lambda>_. ok ()), dk_write = (\<lambda>p x d. (Inr (), d(p := Some x))),
      dk_rename = (\<lambda>a b d. (Inr (), d(b := d a, a := (if a = b then d a else None)))),
      js_from_str = (\<lambda>_. Some doc), js_to_string_pretty = (\<lambda>_. Some ''{}'')\<rparr>"

definition plain_edited :: "shadow_file \<Rightarrow> (path \<Rightarrow> string option) shadow_state" where
  "plain_edited doc = shadow_set_keycode 0 1 2 7 (shadow_load (plain_disk doc) (\<lambda>_. None) ''05ac_024f'')"

definition plain_doc :: shadow_file where
  "plain_doc = \<lparr>sf_version = 1, sf_keymap = [\<lparr>ke_layer = 0, ke_row = 1, ke_col = 2, ke_keycode = 7\<rparr>],
     sf_lighting = Some lighting_state_default\<rparr>"

lemma plain_disk_lawful: "disk_lawful (plain_disk doc)"
  by (auto simp: disk_lawful_def plain_disk_def ok_def)

lemma plain_os: "sh_os (plain_edited doc) = plain_disk doc"
  by (simp add: plain_edited_def shadow_set_keycode_def shadow_load_def Let_def split: prod.split)

lemma plain_path:
  "sh_data_path (plain_edited doc) = resolve_data_path (plain_disk doc) ''05ac_024f''"
  "resolve_data_path (plain_disk doc) ''05ac_024f'' = Some (''/home/u/.local/share/clackd'', ''05ac_024f.json'')"
  by (simp_all add: plain_edited_def shadow_set_keycode_def shadow_load_def Let_def resolve_data_path_def
        plain_disk_def split: prod.split)

theorem shadow_save_is_atomic_witness:
  "dk_read_to_string (plain_disk plain_doc) (''/home/u/.local/share/clackd'', ''05ac_024f.json'')
     (sh_disk (shadow_save (plain_edited plain_doc))) = Inr ''{}''"
proof -
  have "dk_read_to_string (plain_disk plain_doc) (''/home/u/.local/share/clackd'', ''05ac_024f.json'')
      (sh_disk (shadow_save (plain_edited plain_doc))) \<noteq> Inl (OsError ENOENT)"
    by code_simp
  then show ?thesis
    using shadow_save_is_atomic[of "plain_edited plain_doc" "''05ac_024f''"] plain_disk_lawful plain_path
    unfolding plain_os by (auto simp: plain_edited_def shadow_set_keycode_def shadow_load_def Let_def plain_disk_def)
qed

text \<open>C36. What a successful save writes, a later load reads: the same keymap and the same lighting.
  The load declares all of it confirmed, whatever was pending when the file was written.\<close>

theorem shadow_persists_across_restart:
  assumes "disk_lawful (sh_os s)" and "save_succeeds s" and "sh_data_path s = resolve_data_path (sh_os s) device_id"
    and "shadow_wf s"
  shows "edits_of (shadow_load (sh_os s) (sh_disk (shadow_save s)) device_id) = (bt_get (sh_keymap s), Map.empty)
    \<and> sh_lighting (shadow_load (sh_os s) (sh_disk (shadow_save s)) device_id) = sh_lighting s
    \<and> sh_status (shadow_load (sh_os s) (sh_disk (shadow_save s)) device_id) = Confirmed"
  using shadow_save_load[OF assms(1-3)] assms(4) by (simp add: shadow_wf_def edits_of_def)

lemma plain_save_succeeds: "save_succeeds (plain_edited plain_doc)"
proof -
  have "file_of_shadow (plain_edited plain_doc) = plain_doc" by code_simp
  then show ?thesis
    unfolding save_succeeds_def plain_os plain_path
    by (intro exI[of _ "''{}''"] exI[of _ "''/home/u/.local/share/clackd''"] exI[of _ "''05ac_024f''"])
       (simp add: plain_disk_def ok_def)
qed

text \<open>In particular a lighting change in the middle of an edit makes the pending edit confirmed after a
  restart, although it was never pushed to the board.\<close>

theorem shadow_persists_across_restart_witness:
  "bt_get (sh_confirmed (plain_edited plain_doc)) (0, 1, 2) = None
    \<and> fst (edits_of (shadow_load (plain_disk plain_doc)
        (sh_disk (shadow_persist_lighting (plain_edited plain_doc))) ''05ac_024f'')) (0, 1, 2) = Some 7"
proof -
  have w: "shadow_wf (plain_edited plain_doc)" by (simp add: plain_edited_def)
  have "bt_get (sh_keymap (plain_edited plain_doc)) (0, 1, 2) = Some 7"
    "bt_get (sh_confirmed (plain_edited plain_doc)) (0, 1, 2) = None" by code_simp+
  with shadow_persists_across_restart[OF _ plain_save_succeeds _ w, of "''05ac_024f''"] show ?thesis
    unfolding plain_os plain_path by (simp add: plain_disk_lawful shadow_persist_lighting_def)
qed

end
