(* ===== verification/Gmk67_Codec.thy ===== *)
theory Gmk67_Codec
  imports Shadow
begin

text \<open>
  The pure part of \<open>src/hal/legacy/gmk67.rs\<close>: colour and range conversions, the matrix table,
  and the encoders of the 64-byte feature frames and of the 576-byte key-definition area.
\<close>

section \<open>Constants\<close>

definition FRAME_LEN :: nat where "FRAME_LEN = 64"
definition REPORT_ID :: u8 where "REPORT_ID = 0x00"
definition PACKET_HEADER :: u8 where "PACKET_HEADER = 0x04"
definition CMD_COMMUNICATION_END :: u8 where "CMD_COMMUNICATION_END = 0x02"
definition CMD_WRITE_LED_SPECIAL_EFFECT_AREA :: u8 where "CMD_WRITE_LED_SPECIAL_EFFECT_AREA = 0x13"
definition CMD_TURN_ON_CUSTOMIZATION :: u8 where "CMD_TURN_ON_CUSTOMIZATION = 0x18"
definition CMD_LED_EFFECT_START :: u8 where "CMD_LED_EFFECT_START = 0xF0"
definition LED_SPECIAL_EFFECT_PACKETS :: u8 where "LED_SPECIAL_EFFECT_PACKETS = 0x01"
definition MF_MODE :: nat where "MF_MODE = 0"
definition MF_R :: nat where "MF_R = 1"
definition MF_G :: nat where "MF_G = 2"
definition MF_B :: nat where "MF_B = 3"
definition MF_RANDOM :: nat where "MF_RANDOM = 8"
definition MF_BRIGHTNESS :: nat where "MF_BRIGHTNESS = 9"
definition MF_SPEED :: nat where "MF_SPEED = 10"
definition MF_DIRECTION :: nat where "MF_DIRECTION = 11"
definition MF_FOOTER :: nat where "MF_FOOTER = 14"
definition FOOTER_MAGIC :: bytes where "FOOTER_MAGIC = [0xAA, 0x55]"
definition MODE_STATIC :: u8 where "MODE_STATIC = 0x01"
definition MODE_EFFECT_MAX :: u8 where "MODE_EFFECT_MAX = 0x13"
definition MODE_LIGHTS_OFF :: u8 where "MODE_LIGHTS_OFF = 0x80"
definition BRIGHTNESS_MIN :: u8 where "BRIGHTNESS_MIN = 0x00"
definition BRIGHTNESS_MAX :: u8 where "BRIGHTNESS_MAX = 0x0F"
definition SPEED_MAX :: u8 where "SPEED_MAX = 0x0F"
definition VIA_CHANNEL_PACKED :: u8 where "VIA_CHANNEL_PACKED = 0"
definition VIA_CHANNEL_RGB_MATRIX :: u8 where "VIA_CHANNEL_RGB_MATRIX = 3"
definition VIA_VALUE_BRIGHTNESS :: u8 where "VIA_VALUE_BRIGHTNESS = 1"
definition VIA_VALUE_EFFECT :: u8 where "VIA_VALUE_EFFECT = 2"
definition VIA_VALUE_SPEED :: u8 where "VIA_VALUE_SPEED = 3"
definition VIA_VALUE_COLOR :: u8 where "VIA_VALUE_COLOR = 4"
definition CMD_WRITE_KEY_DEFINITION_AREA :: u8 where "CMD_WRITE_KEY_DEFINITION_AREA = 0x11"
definition CMD_WRITE_KEY_DEFINITION_AREA_FN :: u8 where "CMD_WRITE_KEY_DEFINITION_AREA_FN = 0x27"
definition KEY_DEF_PAGES :: nat where "KEY_DEF_PAGES = 9"
definition KEY_DEF_BUF_LEN :: nat where "KEY_DEF_BUF_LEN = KEY_DEF_PAGES * FRAME_LEN"
definition KEY_DEF_ENTRY_MARKER :: u8 where "KEY_DEF_ENTRY_MARKER = 0x02"
definition NA :: u8 where "NA = 0xFF"

section \<open>Ranges and colours\<close>

definition scale_255_to_15 :: "u8 \<Rightarrow> u8" where
  "scale_255_to_15 v = ucast (((ucast v :: u16) * 15 + 127) div 255)"

definition scale_15_to_255 :: "u8 \<Rightarrow> u8" where
  "scale_15_to_255 v = ucast ((ucast (min v 0x0F) :: u16) * 255 div 15)"

definition hs_to_rgb :: "u8 \<Rightarrow> u8 \<Rightarrow> u8 \<times> u8 \<times> u8" where
  "hs_to_rgb h s0 =
     (if s0 = 0 then (255, 255, 255)
      else
        let region = h div 43;
            remainder = ((ucast h :: u16) - ucast region * 43) * 6;
            s = (ucast s0 :: u16);
            p = (ucast (255 * (255 - s) div 255) :: u8);
            q = (ucast (255 * (255 - (s * remainder) div 255) div 255) :: u8);
            t = (ucast (255 * (255 - (s * (255 - remainder)) div 255) div 255) :: u8)
        in if region = 0 then (255, t, p)
           else if region = 1 then (q, 255, p)
           else if region = 2 then (p, 255, t)
           else if region = 3 then (p, q, 255)
           else if region = 4 then (t, p, 255)
           else (255, p, q))"

text \<open>The \<open>i32\<close> arithmetic of \<open>rgb_to_hs\<close> stays far inside its range; its division truncates
  towards zero, and the final \<open>rem_euclid\<close> is the mathematical remainder.\<close>

definition i32_div :: "int \<Rightarrow> int \<Rightarrow> int" where
  "i32_div a b = (if 0 \<le> a then a div b else - ((- a) div b))"

definition rgb_to_hs :: "u8 \<Rightarrow> u8 \<Rightarrow> u8 \<Rightarrow> u8 \<times> u8" where
  "rgb_to_hs r0 g0 b0 =
     (let mx = uint (max (max r0 g0) b0); mn = uint (min (min r0 g0) b0); delta = mx - mn in
      if mx = 0 \<or> delta = 0 then (0, 0)
      else
        let s = (word_of_int (i32_div (delta * 255) mx) :: u8);
            r = uint r0; g = uint g0; b = uint b0;
            h = (if r = mx then i32_div (43 * (g - b)) delta
                 else if g = mx then 85 + i32_div (43 * (b - r)) delta
                 else 171 + i32_div (43 * (r - g)) delta)
        in (word_of_int (h mod 256), s))"

definition is_renderable_mode :: "u8 \<Rightarrow> bool" where
  "is_renderable_mode mode \<longleftrightarrow> (MODE_STATIC \<le> mode \<and> mode \<le> MODE_EFFECT_MAX) \<or> mode = MODE_LIGHTS_OFF"

section \<open>The matrix table\<close>

definition KEY_INDEX :: "u8 list list" where
  "KEY_INDEX =
    [[1, 20, 21, 22, 23, 24, 25, 26, 27, 28, 29, 30, 31, 103, NA],
     [37, 38, 39, 40, 41, 42, 43, 44, 45, 46, 47, 48, 49, 67, 119],
     [55, 56, 57, 58, 59, 60, 61, 62, 63, 64, 65, 66, 85, 118, NA],
     [73, 74, 75, 76, 77, 78, 79, 80, 81, 82, 83, 84, 101, 121, NA],
     [91, 92, 93, 94, 95, 96, 99, 100, 102, NA, NA, NA, NA, NA, NA]]"

definition key_index_for :: "u8 \<Rightarrow> u8 \<Rightarrow> u8 option" where
  "key_index_for row col =
     (case nth_opt KEY_INDEX (unat row) of
        None \<Rightarrow> None
      | Some cells \<Rightarrow>
          (case nth_opt cells (unat col) of
             None \<Rightarrow> None
           | Some ki \<Rightarrow> if ki \<noteq> NA then Some ki else None))"

definition keydef_command :: "u8 \<Rightarrow> u8 option" where
  "keydef_command layer =
     (if layer = 0 then Some CMD_WRITE_KEY_DEFINITION_AREA
      else if layer = 1 then Some CMD_WRITE_KEY_DEFINITION_AREA_FN
      else None)"

definition keydef_read_command :: "u8 \<Rightarrow> u8 option" where
  "keydef_read_command layer =
     (if layer = 0 then Some 0x10 else if layer = 1 then Some 0x26 else None)"

fun position_of :: "'a \<Rightarrow> 'a list \<Rightarrow> nat option" where
  "position_of x [] = None"
| "position_of x (y # ys) = (if y = x then Some 0 else map_option Suc (position_of x ys))"

fun find_in_rows :: "u8 \<Rightarrow> nat \<Rightarrow> u8 list list \<Rightarrow> (u8 \<times> u8) option" where
  "find_in_rows ki r [] = None"
| "find_in_rows ki r (row # rows) =
     (case position_of ki row of
        Some c \<Rightarrow> Some (word_of_nat r, word_of_nat c)
      | None \<Rightarrow> find_in_rows ki (Suc r) rows)"

definition find_matrix_pos_for_key_index :: "u8 \<Rightarrow> (u8 \<times> u8) option" where
  "find_matrix_pos_for_key_index ki = (if ki = NA then None else find_in_rows ki 0 KEY_INDEX)"

section \<open>Lighting\<close>

record lighting =
  lg_mode :: u8
  lg_r :: u8
  lg_g :: u8
  lg_b :: u8
  lg_brightness :: u8
  lg_speed :: u8
  lg_direction :: u8
  lg_random :: bool

definition lighting_default :: lighting where
  "lighting_default =
     \<lparr>lg_mode = MODE_STATIC, lg_r = 0xFF, lg_g = 0xFF, lg_b = 0xFF, lg_brightness = BRIGHTNESS_MAX,
      lg_speed = 0x00, lg_direction = 0x00, lg_random = False\<rparr>"

definition u8_of_bool :: "bool \<Rightarrow> u8" where
  "u8_of_bool b = (if b then 1 else 0)"

definition lighting_encode :: "lighting \<Rightarrow> bytes" where
  "lighting_encode l =
     put_at MF_FOOTER FOOTER_MAGIC
       ((replicate FRAME_LEN 0)
         [MF_MODE := lg_mode l, MF_R := lg_r l, MF_G := lg_g l, MF_B := lg_b l, MF_RANDOM := u8_of_bool (lg_random l),
          MF_BRIGHTNESS := max BRIGHTNESS_MIN (min (lg_brightness l) BRIGHTNESS_MAX), MF_SPEED := min (lg_speed l) SPEED_MAX,
          MF_DIRECTION := lg_direction l])"

definition get_or :: "bytes \<Rightarrow> nat \<Rightarrow> u8 \<Rightarrow> u8" where
  "get_or xs i d = (case nth_opt xs i of Some x \<Rightarrow> x | None \<Rightarrow> d)"

definition lighting_from_bytes :: "bytes \<Rightarrow> lighting" where
  "lighting_from_bytes xs =
     (let d = lighting_default in
      \<lparr>lg_mode = get_or xs 0 (lg_mode d), lg_r = get_or xs 1 (lg_r d), lg_g = get_or xs 2 (lg_g d),
       lg_b = get_or xs 3 (lg_b d), lg_brightness = get_or xs 4 (lg_brightness d),
       lg_speed = get_or xs 6 (lg_speed d), lg_direction = get_or xs 7 (lg_direction d),
       lg_random = (case nth_opt xs 5 of Some x \<Rightarrow> x \<noteq> 0 | None \<Rightarrow> lg_random d)\<rparr>)"

definition lighting_to_bytes :: "lighting \<Rightarrow> bytes" where
  "lighting_to_bytes l =
     [lg_mode l, lg_r l, lg_g l, lg_b l, lg_brightness l, u8_of_bool (lg_random l), lg_speed l, lg_direction l]"

definition to_lighting_state :: "lighting \<Rightarrow> lighting_state" where
  "to_lighting_state l =
     \<lparr>ls_mode = lg_mode l, ls_r = lg_r l, ls_g = lg_g l, ls_b = lg_b l, ls_brightness = lg_brightness l,
      ls_speed = lg_speed l, ls_direction = lg_direction l, ls_random = lg_random l\<rparr>"

definition from_lighting_state :: "lighting_state \<Rightarrow> lighting" where
  "from_lighting_state s =
     \<lparr>lg_mode = ls_mode s, lg_r = ls_r s, lg_g = ls_g s, lg_b = ls_b s, lg_brightness = ls_brightness s,
      lg_speed = ls_speed s, lg_direction = ls_direction s, lg_random = ls_random s\<rparr>"

section \<open>Frames\<close>

definition encode_cmd :: "u8 \<Rightarrow> bytes" where
  "encode_cmd command = (replicate FRAME_LEN 0)[0 := PACKET_HEADER, 1 := command]"

definition encode_start_effect_page :: bytes where
  "encode_start_effect_page = (encode_cmd CMD_WRITE_LED_SPECIAL_EFFECT_AREA)[8 := LED_SPECIAL_EFFECT_PACKETS]"

definition encode_start_keydef_page :: "u8 \<Rightarrow> bytes" where
  "encode_start_keydef_page command = (encode_cmd command)[8 := word_of_nat KEY_DEF_PAGES]"

definition put_keydef :: "bytes \<Rightarrow> u8 \<times> u16 \<Rightarrow> bytes" where
  "put_keydef buf e = (case e of (ki, kc) \<Rightarrow>
     let off = unat ki * 4 in
     if off + 3 < KEY_DEF_BUF_LEN
     then buf[off := KEY_DEF_ENTRY_MARKER, off + 2 := u16_lo kc, off + 3 := u16_hi kc]
     else buf)"

definition encode_keydef_buffer :: "(u8 \<times> u16) list \<Rightarrow> bytes" where
  "encode_keydef_buffer entries =
     put_at (KEY_DEF_BUF_LEN - 2) FOOTER_MAGIC (foldl put_keydef (replicate KEY_DEF_BUF_LEN 0) entries)"

text \<open>The page \<open>p\<close> of a key-definition buffer.\<close>

definition keydef_page :: "bytes \<Rightarrow> nat \<Rightarrow> bytes" where
  "keydef_page buf p = slice (p * FRAME_LEN) FRAME_LEN buf"

text \<open>The inner loop of \<open>read_keydef_layer\<close> over one page that was read back.\<close>

definition scan_entry :: "bytes \<Rightarrow> u8 \<Rightarrow> nat \<Rightarrow> (key_pos, u16) btree_map \<Rightarrow> nat \<Rightarrow> (key_pos, u16) btree_map" where
  "scan_entry page layer p entries e =
     (let offset = e * 4 in
      if page ! offset \<noteq> KEY_DEF_ENTRY_MARKER then entries
      else
        let keycode = u16_of (page ! (offset + 3)) (page ! (offset + 2));
            ki = (word_of_nat (p * (FRAME_LEN div 4) + e) :: u8) in
        (case find_matrix_pos_for_key_index ki of
           Some (row, col) \<Rightarrow> bt_insert (layer, row, col) keycode entries
         | None \<Rightarrow> entries))"

definition scan_page :: "bytes \<Rightarrow> u8 \<Rightarrow> nat \<Rightarrow> (key_pos, u16) btree_map \<Rightarrow> (key_pos, u16) btree_map" where
  "scan_page page layer p entries = foldl (scan_entry page layer p) entries [0..<FRAME_LEN div 4]"

lemmas gmk_lens = FRAME_LEN_def KEY_DEF_BUF_LEN_def KEY_DEF_PAGES_def

section \<open>Finite checks\<close>

text \<open>A statement about every byte is a statement about 256 numbers.\<close>

lemma all_u8_iff: "(\<forall>x :: u8. P x) \<longleftrightarrow> list_all (\<lambda>n. P (word_of_nat n)) [0..<256]"
proof
  assume "list_all (\<lambda>n. P (word_of_nat n)) [0..<256]"
  then have k: "n < 256 \<Longrightarrow> P (word_of_nat n)" for n by (simp add: list_all_iff)
  show "\<forall>x. P x"
  proof
    fix x :: u8
    show "P x" using k[of "unat x"] unsigned_less[of x, where 'a = nat] by simp
  qed
qed (simp add: list_all_iff)

section \<open>The matrix table is a bijection\<close>

definition cell_back :: "u8 \<Rightarrow> u8 \<Rightarrow> bool" where
  "cell_back r c = (case key_index_for r c of None \<Rightarrow> True
     | Some ki \<Rightarrow> find_matrix_pos_for_key_index ki = Some (r, c) \<and> unat ki \<le> 121 \<and> 0 < unat ki)"

lemma cells_back: "list_all (\<lambda>r. list_all (\<lambda>c. cell_back (word_of_nat r) (word_of_nat c)) [0..<15]) [0..<5]"
  by code_simp

lemma key_index_for_bounds: "key_index_for r c = Some ki \<Longrightarrow> unat r < 5 \<and> unat c < 15"
proof -
  assume a: "key_index_for r c = Some ki"
  have rows: "length KEY_INDEX = 5" "list_all (\<lambda>row. length row = 15) KEY_INDEX" by (simp_all add: KEY_INDEX_def)
  from a obtain row where row: "nth_opt KEY_INDEX (unat r) = Some row" "nth_opt row (unat c) \<noteq> None"
    by (auto simp: key_index_for_def split: option.splits)
  then have r: "unat r < 5" "row = KEY_INDEX ! unat r" using rows by (auto simp: nth_opt_def split: if_splits)
  then have "length row = 15" using rows by (simp add: list_all_length)
  with row(2) r show ?thesis by (auto simp: nth_opt_def split: if_splits)
qed

lemma key_index_for_back:
  assumes "key_index_for r c = Some ki"
  shows "find_matrix_pos_for_key_index ki = Some (r, c)" "unat ki \<le> 121" "0 < unat ki"
proof -
  from key_index_for_bounds[OF assms] have "cell_back (word_of_nat (unat r)) (word_of_nat (unat c))"
    using cells_back[unfolded list_all_iff, rule_format, of "unat r" "unat c"] by simp
  with assms show "find_matrix_pos_for_key_index ki = Some (r, c)" "unat ki \<le> 121" "0 < unat ki"
    by (simp_all add: cell_back_def)
qed

lemma position_of_Some: "position_of x ys = Some c \<Longrightarrow> c < length ys \<and> ys ! c = x"
  by (induction ys arbitrary: c) (auto split: if_splits)

lemma find_in_rows_Some:
  "find_in_rows ki r rows = Some (a, b) \<Longrightarrow> \<exists>i j. i < length rows \<and> j < length (rows ! i) \<and> rows ! i ! j = ki
     \<and> a = word_of_nat (r + i) \<and> b = word_of_nat j"
proof (induction ki r rows rule: find_in_rows.induct)
  case (1 ki r)
  then show ?case by simp
next
  case (2 ki r row rows)
  show ?case
  proof (cases "position_of ki row")
    case None
    with 2 obtain i j where "i < length rows" "j < length (rows ! i)" "rows ! i ! j = ki"
      "a = word_of_nat (Suc r + i)" "b = word_of_nat j" by auto
    then show ?thesis by (intro exI[of _ "Suc i"] exI[of _ j]) simp
  next
    case (Some c)
    with 2(2) position_of_Some[OF Some] show ?thesis by (intro exI[of _ 0] exI[of _ c]) simp
  qed
qed

lemma find_matrix_pos_iff:
  "find_matrix_pos_for_key_index ki = Some (r, c) \<longleftrightarrow> key_index_for r c = Some ki"
proof
  assume a: "find_matrix_pos_for_key_index ki = Some (r, c)"
  then have ki: "ki \<noteq> NA" "find_in_rows ki 0 KEY_INDEX = Some (r, c)"
    by (auto simp: find_matrix_pos_for_key_index_def split: if_splits)
  from find_in_rows_Some[OF ki(2)] obtain i j where
    ij: "i < length KEY_INDEX" "j < length (KEY_INDEX ! i)" "KEY_INDEX ! i ! j = ki" "r = word_of_nat i" "c = word_of_nat j"
    by auto
  have rows: "length KEY_INDEX = 5" "list_all (\<lambda>row. length row = 15) KEY_INDEX" by (simp_all add: KEY_INDEX_def)
  with ij have "i < 5" "j < 15" by (auto simp: list_all_length)
  then have "unat r = i" "unat c = j" using ij(4,5) by (simp_all add: unat_of_nat)
  with ij ki(1) show "key_index_for r c = Some ki" by (simp add: key_index_for_def)
qed (rule key_index_for_back)

section \<open>The key-definition area\<close>

lemma length_put_keydef [simp]: "length (put_keydef buf e) = length buf"
  by (simp add: put_keydef_def Let_def split: prod.split)

lemma length_foldl_put_keydef [simp]: "length (foldl put_keydef buf es) = length buf"
  by (induction es arbitrary: buf) simp_all

lemma length_encode_keydef_buffer [simp]: "length (encode_keydef_buffer es) = 576"
  by (simp add: encode_keydef_buffer_def gmk_lens FOOTER_MAGIC_def)

text \<open>Slot \<open>n\<close> of a buffer: the marker byte and the keycode.\<close>

definition slot_of :: "bytes \<Rightarrow> nat \<Rightarrow> u16 option" where
  "slot_of buf n = (if buf ! (n * 4) = KEY_DEF_ENTRY_MARKER
     then Some (u16_of (buf ! (n * 4 + 3)) (buf ! (n * 4 + 2))) else None)"

lemma slot_of_put_keydef:
  assumes "length buf = 576" and "unat ki < 144" and "n < 144"
  shows "slot_of (put_keydef buf (ki, kc)) n = (if n = unat ki then Some kc else slot_of buf n)"
proof -
  have k: "unat ki * 4 + 3 < 576" "n * 4 + 3 < 576" using assms by auto
  show ?thesis
  proof (cases "n = unat ki")
    case True
    with k assms(1) show ?thesis
      by (simp add: slot_of_def put_keydef_def Let_def gmk_lens)
  next
    case False
    then have "n * 4 \<noteq> unat ki * 4" "n * 4 \<noteq> unat ki * 4 + 2" "n * 4 \<noteq> unat ki * 4 + 3"
      "n * 4 + 2 \<noteq> unat ki * 4" "n * 4 + 2 \<noteq> unat ki * 4 + 3"
      "n * 4 + 3 \<noteq> unat ki * 4" "n * 4 + 3 \<noteq> unat ki * 4 + 2" by presburger+
    with False k assms(1) show ?thesis
      by (simp add: slot_of_def put_keydef_def Let_def gmk_lens)
  qed
qed

lemma slot_of_foldl:
  assumes "length buf = 576" and "\<forall>e \<in> set es. unat (fst e) < 144" and "n < 144"
  shows "slot_of (foldl put_keydef buf es) n =
    (case map_of (rev es) (word_of_nat n) of Some kc \<Rightarrow> Some kc | None \<Rightarrow> slot_of buf n)"
  using assms(1,2)
proof (induction es rule: rev_induct)
  case Nil
  then show ?case by simp
next
  case (snoc e es)
  obtain ki kc where e: "e = (ki, kc)" by fastforce
  have n: "n = unat ki \<longleftrightarrow> word_of_nat n = ki"
    using assms(3) by (auto simp: unat_of_nat)
  have "slot_of (put_keydef (foldl put_keydef buf es) (ki, kc)) n
      = (if n = unat ki then Some kc else slot_of (foldl put_keydef buf es) n)"
    using snoc.prems e assms(3) by (intro slot_of_put_keydef) auto
  moreover have "slot_of (foldl put_keydef buf es) n =
      (case map_of (rev es) (word_of_nat n) of Some kc \<Rightarrow> Some kc | None \<Rightarrow> slot_of buf n)"
    using snoc.prems by (intro snoc.IH) auto
  ultimately show ?case by (simp add: e n)
qed

lemma slot_of_encode:
  assumes "\<forall>e \<in> set es. unat (fst e) < 143" and "n < 143"
  shows "slot_of (encode_keydef_buffer es) n = map_of (rev es) (word_of_nat n)"
proof -
  let ?b = "foldl put_keydef (replicate 576 0) es"
  have "encode_keydef_buffer es ! j = ?b ! j" if "j < 574" for j
    using that by (simp add: encode_keydef_buffer_def gmk_lens nth_put_at FOOTER_MAGIC_def)
  then have "slot_of (encode_keydef_buffer es) n = slot_of ?b n"
    using assms(2) by (simp add: slot_of_def)
  moreover have "slot_of (replicate 576 0) n = None"
    using assms(2) by (simp add: slot_of_def KEY_DEF_ENTRY_MARKER_def)
  moreover have "\<forall>e \<in> set es. unat (fst e) < 144" using assms(1) by fastforce
  ultimately show ?thesis
    using slot_of_foldl[of "replicate 576 0" es n] assms(2) by (simp split: option.split)
qed

lemma encode_keydef_footer: "drop 574 (encode_keydef_buffer es) = FOOTER_MAGIC"
  by (simp add: encode_keydef_buffer_def gmk_lens put_at_def FOOTER_MAGIC_def)

text \<open>Reading an area back, slot by slot.\<close>

definition scan_slot :: "u8 \<Rightarrow> (nat \<Rightarrow> u16 option) \<Rightarrow> (key_pos, u16) btree_map \<Rightarrow> nat \<Rightarrow> (key_pos, u16) btree_map" where
  "scan_slot layer slots es n =
     (case slots n of
        None \<Rightarrow> es
      | Some kc \<Rightarrow>
          (case find_matrix_pos_for_key_index (word_of_nat n) of
             Some (row, col) \<Rightarrow> bt_insert (layer, row, col) kc es
           | None \<Rightarrow> es))"

definition scan_area :: "u8 \<Rightarrow> bytes \<Rightarrow> nat \<Rightarrow> (key_pos, u16) btree_map \<Rightarrow> (key_pos, u16) btree_map" where
  "scan_area layer buf k es = foldl (\<lambda>acc p. scan_page (keydef_page buf p) layer p acc) es [0..<k]"

lemma scan_entry_slot:
  assumes "length buf = 576" and "p < 9" and "e < 16"
  shows "scan_entry (keydef_page buf p) layer p es e = scan_slot layer (slot_of buf) es (p * 16 + e)"
proof -
  have at: "keydef_page buf p ! j = buf ! (p * 64 + j)" if "j < 64" for j
    using that assms by (simp add: keydef_page_def slice_def FRAME_LEN_def)
  have "keydef_page buf p ! (e * 4) = buf ! ((p * 16 + e) * 4)"
    "keydef_page buf p ! (e * 4 + 2) = buf ! ((p * 16 + e) * 4 + 2)"
    "keydef_page buf p ! (e * 4 + 3) = buf ! ((p * 16 + e) * 4 + 3)"
    using assms(3) by (simp_all add: at algebra_simps)
  then show ?thesis
    by (simp add: scan_entry_def scan_slot_def slot_of_def Let_def FRAME_LEN_def)
qed

lemma foldl_cong_set: "(\<And>acc x. x \<in> set xs \<Longrightarrow> f acc x = g acc x) \<Longrightarrow> foldl f a xs = foldl g a xs"
  by (induction xs arbitrary: a) auto

lemma scan_page_slots:
  assumes "length buf = 576" and "p < 9"
  shows "scan_page (keydef_page buf p) layer p es = foldl (scan_slot layer (slot_of buf)) es [p * 16..<p * 16 + 16]"
proof -
  have "scan_page (keydef_page buf p) layer p es = foldl (\<lambda>acc e. scan_slot layer (slot_of buf) acc (p * 16 + e)) es [0..<16]"
    unfolding scan_page_def by (rule trans[OF _ foldl_cong_set[where f = "scan_entry (keydef_page buf p) layer p"]])
      (simp_all add: FRAME_LEN_def scan_entry_slot[OF assms])
  also have "\<dots> = foldl (scan_slot layer (slot_of buf)) es (map (\<lambda>e. p * 16 + e) [0..<16])"
    by (simp only: foldl_map)
  also have "map (\<lambda>e. p * 16 + e) [0..<16] = [p * 16..<p * 16 + 16]"
    using map_add_upt[of "p * 16" 16] by (simp add: add.commute)
  finally show ?thesis .
qed

lemma scan_area_slots:
  assumes "length buf = 576" and "k \<le> 9"
  shows "scan_area layer buf k es = foldl (scan_slot layer (slot_of buf)) es [0..<k * 16]"
  using assms(2)
proof (induction k)
  case 0
  then show ?case by (simp add: scan_area_def)
next
  case (Suc k)
  have "[0..<Suc k * 16] = [0..<k * 16] @ [k * 16..<k * 16 + 16]"
    by (metis add.commute le0 mult_Suc upt_add_eq_append)
  with Suc scan_page_slots[OF assms(1), of k] show ?case by (simp add: scan_area_def)
qed

text \<open>The slots of an area that is known page by page.\<close>

definition slot_at :: "bytes list \<Rightarrow> nat \<Rightarrow> u16 option" where
  "slot_at pages n = slot_of (pages ! (n div 16)) (n mod 16)"

lemma scan_page_at:
  "scan_page (pages ! p) layer p es = foldl (scan_slot layer (slot_at pages)) es [p * 16..<p * 16 + 16]"
proof -
  have entry: "scan_entry (pages ! p) layer p acc e = scan_slot layer (slot_at pages) acc (p * 16 + e)" if "e < 16" for acc e
    using that by (simp add: scan_entry_def scan_slot_def slot_at_def slot_of_def Let_def FRAME_LEN_def)
  have "scan_page (pages ! p) layer p es = foldl (\<lambda>acc e. scan_slot layer (slot_at pages) acc (p * 16 + e)) es [0..<16]"
    unfolding scan_page_def by (rule trans[OF _ foldl_cong_set[where f = "scan_entry (pages ! p) layer p"]])
      (simp_all add: FRAME_LEN_def entry)
  also have "\<dots> = foldl (scan_slot layer (slot_at pages)) es (map (\<lambda>e. p * 16 + e) [0..<16])"
    by (simp only: foldl_map)
  also have "map (\<lambda>e. p * 16 + e) [0..<16] = [p * 16..<p * 16 + 16]"
    using map_add_upt[of "p * 16" 16] by (simp add: add.commute)
  finally show ?thesis .
qed

lemma scan_pages_at:
  "foldl (\<lambda>acc p. scan_page (pages ! p) layer p acc) es [0..<k] = foldl (scan_slot layer (slot_at pages)) es [0..<k * 16]"
proof (induction k)
  case (Suc k)
  have "[0..<Suc k * 16] = [0..<k * 16] @ [k * 16..<k * 16 + 16]"
    by (metis add.commute le0 mult_Suc upt_add_eq_append)
  with Suc scan_page_at[of pages k] show ?case by simp
qed simp

lemma scan_slots_get:
  assumes "bt_wf es" and "n \<le> 256"
  shows "bt_wf (foldl (scan_slot layer slots) es [0..<n])
    \<and> bt_get (foldl (scan_slot layer slots) es [0..<n]) (l, r, c) =
      (case key_index_for r c of
         Some ki \<Rightarrow> if l = layer \<and> unat ki < n \<and> slots (unat ki) \<noteq> None
                   then slots (unat ki) else bt_get es (l, r, c)
       | None \<Rightarrow> bt_get es (l, r, c))"
  using assms(2)
proof (induction n)
  case 0
  then show ?case using assms(1) by (simp split: option.split)
next
  case (Suc n)
  let ?acc = "foldl (scan_slot layer slots) es [0..<n]"
  have n: "unat (word_of_nat n :: u8) = n" using Suc.prems by (simp add: unat_of_nat)
  have at: "key_index_for r' c' = Some (word_of_nat n) \<longleftrightarrow> find_matrix_pos_for_key_index (word_of_nat n) = Some (r', c')"
    for r' c' by (simp add: find_matrix_pos_iff)
  from Suc have IH: "bt_wf ?acc" by simp
  show ?case
  proof (cases "slots n = None \<or> find_matrix_pos_for_key_index (word_of_nat n) = None")
    case True
    then have same: "foldl (scan_slot layer slots) es [0..<Suc n] = ?acc"
      by (auto simp: scan_slot_def split: option.splits)
    have "unat ki < Suc n \<and> slots (unat ki) \<noteq> None \<longleftrightarrow> unat ki < n \<and> slots (unat ki) \<noteq> None"
      if "key_index_for r c = Some ki" for ki
      using True that key_index_for_back(1)[OF that] by (cases "unat ki = n") (auto simp flip: word_unat_eq_iff)
    with Suc same show ?thesis by (auto split: option.split)
  next
    case False
    then obtain kc r' c' where k: "slots n = Some kc" "find_matrix_pos_for_key_index (word_of_nat n) = Some (r', c')"
      by auto
    then have step: "foldl (scan_slot layer slots) es [0..<Suc n] = bt_insert (layer, r', c') kc ?acc"
      by (simp add: scan_slot_def)
    have here: "key_index_for r' c' = Some (word_of_nat n)" using k(2) at by simp
    show ?thesis
    proof (cases "(l, r, c) = (layer, r', c')")
      case True
      with step IH here n k show ?thesis by simp
    next
      case False
      have "unat ki \<noteq> n" if "key_index_for r c = Some ki" "l = layer" for ki
        using False that key_index_for_back(1)[OF that(1)] k(2) by auto
      with Suc step IH False show ?thesis by (auto simp: less_Suc_eq split: option.split)
    qed
  qed
qed

text \<open>C30. The key-definition area is a faithful code of a layer: for entries that address physical
  keys, reading the nine pages back yields exactly the last keycode written to each key and nothing
  else, and the page check code sits at the end of the area untouched by any entry.\<close>

theorem keydef_area_roundtrip:
  assumes "\<forall>e \<in> set es. \<exists>r c. key_index_for r c = Some (fst e)"
  shows "bt_get (scan_area layer (encode_keydef_buffer es) KEY_DEF_PAGES []) (l, r, c) =
      (case key_index_for r c of Some ki \<Rightarrow> if l = layer then map_of (rev es) ki else None | None \<Rightarrow> None)
    \<and> drop 574 (encode_keydef_buffer es) = FOOTER_MAGIC"
proof -
  have small: "\<forall>e \<in> set es. unat (fst e) < 143"
    using assms key_index_for_back(2) by fastforce
  have "slot_of (encode_keydef_buffer es) (unat ki) = map_of (rev es) ki" if "key_index_for r c = Some ki" for ki
    using slot_of_encode[OF small, of "unat ki"] key_index_for_back(2)[OF that] by simp
  moreover have "unat ki < 144" if "key_index_for r c = Some ki" for ki
    using key_index_for_back(2)[OF that] by simp
  ultimately show ?thesis
    using scan_slots_get[of "[]" 144 layer "slot_of (encode_keydef_buffer es)" l r c]
      scan_area_slots[of "encode_keydef_buffer es" 9 layer "[]"]
    by (auto simp: KEY_DEF_PAGES_def encode_keydef_footer split: option.split)
qed

theorem keydef_area_roundtrip_witness:
  "bt_get (scan_area 1 (encode_keydef_buffer [(38, 0x5101), (1, 0x29), (38, 0x2A)]) KEY_DEF_PAGES []) (1, 1, 1) = Some 0x2A"
proof -
  have k: "key_index_for 1 1 = Some 38" "key_index_for 0 0 = Some 1" by code_simp+
  then have "\<forall>e \<in> set [(38 :: u8, 0x5101 :: u16), (1, 0x29), (38, 0x2A)]. \<exists>r c. key_index_for r c = Some (fst e)"
    by auto
  from keydef_area_roundtrip[OF this, of 1 1 1 1] k show ?thesis by simp
qed

end
