(* ===== verification/Gmk67_Color.thy ===== *)
theory Gmk67_Color
  imports Gmk67_Codec
begin

text \<open>
  What the conversions of \<open>gmk67.rs\<close> between the VIA lighting values and the board's own keep:
  the scaled ranges, the packed payload and the colours.
\<close>

section \<open>Ranges\<close>

lemma scale_255_to_15_unat: "unat (scale_255_to_15 v) = (unat v * 15 + 127) div 255"
proof -
  note lt = unat_u8_less[of v]
  have a: "unat ((ucast v :: u16) * 15 + 127) = unat v * 15 + 127"
    using lt by (subst unat_u16_add; subst unat_u16_mult; simp)
  have "unat (((ucast v :: u16) * 15 + 127) div 255) = (unat v * 15 + 127) div 255"
    by (simp add: unat_div_distrib a)
  moreover have "(unat v * 15 + 127) div 255 < 256" using lt by simp
  ultimately show ?thesis by (simp add: scale_255_to_15_def unat_u8_of_u16)
qed

lemma scale_15_to_255_unat: "unat (scale_15_to_255 v) = min (unat v) 15 * 17"
proof -
  let ?m = "min v 0x0F"
  have m: "unat ?m = min (unat v) 15" by (simp add: min_def word_le_nat_alt)
  have "unat ((ucast ?m :: u16) * 255) = unat ?m * 255"
    using m by (subst unat_u16_mult) simp_all
  then have "unat ((ucast ?m :: u16) * 255 div 15) = unat ?m * 255 div 15"
    by (simp add: unat_div_distrib)
  also have "\<dots> = unat ?m * 17" by simp
  finally have u: "unat ((ucast ?m :: u16) * 255 div 15) = unat ?m * 17" .
  moreover have "unat ?m * 17 < 256" using m by simp
  ultimately show ?thesis unfolding scale_15_to_255_def by (simp add: unat_u8_of_u16 m)
qed

text \<open>A brightness or a speed read through the VIA channel and written back is unchanged; every
  value written lands in the board's range 0 to 15, in order.\<close>

theorem lighting_scale_roundtrip:
  "scale_255_to_15 (scale_15_to_255 v) = min v 15 \<and> scale_255_to_15 w \<le> 15
    \<and> (w \<le> w' \<longrightarrow> scale_255_to_15 w \<le> scale_255_to_15 w')"
proof -
  have "unat (scale_255_to_15 (scale_15_to_255 v)) = unat (min v 15)"
    by (simp add: scale_255_to_15_unat scale_15_to_255_unat min_def word_le_nat_alt)
  moreover have "unat (scale_255_to_15 w) \<le> 15"
    using unat_u8_less[of w] by (simp add: scale_255_to_15_unat)
  ultimately show ?thesis
    by (simp add: word_unat_eq_iff word_le_nat_alt scale_255_to_15_unat div_le_mono)
qed

theorem lighting_scale_roundtrip_witness: "scale_255_to_15 100 \<le> scale_255_to_15 200"
  using lighting_scale_roundtrip[of 0 100 200] by simp

section \<open>Colours\<close>

text \<open>The channels of \<open>hs_to_rgb\<close> over the natural numbers: none of its \<open>u16\<close> operations wraps.\<close>

lemma hs_channel:
  fixes s x :: u16
  assumes "unat s \<le> 255" and "unat x \<le> 255"
  shows "unat (ucast (255 * (255 - (s * x) div 255) div 255) :: u8) = 255 - unat s * unat x div 255"
proof -
  have sx: "unat s * unat x \<le> 255 * 255" using assms by (intro mult_mono) auto
  then have a: "unat (s * x div 255) = unat s * unat x div 255"
    by (simp add: unat_div_distrib unat_u16_mult)
  have q: "unat s * unat x div 255 \<le> 255" using sx by (metis div_le_mono div_mult_self_is_m zero_less_numeral)
  then have b: "unat (255 - (s * x) div 255) = 255 - unat s * unat x div 255"
    by (simp add: unat_u16_sub a)
  have "unat (255 * (255 - (s * x) div 255)) = 255 * (255 - unat s * unat x div 255)"
    by (subst unat_u16_mult) (simp_all add: b)
  then have "unat (255 * (255 - (s * x) div 255) div 255) = 255 - unat s * unat x div 255"
    by (simp add: unat_div_distrib)
  then show ?thesis by (simp add: unat_u8_of_u16)
qed

lemma hs_white_channel:
  fixes s :: u16
  assumes "unat s \<le> 255"
  shows "unat (ucast (255 * (255 - s) div 255) :: u8) = 255 - unat s"
proof -
  have b: "unat (255 - s) = 255 - unat s" using assms by (simp add: unat_u16_sub)
  have "unat (255 * (255 - s)) = 255 * (255 - unat s)" by (subst unat_u16_mult) (simp_all add: b)
  then have "unat (255 * (255 - s) div 255) = 255 - unat s" by (simp add: unat_div_distrib)
  then show ?thesis by (simp add: unat_u8_of_u16)
qed

lemma hs_remainder:
  fixes h :: u8
  defines "rem \<equiv> ((ucast h :: u16) - ucast (h div 43) * 43) * 6"
  shows "unat rem = unat h mod 43 * 6" "unat rem \<le> 252"
proof -
  have d: "unat (h div 43) = unat h div 43" by (simp add: unat_div_distrib)
  have m: "unat ((ucast (h div 43) :: u16) * 43) = unat h div 43 * 43"
    using unat_u8_less[of h] by (subst unat_u16_mult) (simp_all add: d)
  have s: "unat ((ucast h :: u16) - ucast (h div 43) * 43) = unat h mod 43"
    by (subst unat_u16_sub) (simp_all add: m minus_div_mult_eq_mod)
  have lt: "unat h mod 43 \<le> 42" by simp
  show "unat rem = unat h mod 43 * 6"
    unfolding rem_def using lt by (subst unat_u16_mult) (simp_all add: s)
  with lt show "unat rem \<le> 252" by simp
qed

text \<open>One channel of the result is full, the smallest is 255 minus the saturation, the third lies between.\<close>

lemma colour_shape:
  fixes p q t :: u8
  assumes "p \<le> q" and "p \<le> t"
  shows "\<exists>r g b. (if c0 then (255, t, p) else if c1 then (q, 255, p) else if c2 then (p, 255, t)
      else if c3 then (p, q, 255) else if c4 then (t, p, 255) else (255, p, q)) = (r, g, b)
    \<and> max (max r g) b = 255 \<and> min (min r g) b = p"
proof -
  have top: "x \<le> 255" for x :: u8 using unat_u8_less[of x] by (simp add: word_le_nat_alt)
  have mx: "max 255 x = 255" "max x 255 = 255" and mn: "min 255 x = x" "min x 255 = x" for x :: u8
    using top[of x] by (simp_all add: max_def min_def)
  have "max q p = q" "max t p = t" "max p q = q" "max p t = t"
    "min q p = p" "min t p = p" "min p q = p" "min p t = p"
    using assms by (simp_all add: max_def min_def)
  then show ?thesis by (simp add: mx mn)
qed

lemma hs_to_rgb_shape:
  assumes "s \<noteq> 0"
  obtains r g b where "hs_to_rgb h s = (r, g, b)" "max (max r g) b = 255"
    "unat (min (min r g) b) = 255 - unat s"
proof -
  let ?region = "h div 43"
  let ?rem = "((ucast h :: u16) - ucast ?region * 43) * 6"
  let ?s = "ucast s :: u16"
  let ?p = "ucast (255 * (255 - ?s) div 255) :: u8"
  let ?q = "ucast (255 * (255 - (?s * ?rem) div 255) div 255) :: u8"
  let ?t = "ucast (255 * (255 - (?s * (255 - ?rem)) div 255) div 255) :: u8"
  have s: "unat ?s \<le> 255" using unat_u8_less[of s] by simp
  note rem = hs_remainder(2)[of h]
  have inv: "unat (255 - ?rem) \<le> 255" using rem by (subst unat_u16_sub) simp_all
  have p: "unat ?p = 255 - unat s" using hs_white_channel[OF s] by simp
  have le: "255 - unat s \<le> 255 - unat s * x div 255" if "x \<le> 255" for x
  proof -
    have "unat s * x div 255 \<le> unat s * 255 div 255" using that by (intro div_le_mono mult_le_mono2)
    then show ?thesis by simp
  qed
  have rem255: "unat ?rem \<le> 255" by (rule order_trans[OF rem]) simp
  have q: "?p \<le> ?q"
    unfolding word_le_nat_alt p hs_channel[OF s rem255] unat_ucast_u16 by (rule le[OF rem255])
  have t: "?p \<le> ?t"
    unfolding word_le_nat_alt p hs_channel[OF s inv] unat_ucast_u16 by (rule le[OF inv])
  have "hs_to_rgb h s = (if ?region = 0 then (255, ?t, ?p) else if ?region = 1 then (?q, 255, ?p)
      else if ?region = 2 then (?p, 255, ?t) else if ?region = 3 then (?p, ?q, 255)
      else if ?region = 4 then (?t, ?p, 255) else (255, ?p, ?q))"
    unfolding hs_to_rgb_def Let_def using assms by (simp only: if_False)
  then have "\<exists>r g b. hs_to_rgb h s = (r, g, b) \<and> max (max r g) b = 255 \<and> min (min r g) b = ?p"
    by (simp only: colour_shape[OF q t])
  with p that show thesis by metis
qed

text \<open>The saturation of a colour set through the VIA channel survives the conversion to RGB and
  back exactly, for every hue and every saturation; saturation 0 is white and reads back as (0, 0).\<close>

theorem saturation_roundtrip:
  "case hs_to_rgb h s of (r, g, b) \<Rightarrow> snd (rgb_to_hs r g b) = s"
proof (cases "s = 0")
  case True
  then show ?thesis by (simp add: hs_to_rgb_def rgb_to_hs_def)
next
  case False
  then obtain r g b where rgb: "hs_to_rgb h s = (r, g, b)" "max (max r g) b = 255"
    "unat (min (min r g) b) = 255 - unat s" by (rule hs_to_rgb_shape)
  have le: "unat s \<le> 255" using unat_u8_less[of s] by simp
  have mn: "uint (min (min r g) b) = 255 - uint s"
    unfolding uint_nat rgb(3) using le by (rule of_nat_diff[of _ 255, simplified])
  have s: "uint s \<noteq> 0" using False by (metis uint_0_iff)
  have again: "(word_of_int (i32_div (uint s * 255) 255) :: u8) = s"
    unfolding i32_div_def by (simp only: nonzero_mult_div_cancel_right) simp
  have "uint (255 :: u8) - (255 - uint s) = uint s" "uint (255 :: u8) \<noteq> 0" "uint (255 :: u8) = 255" by simp_all
  then have "snd (rgb_to_hs r g b) = word_of_int (i32_div (uint s * 255) 255)"
    unfolding rgb_to_hs_def Let_def rgb(2) mn using s by (simp only: if_False snd_conv) simp
  with again rgb(1) show ?thesis by simp
qed

text \<open>The packed payload of channel 0 round-trips, and so does the persisted form.\<close>

theorem lighting_payload_roundtrip:
  "lighting_from_bytes (lighting_to_bytes l) = l \<and> from_lighting_state (to_lighting_state l) = l
    \<and> lighting_to_bytes (lighting_from_bytes []) = lighting_to_bytes (from_lighting_state lighting_state_default)"
  by (simp add: lighting_from_bytes_def lighting_to_bytes_def Let_def get_or_def nth_opt_def u8_of_bool_def
        from_lighting_state_def to_lighting_state_def lighting_default_def lighting_state_default_def
        MODE_STATIC_def BRIGHTNESS_MAX_def)

end
