(* ===== verification/Text.thy ===== *)
theory Text
  imports Main
begin

text \<open>
  The string functions of the standard library that the daemon and \<open>clackctl\<close> use, on ASCII strings:
  trimming, ASCII case, prefixes, \<open>from_str_radix\<close>, and the decimal and hexadecimal formats.
\<close>

section \<open>Characters\<close>

definition chr_code :: "char \<Rightarrow> nat" where
  "chr_code c = of_char c"

definition is_space :: "char \<Rightarrow> bool" where
  "is_space c \<longleftrightarrow> chr_code c = 32 \<or> 9 \<le> chr_code c \<and> chr_code c \<le> 13"

definition to_upper :: "char \<Rightarrow> char" where
  "to_upper c = (if 97 \<le> chr_code c \<and> chr_code c \<le> 122 then char_of (chr_code c - 32) else c)"

definition to_lower :: "char \<Rightarrow> char" where
  "to_lower c = (if 65 \<le> chr_code c \<and> chr_code c \<le> 90 then char_of (chr_code c + 32) else c)"

lemma chr_code_char_of: "n < 256 \<Longrightarrow> chr_code (char_of n) = n"
  by (simp add: chr_code_def)

lemma chr_code_inject: "chr_code c = chr_code d \<longleftrightarrow> c = d"
  by (simp add: chr_code_def)

text \<open>For the evaluation by the kernel: case and white space on the bits of a character.\<close>

lemma to_upper_bits [code]:
  "to_upper (Char b0 b1 b2 b3 b4 b5 b6 b7) =
     (if \<not> b7 \<and> b6 \<and> b5 \<and> (b0 \<or> b1 \<or> b2 \<or> b3 \<or> b4) \<and> \<not> (b4 \<and> b3 \<and> (b2 \<or> b1 \<and> b0))
      then Char b0 b1 b2 b3 b4 False b6 b7 else Char b0 b1 b2 b3 b4 b5 b6 b7)"
  by (cases b0; cases b1; cases b2; cases b3; cases b4; cases b5; cases b6; cases b7)
     (simp_all add: to_upper_def chr_code_def char_of_def bit_Suc_0_iff)

lemma to_lower_bits [code]:
  "to_lower (Char b0 b1 b2 b3 b4 b5 b6 b7) =
     (if \<not> b7 \<and> b6 \<and> \<not> b5 \<and> (b0 \<or> b1 \<or> b2 \<or> b3 \<or> b4) \<and> \<not> (b4 \<and> b3 \<and> (b2 \<or> b1 \<and> b0))
      then Char b0 b1 b2 b3 b4 True b6 b7 else Char b0 b1 b2 b3 b4 b5 b6 b7)"
  by (cases b0; cases b1; cases b2; cases b3; cases b4; cases b5; cases b6; cases b7)
     (simp_all add: to_lower_def chr_code_def char_of_def bit_Suc_0_iff)

lemma to_upper_lower [simp]: "to_upper (to_lower c) = to_upper c" "to_upper (to_upper c) = to_upper c"
  "to_lower (to_upper c) = to_lower c" "to_lower (to_lower c) = to_lower c"
  by (auto simp: to_upper_def to_lower_def chr_code_char_of simp flip: chr_code_inject)

lemma same_lower_upper: "to_lower c = to_lower d \<longleftrightarrow> to_upper c = to_upper d"
  by (metis to_upper_lower)

section \<open>Strings\<close>

definition ascii_upper :: "string \<Rightarrow> string" where "ascii_upper s = map to_upper s"
definition ascii_lower :: "string \<Rightarrow> string" where "ascii_lower s = map to_lower s"

definition eq_ignore_case :: "string \<Rightarrow> string \<Rightarrow> bool" where
  "eq_ignore_case s t \<longleftrightarrow> ascii_lower s = ascii_lower t"

lemma eq_ignore_case_upper: "eq_ignore_case s t \<longleftrightarrow> ascii_upper s = ascii_upper t"
  by (simp add: eq_ignore_case_def ascii_lower_def ascii_upper_def list_eq_iff_nth_eq same_lower_upper cong: conj_cong)

definition trim :: "string \<Rightarrow> string" where
  "trim s = rev (dropWhile is_space (rev (dropWhile is_space s)))"

lemma dropWhile_none: "\<forall>c \<in> set s. \<not> P c \<Longrightarrow> dropWhile P s = s"
  by (cases s) simp_all

lemma trim_none: "\<forall>c \<in> set s. \<not> is_space c \<Longrightarrow> trim s = s"
  by (simp add: trim_def dropWhile_none)

definition replace_char :: "char list \<Rightarrow> char \<Rightarrow> string \<Rightarrow> string" where
  "replace_char from to s = map (\<lambda>c. if c \<in> set from then to else c) s"

definition strip_prefix :: "string \<Rightarrow> string \<Rightarrow> string option" where
  "strip_prefix p s = (if take (length p) s = p then Some (drop (length p) s) else None)"

definition strip_suffix :: "string \<Rightarrow> string \<Rightarrow> string option" where
  "strip_suffix p s = map_option rev (strip_prefix (rev p) (rev s))"

lemma strip_prefix_append [simp]: "strip_prefix p (p @ s) = Some s"
  by (simp add: strip_prefix_def)

lemma strip_suffix_append [simp]: "strip_suffix p (s @ p) = Some s"
  by (simp add: strip_suffix_def)

fun contains :: "string \<Rightarrow> string \<Rightarrow> bool" where
  "contains [] n = (n = [])"
| "contains (c # s) n = (take (length n) (c # s) = n \<or> contains s n)"

lemma contains_iff: "contains s n \<longleftrightarrow> (\<exists>a b. s = a @ n @ b)"
proof (induction s)
  case Nil
  then show ?case by simp
next
  case (Cons c s)
  have "take (length n) (c # s) = n \<longleftrightarrow> (\<exists>b. c # s = n @ b)"
    by (metis append_eq_conv_conj append_take_drop_id)
  then show ?case
    unfolding contains.simps Cons.IH by (metis append_Cons append_Nil list.exhaust list.inject)
qed

fun join :: "string \<Rightarrow> string list \<Rightarrow> string" where
  "join sep [] = []"
| "join sep [x] = x"
| "join sep (x # y # xs) = x @ sep @ join sep (y # xs)"

section \<open>Numbers\<close>

definition digit_val :: "nat \<Rightarrow> char \<Rightarrow> nat option" where
  "digit_val radix c =
     (let n = chr_code c;
          d = (if 48 \<le> n \<and> n \<le> 57 then n - 48
               else if 97 \<le> n \<and> n \<le> 122 then n - 87
               else if 65 \<le> n \<and> n \<le> 90 then n - 55 else 36)
      in if d < radix then Some d else None)"

fun digits_val :: "nat \<Rightarrow> string \<Rightarrow> nat \<Rightarrow> nat option" where
  "digits_val radix [] acc = Some acc"
| "digits_val radix (c # cs) acc =
     (case digit_val radix c of None \<Rightarrow> None | Some d \<Rightarrow> digits_val radix cs (acc * radix + d))"

text \<open>\<open>uN::from_str_radix\<close> with \<open>2 ^ N\<close> as the bound: one leading plus, then at least one digit.\<close>

definition from_str_radix :: "nat \<Rightarrow> nat \<Rightarrow> string \<Rightarrow> nat option" where
  "from_str_radix bound radix s =
     (let t = (case s of c # cs \<Rightarrow> if c = CHR ''+'' \<and> cs \<noteq> [] then cs else s | [] \<Rightarrow> []) in
      if t = [] then None
      else (case digits_val radix t 0 of Some n \<Rightarrow> if n < bound then Some n else None | None \<Rightarrow> None))"

definition dec_digit :: "nat \<Rightarrow> char" where "dec_digit n = char_of (48 + n)"
definition hex_digit :: "nat \<Rightarrow> char" where "hex_digit n = char_of (if n < 10 then 48 + n else 87 + n)"

fun dec :: "nat \<Rightarrow> string" where
  "dec n = (if n < 10 then [dec_digit n] else dec (n div 10) @ [dec_digit (n mod 10)])"

declare dec.simps [simp del]

text \<open>The zero-padded hexadecimal format of a value that fits its width.\<close>

fun hexw :: "nat \<Rightarrow> nat \<Rightarrow> string" where
  "hexw 0 n = []"
| "hexw (Suc k) n = hexw k (n div 16) @ [hex_digit (n mod 16)]"

lemma digits_val_append:
  "digits_val r (xs @ ys) a = (case digits_val r xs a of None \<Rightarrow> None | Some b \<Rightarrow> digits_val r ys b)"
  by (induction xs arbitrary: a) (auto split: option.split)

lemma digit_val_dec: "n < 10 \<Longrightarrow> digit_val 10 (dec_digit n) = Some n"
  by (simp add: digit_val_def dec_digit_def chr_code_char_of)

lemma digit_val_hex: "n < 16 \<Longrightarrow> digit_val 16 (hex_digit n) = Some n"
  by (simp add: digit_val_def hex_digit_def chr_code_char_of)

lemma dec_nonempty: "dec n \<noteq> []"
  by (subst dec.simps) simp

lemma digits_val_dec: "digits_val 10 (dec n) 0 = Some n"
proof (induction n rule: dec.induct)
  case (1 n)
  show ?case
  proof (cases "n < 10")
    case True
    then show ?thesis by (simp add: dec.simps[of n] digit_val_dec)
  next
    case False
    with 1 show ?thesis by (simp add: dec.simps[of n] digits_val_append digit_val_dec)
  qed
qed

lemma digits_val_hexw: "n < 16 ^ k \<Longrightarrow> digits_val 16 (hexw k n) 0 = Some n"
proof (induction k arbitrary: n)
  case 0
  then show ?case by simp
next
  case (Suc k)
  then have "n div 16 < 16 ^ k" by (simp add: div_less_iff_less_mult)
  with Suc.IH show ?case by (simp add: digits_val_append digit_val_hex)
qed

lemma length_hexw [simp]: "length (hexw k n) = k"
  by (induction k arbitrary: n) simp_all

text \<open>Printed digits are digits: no sign, no space.\<close>

lemma plain_digit:
  "n < 10 \<Longrightarrow> dec_digit n \<noteq> CHR ''+'' \<and> \<not> is_space (dec_digit n)"
  "n < 16 \<Longrightarrow> hex_digit n \<noteq> CHR ''+'' \<and> \<not> is_space (hex_digit n)"
  by (auto simp: is_space_def dec_digit_def hex_digit_def chr_code_char_of simp flip: chr_code_inject)
     (simp_all add: chr_code_def)

lemma dec_chars: "c \<in> set (dec n) \<Longrightarrow> \<exists>d < 10. c = dec_digit d"
proof (induction n rule: dec.induct)
  case (1 n)
  show ?case
  proof (cases "n < 10 \<or> c \<in> set (dec (n div 10))")
    case True
    with 1 show ?thesis by (auto simp: dec.simps[of n] split: if_splits)
  next
    case False
    with 1(2) have "c = dec_digit (n mod 10)" by (simp add: dec.simps[of n])
    then show ?thesis by (intro exI[of _ "n mod 10"]) simp
  qed
qed

lemma hexw_chars: "c \<in> set (hexw k n) \<Longrightarrow> \<exists>d < 16. c = hex_digit d"
  by (induction k arbitrary: n) (auto intro: exI[of _ "_ mod 16"])

lemma from_str_radix_plain:
  assumes "t \<noteq> []" and "\<forall>c \<in> set t. c \<noteq> CHR ''+''" and "digits_val radix t 0 = Some n"
  shows "from_str_radix bound radix t = (if n < bound then Some n else None)"
  using assms by (cases t) (simp_all add: from_str_radix_def)

lemma from_str_radix_dec: "from_str_radix bound 10 (dec n) = (if n < bound then Some n else None)"
  by (rule from_str_radix_plain) (auto simp: dec_nonempty digits_val_dec dest!: dec_chars simp: plain_digit)

lemma from_str_radix_hexw:
  "0 < k \<Longrightarrow> n < 16 ^ k \<Longrightarrow> from_str_radix bound 16 (hexw k n) = (if n < bound then Some n else None)"
  by (rule from_str_radix_plain) (auto simp: digits_val_hexw dest!: hexw_chars simp: plain_digit simp flip: length_0_conv)

lemma from_str_radix_bound: "from_str_radix bound radix s = Some n \<Longrightarrow> n < bound"
  by (auto simp: from_str_radix_def Let_def split: if_splits option.splits)

lemma trim_dec: "trim (dec n) = dec n"
  by (rule trim_none) (auto dest!: dec_chars simp: plain_digit)

lemma trim_hexw: "trim (hexw k n) = hexw k n"
  by (rule trim_none) (auto dest!: hexw_chars simp: plain_digit)

end
