(* ===== verification/Gmk67_Driver.thy ===== *)
theory Gmk67_Driver
  imports Gmk67_Codec Hid_Descriptor Text
begin

text \<open>
  \<open>Gmk67Driver\<close> of \<open>src/hal/legacy/gmk67.rs\<close>: the feature-report transport, the framed
  transactions for lighting and for the key-definition areas, the shadow that stands in for the
  keymap, and the \<open>KeyboardDriver\<close> implementation. The \<open>Gmk67Io\<close> trait is a record of two
  operations over a device state; the kernel's ioctls are a parameter of its implementation.
\<close>

section \<open>The transport\<close>

record 'i gmk_io =
  gio_set_feature :: "bytes \<Rightarrow> ('i, driver_error, unit) act"
  gio_get_feature :: "u8 \<Rightarrow> ('i, driver_error, bytes) act"

text \<open>The module has its own copies of the classifiers of \<open>via.rs\<close>.\<close>

definition gmk_classify_open_errno :: "nat \<Rightarrow> string \<Rightarrow> driver_error" where
  "gmk_classify_open_errno errno path =
     (if errno = EACCES \<or> errno = EPERM then PermissionDenied path
      else if errno = ENODEV \<or> errno = ENOENT then Disconnected
      else Io (OsError errno))"

definition gmk_classify_io_error :: "io_error \<Rightarrow> driver_error" where
  "gmk_classify_io_error e =
     (case io_kind_of e of
        KindPermissionDenied \<Rightarrow> PermissionDenied []
      | KindNotFound \<Rightarrow> Disconnected
      | KindBrokenPipe \<Rightarrow> Disconnected
      | _ \<Rightarrow> Io e)"

definition gmk_io_from_errno :: "nat \<Rightarrow> io_error" where
  "gmk_io_from_errno errno = OsError errno"

lemma gmk_classifiers [simp]:
  "gmk_classify_open_errno = classify_open_errno" "gmk_classify_io_error = classify_io_error"
  "gmk_io_from_errno = io_from_errno"
  by (simp_all add: fun_eq_iff gmk_classify_open_errno_def classify_open_errno_def gmk_classify_io_error_def
      classify_io_error_def gmk_io_from_errno_def io_from_errno_def)

text \<open>What became of a blocking ioctl task awaited under a deadline.\<close>

datatype 'a joined = DeadlineElapsed | TaskPanicked | IoctlFailed nat | IoctlDone 'a

fun join_with_timeout :: "'a joined \<Rightarrow> string \<Rightarrow> string \<Rightarrow> driver_error + 'a" where
  "join_with_timeout DeadlineElapsed device_id op = Inl (Timeout device_id op)"
| "join_with_timeout TaskPanicked device_id op = Inl (Io (CustomError ''feature ioctl task panicked''))"
| "join_with_timeout (IoctlFailed e) device_id op = Inl (gmk_classify_io_error (gmk_io_from_errno e))"
| "join_with_timeout (IoctlDone v) device_id op = Inr v"

text \<open>\<open>HIDIOCSFEATURE\<close> and \<open>HIDIOCGFEATURE\<close> on a buffer of a report id and 64 bytes, run with a
  deadline in milliseconds; the second fills the buffer.\<close>

record 'd feature_fd =
  ff_hidiocsfeature :: "nat \<Rightarrow> bytes \<Rightarrow> 'd \<Rightarrow> unit joined \<times> 'd"
  ff_hidiocgfeature :: "nat \<Rightarrow> bytes \<Rightarrow> 'd \<Rightarrow> bytes joined \<times> 'd"

record 'd gmk_transport =
  gt_fd :: "'d feature_fd"
  gt_dev :: "'d"
  gt_device_id :: string
  gt_timeout :: nat

definition gt_set_feature :: "bytes \<Rightarrow> ('d gmk_transport, driver_error, unit) act" where
  "gt_set_feature payload t =
     (let buf = put_at 1 payload ((replicate (1 + FRAME_LEN) 0)[0 := REPORT_ID]) in
      case ff_hidiocsfeature (gt_fd t) (gt_timeout t) buf (gt_dev t) of
        (j, d) \<Rightarrow> (join_with_timeout j (gt_device_id t) ''set_feature'', t\<lparr>gt_dev := d\<rparr>))"

definition gt_get_feature :: "u8 \<Rightarrow> ('d gmk_transport, driver_error, bytes) act" where
  "gt_get_feature report_id t =
     (let buf = (replicate (1 + FRAME_LEN) 0)[0 := report_id] in
      case ff_hidiocgfeature (gt_fd t) (gt_timeout t) buf (gt_dev t) of
        (j, d) \<Rightarrow> (map_sum id (drop 1) (join_with_timeout j (gt_device_id t) ''get_feature''), t\<lparr>gt_dev := d\<rparr>))"

definition gmk_transport_io :: "'d gmk_transport gmk_io" where
  "gmk_transport_io = \<lparr>gio_set_feature = gt_set_feature, gio_get_feature = gt_get_feature\<rparr>"

section \<open>The driver\<close>

definition EK68_VID :: u16 where "EK68_VID = 0x05AC"
definition EK68_PID :: u16 where "EK68_PID = 0x024F"
definition GMK_TIMEOUT_MS :: nat where "GMK_TIMEOUT_MS = 1000"

record ('i, 'f) gmk_driver =
  gd_io :: "'i gmk_io"
  gd_dev :: "'i"
  gd_device_id :: string
  gd_matrix :: "u8 \<times> u8"
  gd_layers :: u8
  gd_shadow :: "'f shadow_state"
  gd_lighting :: lighting
  gd_sync_on_attach :: bool
  gd_synced :: bool

type_synonym ('i, 'f, 'a) gd_act = "(('i, 'f) gmk_driver, driver_error, 'a) act"

record 'd gmk_node =
  gn_open :: "nat + ('d feature_fd \<times> 'd)"
  gn_desc_size :: "nat + int"
  gn_desc :: "u32 \<Rightarrow> nat + (u32 \<times> bytes)"

definition probe_vendor_feature_interface :: "'d gmk_node \<Rightarrow> driver_error + unit" where
  "probe_vendor_feature_interface node =
     (case gn_desc_size node of
        Inl e \<Rightarrow> Inl (Io (gmk_io_from_errno e))
      | Inr desc_size \<Rightarrow>
          (case gn_desc node (word_of_int desc_size) of
             Inl e \<Rightarrow> Inl (Io (gmk_io_from_errno e))
           | Inr (rpt_size, val) \<Rightarrow>
               if descriptor_has_feature_report (take (min (unat rpt_size) 4096) val) (word_of_nat FRAME_LEN) = Some True
               then Inr ()
               else Inl (ProtocolViolation
                 ''not the EK68 vendor interface (no 64-byte Feature report in HID descriptor)'')))"

definition persist_id :: string where
  "persist_id = hexw 4 (unat EK68_VID) @ ''_'' @ hexw 4 (unat EK68_PID)"

lemma persist_id_eq: "persist_id = ''05ac_024f''"
  by code_simp

definition gmk_new :: "'f disk_ops \<Rightarrow> 'f \<Rightarrow> string \<Rightarrow> 'd gmk_node \<Rightarrow> u8 \<times> u8 \<Rightarrow> u8 \<Rightarrow> bool
    \<Rightarrow> driver_error + ('d gmk_transport, 'f) gmk_driver" where
  "gmk_new os disk path node matrix layers sync_on_attach =
     (case gn_open node of
        Inl errno \<Rightarrow> Inl (gmk_classify_open_errno errno path)
      | Inr (fd, dev) \<Rightarrow>
          (case probe_vendor_feature_interface node of
             Inl e \<Rightarrow> Inl e
           | Inr _ \<Rightarrow>
               let device_id = device_id_of_path path;
                   shadow = shadow_load os disk persist_id in
               Inr \<lparr>gd_io = gmk_transport_io,
                    gd_dev = \<lparr>gt_fd = fd, gt_dev = dev, gt_device_id = device_id, gt_timeout = GMK_TIMEOUT_MS\<rparr>,
                    gd_device_id = device_id, gd_matrix = matrix, gd_layers = layers, gd_shadow = shadow,
                    gd_lighting = from_lighting_state (sh_lighting shadow),
                    gd_sync_on_attach = sync_on_attach, gd_synced = False\<rparr>))"

subsection \<open>Transactions\<close>

definition set_feature :: "bytes \<Rightarrow> ('i, 'f, unit) gd_act" where
  "set_feature frame d = (case gio_set_feature (gd_io d) frame (gd_dev d) of (r, i) \<Rightarrow> (r, d\<lparr>gd_dev := i\<rparr>))"

definition get_feature :: "u8 \<Rightarrow> ('i, 'f, bytes) gd_act" where
  "get_feature report_id d =
     (case gio_get_feature (gd_io d) report_id (gd_dev d) of (r, i) \<Rightarrow> (r, d\<lparr>gd_dev := i\<rparr>))"

definition read_ack :: "('i, 'f, unit) gd_act" where
  "read_ack d = (Inr (), snd (get_feature REPORT_ID d))"

definition abort_transaction :: "('i, 'f, unit) gd_act" where
  "abort_transaction d = (Inr (), snd (set_feature (encode_cmd CMD_COMMUNICATION_END) d))"

text \<open>An error is passed on after the best-effort abort frame.\<close>

definition or_abort :: "('i, 'f, 'a) gd_act \<Rightarrow> ('i, 'f, 'a) gd_act" where
  "or_abort m d =
     (case m d of
        (Inl e, d') \<Rightarrow> (Inl e, snd (abort_transaction d'))
      | (Inr x, d') \<Rightarrow> (Inr x, d'))"

definition render_effect_frames :: "lighting \<Rightarrow> ('i, 'f, unit) gd_act" where
  "render_effect_frames l =
     andthen (set_feature (encode_cmd CMD_TURN_ON_CUSTOMIZATION)) (\<lambda>_.
     andthen read_ack (\<lambda>_.
     andthen (set_feature encode_start_effect_page) (\<lambda>_.
     andthen read_ack (\<lambda>_.
     andthen (set_feature (lighting_encode l)) (\<lambda>_.
     andthen read_ack (\<lambda>_.
     andthen (set_feature (encode_cmd CMD_COMMUNICATION_END)) (\<lambda>_.
     andthen read_ack (\<lambda>_.
     set_feature (encode_cmd CMD_LED_EFFECT_START)))))))))"

definition render_effect :: "lighting \<Rightarrow> ('i, 'f, unit) gd_act" where
  "render_effect l = or_abort (render_effect_frames l)"

fun push_pages :: "bytes \<Rightarrow> nat list \<Rightarrow> ('i, 'f, unit) gd_act" where
  "push_pages buf [] = ok ()"
| "push_pages buf (p # ps) =
     andthen (set_feature (keydef_page buf p)) (\<lambda>_. andthen read_ack (\<lambda>_. push_pages buf ps))"

definition commit_keymap_frames :: "u8 \<Rightarrow> (u8 \<times> u16) list \<Rightarrow> ('i, 'f, unit) gd_act" where
  "commit_keymap_frames command entries =
     (let buf = encode_keydef_buffer entries in
      andthen (set_feature (encode_cmd CMD_TURN_ON_CUSTOMIZATION)) (\<lambda>_.
      andthen read_ack (\<lambda>_.
      andthen (set_feature (encode_start_keydef_page command)) (\<lambda>_.
      andthen read_ack (\<lambda>_.
      andthen (push_pages buf [0..<KEY_DEF_PAGES]) (\<lambda>_.
      andthen (set_feature (encode_cmd CMD_COMMUNICATION_END)) (\<lambda>_.
      andthen read_ack (\<lambda>_.
      set_feature (encode_cmd CMD_LED_EFFECT_START)))))))))"

definition commit_keymap :: "u8 \<Rightarrow> (u8 \<times> u16) list \<Rightarrow> ('i, 'f, unit) gd_act" where
  "commit_keymap command entries = or_abort (commit_keymap_frames command entries)"

text \<open>The entries of a layer that sit on a physical key.\<close>

definition keydef_entries :: "u8 \<Rightarrow> 'f shadow_state \<Rightarrow> (u8 \<times> u16) list" where
  "keydef_entries layer s =
     List.map_filter (\<lambda>(row, col, keycode). map_option (\<lambda>ki. (ki, keycode)) (key_index_for row col))
       (shadow_layer_entries layer s)"

fun push_dirty_layers :: "u8 list \<Rightarrow> ('i, 'f, unit) gd_act" where
  "push_dirty_layers [] d = (Inr (), d)"
| "push_dirty_layers (layer # layers) d =
     (case keydef_command layer of
        None \<Rightarrow> push_dirty_layers layers d
      | Some command \<Rightarrow>
          let entries = keydef_entries layer (gd_shadow d) in
          if entries = [] then push_dirty_layers layers d
          else andthen (commit_keymap command entries) (\<lambda>_. push_dirty_layers layers) d)"

subsection \<open>Reading the keymap back\<close>

fun read_pages :: "u8 \<Rightarrow> nat list \<Rightarrow> (key_pos, u16) btree_map \<Rightarrow> ('i, 'f, (key_pos, u16) btree_map) gd_act" where
  "read_pages layer [] entries = ok entries"
| "read_pages layer (p # ps) entries =
     andthen (get_feature REPORT_ID) (\<lambda>page. read_pages layer ps (scan_page page layer p entries))"

definition read_keydef_layer :: "u8 \<Rightarrow> u8 \<Rightarrow> (key_pos, u16) btree_map
    \<Rightarrow> ('i, 'f, (key_pos, u16) btree_map) gd_act" where
  "read_keydef_layer command layer entries =
     andthen (set_feature (encode_cmd CMD_TURN_ON_CUSTOMIZATION)) (\<lambda>_.
     andthen read_ack (\<lambda>_.
     andthen (set_feature (encode_start_keydef_page command)) (\<lambda>_.
     andthen read_ack (\<lambda>_.
     andthen (read_pages layer [0..<KEY_DEF_PAGES] entries) (\<lambda>entries'.
     andthen (set_feature (encode_cmd CMD_COMMUNICATION_END)) (\<lambda>_.
     andthen read_ack (\<lambda>_. ok entries')))))))"

fun sync_layers :: "u8 list \<Rightarrow> (key_pos, u16) btree_map \<Rightarrow> ('i, 'f, (key_pos, u16) btree_map) gd_act" where
  "sync_layers [] entries = ok entries"
| "sync_layers (layer # layers) entries =
     (case keydef_read_command layer of
        None \<Rightarrow> sync_layers layers entries
      | Some command \<Rightarrow>
          andthen (or_abort (read_keydef_layer command layer entries)) (\<lambda>entries'. sync_layers layers entries'))"

definition sync_eeprom :: "('i, 'f, unit) gd_act" where
  "sync_eeprom d =
     andthen (sync_layers (map word_of_nat [0..<unat (gd_layers d)]) []) (\<lambda>entries d'.
       (Inr (), d'\<lparr>gd_shadow := shadow_adopt_confirmed entries (gd_shadow d')\<rparr>)) d"

definition maybe_sync_on_attach :: "('i, 'f) gmk_driver \<Rightarrow> ('i, 'f) gmk_driver" where
  "maybe_sync_on_attach d =
     (if \<not> gd_sync_on_attach d \<or> gd_synced d then d
      else snd (sync_eeprom (d\<lparr>gd_synced := True\<rparr>)))"

subsection \<open>Lighting values\<close>

definition lighting_with_via_value :: "u8 \<Rightarrow> bytes \<Rightarrow> lighting \<Rightarrow> driver_error + lighting" where
  "lighting_with_via_value value_id data l =
     (let missing = ProtocolViolation ''short data for VIA RGB-matrix lighting value'' in
      if value_id = VIA_VALUE_BRIGHTNESS then
        (case data of [] \<Rightarrow> Inl missing | x # _ \<Rightarrow> Inr (l\<lparr>lg_brightness := scale_255_to_15 x\<rparr>))
      else if value_id = VIA_VALUE_EFFECT then
        (case data of [] \<Rightarrow> Inl missing
         | effect # _ \<Rightarrow> Inr (l\<lparr>lg_mode := if effect = 0 then MODE_LIGHTS_OFF else effect\<rparr>))
      else if value_id = VIA_VALUE_SPEED then
        (case data of [] \<Rightarrow> Inl missing | x # _ \<Rightarrow> Inr (l\<lparr>lg_speed := scale_255_to_15 x\<rparr>))
      else if value_id = VIA_VALUE_COLOR then
        (case data of
           h # s # _ \<Rightarrow>
             (case hs_to_rgb h s of (r, g, b) \<Rightarrow> Inr (l\<lparr>lg_r := r, lg_g := g, lg_b := b, lg_random := False\<rparr>))
         | _ \<Rightarrow> Inl missing)
      else Inl (Unsupported ''RGB-matrix value id (GMK67 supports brightness/effect/speed/color)''))"

definition unsupported_channel :: driver_error where
  "unsupported_channel =
     Unsupported ''lighting channel (GMK67 supports packed channel 0 and RGB-matrix channel 3)''"

definition chosen_lighting :: "u8 \<Rightarrow> u8 \<Rightarrow> bytes \<Rightarrow> lighting \<Rightarrow> driver_error + lighting" where
  "chosen_lighting channel value_id data l =
     (if channel = VIA_CHANNEL_PACKED then Inr (lighting_from_bytes data)
      else if channel = VIA_CHANNEL_RGB_MATRIX then lighting_with_via_value value_id data l
      else Inl unsupported_channel)"

section \<open>The \<open>KeyboardDriver\<close> implementation\<close>

definition gd_get_matrix_dimensions :: "('i, 'f, u8 \<times> u8) gd_act" where
  "gd_get_matrix_dimensions d = (let d' = maybe_sync_on_attach d in (Inr (gd_matrix d'), d'))"

definition gd_get_layer_count :: "('i, 'f, u8) gd_act" where
  "gd_get_layer_count d = (Inr (gd_layers d), d)"

definition gd_get_keycode :: "u8 \<Rightarrow> u8 \<Rightarrow> u8 \<Rightarrow> ('i, 'f, u16) gd_act" where
  "gd_get_keycode layer row col d = (Inr (shadow_get_keycode layer row col (gd_shadow d)), d)"

definition gd_set_keycode :: "u8 \<Rightarrow> u8 \<Rightarrow> u8 \<Rightarrow> u16 \<Rightarrow> ('i, 'f, unit) gd_act" where
  "gd_set_keycode layer row col keycode d =
     (if keydef_command layer = None then (Inl (Unsupported ''keymap layer beyond base/Fn on GMK67''), d)
      else if key_index_for row col = None then
        (Inl (Unsupported ''no physical key at this matrix position on GMK67''), d)
      else (Inr (), d\<lparr>gd_shadow := shadow_set_keycode layer row col keycode (gd_shadow d)\<rparr>))"

definition gd_get_macro_buffer :: "u16 \<Rightarrow> u8 \<Rightarrow> ('i, 'f, bytes) gd_act" where
  "gd_get_macro_buffer offset len = throw (Unsupported ''macro storage on GMK67 (wire format not yet decoded)'')"

definition gd_set_macro_buffer :: "u16 \<Rightarrow> bytes \<Rightarrow> ('i, 'f, unit) gd_act" where
  "gd_set_macro_buffer offset data = throw (Unsupported ''macro storage on GMK67 (wire format not yet decoded)'')"

definition gd_set_lighting :: "u8 \<Rightarrow> u8 \<Rightarrow> bytes \<Rightarrow> ('i, 'f, unit) gd_act" where
  "gd_set_lighting channel value_id data d =
     (case chosen_lighting channel value_id data (gd_lighting d) of
        Inl e \<Rightarrow> (Inl e, d)
      | Inr l \<Rightarrow>
          if \<not> is_renderable_mode (lg_mode l) then
            (Inl (ProtocolViolation ''EK68 lighting mode out of range (effects 0x01..=0x13, or 0x80 off)''), d)
          else
            andthen (render_effect l) (\<lambda>_ d'.
              (Inr (), d'\<lparr>gd_lighting := l,
                 gd_shadow := shadow_persist_lighting (shadow_set_lighting (to_lighting_state l) (gd_shadow d'))\<rparr>)) d)"

definition gd_get_lighting :: "u8 \<Rightarrow> u8 \<Rightarrow> ('i, 'f, bytes) gd_act" where
  "gd_get_lighting channel value_id d =
     (let l = gd_lighting d in
      if channel = VIA_CHANNEL_PACKED then (Inr (lighting_to_bytes l), d)
      else if channel = VIA_CHANNEL_RGB_MATRIX then
        (if value_id = VIA_VALUE_BRIGHTNESS then (Inr [scale_15_to_255 (lg_brightness l)], d)
         else if value_id = VIA_VALUE_EFFECT then
           (Inr [if lg_mode l = MODE_LIGHTS_OFF then 0 else lg_mode l], d)
         else if value_id = VIA_VALUE_SPEED then (Inr [scale_15_to_255 (lg_speed l)], d)
         else if value_id = VIA_VALUE_COLOR then
           (case rgb_to_hs (lg_r l) (lg_g l) (lg_b l) of (h, s) \<Rightarrow> (Inr [h, s], d))
         else (Inl (Unsupported ''RGB-matrix value id (GMK67 supports brightness/effect/speed/color)''), d))
      else (Inl unsupported_channel, d))"

definition gd_commit_to_nvram :: "('i, 'f, unit) gd_act" where
  "gd_commit_to_nvram d =
     (if \<not> shadow_is_dirty (gd_shadow d) then (Inr (), d)
      else
        let d1 = d\<lparr>gd_shadow := shadow_prepare_commit (gd_shadow d)\<rparr> in
        (case push_dirty_layers (shadow_dirty_layers (gd_shadow d1)) d1 of
           (Inr _, d2) \<Rightarrow> (Inr (), d2\<lparr>gd_shadow := shadow_confirm_commit (gd_shadow d2)\<rparr>)
         | (Inl e, d2) \<Rightarrow> (Inl e, d2\<lparr>gd_shadow := shadow_rollback (gd_shadow d2)\<rparr>)))"

definition gd_emits_layout_event_per_set :: "('i, 'f) gmk_driver \<Rightarrow> bool" where
  "gd_emits_layout_event_per_set d = False"

definition gd_model_name :: "('i, 'f) gmk_driver \<Rightarrow> string" where
  "gd_model_name d = ''GMK67/EK68''"

definition gmk_driver_ops :: "('i, 'f) gmk_driver driver_ops" where
  "gmk_driver_ops =
     \<lparr>kd_get_matrix_dimensions = gd_get_matrix_dimensions, kd_get_layer_count = gd_get_layer_count,
      kd_get_keycode = gd_get_keycode, kd_set_keycode = gd_set_keycode,
      kd_get_macro_buffer = gd_get_macro_buffer, kd_set_macro_buffer = gd_set_macro_buffer,
      kd_get_lighting = gd_get_lighting, kd_set_lighting = gd_set_lighting,
      kd_commit_to_nvram = gd_commit_to_nvram, kd_emits_layout_event_per_set = gd_emits_layout_event_per_set,
      kd_model_name = gd_model_name\<rparr>"

declare gd_emits_layout_event_per_set_def [simp] gd_model_name_def [simp]

end
