(* ===== verification/Gmk67_Props.thy ===== *)
theory Gmk67_Props
  imports Gmk67_Driver
begin

text \<open>
  What the GMK67 driver guarantees: it keeps the trait's contract over the shadow, every
  transaction it starts is framed as the board expects and is closed even when it fails, a commit
  confirms or rolls back the whole shadow, and the attach-time read-back is all or nothing.
\<close>

section \<open>Only the device changes\<close>

text \<open>Everything below the shadow changes nothing of the driver but the device behind it.\<close>

definition io_only :: "('i, 'f, 'a) gd_act \<Rightarrow> bool" where
  "io_only m \<longleftrightarrow> (\<forall>d. \<exists>i. snd (m d) = d\<lparr>gd_dev := i\<rparr>)"

named_theorems io_only_intros "rules that reduce io_only along the structure of an action"

lemma io_onlyD: "io_only m \<Longrightarrow> m d = (r, d') \<Longrightarrow> \<exists>i. d' = d\<lparr>gd_dev := i\<rparr>"
  unfolding io_only_def by (metis snd_conv)

lemma dev_update_self: "\<exists>i. d = d\<lparr>gd_dev := i\<rparr>" for d :: "('i, 'f) gmk_driver"
  by (intro exI[of _ "gd_dev d"]) simp

lemma io_only_ok [io_only_intros]: "io_only (ok x)"
  by (simp add: io_only_def ok_def dev_update_self)

lemma io_only_andthen [io_only_intros]:
  assumes "io_only m" and "\<And>x. io_only (k x)"
  shows "io_only (andthen m k)"
proof -
  have "\<exists>i. snd (andthen m k d) = d\<lparr>gd_dev := i\<rparr>" for d
  proof -
    obtain r d1 where d1: "m d = (r, d1)" by fastforce
    from io_onlyD[OF assms(1) d1] obtain i where i: "d1 = d\<lparr>gd_dev := i\<rparr>" by blast
    show ?thesis
    proof (cases r)
      case (Inl e)
      with d1 i show ?thesis by (auto simp: andthen_def)
    next
      case (Inr x)
      from assms(2)[of x] obtain j where "snd (k x d1) = d1\<lparr>gd_dev := j\<rparr>" by (auto simp: io_only_def)
      with d1 i Inr show ?thesis by (auto simp: andthen_def)
    qed
  qed
  then show ?thesis by (simp add: io_only_def)
qed

lemma io_only_set_feature [io_only_intros]: "io_only (set_feature frame)"
  by (simp add: io_only_def set_feature_def prod.case_eq_if) blast

lemma io_only_get_feature [io_only_intros]: "io_only (get_feature report_id)"
  by (simp add: io_only_def get_feature_def prod.case_eq_if) blast

lemma io_only_read_ack [io_only_intros]: "io_only read_ack"
  using io_only_get_feature[of REPORT_ID] by (simp add: io_only_def read_ack_def)

lemma io_only_or_abort [io_only_intros]:
  assumes "io_only m"
  shows "io_only (or_abort m)"
proof -
  have "\<exists>i. snd (or_abort m d) = d\<lparr>gd_dev := i\<rparr>" for d
  proof -
    obtain r d1 where d1: "m d = (r, d1)" by fastforce
    from io_onlyD[OF assms d1] obtain i where i: "d1 = d\<lparr>gd_dev := i\<rparr>" by blast
    obtain j where "snd (set_feature (encode_cmd CMD_COMMUNICATION_END) d1) = d1\<lparr>gd_dev := j\<rparr>"
      by (rule exE[OF io_only_set_feature[unfolded io_only_def, rule_format]])
    with d1 i show ?thesis by (cases r) (auto simp: or_abort_def abort_transaction_def)
  qed
  then show ?thesis by (simp add: io_only_def)
qed

lemma io_only_push_pages [io_only_intros]: "io_only (push_pages buf ps)"
  by (induction ps) (auto intro!: io_only_intros)

lemma io_only_commit_keymap [io_only_intros]: "io_only (commit_keymap command entries)"
  unfolding commit_keymap_def commit_keymap_frames_def Let_def by (intro io_only_intros)

lemma io_only_render_effect [io_only_intros]: "io_only (render_effect l)"
  unfolding render_effect_def render_effect_frames_def by (intro io_only_intros)

lemma io_only_push_dirty_layers [io_only_intros]: "io_only (push_dirty_layers layers :: ('i, 'f, unit) gd_act)"
proof (induction layers)
  case Nil
  then show ?case by (simp add: io_only_def dev_update_self)
next
  case (Cons layer layers)
  have "io_only (andthen (commit_keymap c es) (\<lambda>_. push_dirty_layers layers) :: ('i, 'f, unit) gd_act)" for c es
    by (intro io_only_intros Cons.IH)
  with Cons show ?case by (simp add: io_only_def Let_def split: option.split)
qed

lemma io_only_read_pages [io_only_intros]: "io_only (read_pages layer ps es)"
  by (induction ps arbitrary: es) (auto intro!: io_only_intros)

lemma io_only_read_keydef_layer [io_only_intros]: "io_only (read_keydef_layer command layer es)"
  unfolding read_keydef_layer_def by (intro io_only_intros)

lemma io_only_sync_layers [io_only_intros]: "io_only (sync_layers layers es)"
  by (induction layers arbitrary: es) (auto intro!: io_only_intros split: option.split)

section \<open>The contract of the trait\<close>

text \<open>
  A board that takes every frame: what it answers to reads is irrelevant. The keymap of the driver
  is the shadow, and its positions are the physical keys of the two layers.
\<close>

definition board_takes_frames :: "'i gmk_io \<Rightarrow> ('i \<Rightarrow> bool) \<Rightarrow> bool" where
  "board_takes_frames io up \<longleftrightarrow>
     (\<forall>i frame. up i \<longrightarrow> (\<exists>i'. gio_set_feature io frame i = (Inr (), i') \<and> up i'))
   \<and> (\<forall>i rid. up i \<longrightarrow> up (snd (gio_get_feature io rid i)))"

definition gmk_positions :: "key_pos set" where
  "gmk_positions = {(l, r, c). keydef_command l \<noteq> None \<and> key_index_for r c \<noteq> None}"

definition gmk_up :: "('i, 'f) gmk_driver \<Rightarrow> bool" where
  "gmk_up d \<longleftrightarrow> (\<exists>up. board_takes_frames (gd_io d) up \<and> up (gd_dev d))"

definition gmk_healthy :: "('i, 'f) gmk_driver \<Rightarrow> bool" where
  "gmk_healthy d \<longleftrightarrow> gmk_up d \<and> shadow_wf (gd_shadow d)"

definition gmk_view :: "('i, 'f) gmk_driver \<Rightarrow> key_pos \<Rightarrow> u16" where
  "gmk_view d = (\<lambda>(l, r, c). shadow_get_keycode l r c (gd_shadow d))"

text \<open>On such a board an action of frames and acks succeeds.\<close>

definition frames_ok :: "('i, 'f, 'a) gd_act \<Rightarrow> bool" where
  "frames_ok m \<longleftrightarrow> (\<forall>d. gmk_up d \<longrightarrow> is_ok (fst (m d)) \<and> gmk_up (snd (m d)))"

lemma frames_ok_andthen:
  assumes "frames_ok m" and "\<And>x. frames_ok (k x)"
  shows "frames_ok (andthen m k)"
  unfolding frames_ok_def
proof (intro allI impI)
  fix d :: "('a, 'b) gmk_driver" assume d: "gmk_up d"
  obtain r d1 where d1: "m d = (r, d1)" by fastforce
  with assms(1) d have "is_ok r" "gmk_up d1" by (auto simp: frames_ok_def)
  with d1 assms(2) show "is_ok (fst (andthen m k d)) \<and> gmk_up (snd (andthen m k d))"
    by (cases r) (auto simp: andthen_def frames_ok_def)
qed

lemma frames_ok_set_feature: "frames_ok (set_feature frame)"
  unfolding frames_ok_def
proof (intro allI impI)
  fix d :: "('a, 'b) gmk_driver" assume "gmk_up d"
  then obtain up where up: "board_takes_frames (gd_io d) up" "up (gd_dev d)" by (auto simp: gmk_up_def)
  then obtain i where "gio_set_feature (gd_io d) frame (gd_dev d) = (Inr (), i)" "up i"
    unfolding board_takes_frames_def by blast
  with up(1) show "is_ok (fst (set_feature frame d)) \<and> gmk_up (snd (set_feature frame d))"
    by (auto simp: set_feature_def gmk_up_def)
qed

lemma frames_ok_read_ack: "frames_ok read_ack"
  unfolding frames_ok_def
proof (intro allI impI)
  fix d :: "('a, 'b) gmk_driver" assume "gmk_up d"
  then obtain up where up: "board_takes_frames (gd_io d) up" "up (gd_dev d)" by (auto simp: gmk_up_def)
  then have "up (snd (gio_get_feature (gd_io d) REPORT_ID (gd_dev d)))" by (simp add: board_takes_frames_def)
  with up(1) show "is_ok (fst (read_ack d)) \<and> gmk_up (snd (read_ack d))"
    by (auto simp: read_ack_def get_feature_def gmk_up_def prod.case_eq_if)
qed

lemma frames_ok_ok: "frames_ok (ok x)"
  by (simp add: frames_ok_def ok_def)

lemma frames_ok_or_abort: "frames_ok m \<Longrightarrow> frames_ok (or_abort m)"
  unfolding frames_ok_def or_abort_def by (fastforce split: prod.split sum.split)

lemma frames_ok_push_pages: "frames_ok (push_pages buf ps)"
  by (induction ps) (auto intro!: frames_ok_ok frames_ok_andthen frames_ok_set_feature frames_ok_read_ack)

lemmas frames_ok_intros = frames_ok_ok frames_ok_andthen frames_ok_set_feature frames_ok_read_ack
  frames_ok_or_abort frames_ok_push_pages

lemma frames_ok_commit_keymap: "frames_ok (commit_keymap command es)"
  unfolding commit_keymap_def commit_keymap_frames_def Let_def by (intro frames_ok_intros)

lemma frames_ok_render_effect: "frames_ok (render_effect l)"
  unfolding render_effect_def render_effect_frames_def by (intro frames_ok_intros)

lemma frames_ok_push_dirty_layers: "frames_ok (push_dirty_layers layers :: ('i, 'f, unit) gd_act)"
proof (induction layers)
  case Nil
  then show ?case by (simp add: frames_ok_def)
next
  case (Cons layer layers)
  have "frames_ok (andthen (commit_keymap c es) (\<lambda>_. push_dirty_layers layers) :: ('i, 'f, unit) gd_act)" for c es
    by (intro frames_ok_andthen frames_ok_commit_keymap Cons.IH)
  with Cons show ?case by (simp add: frames_ok_def Let_def split: option.split)
qed

lemma gmk_up_shadow [simp]: "gmk_up (d\<lparr>gd_shadow := s\<rparr>) = gmk_up d"
  by (simp add: gmk_up_def)

lemma io_only_shadow:
  assumes "io_only m" and "m d = (r, d')"
  shows "gd_shadow d' = gd_shadow d" "gd_io d' = gd_io d" "gd_lighting d' = gd_lighting d"
  using io_onlyD[OF assms] by auto

lemma gd_commit_healthy:
  assumes "gmk_healthy d"
  shows "\<exists>d'. gd_commit_to_nvram d = (Inr (), d') \<and> gmk_healthy d' \<and> gmk_view d' = gmk_view d"
proof (cases "shadow_is_dirty (gd_shadow d)")
  case False
  with assms show ?thesis by (simp add: gd_commit_to_nvram_def)
next
  case True
  let ?d1 = "d\<lparr>gd_shadow := shadow_prepare_commit (gd_shadow d)\<rparr>"
  obtain r d2 where d2: "push_dirty_layers (shadow_dirty_layers (gd_shadow ?d1)) ?d1 = (r, d2)" by fastforce
  have "is_ok r" "gmk_up d2"
    using frames_ok_push_dirty_layers[of "shadow_dirty_layers (gd_shadow ?d1)"] d2 assms
    unfolding frames_ok_def gmk_healthy_def by (metis fst_conv snd_conv gmk_up_shadow)+
  then have r: "r = Inr ()" by (cases r) auto
  have sh: "gd_shadow d2 = shadow_prepare_commit (gd_shadow d)"
    using io_only_shadow(1)[OF io_only_push_dirty_layers d2] by simp
  have "gmk_view (d2\<lparr>gd_shadow := shadow_confirm_commit (gd_shadow d2)\<rparr>) = gmk_view d"
    by (simp add: gmk_view_def sh shadow_get_keycode_def shadow_confirm_commit_def shadow_prepare_commit_def)
  with True d2 r sh \<open>gmk_up d2\<close> assms show ?thesis
    by (simp add: gd_commit_to_nvram_def Let_def gmk_healthy_def)
qed

interpretation gmk_kd: keyboard_driver gmk_driver_ops gmk_healthy gmk_view gmk_positions
proof
  fix d :: "('a, 'b) gmk_driver" and l r c k
  assume d: "gmk_healthy d"
  show "\<exists>d'. kd_get_keycode gmk_driver_ops l r c d = (Inr (gmk_view d (l, r, c)), d') \<and> gmk_healthy d'
      \<and> gmk_view d' = gmk_view d"
    using d by (simp add: gmk_driver_ops_def gd_get_keycode_def gmk_view_def)
  show "\<exists>d'. kd_commit_to_nvram gmk_driver_ops d = (Inr (), d') \<and> gmk_healthy d' \<and> gmk_view d' = gmk_view d"
    using gd_commit_healthy[OF d] by (simp add: gmk_driver_ops_def)
  assume "(l, r, c) \<in> gmk_positions"
  then show "\<exists>d'. kd_set_keycode gmk_driver_ops l r c k d = (Inr (), d') \<and> gmk_healthy d'
      \<and> gmk_view d' = (gmk_view d)((l, r, c) := k)"
    using d by (auto simp: gmk_driver_ops_def gd_set_keycode_def gmk_positions_def gmk_healthy_def gmk_view_def)
qed

section \<open>Framing\<close>

text \<open>\<open>logged_io\<close> is any board with a record of the frames handed to \<open>SET_REPORT\<close>.\<close>

definition logged_io :: "'i gmk_io \<Rightarrow> ('i \<times> bytes list) gmk_io" where
  "logged_io io =
     \<lparr>gio_set_feature = (\<lambda>f i. case gio_set_feature io f (fst i) of (r, i') \<Rightarrow> (r, i', snd i @ [f])),
      gio_get_feature = (\<lambda>rid i. case gio_get_feature io rid (fst i) of (r, i') \<Rightarrow> (r, i', snd i))\<rparr>"

definition frames_sent :: "('i \<times> bytes list, 'f) gmk_driver \<Rightarrow> bytes list" where
  "frames_sent d = snd (gd_dev d)"

definition on_logged_io :: "('i \<times> bytes list, 'f) gmk_driver \<Rightarrow> bool" where
  "on_logged_io d \<longleftrightarrow> (\<exists>io. gd_io d = logged_io io)"

text \<open>A transaction: frames, each but the last followed by the acknowledging read.\<close>

fun send_paced :: "bytes list \<Rightarrow> ('i, 'f, unit) gd_act" where
  "send_paced [] = ok ()"
| "send_paced [f] = set_feature f"
| "send_paced (f # g # fs) = andthen (set_feature f) (\<lambda>_. andthen read_ack (\<lambda>_. send_paced (g # fs)))"

definition render_transaction :: "lighting \<Rightarrow> bytes list" where
  "render_transaction l =
     [encode_cmd CMD_TURN_ON_CUSTOMIZATION, encode_start_effect_page, lighting_encode l,
      encode_cmd CMD_COMMUNICATION_END, encode_cmd CMD_LED_EFFECT_START]"

definition keydef_transaction :: "u8 \<Rightarrow> (u8 \<times> u16) list \<Rightarrow> bytes list" where
  "keydef_transaction command es =
     [encode_cmd CMD_TURN_ON_CUSTOMIZATION, encode_start_keydef_page command]
     @ map (keydef_page (encode_keydef_buffer es)) [0..<KEY_DEF_PAGES]
     @ [encode_cmd CMD_COMMUNICATION_END, encode_cmd CMD_LED_EFFECT_START]"

lemma render_effect_frames_paced: "render_effect_frames l = send_paced (render_transaction l)"
  by (simp add: render_effect_frames_def render_transaction_def)

lemma send_paced_Cons:
  "fs \<noteq> [] \<Longrightarrow> send_paced (f # fs) = andthen (set_feature f) (\<lambda>_. andthen read_ack (\<lambda>_. send_paced fs))"
  by (cases fs) auto

lemma push_pages_paced:
  "andthen (push_pages buf ps) (\<lambda>_. send_paced (g # fs)) = send_paced (map (keydef_page buf) ps @ g # fs)"
  by (induction ps) (simp_all add: andthen_assoc send_paced_Cons)

lemma commit_keymap_frames_paced: "commit_keymap_frames command es = send_paced (keydef_transaction command es)"
proof -
  have "commit_keymap_frames command es =
      andthen (set_feature (encode_cmd CMD_TURN_ON_CUSTOMIZATION)) (\<lambda>_. andthen read_ack (\<lambda>_.
      andthen (set_feature (encode_start_keydef_page command)) (\<lambda>_. andthen read_ack (\<lambda>_.
      andthen (push_pages (encode_keydef_buffer es) [0..<KEY_DEF_PAGES])
        (\<lambda>_. send_paced [encode_cmd CMD_COMMUNICATION_END, encode_cmd CMD_LED_EFFECT_START])))))"
    by (simp add: commit_keymap_frames_def Let_def)
  also have "\<dots> = send_paced (keydef_transaction command es)"
    unfolding push_pages_paced keydef_transaction_def by (simp add: send_paced_Cons)
  finally show ?thesis .
qed

lemma set_feature_log:
  assumes "set_feature f d = (r, d')" and "on_logged_io d"
  shows "on_logged_io d' \<and> frames_sent d' = frames_sent d @ [f]"
  using assms by (auto simp: set_feature_def on_logged_io_def frames_sent_def logged_io_def split: prod.splits)

lemma get_feature_log:
  assumes "get_feature rid d = (r, d')" and "on_logged_io d"
  shows "on_logged_io d' \<and> frames_sent d' = frames_sent d"
  using assms by (auto simp: get_feature_def on_logged_io_def frames_sent_def logged_io_def split: prod.splits)

lemma read_ack_log:
  assumes "on_logged_io d"
  shows "\<exists>d'. read_ack d = (Inr (), d') \<and> on_logged_io d' \<and> frames_sent d' = frames_sent d"
proof -
  obtain r d' where "get_feature REPORT_ID d = (r, d')" by fastforce
  with get_feature_log[OF this assms] show ?thesis by (simp add: read_ack_def)
qed

text \<open>A paced send that succeeds sent everything; one that fails sent a non-empty prefix.\<close>

lemma send_paced_log:
  assumes "send_paced fs d = (r, d')" and "on_logged_io d"
  shows "on_logged_io d' \<and> (r = Inr () \<longrightarrow> frames_sent d' = frames_sent d @ fs)
    \<and> (r \<noteq> Inr () \<longrightarrow> (\<exists>n. 0 < n \<and> n \<le> length fs \<and> frames_sent d' = frames_sent d @ take n fs))"
  using assms
proof (induction fs arbitrary: d rule: send_paced.induct)
  case 1
  then show ?case by (simp add: ok_def)
next
  case (2 f)
  from set_feature_log[of f d r d'] 2 show ?case by (auto intro!: exI[of _ 1])
next
  case (3 f g fs)
  obtain q d1 where q: "set_feature f d = (q, d1)" by fastforce
  note l1 = set_feature_log[OF q 3(3)]
  show ?case
  proof (cases q)
    case (Inl e)
    with 3(2) q have "d1 = d'" "r = Inl e" by (auto simp: andthen_def)
    with l1 show ?thesis by (auto intro!: exI[of _ 1])
  next
    case (Inr u)
    from read_ack_log l1 obtain d2 where
      d2: "read_ack d1 = (Inr (), d2)" "on_logged_io d2" "frames_sent d2 = frames_sent d1" by blast
    with 3(2) q Inr have "send_paced (g # fs) d2 = (r, d')" by (simp add: andthen_def)
    note IH = 3(1)[OF this d2(2)]
    show ?thesis
    proof (cases "r = Inr ()")
      case True
      with IH d2 l1 show ?thesis by simp
    next
      case False
      with IH obtain n where "0 < n" "n \<le> length (g # fs)" "frames_sent d' = frames_sent d2 @ take n (g # fs)" by blast
      with False IH d2 l1 show ?thesis by (auto intro!: exI[of _ "Suc n"])
    qed
  qed
qed

lemma or_abort_log:
  assumes "or_abort (send_paced fs) d = (r, d')" and "on_logged_io d"
  shows "on_logged_io d' \<and> (r = Inr () \<longrightarrow> frames_sent d' = frames_sent d @ fs)
    \<and> (r \<noteq> Inr () \<longrightarrow> (\<exists>n. 0 < n \<and> n \<le> length fs
         \<and> frames_sent d' = frames_sent d @ take n fs @ [encode_cmd CMD_COMMUNICATION_END]))"
proof -
  obtain q d1 where q: "send_paced fs d = (q, d1)" by fastforce
  note l1 = send_paced_log[OF q assms(2)]
  show ?thesis
  proof (cases q)
    case (Inl e)
    obtain x d2 where x: "set_feature (encode_cmd CMD_COMMUNICATION_END) d1 = (x, d2)" by fastforce
    with assms(1) q Inl have "r = Inl e" "d' = d2" by (auto simp: or_abort_def abort_transaction_def)
    with Inl l1 set_feature_log[OF x] show ?thesis by auto
  next
    case (Inr u)
    with assms(1) q l1 show ?thesis by (auto simp: or_abort_def)
  qed
qed

text \<open>What a list of dirty layers puts on the wire.\<close>

definition layer_frames :: "'f shadow_state \<Rightarrow> u8 \<Rightarrow> bytes list" where
  "layer_frames s layer =
     (case keydef_command layer of
        None \<Rightarrow> []
      | Some command \<Rightarrow>
          if keydef_entries layer s = [] then [] else keydef_transaction command (keydef_entries layer s))"

lemma push_dirty_layers_log:
  assumes "push_dirty_layers layers d = (r, d')" and "on_logged_io d"
  shows "on_logged_io d' \<and> (r = Inr () \<longrightarrow> frames_sent d' = frames_sent d @ concat (map (layer_frames (gd_shadow d)) layers))
    \<and> (r \<noteq> Inr () \<longrightarrow> (\<exists>pre layer post n. layers = pre @ layer # post \<and> 0 < n
         \<and> n \<le> length (layer_frames (gd_shadow d) layer)
         \<and> frames_sent d' = frames_sent d @ concat (map (layer_frames (gd_shadow d)) pre)
              @ take n (layer_frames (gd_shadow d) layer) @ [encode_cmd CMD_COMMUNICATION_END]))"
  using assms
proof (induction layers arbitrary: d)
  case Nil
  then show ?case by simp
next
  case (Cons layer layers)
  let ?es = "keydef_entries layer (gd_shadow d)"
  show ?case
  proof (cases "layer_frames (gd_shadow d) layer = []")
    case True
    then have "push_dirty_layers layers d = (r, d')"
      using Cons.prems(1) by (auto simp: layer_frames_def keydef_transaction_def Let_def split: option.splits if_splits)
    from Cons.IH[OF this Cons.prems(2)] True show ?thesis
      by (auto 0 4 intro: exI[of _ "layer # _"])
  next
    case False
    then obtain command where c: "keydef_command layer = Some command" "?es \<noteq> []"
      by (auto simp: layer_frames_def split: option.splits if_splits)
    then have lf: "layer_frames (gd_shadow d) layer = keydef_transaction command ?es" by (simp add: layer_frames_def)
    obtain q d1 where q: "commit_keymap command ?es d = (q, d1)" by fastforce
    then have q': "or_abort (send_paced (keydef_transaction command ?es)) d = (q, d1)"
      by (simp add: commit_keymap_def commit_keymap_frames_paced)
    note l1 = or_abort_log[OF q' Cons.prems(2)]
    show ?thesis
    proof (cases q)
      case (Inl e)
      with Cons.prems(1) c q have "r = Inl e" "d' = d1" by (auto simp: andthen_def Let_def)
      with l1 Inl lf show ?thesis by (auto intro!: exI[of _ "[]"])
    next
      case (Inr u)
      with Cons.prems(1) c q have k: "push_dirty_layers layers d1 = (r, d')" by (simp add: andthen_def Let_def)
      have "gd_shadow d1 = gd_shadow d" using io_only_shadow(1)[OF io_only_commit_keymap q] .
      with Cons.IH[OF k] l1 Inr lf have IH: "on_logged_io d'"
        "r = Inr () \<longrightarrow> frames_sent d' = (frames_sent d @ layer_frames (gd_shadow d) layer)
           @ concat (map (layer_frames (gd_shadow d)) layers)"
        "r \<noteq> Inr () \<longrightarrow> (\<exists>pre l post n. layers = pre @ l # post \<and> 0 < n \<and> n \<le> length (layer_frames (gd_shadow d) l)
           \<and> frames_sent d' = (frames_sent d @ layer_frames (gd_shadow d) layer) @ concat (map (layer_frames (gd_shadow d)) pre)
              @ take n (layer_frames (gd_shadow d) l) @ [encode_cmd CMD_COMMUNICATION_END])" by auto
      show ?thesis
      proof (cases "r = Inr ()")
        case True
        with IH show ?thesis by simp
      next
        case False
        with IH(3) obtain pre l post n where "layers = pre @ l # post" "0 < n" "n \<le> length (layer_frames (gd_shadow d) l)"
          "frames_sent d' = (frames_sent d @ layer_frames (gd_shadow d) layer) @ concat (map (layer_frames (gd_shadow d)) pre)
              @ take n (layer_frames (gd_shadow d) l) @ [encode_cmd CMD_COMMUNICATION_END]" by blast
        with False IH(1) show ?thesis by (auto intro!: exI[of _ "layer # pre"])
      qed
    qed
  qed
qed

section \<open>The read-back on the wire\<close>

text \<open>\<open>traced_io\<close> is any board with a record of the frames handed to it and of what its reads gave.\<close>

datatype wire_event = Sent bytes | Fetched "driver_error + bytes"

definition traced_io :: "'i gmk_io \<Rightarrow> ('i \<times> wire_event list) gmk_io" where
  "traced_io io =
     \<lparr>gio_set_feature = (\<lambda>f i. case gio_set_feature io f (fst i) of (r, i') \<Rightarrow> (r, i', snd i @ [Sent f])),
      gio_get_feature = (\<lambda>rid i. case gio_get_feature io rid (fst i) of (r, i') \<Rightarrow> (r, i', snd i @ [Fetched r]))\<rparr>"

definition wire_trace :: "('i \<times> wire_event list, 'f) gmk_driver \<Rightarrow> wire_event list" where
  "wire_trace d = snd (gd_dev d)"

definition on_traced_io :: "('i \<times> wire_event list, 'f) gmk_driver \<Rightarrow> bool" where
  "on_traced_io d \<longleftrightarrow> (\<exists>io. gd_io d = traced_io io)"

text \<open>
  The conversation that reads the layers \<open>ls\<close>, the board having answered the nine pages \<open>pages l\<close> for layer \<open>l\<close>;
  what it answered to the acknowledging reads does not matter.
\<close>

fun reads_back :: "(u8 \<Rightarrow> bytes list) \<Rightarrow> u8 list \<Rightarrow> wire_event list \<Rightarrow> bool" where
  "reads_back pages [] t \<longleftrightarrow> t = []"
| "reads_back pages (l # ls) t \<longleftrightarrow>
     (case keydef_read_command l of
        None \<Rightarrow> reads_back pages ls t
      | Some command \<Rightarrow> length (pages l) = 9 \<and> (\<exists>a b c t'.
          t = [Sent (encode_cmd CMD_TURN_ON_CUSTOMIZATION), Fetched a, Sent (encode_start_keydef_page command), Fetched b]
            @ map (\<lambda>page. Fetched (Inr page)) (pages l) @ [Sent (encode_cmd CMD_COMMUNICATION_END), Fetched c] @ t'
          \<and> reads_back pages ls t'))"

text \<open>The keymap those pages hold.\<close>

definition keymap_read :: "(u8 \<Rightarrow> bytes list) \<Rightarrow> u8 list \<Rightarrow> key_pos \<Rightarrow> u16 option" where
  "keymap_read pages ls = (\<lambda>(l, r, c).
     if l \<in> set ls \<and> keydef_read_command l \<noteq> None
     then Option.bind (key_index_for r c) (\<lambda>ki. slot_at (pages l) (unat ki)) else None)"

lemma set_feature_trace:
  assumes "set_feature f d = (r, d')" and "on_traced_io d"
  shows "on_traced_io d' \<and> wire_trace d' = wire_trace d @ [Sent f]"
  using assms by (auto simp: set_feature_def on_traced_io_def wire_trace_def traced_io_def split: prod.splits)

lemma get_feature_trace:
  assumes "get_feature rid d = (r, d')" and "on_traced_io d"
  shows "on_traced_io d' \<and> wire_trace d' = wire_trace d @ [Fetched r]"
  using assms by (auto simp: get_feature_def on_traced_io_def wire_trace_def traced_io_def split: prod.splits)

lemma read_ack_trace:
  assumes "read_ack d = (r, d')" and "on_traced_io d"
  shows "on_traced_io d' \<and> (\<exists>a. wire_trace d' = wire_trace d @ [Fetched a])"
proof -
  obtain a d1 where "get_feature REPORT_ID d = (a, d1)" by fastforce
  with get_feature_trace[OF this assms(2)] assms(1) show ?thesis by (auto simp: read_ack_def)
qed

lemma reads_back_cong: "(\<And>l. l \<in> set ls \<Longrightarrow> pages l = pages' l) \<Longrightarrow> reads_back pages ls t = reads_back pages' ls t"
  by (induction ls arbitrary: t) (simp_all split: option.split)

lemma read_pages_trace:
  assumes "read_pages layer ps es d = (Inr es', d')" and "on_traced_io d"
  shows "on_traced_io d' \<and> (\<exists>pages. length pages = length ps
    \<and> wire_trace d' = wire_trace d @ map (\<lambda>page. Fetched (Inr page)) pages
    \<and> es' = foldl (\<lambda>acc (p, page). scan_page page layer p acc) es (zip ps pages))"
  using assms
proof (induction ps arbitrary: es d)
  case Nil
  then show ?case by (simp add: ok_def)
next
  case (Cons p ps)
  then obtain page d1 where d1: "get_feature REPORT_ID d = (Inr page, d1)"
    "read_pages layer ps (scan_page page layer p es) d1 = (Inr es', d')" by (auto simp: andthen_Inr_iff)
  note t = get_feature_trace[OF d1(1) Cons.prems(2)]
  from Cons.IH[OF d1(2)] t obtain pages where "length pages = length ps"
    "on_traced_io d'" "wire_trace d' = wire_trace d1 @ map (\<lambda>page. Fetched (Inr page)) pages"
    "es' = foldl (\<lambda>acc (p, page). scan_page page layer p acc) (scan_page page layer p es) (zip ps pages)" by blast
  with t show ?case by (intro conjI exI[of _ "page # pages"]) simp_all
qed

lemma read_keydef_layer_trace:
  assumes "read_keydef_layer command layer es d = (Inr es', d')" and "on_traced_io d"
  shows "on_traced_io d' \<and> (\<exists>pages a b c. length pages = 9 \<and> wire_trace d' = wire_trace d
      @ [Sent (encode_cmd CMD_TURN_ON_CUSTOMIZATION), Fetched a, Sent (encode_start_keydef_page command), Fetched b]
      @ map (\<lambda>page. Fetched (Inr page)) pages @ [Sent (encode_cmd CMD_COMMUNICATION_END), Fetched c]
    \<and> es' = foldl (scan_slot layer (slot_at pages)) es [0..<144])"
proof -
  from assms(1) obtain u1 d1 u2 d2 u3 d3 u4 d4 d5 u6 d6 u7 where
    m: "set_feature (encode_cmd CMD_TURN_ON_CUSTOMIZATION) d = (u1, d1)" "read_ack d1 = (u2, d2)"
      "set_feature (encode_start_keydef_page command) d2 = (u3, d3)" "read_ack d3 = (u4, d4)"
      "read_pages layer [0..<KEY_DEF_PAGES] es d4 = (Inr es', d5)"
      "set_feature (encode_cmd CMD_COMMUNICATION_END) d5 = (u6, d6)" "read_ack d6 = (u7, d')"
    by (auto simp: read_keydef_layer_def andthen_Inr_iff ok_def)
  note t1 = set_feature_trace[OF m(1) assms(2)]
  note t2 = read_ack_trace[OF m(2) conjunct1[OF t1]]
  note t3 = set_feature_trace[OF m(3) conjunct1[OF t2]]
  note t4 = read_ack_trace[OF m(4) conjunct1[OF t3]]
  note t5 = read_pages_trace[OF m(5) conjunct1[OF t4]]
  note t6 = set_feature_trace[OF m(6) conjunct1[OF t5]]
  note t7 = read_ack_trace[OF m(7) conjunct1[OF t6]]
  from t5 obtain pages where pages: "length pages = 9"
    "wire_trace d5 = wire_trace d4 @ map (\<lambda>page. Fetched (Inr page)) pages"
    "es' = foldl (\<lambda>acc (p, page). scan_page page layer p acc) es (zip [0..<9] pages)" by (auto simp: KEY_DEF_PAGES_def)
  have "zip [0..<9] pages = map (\<lambda>p. (p, pages ! p)) [0..<9]"
    using pages(1) by (intro nth_equalityI) simp_all
  then have "es' = foldl (\<lambda>acc p. scan_page (pages ! p) layer p acc) es [0..<9]"
    using pages(3) by (simp only: foldl_map prod.case)
  then have "es' = foldl (scan_slot layer (slot_at pages)) es [0..<144]"
    using scan_pages_at[of pages layer es 9] by simp
  with t1 t2 t3 t4 t6 t7 pages(1,2) show ?thesis by auto
qed

lemma or_abort_trace:
  assumes "or_abort m d = (Inl e, d')" and "\<And>q d1. m d = (q, d1) \<Longrightarrow> on_traced_io d1"
  shows "last (wire_trace d') = Sent (encode_cmd CMD_COMMUNICATION_END)"
proof -
  obtain q d1 where q: "m d = (q, d1)" by fastforce
  obtain x d2 where x: "set_feature (encode_cmd CMD_COMMUNICATION_END) d1 = (x, d2)" by fastforce
  from assms q x set_feature_trace[OF x assms(2)[OF q]] show ?thesis
    by (auto simp: or_abort_def abort_transaction_def split: sum.splits)
qed

lemma on_traced_io_only: "io_only m \<Longrightarrow> m d = (q, d') \<Longrightarrow> on_traced_io d' = on_traced_io d"
  using io_onlyD[of m d q d'] by (auto simp: on_traced_io_def)

lemma sync_layers_trace:
  assumes "sync_layers ls es d = (Inr es', d')" and "on_traced_io d" and "distinct ls" and "bt_wf es"
  shows "\<exists>pages t. wire_trace d' = wire_trace d @ t \<and> reads_back pages ls t \<and> bt_wf es'
    \<and> (\<forall>p. bt_get es' p = (case keymap_read pages ls p of Some k \<Rightarrow> Some k | None \<Rightarrow> bt_get es p))"
  using assms
proof (induction ls arbitrary: es d)
  case Nil
  then show ?case by (simp add: ok_def keymap_read_def split: prod.split)
next
  case (Cons l ls)
  show ?case
  proof (cases "keydef_read_command l")
    case None
    with Cons.prems have "sync_layers ls es d = (Inr es', d')" by simp
    from Cons.IH[OF this Cons.prems(2) _ Cons.prems(4)] Cons.prems(3) obtain pages t where
      k: "wire_trace d' = wire_trace d @ t" "reads_back pages ls t" "bt_wf es'"
        "\<forall>p. bt_get es' p = (case keymap_read pages ls p of Some k \<Rightarrow> Some k | None \<Rightarrow> bt_get es p)" by auto
    have "keymap_read pages (l # ls) = keymap_read pages ls"
      using None by (auto simp: keymap_read_def fun_eq_iff)
    with k None show ?thesis by (intro exI[of _ pages] exI[of _ t]) simp
  next
    case (Some command)
    with Cons.prems obtain es1 d1 where
      a: "or_abort (read_keydef_layer command l es) d = (Inr es1, d1)" "sync_layers ls es1 d1 = (Inr es', d')"
      by (auto simp: andthen_Inr_iff)
    from a(1) have "read_keydef_layer command l es d = (Inr es1, d1)"
      by (auto simp: or_abort_def split: prod.splits sum.splits)
    from read_keydef_layer_trace[OF this Cons.prems(2)] obtain ps x y z where
      t1: "on_traced_io d1" "length ps = 9" "wire_trace d1 = wire_trace d
        @ [Sent (encode_cmd CMD_TURN_ON_CUSTOMIZATION), Fetched x, Sent (encode_start_keydef_page command), Fetched y]
        @ map (\<lambda>page. Fetched (Inr page)) ps @ [Sent (encode_cmd CMD_COMMUNICATION_END), Fetched z]"
      "es1 = foldl (scan_slot l (slot_at ps)) es [0..<144]" by blast
    have g: "bt_wf es1" "bt_get es1 (l', r, c) = (case key_index_for r c of
        Some ki \<Rightarrow> if l' = l \<and> unat ki < 144 \<and> slot_at ps (unat ki) \<noteq> None then slot_at ps (unat ki) else bt_get es (l', r, c)
      | None \<Rightarrow> bt_get es (l', r, c))" for l' r c
      using scan_slots_get[OF Cons.prems(4), of 144 l "slot_at ps" l' r c] unfolding t1(4) by simp_all
    from Cons.IH[OF a(2) t1(1) _ g(1)] Cons.prems(3) obtain pages t where
      k: "wire_trace d' = wire_trace d1 @ t" "reads_back pages ls t" "bt_wf es'"
        "\<forall>p. bt_get es' p = (case keymap_read pages ls p of Some k \<Rightarrow> Some k | None \<Rightarrow> bt_get es1 p)" by auto
    define pages' where "pages' = pages(l := ps)"
    have pages': "pages' l = ps" "\<And>l'. l' \<noteq> l \<Longrightarrow> pages' l' = pages l'" by (simp_all add: pages'_def)
    have "pages' l' = pages l'" if "l' \<in> set ls" for l'
      using that Cons.prems(3) by (intro pages'(2)) auto
    with k(2) reads_back_cong[of ls pages' pages t] have "reads_back pages' ls t" by blast
    moreover have "bt_get es' p = (case keymap_read pages' (l # ls) p of Some k \<Rightarrow> Some k | None \<Rightarrow> bt_get es p)" for p
    proof (cases p)
      case (fields l' r c)
      have "unat ki < 144" if "key_index_for r c = Some ki" for ki using key_index_for_back(2)[OF that] by simp
      then show ?thesis using k(4)[rule_format, of p] g(2)[of l' r c] Some Cons.prems(3) fields pages'
        by (auto simp: keymap_read_def split: option.splits)
    qed
    ultimately show ?thesis using k(1,3) t1(2,3) Some pages'(1)
      by (intro exI[of _ pages'] exI conjI) auto
  qed
qed

lemma sync_layers_fails:
  assumes "sync_layers ls es d = (Inl e, d')" and "on_traced_io d"
  shows "last (wire_trace d') = Sent (encode_cmd CMD_COMMUNICATION_END)"
  using assms
proof (induction ls arbitrary: es d)
  case Nil
  then show ?case by (simp add: ok_def)
next
  case (Cons l ls)
  show ?case
  proof (cases "keydef_read_command l")
    case None
    with Cons show ?thesis by simp
  next
    case (Some command)
    let ?m = "read_keydef_layer command l es"
    obtain q d1 where q: "or_abort ?m d = (q, d1)" by fastforce
    have keeps: "on_traced_io d1'" if "?m d = (q', d1')" for q' d1'
      using on_traced_io_only[OF io_only_read_keydef_layer that] Cons.prems(2) by simp
    show ?thesis
    proof (cases q)
      case (Inl e')
      with Cons.prems q Some have "d1 = d'" by (auto simp: andthen_def)
      with or_abort_trace[OF q[unfolded Inl] keeps] show ?thesis by simp
    next
      case (Inr es1)
      with Cons.prems q Some have "sync_layers ls es1 d1 = (Inl e, d')" by (simp add: andthen_def)
      from Cons.IH[OF this] on_traced_io_only[OF io_only_or_abort[OF io_only_read_keydef_layer] q] Cons.prems(2)
      show ?thesis by simp
    qed
  qed
qed

end
