(* ===== verification/Gmk67_Claims.thy ===== *)
theory Gmk67_Claims
  imports Gmk67_Props
begin

text \<open>
  The properties of the GMK67 driver: sessions, commits with their frames and their effect on the
  shadow, the area that is pushed, the attach-time read-back and lighting.
\<close>

section \<open>Boards to evaluate on\<close>

text \<open>A board that accepts every frame, and one that has gone.\<close>

definition yes_io :: "unit gmk_io" where
  "yes_io = \<lparr>gio_set_feature = (\<lambda>_. ok ()), gio_get_feature = (\<lambda>_. throw Disconnected)\<rparr>"

definition dead_io :: "unit gmk_io" where
  "dead_io = \<lparr>gio_set_feature = (\<lambda>_. throw Disconnected), gio_get_feature = (\<lambda>_. throw Disconnected)\<rparr>"

definition null_disk :: "unit disk_ops" where
  "null_disk = \<lparr>dk_data_dir = None, dk_read_to_string = (\<lambda>_ _. Inl (OsError ENOENT)), dk_create_dir_all = (\<lambda>_. ok ()),
     dk_write = (\<lambda>_ _. ok ()), dk_rename = (\<lambda>_ _. ok ()), js_from_str = (\<lambda>_. None), js_to_string_pretty = (\<lambda>_. None)\<rparr>"

text \<open>\<open>with_io\<close> of the source: a driver over a given board, with a shadow in memory.\<close>

definition gmk_with_io :: "'i gmk_io \<Rightarrow> 'i \<Rightarrow> 'f disk_ops \<Rightarrow> 'f \<Rightarrow> string \<Rightarrow> u8 \<times> u8 \<Rightarrow> u8 \<Rightarrow> ('i, 'f) gmk_driver" where
  "gmk_with_io io dev os disk device_id matrix layers =
     \<lparr>gd_io = io, gd_dev = dev, gd_device_id = device_id, gd_matrix = matrix, gd_layers = layers,
      gd_shadow = shadow_ephemeral os disk, gd_lighting = lighting_default, gd_sync_on_attach = False,
      gd_synced = False\<rparr>"

definition ek68_edited :: "'i gmk_io \<Rightarrow> 'i \<Rightarrow> ('i \<times> bytes list, unit) gmk_driver" where
  "ek68_edited io dev = snd (gd_set_keycode 1 0 0 0x29 (snd (gd_set_keycode 0 1 1 0x2A
     (gmk_with_io (logged_io io) (dev, []) null_disk () ''hidraw1'' (5, 15) 2))))"

lemma ek68_keys: "keydef_command 0 = Some 0x11" "keydef_command 1 = Some 0x27"
    "key_index_for 1 1 = Some 38" "key_index_for 0 0 = Some 1"
  by code_simp+

lemma ek68_edited_eq:
  "ek68_edited io dev = (gmk_with_io (logged_io io) (dev, []) null_disk () ''hidraw1'' (5, 15) 2)
     \<lparr>gd_shadow := shadow_set_keycode 1 0 0 0x29 (shadow_set_keycode 0 1 1 0x2A (shadow_ephemeral null_disk ()))\<rparr>"
  by (simp add: ek68_edited_def gd_set_keycode_def ek68_keys gmk_with_io_def)

lemma ek68_edited_simps [simp]:
  "on_logged_io (ek68_edited io dev)" "shadow_wf (gd_shadow (ek68_edited io dev))"
  "frames_sent (ek68_edited io dev) = []" "gd_io (ek68_edited io dev) = logged_io io"
  "gd_dev (ek68_edited io dev) = (dev, [])"
  by (auto simp: on_logged_io_def frames_sent_def ek68_edited_eq gmk_with_io_def)

lemma ek68_dirty [simp]:
  "shadow_dirty_layers (gd_shadow (ek68_edited io dev)) = [0, 1]" "shadow_is_dirty (gd_shadow (ek68_edited io dev))"
  by (simp_all add: ek68_edited_eq gmk_with_io_def shadow_set_keycode_def shadow_ephemeral_def
        shadow_dirty_layers_def shadow_is_dirty_def)

lemma ek68_entries [simp]:
  "keydef_entries 0 (gd_shadow (ek68_edited io dev)) = [(38, 0x2A)]"
  "keydef_entries 1 (gd_shadow (ek68_edited io dev)) = [(1, 0x29)]"
  by (simp_all add: ek68_edited_eq gmk_with_io_def shadow_set_keycode_def shadow_ephemeral_def
        keydef_entries_def shadow_layer_entries_def map_filter_simps ek68_keys)

lemma ek68_frames [simp]:
  "layer_frames (gd_shadow (ek68_edited io dev)) 0 = keydef_transaction 0x11 [(38, 0x2A)]"
  "layer_frames (gd_shadow (ek68_edited io dev)) 1 = keydef_transaction 0x27 [(1, 0x29)]"
  by (simp_all add: layer_frames_def ek68_keys)

lemma length_keydef_transaction [simp]: "length (keydef_transaction command es) = 13"
  by (simp add: keydef_transaction_def KEY_DEF_PAGES_def)

lemma yes_board: "board_takes_frames (logged_io yes_io) (\<lambda>_. True)"
  by (simp add: board_takes_frames_def yes_io_def ok_def logged_io_def)

lemma yes_commit: "\<exists>d'. gd_commit_to_nvram (ek68_edited yes_io ()) = (Inr (), d')"
proof -
  have "gmk_healthy (ek68_edited yes_io ())" using yes_board by (auto simp: gmk_healthy_def gmk_up_def)
  with gd_commit_healthy show ?thesis by blast
qed

section \<open>Sessions\<close>

text \<open>C29. On a board that takes frames, a session of reads, writes and commits on the physical keys of
  the two layers answers as a plain keymap that starts as the shadow, whatever the file system does.\<close>

theorem gmk_driver_is_a_keymap:
  assumes "board_takes_frames (gd_io d) up" and "up (gd_dev d)" and "shadow_wf (gd_shadow d)"
    and "list_all (op_within gmk_positions) xs"
  shows "fst (kb_run gmk_driver_ops xs d)
    = fst (keymap_run xs (\<lambda>(l, r, c). shadow_get_keycode l r c (gd_shadow d)))"
proof -
  have "gmk_healthy d" using assms(1-3) by (auto simp: gmk_healthy_def gmk_up_def)
  from gmk_kd.kb_run_refines[OF this assms(4)] show ?thesis by (auto simp: gmk_view_def)
qed

theorem gmk_driver_is_a_keymap_witness:
  "fst (kb_run gmk_driver_ops [KSet 0 1 1 7, KCommit, KGet 0 1 1] (gmk_with_io yes_io () null_disk () ''hidraw1'' (5, 15) 2))
    = [KDone (Inr ()), KDone (Inr ()), KKeycode (Inr 7)]"
proof -
  have "board_takes_frames yes_io (\<lambda>_. True)" by (simp add: board_takes_frames_def yes_io_def ok_def)
  moreover have "keydef_command 0 \<noteq> None" "key_index_for 1 1 \<noteq> None" by code_simp+
  ultimately show ?thesis
    using gmk_driver_is_a_keymap[of "gmk_with_io yes_io () null_disk () ''hidraw1'' (5, 15) 2" "\<lambda>_. True"
        "[KSet 0 1 1 7, KCommit, KGet 0 1 1]"]
    by (simp add: gmk_with_io_def gmk_positions_def)
qed

section \<open>Commits\<close>

lemma layer_frames_prepare [simp]: "layer_frames (shadow_prepare_commit s) = layer_frames s"
proof -
  have "keydef_entries l (shadow_prepare_commit s) = keydef_entries l s" for l
    by (simp add: keydef_entries_def shadow_layer_entries_def shadow_prepare_commit_def)
  then show ?thesis by (simp add: layer_frames_def fun_eq_iff split: option.split)
qed

lemma dirty_layers_prepare [simp]: "shadow_dirty_layers (shadow_prepare_commit s) = shadow_dirty_layers s"
  by (simp add: shadow_dirty_layers_def shadow_prepare_commit_def)

lemma frames_sent_shadow [simp]: "frames_sent (d\<lparr>gd_shadow := s\<rparr>) = frames_sent d"
  by (simp add: frames_sent_def)

lemma on_logged_io_shadow [simp]: "on_logged_io (d\<lparr>gd_shadow := s\<rparr>) = on_logged_io d"
  by (simp add: on_logged_io_def)

lemma not_dirty_layers: "\<not> shadow_is_dirty s \<Longrightarrow> shadow_dirty_layers s = []"
  by (simp add: shadow_is_dirty_def shadow_dirty_layers_def)

text \<open>C27. What a commit puts on the wire, for any board: on success exactly one complete transaction
  per dirty layer, in ascending layer order and with the layer's full keymap; on failure complete
  transactions for the layers before, a part of the failing layer's transaction, and then the
  end-of-communication frame, so no transaction is left open without an attempt to close it.\<close>

theorem gmk_commit_framing:
  assumes "on_logged_io d" and "gd_commit_to_nvram d = (r, d')"
  shows "(r = Inr () \<longrightarrow> frames_sent d' =
      frames_sent d @ concat (map (layer_frames (gd_shadow d)) (shadow_dirty_layers (gd_shadow d))))
    \<and> (r \<noteq> Inr () \<longrightarrow> (\<exists>pre layer post n. shadow_dirty_layers (gd_shadow d) = pre @ layer # post
         \<and> 0 < n \<and> n \<le> length (layer_frames (gd_shadow d) layer)
         \<and> frames_sent d' = frames_sent d @ concat (map (layer_frames (gd_shadow d)) pre)
              @ take n (layer_frames (gd_shadow d) layer) @ [encode_cmd CMD_COMMUNICATION_END]))"
proof (cases "shadow_is_dirty (gd_shadow d)")
  case False
  with assms(2) show ?thesis by (auto simp: gd_commit_to_nvram_def not_dirty_layers)
next
  case True
  let ?d1 = "d\<lparr>gd_shadow := shadow_prepare_commit (gd_shadow d)\<rparr>"
  obtain q d2 where q: "push_dirty_layers (shadow_dirty_layers (gd_shadow d)) ?d1 = (q, d2)" by fastforce
  have "q = r \<and> frames_sent d' = frames_sent d2"
    using assms(2) True q by (auto simp: gd_commit_to_nvram_def Let_def split: sum.splits)
  with push_dirty_layers_log[OF q] assms(1) show ?thesis by simp
qed

theorem gmk_commit_framing_witness:
  "\<exists>d'. gd_commit_to_nvram (ek68_edited yes_io ()) = (Inr (), d') \<and> length (frames_sent d') = 26"
proof -
  from yes_commit obtain d' where d': "gd_commit_to_nvram (ek68_edited yes_io ()) = (Inr (), d')" by blast
  from gmk_commit_framing[OF ek68_edited_simps(1) d'] d' show ?thesis by simp
qed

lemma gd_commit_wf:
  assumes "shadow_wf (gd_shadow d)"
  shows "shadow_wf (gd_shadow (snd (gd_commit_to_nvram d)))"
proof -
  let ?d1 = "d\<lparr>gd_shadow := shadow_prepare_commit (gd_shadow d)\<rparr>"
  obtain q d2 where q: "push_dirty_layers (shadow_dirty_layers (gd_shadow ?d1)) ?d1 = (q, d2)" by fastforce
  have "gd_shadow d2 = shadow_prepare_commit (gd_shadow d)"
    using io_only_shadow(1)[OF io_only_push_dirty_layers q] by simp
  with q assms show ?thesis by (cases q) (simp_all add: gd_commit_to_nvram_def Let_def)
qed

text \<open>C28. A commit confirms everything or takes everything back: after a success the pending edits are
  the confirmed keymap, after any failure every pending edit of every layer is gone from the
  shadow, also of a layer whose transaction had completed; and a repeated commit after either
  returns success without sending anything.\<close>

theorem gmk_commit_confirms_or_rolls_back:
  assumes "shadow_wf (gd_shadow d)" and "gd_commit_to_nvram d = (r, d')"
    and "edits_of (gd_shadow d) = (base, pend)"
  shows "edits_of (gd_shadow d') = (if r = Inr () then (base ++ pend, Map.empty) else (base, Map.empty))
    \<and> gd_commit_to_nvram d' = (Inr (), d')"
proof (cases "shadow_is_dirty (gd_shadow d)")
  case False
  with assms(2,3) have "r = Inr ()" "d' = d" "pend = Map.empty"
    by (auto simp: gd_commit_to_nvram_def edits_of_def shadow_is_dirty_def)
  with False assms(3) show ?thesis by (simp add: gd_commit_to_nvram_def)
next
  case True
  let ?d1 = "d\<lparr>gd_shadow := shadow_prepare_commit (gd_shadow d)\<rparr>"
  obtain q d2 where q: "push_dirty_layers (shadow_dirty_layers (gd_shadow ?d1)) ?d1 = (q, d2)" by fastforce
  have sh: "gd_shadow d2 = shadow_prepare_commit (gd_shadow d)"
    using io_only_shadow(1)[OF io_only_push_dirty_layers q] by simp
  have steps: "edits_of (shadow_confirm_commit (shadow_prepare_commit (gd_shadow d))) = (base ++ pend, Map.empty)"
    "edits_of (shadow_rollback (shadow_prepare_commit (gd_shadow d))) = (base, Map.empty)"
    using shadow_step_refines[OF assms(1), of ShPrepare]
      shadow_step_refines[of "shadow_prepare_commit (gd_shadow d)" ShConfirm]
      shadow_step_refines[of "shadow_prepare_commit (gd_shadow d)" ShRollback] assms(3) by simp_all
  have clean: "\<not> shadow_is_dirty (shadow_confirm_commit s)" "\<not> shadow_is_dirty (shadow_rollback s)" for s
    by (simp_all add: shadow_is_dirty_def shadow_defs)
  show ?thesis
  proof (cases q)
    case (Inl e)
    with assms(2) True q sh have "r = Inl e" "gd_shadow d' = shadow_rollback (shadow_prepare_commit (gd_shadow d))"
      by (auto simp: gd_commit_to_nvram_def Let_def)
    with steps(2) show ?thesis by (simp add: gd_commit_to_nvram_def clean)
  next
    case (Inr u)
    with assms(2) True q sh have "r = Inr ()" "gd_shadow d' = shadow_confirm_commit (shadow_prepare_commit (gd_shadow d))"
      by (auto simp: gd_commit_to_nvram_def Let_def)
    with steps(1) show ?thesis by (simp add: gd_commit_to_nvram_def clean)
  qed
qed

lemma dead_commit: "\<exists>d'. gd_commit_to_nvram (ek68_edited dead_io ()) = (Inl Disconnected, d')"
proof -
  let ?d = "ek68_edited dead_io ()"
  let ?d1 = "?d\<lparr>gd_shadow := shadow_prepare_commit (gd_shadow ?d)\<rparr>"
  have sf: "fst (set_feature f x) = Inl Disconnected" if "gd_io x = logged_io dead_io" for f and x :: "(unit \<times> bytes list, unit) gmk_driver"
    using that by (simp add: set_feature_def logged_io_def dead_io_def throw_def prod.case_eq_if)
  have "fst (commit_keymap 0x11 [(38, 0x2A)] ?d1) = Inl Disconnected"
    using sf[of ?d1 "encode_cmd CMD_TURN_ON_CUSTOMIZATION"]
    by (cases "set_feature (encode_cmd CMD_TURN_ON_CUSTOMIZATION) ?d1")
       (simp add: commit_keymap_def or_abort_def commit_keymap_frames_def Let_def andthen_def)
  moreover have "keydef_entries 0 (shadow_prepare_commit (gd_shadow ?d)) = [(38, 0x2A)]"
    using ek68_entries(1)[of dead_io "()"]
    by (simp add: keydef_entries_def shadow_layer_entries_def shadow_prepare_commit_def)
  ultimately have "fst (push_dirty_layers [0, 1] ?d1) = Inl Disconnected"
    by (cases "commit_keymap 0x11 [(38, 0x2A)] ?d1") (simp add: ek68_keys Let_def andthen_def)
  then show ?thesis
    by (cases "push_dirty_layers [0, 1] ?d1") (simp add: gd_commit_to_nvram_def Let_def)
qed

theorem gmk_commit_confirms_or_rolls_back_witness:
  "\<exists>d'. gd_commit_to_nvram (ek68_edited dead_io ()) = (Inl Disconnected, d')
    \<and> shadow_get_keycode 0 1 1 (gd_shadow d') = 0 \<and> gd_commit_to_nvram d' = (Inr (), d')"
proof -
  from dead_commit obtain d' where d': "gd_commit_to_nvram (ek68_edited dead_io ()) = (Inl Disconnected, d')" by blast
  have base: "edits_of (gd_shadow (ek68_edited dead_io ())) = (Map.empty, snd (edits_of (gd_shadow (ek68_edited dead_io ()))))"
    by (simp add: edits_of_def ek68_edited_eq gmk_with_io_def shadow_set_keycode_def shadow_ephemeral_def)
  note k = gmk_commit_confirms_or_rolls_back[OF ek68_edited_simps(2) d' base]
  have "shadow_wf (gd_shadow d')" using d' gd_commit_wf[of "ek68_edited dead_io ()"] by simp
  with k have "bt_get (sh_keymap (gd_shadow d')) = Map.empty" by (simp add: edits_of_def shadow_wf_def)
  with k d' show ?thesis by (simp add: shadow_get_keycode_def)
qed

section \<open>The area that is pushed\<close>

lemma map_of_keydef_entries:
  assumes "shadow_wf s" and "key_index_for r c = Some ki"
  shows "map_of (rev (keydef_entries layer s)) ki = bt_get (sh_keymap s) (layer, r, c)"
proof -
  let ?es = "keydef_entries layer s"
  have mem: "(ki', k) \<in> set ?es \<longleftrightarrow> (\<exists>r c. (r, c, k) \<in> set (shadow_layer_entries layer s) \<and> key_index_for r c = Some ki')"
    for ki' k by (force simp: keydef_entries_def map_filter_def image_iff)
  have inj: "r' = r \<and> c' = c" if "key_index_for r' c' = Some ki" for r' c'
    using key_index_for_back(1)[OF that] key_index_for_back(1)[OF assms(2)] by simp
  have m: "(ki, k) \<in> set ?es \<longleftrightarrow> bt_get (sh_keymap s) (layer, r, c) = Some k" for k
    using mem[of ki k] inj assms(2) set_shadow_layer_entries[OF assms(1)] by blast
  show ?thesis
  proof (cases "bt_get (sh_keymap s) (layer, r, c)")
    case None
    then have "ki \<notin> fst ` set ?es" using m by force
    then show ?thesis using None by (simp add: map_of_eq_None_iff)
  next
    case (Some k)
    then have "ki \<in> fst ` set (rev ?es)" using m by force
    then obtain k' where k': "map_of (rev ?es) ki = Some k'" by (metis domD dom_map_of_conv_image_fst)
    then have "(ki, k') \<in> set ?es" by (auto dest: map_of_SomeD)
    with m Some k' show ?thesis by simp
  qed
qed

text \<open>C31. The area a commit pushes for a layer is the layer of the shadow: decoding it as the read-back
  does gives each physical key its shadow keycode, and an explicit entry for nothing else.\<close>

theorem gmk_pushes_the_shadow_layer:
  assumes "shadow_wf s"
  shows "bt_get (scan_area layer (encode_keydef_buffer (keydef_entries layer s)) KEY_DEF_PAGES []) (l, r, c)
    = (if l = layer \<and> key_index_for r c \<noteq> None then bt_get (sh_keymap s) (l, r, c) else None)"
proof -
  let ?es = "keydef_entries layer s" and ?buf = "encode_keydef_buffer (keydef_entries layer s)"
  have idx: "\<exists>r c. key_index_for r c = Some (fst e)" if "e \<in> set ?es" for e
    using that by (auto simp: keydef_entries_def map_filter_def) metis
  then have small: "\<forall>e \<in> set ?es. unat (fst e) < 143"
    using key_index_for_back(2) by fastforce
  show ?thesis
  proof (cases "key_index_for r c")
    case None
    then show ?thesis
      using scan_slots_get[of "[]" 144 layer "slot_of ?buf" l r c] scan_area_slots[of ?buf 9 layer "[]"]
      by (simp add: KEY_DEF_PAGES_def)
  next
    case (Some ki)
    have "unat ki < 143" using key_index_for_back(2)[OF Some] by simp
    with Some slot_of_encode[OF small, of "unat ki"] map_of_keydef_entries[OF assms Some, of layer]
    show ?thesis
      using scan_slots_get[of "[]" 144 layer "slot_of ?buf" l r c] scan_area_slots[of ?buf 9 layer "[]"]
      by (auto simp: KEY_DEF_PAGES_def)
  qed
qed

theorem gmk_pushes_the_shadow_layer_witness:
  "bt_get (scan_area 1 (encode_keydef_buffer (keydef_entries 1 (gd_shadow (ek68_edited yes_io ())))) KEY_DEF_PAGES [])
     (1, 0, 0) = Some 0x29"
  using gmk_pushes_the_shadow_layer[OF ek68_edited_simps(2)[of yes_io "()"], of 1 1 0 0]
  by (simp add: ek68_keys ek68_edited_eq gmk_with_io_def shadow_set_keycode_def shadow_ephemeral_def bt_get_def)

section \<open>The attach-time read-back\<close>

text \<open>C32. The attach-time read-back is all or nothing and happens at most once. A success has held the whole
  conversation, the nine pages of every layer that can be read, and makes exactly the keymap those pages hold
  the confirmed one, with nothing pending; a failure at any layer sends the closing frame and leaves the shadow
  exactly as it was; and a second topology query never reads again.\<close>

theorem gmk_sync_all_or_nothing:
  assumes "on_traced_io d" and "sync_eeprom d = (r, d')"
  shows "(r = Inr () \<longrightarrow> (\<exists>pages t. wire_trace d' = wire_trace d @ t
        \<and> reads_back pages (map word_of_nat [0..<unat (gd_layers d)]) t
        \<and> edits_of (gd_shadow d') = (keymap_read pages (map word_of_nat [0..<unat (gd_layers d)]), Map.empty)
        \<and> shadow_wf (gd_shadow d')))
   \<and> (r \<noteq> Inr () \<longrightarrow> gd_shadow d' = gd_shadow d \<and> last (wire_trace d') = Sent (encode_cmd CMD_COMMUNICATION_END))
   \<and> maybe_sync_on_attach (maybe_sync_on_attach d) = maybe_sync_on_attach d
   \<and> fst (gd_get_matrix_dimensions d) = Inr (gd_matrix d)"
proof -
  let ?ls = "map word_of_nat [0..<unat (gd_layers d)] :: u8 list"
  have "unat (gd_layers d) \<le> 256" using unsigned_less[of "gd_layers d", where 'a = nat] by simp
  then have distinct: "distinct ?ls" by (auto simp: distinct_map inj_on_def unat_of_nat dest!: arg_cong[where f = unat])
  obtain q d1 where m: "sync_layers ?ls [] d = (q, d1)" by fastforce
  from io_onlyD[OF io_only_sync_layers m] obtain i where i: "d1 = d\<lparr>gd_dev := i\<rparr>" by blast
  have ok: "\<exists>pages t. wire_trace d' = wire_trace d @ t \<and> reads_back pages ?ls t
      \<and> edits_of (gd_shadow d') = (keymap_read pages ?ls, Map.empty) \<and> shadow_wf (gd_shadow d')" if "r = Inr ()"
  proof -
    from that assms(2) m obtain es where es: "q = Inr es" "d' = d1\<lparr>gd_shadow := shadow_adopt_confirmed es (gd_shadow d1)\<rparr>"
      by (cases q) (auto simp: sync_eeprom_def andthen_def)
    from sync_layers_trace[OF m[unfolded es(1)] assms(1) distinct] obtain pages t where
      k: "wire_trace d1 = wire_trace d @ t" "reads_back pages ?ls t" "bt_wf es"
        "\<forall>p. bt_get es p = (case keymap_read pages ?ls p of Some k \<Rightarrow> Some k | None \<Rightarrow> bt_get [] p)" by auto
    then have "bt_get es = keymap_read pages ?ls" by (auto simp: fun_eq_iff split: option.splits)
    with k es(2) show ?thesis
      by (intro exI[of _ pages] exI[of _ t])
         (auto simp: wire_trace_def edits_of_def shadow_adopt_confirmed_def shadow_wf_def)
  qed
  have failed: "gd_shadow d' = gd_shadow d \<and> last (wire_trace d') = Sent (encode_cmd CMD_COMMUNICATION_END)" if "r \<noteq> Inr ()"
  proof -
    from that assms(2) m obtain e where "q = Inl e" "d' = d1" by (cases q) (auto simp: sync_eeprom_def andthen_def)
    with sync_layers_fails[of ?ls "[]" d e d1] m i assms(1) show ?thesis by simp
  qed
  have flags: "gd_synced (snd (sync_eeprom x)) = gd_synced x \<and> gd_sync_on_attach (snd (sync_eeprom x)) = gd_sync_on_attach x
      \<and> gd_matrix (snd (sync_eeprom x)) = gd_matrix x" for x :: "('a \<times> wire_event list, 'b) gmk_driver"
  proof -
    obtain q x1 where q: "sync_layers (map word_of_nat [0..<unat (gd_layers x)]) [] x = (q, x1)" by fastforce
    from io_onlyD[OF io_only_sync_layers q] q show ?thesis
      by (cases q) (auto simp: sync_eeprom_def andthen_def)
  qed
  have "maybe_sync_on_attach (maybe_sync_on_attach d) = maybe_sync_on_attach d" "gd_matrix (maybe_sync_on_attach d) = gd_matrix d"
    using flags[of "d\<lparr>gd_synced := True\<rparr>"] by (simp_all add: maybe_sync_on_attach_def)
  with ok failed show ?thesis by (auto simp: gd_get_matrix_dimensions_def Let_def)
qed

text \<open>A board whose every key is escape, read at attach time.\<close>

definition escape_page :: bytes where
  "escape_page = concat (replicate 16 [0x02, 0x00, 0x29, 0x00])"

definition escape_io :: "unit gmk_io" where
  "escape_io = \<lparr>gio_set_feature = (\<lambda>_. ok ()), gio_get_feature = (\<lambda>_. ok escape_page)\<rparr>"

definition ek68_attached_to :: "'i gmk_io \<Rightarrow> 'i \<Rightarrow> ('i \<times> wire_event list, unit) gmk_driver" where
  "ek68_attached_to io dev = gmk_with_io (traced_io io) (dev, []) null_disk () ''hidraw1'' (5, 15) 2"

lemma escape_steps:
  assumes "gd_io d = traced_io escape_io" and "gd_dev d = ((), t)"
  shows "set_feature f d = (Inr (), d\<lparr>gd_dev := ((), t @ [Sent f])\<rparr>)"
    and "get_feature rid d = (Inr escape_page, d\<lparr>gd_dev := ((), t @ [Fetched (Inr escape_page)])\<rparr>)"
    and "read_ack d = (Inr (), d\<lparr>gd_dev := ((), t @ [Fetched (Inr escape_page)])\<rparr>)"
  using assms by (simp_all add: set_feature_def get_feature_def read_ack_def traced_io_def escape_io_def ok_def)

lemma escape_read_pages:
  assumes "gd_io d = traced_io escape_io" and "gd_dev d = ((), t)"
  shows "\<exists>es'. read_pages l ps es d = (Inr es', d\<lparr>gd_dev := ((), t @ replicate (length ps) (Fetched (Inr escape_page)))\<rparr>)"
  using assms
proof (induction ps arbitrary: d t es)
  case Nil
  then have "d = d\<lparr>gd_dev := ((), t)\<rparr>" by simp
  then show ?case by (auto simp: ok_def)
next
  case (Cons p ps)
  let ?d = "d\<lparr>gd_dev := ((), t @ [Fetched (Inr escape_page)])\<rparr>"
  from Cons.IH[of ?d "t @ [Fetched (Inr escape_page)]" "scan_page escape_page l p es"] Cons.prems show ?case
    by (auto simp: andthen_def escape_steps)
qed

definition escape_conversation :: "u8 \<Rightarrow> wire_event list" where
  "escape_conversation command =
     [Sent (encode_cmd CMD_TURN_ON_CUSTOMIZATION), Fetched (Inr escape_page), Sent (encode_start_keydef_page command), Fetched (Inr escape_page)]
     @ replicate 9 (Fetched (Inr escape_page)) @ [Sent (encode_cmd CMD_COMMUNICATION_END), Fetched (Inr escape_page)]"

lemma escape_pages:
  assumes "map (\<lambda>page. Fetched (Inr page)) pages = replicate 9 (Fetched (Inr escape_page))"
  shows "pages = replicate 9 escape_page"
proof (rule replicate_eqI)
  show "length pages = 9" using arg_cong[OF assms, of length] by simp
  fix page assume "page \<in> set pages"
  then have "Fetched (Inr page) \<in> set (map (\<lambda>page. Fetched (Inr page)) pages)" by simp
  then show "page = escape_page" unfolding assms by simp
qed

lemma escape_read_layer:
  assumes "gd_io d = traced_io escape_io" and "gd_dev d = ((), t)"
  shows "\<exists>es'. or_abort (read_keydef_layer command l es) d = (Inr es', d\<lparr>gd_dev := ((), t @ escape_conversation command)\<rparr>)"
proof -
  let ?t = "t @ [Sent (encode_cmd CMD_TURN_ON_CUSTOMIZATION), Fetched (Inr escape_page),
    Sent (encode_start_keydef_page command), Fetched (Inr escape_page)]"
  from escape_read_pages[of "d\<lparr>gd_dev := ((), ?t)\<rparr>" ?t l "[0..<KEY_DEF_PAGES]" es] assms obtain es' where
    "read_pages l [0..<KEY_DEF_PAGES] es (d\<lparr>gd_dev := ((), ?t)\<rparr>)
      = (Inr es', d\<lparr>gd_dev := ((), ?t @ replicate 9 (Fetched (Inr escape_page)))\<rparr>)" by (auto simp: KEY_DEF_PAGES_def)
  with assms show ?thesis
    by (simp add: or_abort_def read_keydef_layer_def andthen_def escape_steps ok_def escape_conversation_def)
qed

theorem gmk_sync_all_or_nothing_witness:
  "\<exists>d'. sync_eeprom (ek68_attached_to escape_io ()) = (Inr (), d') \<and> shadow_get_keycode 1 1 1 (gd_shadow d') = 0x29"
proof -
  let ?d = "ek68_attached_to escape_io ()"
  have l: "map word_of_nat [0..<unat (gd_layers ?d)] = [0, 1 :: u8]"
    by (simp add: ek68_attached_to_def gmk_with_io_def upt_rec)
  have c: "keydef_read_command 0 = Some 0x10" "keydef_read_command 1 = Some 0x26" by (simp_all add: keydef_read_command_def)
  have start: "gd_io ?d = traced_io escape_io" "gd_dev ?d = ((), [])" by (simp_all add: ek68_attached_to_def gmk_with_io_def)
  from escape_read_layer[OF start, where command = "0x10" and l = 0 and es = "[]"] obtain es1 where
    s1: "or_abort (read_keydef_layer 0x10 0 []) ?d = (Inr es1, ?d\<lparr>gd_dev := ((), escape_conversation 0x10)\<rparr>)" by auto
  from escape_read_layer[where d = "?d\<lparr>gd_dev := ((), escape_conversation 0x10)\<rparr>" and t = "escape_conversation 0x10"
      and command = "0x26" and l = 1 and es = es1] start
  obtain es2 where s2: "or_abort (read_keydef_layer 0x26 1 es1) (?d\<lparr>gd_dev := ((), escape_conversation 0x10)\<rparr>)
      = (Inr es2, ?d\<lparr>gd_dev := ((), escape_conversation 0x10 @ escape_conversation 0x26)\<rparr>)" by auto
  have "\<exists>d'. sync_eeprom ?d = (Inr (), d') \<and> wire_trace d' = escape_conversation 0x10 @ escape_conversation 0x26"
    unfolding sync_eeprom_def l by (simp add: c andthen_def ok_def s1 s2 wire_trace_def)
  then obtain d' where d': "sync_eeprom ?d = (Inr (), d')" "wire_trace d' = escape_conversation 0x10 @ escape_conversation 0x26"
    by blast
  from gmk_sync_all_or_nothing[OF _ d'(1)] start obtain pages t where
    "wire_trace d' = wire_trace ?d @ t" "reads_back pages [0, 1] t" and
    e: "edits_of (gd_shadow d') = (keymap_read pages [0, 1], Map.empty)" "shadow_wf (gd_shadow d')"
    unfolding l by (auto simp: on_traced_io_def)
  then have t: "reads_back pages [0, 1] (escape_conversation 0x10 @ escape_conversation 0x26)"
    using d'(2) start by (simp add: wire_trace_def del: reads_back.simps)
  then obtain u v w x y z where lengths: "length (pages 0) = 9" "length (pages 1) = 9"
    and conversation: "escape_conversation 0x10 @ escape_conversation 0x26 =
      Sent (encode_cmd CMD_TURN_ON_CUSTOMIZATION) # Fetched v # Sent (encode_start_keydef_page 0x10) # Fetched w
      # map (\<lambda>page. Fetched (Inr page)) (pages 0) @ Sent (encode_cmd CMD_COMMUNICATION_END) # Fetched x
      # Sent (encode_cmd CMD_TURN_ON_CUSTOMIZATION) # Fetched y # Sent (encode_start_keydef_page 0x26) # Fetched z
      # map (\<lambda>page. Fetched (Inr page)) (pages 1) @ [Sent (encode_cmd CMD_COMMUNICATION_END), Fetched u]"
    by (auto simp: c)
  have "pages 1 = replicate 9 escape_page"
    using arg_cong[OF conversation, of "\<lambda>t. take 9 (drop 19 t)"] lengths
    by (intro escape_pages) (simp_all add: escape_conversation_def)
  moreover have "slot_at (replicate 9 escape_page) 38 = Some 0x29" by code_simp
  moreover have "key_index_for 1 1 = Some 38" by (rule ek68_keys)
  ultimately have "bt_get (sh_keymap (gd_shadow d')) (1, 1, 1) = Some 0x29"
    using e by (simp add: edits_of_def keymap_read_def c shadow_wf_def)
  with d'(1) show ?thesis by (auto simp: shadow_get_keycode_def)
qed

section \<open>Lighting\<close>

text \<open>C33. A lighting write renders a whole transaction or changes nothing in the driver: on success
  the chosen lighting is renderable, its transaction is exactly what was sent, a packed read returns
  it and the shadow carries it for the next start; on any failure the lighting and the shadow are
  those of before. A request that is refused up front sends nothing.\<close>

theorem gmk_lighting_is_a_transaction:
  assumes "on_logged_io d" and "gd_set_lighting ch v data d = (r, d')"
  shows "(r = Inr () \<longrightarrow> (\<exists>l. chosen_lighting ch v data (gd_lighting d) = Inr l \<and> is_renderable_mode (lg_mode l)
           \<and> frames_sent d' = frames_sent d @ render_transaction l
           \<and> fst (gd_get_lighting VIA_CHANNEL_PACKED v' d') = Inr (lighting_to_bytes l)
           \<and> sh_lighting (gd_shadow d') = to_lighting_state l))
    \<and> (r \<noteq> Inr () \<longrightarrow> gd_lighting d' = gd_lighting d \<and> gd_shadow d' = gd_shadow d
         \<and> (frames_sent d' = frames_sent d \<or> last (frames_sent d') = encode_cmd CMD_COMMUNICATION_END))"
proof (cases "\<exists>l. chosen_lighting ch v data (gd_lighting d) = Inr l \<and> is_renderable_mode (lg_mode l)")
  case False
  with assms(2) show ?thesis by (auto simp: gd_set_lighting_def split: sum.splits)
next
  case True
  then obtain l where l: "chosen_lighting ch v data (gd_lighting d) = Inr l" "is_renderable_mode (lg_mode l)" by blast
  obtain q d1 where q: "render_effect l d = (q, d1)" by fastforce
  then have "or_abort (send_paced (render_transaction l)) d = (q, d1)"
    by (simp add: render_effect_def render_effect_frames_paced)
  note log = or_abort_log[OF this assms(1)]
  note same = io_only_shadow[OF io_only_render_effect q]
  show ?thesis
  proof (cases q)
    case (Inl e)
    with assms(2) l q have "r = Inl e" "d' = d1" by (auto simp: gd_set_lighting_def andthen_def)
    with log same Inl show ?thesis by auto
  next
    case (Inr u)
    with assms(2) l q have "r = Inr ()" "d' = d1\<lparr>gd_lighting := l,
        gd_shadow := shadow_persist_lighting (shadow_set_lighting (to_lighting_state l) (gd_shadow d1))\<rparr>"
      by (auto simp: gd_set_lighting_def andthen_def)
    moreover have "frames_sent d1 = frames_sent d @ render_transaction l" using log Inr by simp
    ultimately show ?thesis
      using l by (auto simp: frames_sent_def gd_get_lighting_def shadow_persist_lighting_def shadow_set_lighting_def)
  qed
qed

theorem gmk_lighting_is_a_transaction_witness:
  "\<exists>d'. gd_set_lighting 3 2 [0] (ek68_edited yes_io ()) = (Inr (), d') \<and> length (frames_sent d') = 5"
proof -
  let ?d = "ek68_edited yes_io ()"
  have "gmk_up ?d" using yes_board by (auto simp: gmk_up_def)
  then have "is_ok (fst (render_effect ((gd_lighting ?d)\<lparr>lg_mode := MODE_LIGHTS_OFF\<rparr>) ?d))"
    using frames_ok_render_effect by (auto simp: frames_ok_def)
  then have "fst (gd_set_lighting 3 2 [0] ?d) = Inr ()"
    by (auto simp: gd_set_lighting_def chosen_lighting_def lighting_with_via_value_def Let_def is_renderable_mode_def
        VIA_CHANNEL_PACKED_def VIA_CHANNEL_RGB_MATRIX_def VIA_VALUE_BRIGHTNESS_def VIA_VALUE_EFFECT_def
        andthen_def is_ok_def prod.case_eq_if split: sum.splits)
  then obtain d' where d': "gd_set_lighting 3 2 [0] ?d = (Inr (), d')" by (metis prod.collapse)
  from gmk_lighting_is_a_transaction[OF ek68_edited_simps(1) d', of 0] d' show ?thesis
    by (auto simp: render_transaction_def)
qed

end
