(* ===== verification/Worker.thy ===== *)
theory Worker
  imports Hal Topology
begin

text \<open>
  The per-device worker of \<open>src/engine/mod.rs\<close> with the daemon-wide error type: \<open>run_device_worker\<close>
  owns a boxed driver, handles the operations of its queue in order, answers each on its
  \<open>oneshot\<close>, debounces commits of buffered drivers by 500 ms and retires on a fatal driver
  error. A \<open>oneshot\<close> channel is a number; what the worker does to the outside is a list of effects.
\<close>

section \<open>\<open>DaemonError\<close>\<close>

datatype daemon_error =
    Driver driver_error
  | DeviceNotFound string
  | DeviceUnauthorized string
  | DeviceTaskPanicked string
  | EngineSend
  | ReplyDropped
  | Elapsed
  | DbusRouting string

definition map_driver_err :: "driver_error + 'a \<Rightarrow> daemon_error + 'a" where
  "map_driver_err r = map_sum Driver id r"

fun is_fatal_driver_error :: "daemon_error + 'a \<Rightarrow> bool" where
  "is_fatal_driver_error (Inl (Driver Disconnected)) = True"
| "is_fatal_driver_error (Inl (Driver (PermissionDenied _))) = True"
| "is_fatal_driver_error _ = False"

fun is_transient_attach_error :: "daemon_error \<Rightarrow> bool" where
  "is_transient_attach_error (Driver Disconnected) = True"
| "is_transient_attach_error (Driver (PermissionDenied _)) = True"
| "is_transient_attach_error _ = False"

lemma fatal_iff_retires: "is_fatal_driver_error (map_driver_err r) \<longleftrightarrow> (\<exists>e. r = Inl e \<and> retires_worker e)"
proof (cases r)
  case (Inl e)
  then show ?thesis by (cases e) (simp_all add: map_driver_err_def)
qed (simp add: map_driver_err_def)

section \<open>Operations and answers\<close>

type_synonym reply_id = nat

datatype worker_op =
    WGetKeycode u8 u8 u8 reply_id
  | WSetKeycode u8 u8 u8 u16 reply_id
  | WCommit reply_id
  | WGetMacro u16 u8 reply_id
  | WSetMacro u16 bytes reply_id
  | WGetLighting u8 u8 reply_id
  | WSetLighting u8 u8 bytes reply_id

fun reply_of :: "worker_op \<Rightarrow> reply_id" where
  "reply_of (WGetKeycode _ _ _ i) = i"
| "reply_of (WSetKeycode _ _ _ _ i) = i"
| "reply_of (WCommit i) = i"
| "reply_of (WGetMacro _ _ i) = i"
| "reply_of (WSetMacro _ _ i) = i"
| "reply_of (WGetLighting _ _ i) = i"
| "reply_of (WSetLighting _ _ _ i) = i"

datatype answer =
    AnsU16 "daemon_error + u16"
  | AnsUnit "daemon_error + unit"
  | AnsBytes "daemon_error + bytes"
  | AnsIds "string list"
  | AnsInfo "daemon_error + (string \<times> u8 \<times> u8 \<times> u8)"
  | AnsIdentity "daemon_error + (u16 \<times> u16 \<times> string)"

text \<open>\<open>reply_with_error\<close> answers with the type the operation's channel carries.\<close>

fun error_answer :: "worker_op \<Rightarrow> daemon_error \<Rightarrow> answer" where
  "error_answer (WGetKeycode _ _ _ _) e = AnsU16 (Inl e)"
| "error_answer (WSetKeycode _ _ _ _ _) e = AnsUnit (Inl e)"
| "error_answer (WCommit _) e = AnsUnit (Inl e)"
| "error_answer (WGetMacro _ _ _) e = AnsBytes (Inl e)"
| "error_answer (WSetMacro _ _ _) e = AnsUnit (Inl e)"
| "error_answer (WGetLighting _ _ _) e = AnsBytes (Inl e)"
| "error_answer (WSetLighting _ _ _ _) e = AnsUnit (Inl e)"

definition reply_with_error :: "worker_op \<Rightarrow> daemon_error \<Rightarrow> (reply_id \<times> answer) list" where
  "reply_with_error op e = [(reply_of op, error_answer op e)]"

section \<open>The worker\<close>

definition LEGACY_COMMIT_DEBOUNCE :: nat where "LEGACY_COMMIT_DEBOUNCE = 500"

text \<open>\<open>Box<dyn KeyboardDriver>\<close>.\<close>

record 's boxed_driver =
  bx_ops :: "'s driver_ops"
  bx_state :: "'s"

text \<open>\<open>Reporting\<close> is the worker awaiting room in the engine channel for its \<open>DeviceError\<close>.\<close>

datatype worker_phase = Running | Reporting | Exited

record 's worker =
  wk_device_id :: string
  wk_driver :: "'s boxed_driver"
  wk_deadline :: "nat option"
  wk_phase :: worker_phase

definition worker_start :: "string \<Rightarrow> 's boxed_driver \<Rightarrow> 's worker" where
  "worker_start device_id driver =
     \<lparr>wk_device_id = device_id, wk_driver = driver, wk_deadline = None, wk_phase = Running\<rparr>"

datatype effect = Answered reply_id answer | Announced lifecycle_event

text \<open>A driver method run on the boxed driver, with the error wrapped for the engine.\<close>

definition call_driver :: "('s driver_ops \<Rightarrow> ('s, driver_error, 'a) act) \<Rightarrow> 's worker \<Rightarrow> (daemon_error + 'a) \<times> 's worker" where
  "call_driver m w =
     (let b = wk_driver w in
      case m (bx_ops b) (bx_state b) of
        (r, s') \<Rightarrow> (map_driver_err r, w\<lparr>wk_driver := b\<lparr>bx_state := s'\<rparr>\<rparr>))"

definition retire_if :: "bool \<Rightarrow> 's worker \<Rightarrow> 's worker" where
  "retire_if fatal w = (if fatal then w\<lparr>wk_phase := Reporting\<rparr> else w)"

text \<open>An operation whose only effect is its answer.\<close>

definition answer_op :: "(daemon_error + 'a \<Rightarrow> answer) \<Rightarrow> reply_id \<Rightarrow> (daemon_error + 'a) \<times> 's worker
    \<Rightarrow> 's worker \<times> effect list" where
  "answer_op mk i x =
     (case x of (result, w) \<Rightarrow> (retire_if (is_fatal_driver_error result) w, [Answered i (mk result)]))"

fun worker_handle :: "nat \<Rightarrow> worker_op \<Rightarrow> 's worker \<Rightarrow> 's worker \<times> effect list" where
  "worker_handle now (WGetKeycode layer row col i) w =
     answer_op AnsU16 i (call_driver (\<lambda>ops. kd_get_keycode ops layer row col) w)"
| "worker_handle now (WSetKeycode layer row col keycode i) w =
     (case call_driver (\<lambda>ops. kd_set_keycode ops layer row col keycode) w of
        (result, w1) \<Rightarrow>
          let fatal = is_fatal_driver_error result in
          (case result of
             Inl _ \<Rightarrow> (retire_if fatal w1, [Answered i (AnsUnit result)])
           | Inr _ \<Rightarrow>
               if kd_emits_layout_event_per_set (bx_ops (wk_driver w1)) (bx_state (wk_driver w1))
               then (retire_if fatal w1, [Answered i (AnsUnit result), Announced (LayoutUpdated (wk_device_id w1))])
               else (retire_if fatal (w1\<lparr>wk_deadline := Some (now + LEGACY_COMMIT_DEBOUNCE)\<rparr>),
                     [Answered i (AnsUnit result)])))"
| "worker_handle now (WCommit i) w =
     (case call_driver kd_commit_to_nvram (w\<lparr>wk_deadline := None\<rparr>) of
        (result, w1) \<Rightarrow>
          (retire_if (is_fatal_driver_error result) w1,
           Answered i (AnsUnit result) # (if is_ok result then [Announced (LayoutUpdated (wk_device_id w1))] else [])))"
| "worker_handle now (WGetMacro offset len i) w =
     answer_op AnsBytes i (call_driver (\<lambda>ops. kd_get_macro_buffer ops offset len) w)"
| "worker_handle now (WSetMacro offset data i) w =
     answer_op AnsUnit i (call_driver (\<lambda>ops. kd_set_macro_buffer ops offset data) w)"
| "worker_handle now (WGetLighting channel value_id i) w =
     answer_op AnsBytes i (call_driver (\<lambda>ops. kd_get_lighting ops channel value_id) w)"
| "worker_handle now (WSetLighting channel value_id data i) w =
     answer_op AnsUnit i (call_driver (\<lambda>ops. kd_set_lighting ops channel value_id data) w)"

text \<open>The sleep branch: the debounced commit. An error is logged, not answered.\<close>

definition worker_debounced_commit :: "'s worker \<Rightarrow> 's worker \<times> effect list" where
  "worker_debounced_commit w =
     (case call_driver kd_commit_to_nvram (w\<lparr>wk_deadline := None\<rparr>) of
        (result, w1) \<Rightarrow>
          (retire_if (is_fatal_driver_error result) w1,
           if is_ok result then [Announced (LayoutUpdated (wk_device_id w1))] else []))"

text \<open>The channel is closed and drained: a pending debounce is flushed, then the worker exits.\<close>

definition worker_shutdown :: "'s worker \<Rightarrow> 's worker" where
  "worker_shutdown w =
     (let w1 = (case wk_deadline w of
                  None \<Rightarrow> w
                | Some _ \<Rightarrow> snd (call_driver kd_commit_to_nvram (w\<lparr>wk_deadline := None\<rparr>)))
      in w1\<lparr>wk_phase := Exited\<rparr>)"

text \<open>What a fatal worker tells the engine: always the same error, whatever was observed.\<close>

definition worker_report :: daemon_error where
  "worker_report = Driver Disconnected"

section \<open>Every operation is answered once, in its own type\<close>

fun answers_of :: "effect list \<Rightarrow> (reply_id \<times> answer) list" where
  "answers_of [] = []"
| "answers_of (Answered i a # es) = (i, a) # answers_of es"
| "answers_of (Announced _ # es) = answers_of es"

fun announced_of :: "effect list \<Rightarrow> lifecycle_event list" where
  "announced_of [] = []"
| "announced_of (Answered _ _ # es) = announced_of es"
| "announced_of (Announced ev # es) = ev # announced_of es"

lemma call_driver_fields:
  "call_driver m w = (r, w') \<Longrightarrow> wk_device_id w' = wk_device_id w \<and> wk_deadline w' = wk_deadline w
    \<and> wk_phase w' = wk_phase w \<and> bx_ops (wk_driver w') = bx_ops (wk_driver w)"
  by (auto simp: call_driver_def Let_def split: prod.splits)

lemma retire_if_fields [simp]:
  "wk_device_id (retire_if b w) = wk_device_id w" "wk_deadline (retire_if b w) = wk_deadline w"
  "wk_driver (retire_if b w) = wk_driver w"
  "wk_phase (retire_if b w) = (if b then Reporting else wk_phase w)"
  by (simp_all add: retire_if_def)

lemma worker_handle_answers:
  "map fst (answers_of (snd (worker_handle now op w))) = [reply_of op]"
  by (cases op) (auto simp: answer_op_def Let_def prod.case_eq_if split: sum.split)

lemma worker_handle_device_id: "wk_device_id (fst (worker_handle now op w)) = wk_device_id w"
  by (cases op) (simp_all add: answer_op_def Let_def prod.case_eq_if call_driver_def split: sum.split)

text \<open>Retirement: exactly the two fatal errors, on any operation.\<close>

fun answer_error :: "answer \<Rightarrow> daemon_error option" where
  "answer_error (AnsU16 (Inl e)) = Some e"
| "answer_error (AnsUnit (Inl e)) = Some e"
| "answer_error (AnsBytes (Inl e)) = Some e"
| "answer_error _ = None"

lemma answer_op_phase:
  assumes "call_driver m w = (r, w1)"
  shows "wk_phase (fst (answer_op mk i (call_driver m w))) = (if is_fatal_driver_error r then Reporting else wk_phase w)"
  using assms call_driver_fields[OF assms] by (simp add: answer_op_def)

lemma fatal_cases: "is_fatal_driver_error r \<longleftrightarrow> (\<exists>e. r = Inl (Driver e) \<and> retires_worker e)"
proof (cases "\<exists>e. r = Inl (Driver e)")
  case True
  then obtain e where "r = Inl (Driver e)" by blast
  then show ?thesis by (cases e) simp_all
next
  case False
  then have "\<not> is_fatal_driver_error r" by (cases r rule: is_fatal_driver_error.cases) auto
  with False show ?thesis by blast
qed

lemma call_driver_error: "fst (call_driver m w) = Inl e \<Longrightarrow> \<exists>d. e = Driver d"
  by (auto simp: call_driver_def Let_def map_driver_err_def prod.case_eq_if map_sum_def split: sum.splits)

end
