(* ===== verification/Engine.thy ===== *)
theory Engine
  imports Worker Text "HOL-Library.Multiset" "HOL-Library.List_Lexorder" "HOL-Library.Char_ord"
begin

text \<open>
  The engine supervisor of \<open>src/engine/mod.rs\<close> and its messages (\<open>messages.rs\<close>): the device registry,
  \<open>handle_command\<close> with every arm, attaching, reconnection with backoff, and the bounded channels to
  the workers. Channels are lists with a capacity: a worker's channel is an entry of
  \<open>en_channels\<close> and a \<open>Sender\<close> of it is its index. The tasks run concurrently as the
  step relation \<open>engine_step\<close>; driver factories are a parameter of the state.
\<close>

section \<open>Messages\<close>

record device_handle =
  dh_topology :: device_topology
  dh_model :: string
  dh_tx :: nat
  dh_vendor_id :: u16
  dh_product_id :: u16
  dh_hidraw_path :: string

datatype engine_command =
    CmdGetKeycode string u8 u8 u8 reply_id
  | CmdSetKeycode string u8 u8 u8 u16 reply_id
  | DeviceConnected string u16 u16 string
  | DeviceDisconnected string
  | DeviceError string daemon_error
  | DeviceReattached string device_handle u64
  | ListDevices reply_id
  | GetDeviceInfo string reply_id
  | GetDeviceIdentity string reply_id
  | CommitToNvram string reply_id
  | CmdGetMacro string u16 u8 reply_id
  | CmdSetMacro string u16 bytes reply_id
  | CmdGetLighting string u8 u8 reply_id
  | CmdSetLighting string u8 u8 bytes reply_id
  | Shutdown

fun replies_of_command :: "engine_command \<Rightarrow> reply_id list" where
  "replies_of_command (CmdGetKeycode _ _ _ _ i) = [i]"
| "replies_of_command (CmdSetKeycode _ _ _ _ _ i) = [i]"
| "replies_of_command (ListDevices i) = [i]"
| "replies_of_command (GetDeviceInfo _ i) = [i]"
| "replies_of_command (GetDeviceIdentity _ i) = [i]"
| "replies_of_command (CommitToNvram _ i) = [i]"
| "replies_of_command (CmdGetMacro _ _ _ i) = [i]"
| "replies_of_command (CmdSetMacro _ _ _ i) = [i]"
| "replies_of_command (CmdGetLighting _ _ _ i) = [i]"
| "replies_of_command (CmdSetLighting _ _ _ _ i) = [i]"
| "replies_of_command _ = []"

definition LIFECYCLE_CHANNEL_CAPACITY :: nat where "LIFECYCLE_CHANNEL_CAPACITY = 64"
definition ENGINE_CHANNEL_CAPACITY :: nat where "ENGINE_CHANNEL_CAPACITY = 32"
definition WORKER_CHANNEL_CAPACITY :: nat where "WORKER_CHANNEL_CAPACITY = 16"
definition RECONNECT_INITIAL_BACKOFF_MS :: nat where "RECONNECT_INITIAL_BACKOFF_MS = 100"
definition RECONNECT_MAX_BACKOFF_MS :: nat where "RECONNECT_MAX_BACKOFF_MS = 5000"
definition RECONNECT_MAX_ATTEMPTS :: nat where "RECONNECT_MAX_ATTEMPTS = 8"

section \<open>The state\<close>

text \<open>The cancellation sender of a reconnect entry belongs to the task that carries the same token.\<close>

record registry =
  rg_devices :: "(string, device_handle) hash_map"
  rg_reconnecting :: "(string, u64) hash_map"
  rg_next_token :: u64

type_synonym ('w, 's) driver_factory = "string \<Rightarrow> 'w \<Rightarrow> (daemon_error + 's boxed_driver) \<times> 'w"

record ('w, 's) driver_table =
  dt_by_vid_pid :: "u16 \<times> u16 \<Rightarrow> ('w, 's) driver_factory option"
  dt_via_fallback :: "('w, 's) driver_factory option"

definition select_factory :: "('w, 's) driver_table \<Rightarrow> u16 \<Rightarrow> u16 \<Rightarrow> ('w, 's) driver_factory option" where
  "select_factory table vid pid =
     (case dt_by_vid_pid table (vid, pid) of Some f \<Rightarrow> Some f | None \<Rightarrow> dt_via_fallback table)"

record 's channel =
  ch_queue :: "worker_op list"
  ch_worker :: "'s worker"

text \<open>Where a reconnect task is: asleep until a time, holding a handle it has just attached, or
  awaiting room in the engine channel.\<close>

datatype task_phase = Sleeping nat | Attached device_handle | Sending device_handle | Ended

record reconnect_task =
  rt_device_id :: string
  rt_vendor_id :: u16
  rt_product_id :: u16
  rt_hidraw_path :: string
  rt_token :: u64
  rt_backoff :: nat
  rt_attempts :: nat
  rt_phase :: task_phase

record ('w, 's) engine =
  en_registry :: registry
  en_running :: bool
  en_queue :: "engine_command list"
  en_channels :: "'s channel list"
  en_tasks :: "reconnect_task list"
  en_events :: "lifecycle_event list"
  en_answers :: "(reply_id \<times> answer) list"
  en_dropped :: "reply_id list"
  en_world :: "'w"
  en_now :: nat
  en_table :: "('w, 's) driver_table"

definition devices :: "('w, 's) engine \<Rightarrow> string \<Rightarrow> device_handle option" where
  "devices e = hm_get (rg_devices (en_registry e))"

definition reconnecting :: "('w, 's) engine \<Rightarrow> string \<Rightarrow> u64 option" where
  "reconnecting e = hm_get (rg_reconnecting (en_registry e))"

section \<open>Updates of the parts\<close>

definition answer :: "reply_id \<Rightarrow> answer \<Rightarrow> ('w, 's) engine \<Rightarrow> ('w, 's) engine" where
  "answer i a e = e\<lparr>en_answers := en_answers e @ [(i, a)]\<rparr>"

definition announce :: "lifecycle_event \<Rightarrow> ('w, 's) engine \<Rightarrow> ('w, 's) engine" where
  "announce ev e = e\<lparr>en_events := en_events e @ [ev]\<rparr>"

definition put_device :: "string \<Rightarrow> device_handle \<Rightarrow> ('w, 's) engine \<Rightarrow> ('w, 's) engine" where
  "put_device i h e = e\<lparr>en_registry := (en_registry e)\<lparr>rg_devices := hm_insert i h (rg_devices (en_registry e))\<rparr>\<rparr>"

definition drop_device :: "string \<Rightarrow> ('w, 's) engine \<Rightarrow> ('w, 's) engine" where
  "drop_device i e = e\<lparr>en_registry := (en_registry e)\<lparr>rg_devices := hm_remove i (rg_devices (en_registry e))\<rparr>\<rparr>"

definition drop_reconnecting :: "string \<Rightarrow> ('w, 's) engine \<Rightarrow> ('w, 's) engine" where
  "drop_reconnecting i e =
     e\<lparr>en_registry := (en_registry e)\<lparr>rg_reconnecting := hm_remove i (rg_reconnecting (en_registry e))\<rparr>\<rparr>"

section \<open>Dispatch to a worker\<close>

datatype try_send_error = Full worker_op | Closed worker_op

definition try_send :: "nat \<Rightarrow> worker_op \<Rightarrow> ('w, 's) engine \<Rightarrow> (try_send_error + unit) \<times> ('w, 's) engine" where
  "try_send tx op e =
     (let ch = en_channels e ! tx in
      if wk_phase (ch_worker ch) = Exited then (Inl (Closed op), e)
      else if WORKER_CHANNEL_CAPACITY \<le> length (ch_queue ch) then (Inl (Full op), e)
      else (Inr (), e\<lparr>en_channels := (en_channels e)[tx := ch\<lparr>ch_queue := ch_queue ch @ [op]\<rparr>]\<rparr>))"

definition answer_all :: "(reply_id \<times> answer) list \<Rightarrow> ('w, 's) engine \<Rightarrow> ('w, 's) engine" where
  "answer_all xs e = e\<lparr>en_answers := en_answers e @ xs\<rparr>"

fun surface_worker_send_failure :: "try_send_error \<Rightarrow> string \<Rightarrow> ('w, 's) engine \<Rightarrow> ('w, 's) engine" where
  "surface_worker_send_failure (Full op) device_id e =
     answer_all (reply_with_error op (DbusRouting (''device `'' @ device_id @ ''` is busy''))) e"
| "surface_worker_send_failure (Closed op) device_id e =
     answer_all (reply_with_error op (DeviceNotFound device_id)) (drop_device device_id e)"

definition send_to_worker :: "device_handle \<Rightarrow> string \<Rightarrow> worker_op \<Rightarrow> ('w, 's) engine \<Rightarrow> ('w, 's) engine" where
  "send_to_worker handle device_id op e =
     (case try_send (dh_tx handle) op e of
        (Inl err, e') \<Rightarrow> surface_worker_send_failure err device_id e'
      | (Inr _, e') \<Rightarrow> e')"

text \<open>The dispatchers without a bounds check, over the operation they send.\<close>

definition dispatch_op :: "string \<Rightarrow> worker_op \<Rightarrow> ('w, 's) engine \<Rightarrow> ('w, 's) engine" where
  "dispatch_op device_id op e =
     (case devices e device_id of
        None \<Rightarrow> answer (reply_of op) (error_answer op (DeviceNotFound device_id)) e
      | Some handle \<Rightarrow> send_to_worker handle device_id op e)"

definition out_of_bounds :: "string \<Rightarrow> u8 \<Rightarrow> u8 \<Rightarrow> u8 \<Rightarrow> daemon_error" where
  "out_of_bounds device_id layer row col =
     DbusRouting (''(layer='' @ dec (unat layer) @ '', row='' @ dec (unat row) @ '', col='' @ dec (unat col)
       @ '') out of bounds for device `'' @ device_id @ ''`'')"

definition dispatch_key_op :: "string \<Rightarrow> u8 \<Rightarrow> u8 \<Rightarrow> u8 \<Rightarrow> worker_op \<Rightarrow> ('w, 's) engine \<Rightarrow> ('w, 's) engine" where
  "dispatch_key_op device_id layer row col op e =
     (case devices e device_id of
        None \<Rightarrow> answer (reply_of op) (error_answer op (DeviceNotFound device_id)) e
      | Some handle \<Rightarrow>
          if \<not> topology_contains (dh_topology handle) layer row col
          then answer (reply_of op) (error_answer op (out_of_bounds device_id layer row col)) e
          else send_to_worker handle device_id op e)"

definition dispatch_get :: "string \<Rightarrow> u8 \<Rightarrow> u8 \<Rightarrow> u8 \<Rightarrow> reply_id \<Rightarrow> ('w, 's) engine \<Rightarrow> ('w, 's) engine" where
  "dispatch_get device_id layer row col i = dispatch_key_op device_id layer row col (WGetKeycode layer row col i)"

definition dispatch_set :: "string \<Rightarrow> u8 \<Rightarrow> u8 \<Rightarrow> u8 \<Rightarrow> u16 \<Rightarrow> reply_id \<Rightarrow> ('w, 's) engine \<Rightarrow> ('w, 's) engine" where
  "dispatch_set device_id layer row col keycode i =
     dispatch_key_op device_id layer row col (WSetKeycode layer row col keycode i)"

section \<open>Attaching and reconnecting\<close>

text \<open>The two topology queries, then a new channel with a running worker; on an error the driver is dropped.\<close>

definition attach_device :: "string \<Rightarrow> 's boxed_driver \<Rightarrow> u16 \<Rightarrow> u16 \<Rightarrow> string \<Rightarrow> ('w, 's) engine
    \<Rightarrow> (daemon_error + device_handle) \<times> ('w, 's) engine" where
  "attach_device device_id driver vendor_id product_id hidraw_path e =
     (case kd_get_matrix_dimensions (bx_ops driver) (bx_state driver) of
        (Inl err, _) \<Rightarrow> (Inl (Driver err), e)
      | (Inr (rows, cols), s1) \<Rightarrow>
          (case kd_get_layer_count (bx_ops driver) s1 of
             (Inl err, _) \<Rightarrow> (Inl (Driver err), e)
           | (Inr layer_count, s2) \<Rightarrow>
               let topology = \<lparr>dt_matrix = \<lparr>km_rows = rows, km_cols = cols\<rparr>, dt_layer_count = layer_count\<rparr>;
                   model = kd_model_name (bx_ops driver) s2;
                   tx = length (en_channels e);
                   ch = \<lparr>ch_queue = [], ch_worker = worker_start device_id (driver\<lparr>bx_state := s2\<rparr>)\<rparr>
               in (Inr \<lparr>dh_topology = topology, dh_model = model, dh_tx = tx, dh_vendor_id = vendor_id,
                        dh_product_id = product_id, dh_hidraw_path = hidraw_path\<rparr>,
                   e\<lparr>en_channels := en_channels e @ [ch]\<rparr>)))"

definition run_factory :: "('w, 's) driver_factory \<Rightarrow> string \<Rightarrow> ('w, 's) engine
    \<Rightarrow> (daemon_error + 's boxed_driver) \<times> ('w, 's) engine" where
  "run_factory f path e = (case f path (en_world e) of (r, w) \<Rightarrow> (r, e\<lparr>en_world := w\<rparr>))"

text \<open>Factory and attach in sequence; the error of either.\<close>

definition open_and_attach :: "('w, 's) driver_factory \<Rightarrow> string \<Rightarrow> u16 \<Rightarrow> u16 \<Rightarrow> string \<Rightarrow> ('w, 's) engine
    \<Rightarrow> (daemon_error + device_handle) \<times> ('w, 's) engine" where
  "open_and_attach f device_id vendor_id product_id hidraw_path e =
     (case run_factory f hidraw_path e of
        (Inl err, e1) \<Rightarrow> (Inl err, e1)
      | (Inr driver, e1) \<Rightarrow> attach_device device_id driver vendor_id product_id hidraw_path e1)"

text \<open>A reconnect task up to its first await: no attempt made, the first pause begun.\<close>

definition reconnect_task_start :: "string \<Rightarrow> u16 \<Rightarrow> u16 \<Rightarrow> string \<Rightarrow> u64 \<Rightarrow> nat \<Rightarrow> reconnect_task" where
  "reconnect_task_start device_id vendor_id product_id hidraw_path token now =
     \<lparr>rt_device_id = device_id, rt_vendor_id = vendor_id, rt_product_id = product_id,
      rt_hidraw_path = hidraw_path, rt_token = token, rt_backoff = RECONNECT_INITIAL_BACKOFF_MS,
      rt_attempts = 0, rt_phase = Sleeping (now + RECONNECT_INITIAL_BACKOFF_MS)\<rparr>"

declare reconnect_task_start_def [simp]

definition start_reconnect_backoff :: "string \<Rightarrow> u16 \<Rightarrow> u16 \<Rightarrow> string \<Rightarrow> ('w, 's) engine \<Rightarrow> ('w, 's) engine" where
  "start_reconnect_backoff device_id vendor_id product_id hidraw_path e =
     (let reg = en_registry e; token = rg_next_token reg in
      e\<lparr>en_registry := reg\<lparr>rg_next_token := token + 1,
                           rg_reconnecting := hm_insert device_id token (rg_reconnecting reg)\<rparr>,
        en_tasks := en_tasks e @ [reconnect_task_start device_id vendor_id product_id hidraw_path token (en_now e)]\<rparr>)"

section \<open>\<open>handle_command\<close>\<close>

definition handle_connected :: "string \<Rightarrow> u16 \<Rightarrow> u16 \<Rightarrow> string \<Rightarrow> ('w, 's) engine \<Rightarrow> ('w, 's) engine" where
  "handle_connected device_id vendor_id product_id hidraw_path e =
     (let e1 = drop_reconnecting device_id e in
      if devices e1 device_id \<noteq> None then e1
      else
        (case select_factory (en_table e1) vendor_id product_id of
           None \<Rightarrow> e1
         | Some factory \<Rightarrow>
             (case open_and_attach factory device_id vendor_id product_id hidraw_path e1 of
                (Inr handle, e2) \<Rightarrow> announce (DeviceAdded device_id) (put_device device_id handle e2)
              | (Inl err, e2) \<Rightarrow>
                  if is_transient_attach_error err
                  then start_reconnect_backoff device_id vendor_id product_id hidraw_path e2
                  else e2)))"

definition handle_disconnected :: "string \<Rightarrow> ('w, 's) engine \<Rightarrow> ('w, 's) engine" where
  "handle_disconnected device_id e =
     (let e1 = drop_reconnecting device_id e in
      if devices e1 device_id \<noteq> None then announce (DeviceRemoved device_id) (drop_device device_id e1) else e1)"

definition handle_device_error :: "string \<Rightarrow> daemon_error \<Rightarrow> ('w, 's) engine \<Rightarrow> ('w, 's) engine" where
  "handle_device_error device_id err e =
     (case devices e device_id of
        None \<Rightarrow> e
      | Some handle \<Rightarrow>
          let e1 = announce (DeviceRemoved device_id) (drop_device device_id e) in
          if err = Driver Disconnected
          then start_reconnect_backoff device_id (dh_vendor_id handle) (dh_product_id handle) (dh_hidraw_path handle) e1
          else e1)"

definition handle_reattached :: "string \<Rightarrow> device_handle \<Rightarrow> u64 \<Rightarrow> ('w, 's) engine \<Rightarrow> ('w, 's) engine" where
  "handle_reattached device_id handle token e =
     (if reconnecting e device_id = Some token
      then announce (DeviceAdded device_id) (put_device device_id handle (drop_reconnecting device_id e))
      else e)"

definition handle_list_devices :: "reply_id \<Rightarrow> ('w, 's) engine \<Rightarrow> ('w, 's) engine" where
  "handle_list_devices i e = answer i (AnsIds (sort (hm_keys (rg_devices (en_registry e))))) e"

definition handle_device_info :: "string \<Rightarrow> reply_id \<Rightarrow> ('w, 's) engine \<Rightarrow> ('w, 's) engine" where
  "handle_device_info d i e =
     answer i (AnsInfo (case devices e d of
         Some h \<Rightarrow> Inr (dh_model h, km_rows (dt_matrix (dh_topology h)), km_cols (dt_matrix (dh_topology h)),
                       dt_layer_count (dh_topology h))
       | None \<Rightarrow> Inl (DeviceNotFound d))) e"

text \<open>The product name is empty: it is not captured at discovery.\<close>

definition handle_device_identity :: "string \<Rightarrow> reply_id \<Rightarrow> ('w, 's) engine \<Rightarrow> ('w, 's) engine" where
  "handle_device_identity d i e =
     answer i (AnsIdentity (case devices e d of
         Some h \<Rightarrow> Inr (dh_vendor_id h, dh_product_id h, '''')
       | None \<Rightarrow> Inl (DeviceNotFound d))) e"

fun handle_command :: "engine_command \<Rightarrow> ('w, 's) engine \<Rightarrow> ('w, 's) engine" where
  "handle_command (CmdGetKeycode d l r c i) e = dispatch_get d l r c i e"
| "handle_command (CmdSetKeycode d l r c k i) e = dispatch_set d l r c k i e"
| "handle_command (CmdGetMacro d offset len i) e = dispatch_op d (WGetMacro offset len i) e"
| "handle_command (CmdSetMacro d offset data i) e = dispatch_op d (WSetMacro offset data i) e"
| "handle_command (CmdGetLighting d ch v i) e = dispatch_op d (WGetLighting ch v i) e"
| "handle_command (CmdSetLighting d ch v data i) e = dispatch_op d (WSetLighting ch v data i) e"
| "handle_command (DeviceConnected d vid pid path) e = handle_connected d vid pid path e"
| "handle_command (DeviceDisconnected d) e = handle_disconnected d e"
| "handle_command (DeviceError d err) e = handle_device_error d err e"
| "handle_command (DeviceReattached d h token) e = handle_reattached d h token e"
| "handle_command (ListDevices i) e = handle_list_devices i e"
| "handle_command (GetDeviceInfo d i) e = handle_device_info d i e"
| "handle_command (GetDeviceIdentity d i) e = handle_device_identity d i e"
| "handle_command (CommitToNvram d i) e = dispatch_op d (WCommit i) e"
| "handle_command Shutdown e = e"

declare handle_list_devices_def [simp] handle_device_info_def [simp] handle_device_identity_def [simp]

end
