(* ===== verification/Engine_Steps.thy ===== *)
theory Engine_Steps
  imports Engine
begin

text \<open>
  The tasks of the daemon side by side: the supervisor's loop (\<open>run_supervisor\<close>), the workers' select
  loops, the reconnect tasks, and the environment that posts commands, lets time pass and lets a
  driver work on its own between calls. Every await point of the code at which a task can see what the others
  do is a state here, so a run of \<open>engine_step\<close> is an interleaving the runtime can produce.

  The calls of a driver are awaited too, but one step here takes them with the code around them. Until
  \<open>attach_device\<close> returns, the driver it asks for the matrix and the layers belongs to the caller alone: it is
  not registered, no worker runs it, and neither the supervisor nor a reconnect task looks at its own channel
  or its cancellation before the calls are over. So the steps of the other tasks in between commute with the
  calls, and an interleaving with them is one of \<open>engine_step\<close> with the attaching at its end. Likewise a
  worker owns its driver. In the daemon the coalescer of a VIA driver has no lifecycle sender (\<open>main.rs\<close> passes
  \<open>None\<close> to \<open>with_coalescing\<close>), so it adds no events to \<open>en_events\<close>.
\<close>

section \<open>The supervisor\<close>

text \<open>On \<open>Shutdown\<close> the loop ends: the registry and the receiver are dropped, and with them the
  replies of the commands still queued.\<close>

definition stop_supervisor :: "('w, 's) engine \<Rightarrow> ('w, 's) engine" where
  "stop_supervisor e =
     e\<lparr>en_registry := (en_registry e)\<lparr>rg_devices := hm_new (hm_order (rg_devices (en_registry e))),
                                      rg_reconnecting := hm_new (hm_order (rg_reconnecting (en_registry e)))\<rparr>,
       en_running := False,
       en_dropped := en_dropped e @ concat (map replies_of_command (en_queue e)),
       en_queue := []\<rparr>"

definition supervise :: "engine_command \<Rightarrow> ('w, 's) engine \<Rightarrow> ('w, 's) engine" where
  "supervise cmd e = (if cmd = Shutdown then stop_supervisor e else handle_command cmd e)"

section \<open>Workers\<close>

text \<open>A sender of a channel is held by the registry, by a reconnect task, or by a message on its way.\<close>

definition handle_of_task :: "reconnect_task \<Rightarrow> device_handle option" where
  "handle_of_task t = (case rt_phase t of Attached h \<Rightarrow> Some h | Sending h \<Rightarrow> Some h | _ \<Rightarrow> None)"

definition handle_of_command :: "engine_command \<Rightarrow> device_handle option" where
  "handle_of_command cmd = (case cmd of DeviceReattached _ h _ \<Rightarrow> Some h | _ \<Rightarrow> None)"

definition sender_alive :: "('w, 's) engine \<Rightarrow> nat \<Rightarrow> bool" where
  "sender_alive e c \<longleftrightarrow>
     c \<in> dh_tx ` (ran (devices e) \<union> Option.these (handle_of_task ` set (en_tasks e))
                   \<union> Option.these (handle_of_command ` set (en_queue e)))"

definition apply_effects :: "effect list \<Rightarrow> ('w, 's) engine \<Rightarrow> ('w, 's) engine" where
  "apply_effects effs e =
     e\<lparr>en_answers := en_answers e @ answers_of effs, en_events := en_events e @ announced_of effs\<rparr>"

definition put_worker :: "nat \<Rightarrow> worker_op list \<Rightarrow> 's worker \<times> effect list \<Rightarrow> ('w, 's) engine \<Rightarrow> ('w, 's) engine" where
  "put_worker c queue x e =
     apply_effects (snd x) (e\<lparr>en_channels := (en_channels e)[c := \<lparr>ch_queue = queue, ch_worker = fst x\<rparr>]\<rparr>)"

text \<open>A worker that leaves its loop drops its receiver: what is queued is never answered.\<close>

definition exit_worker :: "nat \<Rightarrow> 's worker \<Rightarrow> ('w, 's) engine \<Rightarrow> ('w, 's) engine" where
  "exit_worker c w e =
     e\<lparr>en_channels := (en_channels e)[c := \<lparr>ch_queue = [], ch_worker = w\<lparr>wk_phase := Exited\<rparr>\<rparr>],
       en_dropped := en_dropped e @ map reply_of (ch_queue (en_channels e ! c))\<rparr>"

definition report_and_exit :: "nat \<Rightarrow> 's worker \<Rightarrow> ('w, 's) engine \<Rightarrow> ('w, 's) engine" where
  "report_and_exit c w e =
     exit_worker c w (if en_running e
       then e\<lparr>en_queue := en_queue e @ [DeviceError (wk_device_id w) worker_report]\<rparr> else e)"

section \<open>Reconnect tasks\<close>

text \<open>The receiver resolves when its sender was used or dropped, which is when the registry no
  longer holds the task's token.\<close>

definition cancelled :: "('w, 's) engine \<Rightarrow> reconnect_task \<Rightarrow> bool" where
  "cancelled e t \<longleftrightarrow> reconnecting e (rt_device_id t) \<noteq> Some (rt_token t)"

definition put_task :: "nat \<Rightarrow> reconnect_task \<Rightarrow> ('w, 's) engine \<Rightarrow> ('w, 's) engine" where
  "put_task k t e = e\<lparr>en_tasks := (en_tasks e)[k := t]\<rparr>"

text \<open>After a failed attempt: the next pause, or the end when the attempts are used up.\<close>

definition next_pause :: "nat \<Rightarrow> reconnect_task \<Rightarrow> reconnect_task" where
  "next_pause now t =
     (let backoff = min (rt_backoff t * 2) RECONNECT_MAX_BACKOFF_MS in
      t\<lparr>rt_backoff := backoff,
        rt_phase := (if RECONNECT_MAX_ATTEMPTS \<le> rt_attempts t then Ended else Sleeping (now + backoff))\<rparr>)"

definition attempt_reconnect :: "nat \<Rightarrow> reconnect_task \<Rightarrow> ('w, 's) engine \<Rightarrow> ('w, 's) engine" where
  "attempt_reconnect k t e =
     (let t1 = t\<lparr>rt_attempts := rt_attempts t + 1\<rparr> in
      case select_factory (en_table e) (rt_vendor_id t) (rt_product_id t) of
        None \<Rightarrow> put_task k (t1\<lparr>rt_phase := Ended\<rparr>) e
      | Some factory \<Rightarrow>
          (case open_and_attach factory (rt_device_id t) (rt_vendor_id t) (rt_product_id t) (rt_hidraw_path t) e of
             (Inr handle, e1) \<Rightarrow> put_task k (t1\<lparr>rt_phase := Attached handle\<rparr>) e1
           | (Inl err, e1) \<Rightarrow>
               if is_transient_attach_error err then put_task k (next_pause (en_now e1) t1) e1
               else put_task k (t1\<lparr>rt_phase := Ended\<rparr>) e1))"

definition check_cancelled :: "nat \<Rightarrow> reconnect_task \<Rightarrow> device_handle \<Rightarrow> ('w, 's) engine \<Rightarrow> ('w, 's) engine" where
  "check_cancelled k t handle e =
     put_task k (t\<lparr>rt_phase := (if cancelled e t then Ended else Sending handle)\<rparr>) e"

definition send_reattached :: "nat \<Rightarrow> reconnect_task \<Rightarrow> device_handle \<Rightarrow> ('w, 's) engine \<Rightarrow> ('w, 's) engine" where
  "send_reattached k t handle e =
     put_task k (t\<lparr>rt_phase := Ended\<rparr>)
       (if en_running e
        then e\<lparr>en_queue := en_queue e @ [DeviceReattached (rt_device_id t) handle (rt_token t)]\<rparr> else e)"

section \<open>The step relation\<close>

text \<open>Commands that come from outside the engine: the IPC layer and the udev supervisor.\<close>

fun external :: "engine_command \<Rightarrow> bool" where
  "external (DeviceError _ _) = False"
| "external (DeviceReattached _ _ _) = False"
| "external _ = True"

definition has_room :: "('w, 's) engine \<Rightarrow> bool" where
  "has_room e \<longleftrightarrow> length (en_queue e) < ENGINE_CHANNEL_CAPACITY"

text \<open>A step posts a command from outside or not; the label says which.\<close>

inductive engine_step :: "('s \<Rightarrow> 's \<Rightarrow> bool) \<Rightarrow> ('w, 's) engine \<Rightarrow> engine_command option \<Rightarrow> ('w, 's) engine \<Rightarrow> bool"
  for idle where
  step_post: "en_running e \<Longrightarrow> has_room e \<Longrightarrow> external cmd \<Longrightarrow>
      engine_step idle e (Some cmd) (e\<lparr>en_queue := en_queue e @ [cmd]\<rparr>)"
| step_supervise: "en_running e \<Longrightarrow> en_queue e = cmd # rest \<Longrightarrow>
      engine_step idle e None (supervise cmd (e\<lparr>en_queue := rest\<rparr>))"
| step_recv: "c < length (en_channels e) \<Longrightarrow> en_channels e ! c = ch \<Longrightarrow> wk_phase (ch_worker ch) = Running \<Longrightarrow>
      ch_queue ch = op # rest \<Longrightarrow>
      engine_step idle e None (put_worker c rest (worker_handle (en_now e) op (ch_worker ch)) e)"
| step_closed: "c < length (en_channels e) \<Longrightarrow> en_channels e ! c = ch \<Longrightarrow> wk_phase (ch_worker ch) = Running \<Longrightarrow>
      ch_queue ch = [] \<Longrightarrow> \<not> sender_alive e c \<Longrightarrow>
      engine_step idle e None (exit_worker c (worker_shutdown (ch_worker ch)) e)"
| step_debounce: "c < length (en_channels e) \<Longrightarrow> en_channels e ! c = ch \<Longrightarrow> wk_phase (ch_worker ch) = Running \<Longrightarrow>
      ch_queue ch = [] \<Longrightarrow> sender_alive e c \<Longrightarrow> wk_deadline (ch_worker ch) = Some t \<Longrightarrow> t \<le> en_now e \<Longrightarrow>
      engine_step idle e None (put_worker c [] (worker_debounced_commit (ch_worker ch)) e)"
| step_report: "c < length (en_channels e) \<Longrightarrow> en_channels e ! c = ch \<Longrightarrow> wk_phase (ch_worker ch) = Reporting \<Longrightarrow>
      \<not> en_running e \<or> has_room e \<Longrightarrow>
      engine_step idle e None (report_and_exit c (ch_worker ch) e)"
| step_idle: "c < length (en_channels e) \<Longrightarrow> en_channels e ! c = ch \<Longrightarrow> idle (bx_state (wk_driver (ch_worker ch))) s' \<Longrightarrow>
      engine_step idle e None (e\<lparr>en_channels := (en_channels e)[c := ch\<lparr>ch_worker :=
        (ch_worker ch)\<lparr>wk_driver := (wk_driver (ch_worker ch))\<lparr>bx_state := s'\<rparr>\<rparr>\<rparr>]\<rparr>)"
| step_cancel: "k < length (en_tasks e) \<Longrightarrow> en_tasks e ! k = t \<Longrightarrow> rt_phase t = Sleeping until \<Longrightarrow> cancelled e t \<Longrightarrow>
      engine_step idle e None (put_task k (t\<lparr>rt_phase := Ended\<rparr>) e)"
| step_wake: "k < length (en_tasks e) \<Longrightarrow> en_tasks e ! k = t \<Longrightarrow> rt_phase t = Sleeping until \<Longrightarrow> until \<le> en_now e \<Longrightarrow>
      engine_step idle e None (attempt_reconnect k t e)"
| step_check: "k < length (en_tasks e) \<Longrightarrow> en_tasks e ! k = t \<Longrightarrow> rt_phase t = Attached h \<Longrightarrow>
      engine_step idle e None (check_cancelled k t h e)"
| step_send: "k < length (en_tasks e) \<Longrightarrow> en_tasks e ! k = t \<Longrightarrow> rt_phase t = Sending h \<Longrightarrow>
      \<not> en_running e \<or> has_room e \<Longrightarrow>
      engine_step idle e None (send_reattached k t h e)"
| step_elapse: "en_now e \<le> now \<Longrightarrow> engine_step idle e None (e\<lparr>en_now := now\<rparr>)"

inductive engine_run :: "('s \<Rightarrow> 's \<Rightarrow> bool) \<Rightarrow> ('w, 's) engine \<Rightarrow> engine_command list \<Rightarrow> ('w, 's) engine \<Rightarrow> bool"
  for idle where
  run_start: "engine_run idle e [] e"
| run_step: "engine_run idle e posted e' \<Longrightarrow> engine_step idle e' (Some cmd) e'' \<Longrightarrow>
      engine_run idle e (posted @ [cmd]) e''"
| run_silent: "engine_run idle e posted e' \<Longrightarrow> engine_step idle e' None e'' \<Longrightarrow> engine_run idle e posted e''"

definition engine_start :: "(string list \<Rightarrow> string list) \<Rightarrow> ('w, 's) driver_table \<Rightarrow> 'w \<Rightarrow> ('w, 's) engine" where
  "engine_start ord table w =
     \<lparr>en_registry = \<lparr>rg_devices = hm_new ord, rg_reconnecting = hm_new ord, rg_next_token = 0\<rparr>,
      en_running = True, en_queue = [], en_channels = [], en_tasks = [], en_events = [], en_answers = [],
      en_dropped = [], en_world = w, en_now = 0, en_table = table\<rparr>"

lemma engine_run_invariant:
  assumes "engine_run idle e posted e'" and "P e"
    and "\<And>x lab y. P x \<Longrightarrow> engine_step idle x lab y \<Longrightarrow> P y"
  shows "P e'"
  using assms by (induction rule: engine_run.induct) blast+

end
