(* ===== verification/Engine_Inv.thy ===== *)
theory Engine_Inv
  imports Engine_Steps
begin

text \<open>
  Invariants of the engine: the registry and the reconnect entries exclude each other, every sender
  points at a channel, the channels stay within their capacities, every reply channel has one fate,
  and the announced events agree with the registry.
\<close>

section \<open>What a command changes\<close>

lemma devices_simps [simp]:
  "devices (answer i a e) = devices e" "devices (announce ev e) = devices e"
  "devices (answer_all xs e) = devices e"
  "devices (put_device d h e) = (devices e)(d \<mapsto> h)" "devices (drop_device d e) = (devices e)(d := None)"
  "devices (drop_reconnecting d e) = devices e"
  by (simp_all add: devices_def answer_def announce_def answer_all_def put_device_def drop_device_def
      drop_reconnecting_def)

lemma reconnecting_simps [simp]:
  "reconnecting (answer i a e) = reconnecting e" "reconnecting (announce ev e) = reconnecting e"
  "reconnecting (answer_all xs e) = reconnecting e"
  "reconnecting (put_device d h e) = reconnecting e" "reconnecting (drop_device d e) = reconnecting e"
  "reconnecting (drop_reconnecting d e) = (reconnecting e)(d := None)"
  by (simp_all add: reconnecting_def answer_def announce_def answer_all_def put_device_def drop_device_def
      drop_reconnecting_def)

lemma start_reconnect_simps [simp]:
  "devices (start_reconnect_backoff d vid pid path e) = devices e"
  "reconnecting (start_reconnect_backoff d vid pid path e) = (reconnecting e)(d \<mapsto> rg_next_token (en_registry e))"
  "en_channels (start_reconnect_backoff d vid pid path e) = en_channels e"
  "en_queue (start_reconnect_backoff d vid pid path e) = en_queue e"
  "en_events (start_reconnect_backoff d vid pid path e) = en_events e"
  "en_answers (start_reconnect_backoff d vid pid path e) = en_answers e"
  "en_dropped (start_reconnect_backoff d vid pid path e) = en_dropped e"
  "en_running (start_reconnect_backoff d vid pid path e) = en_running e"
  "en_table (start_reconnect_backoff d vid pid path e) = en_table e"
  by (simp_all add: start_reconnect_backoff_def devices_def reconnecting_def Let_def)

lemma small_updates [simp]:
  "en_channels (answer i a e) = en_channels e" "en_channels (announce ev e) = en_channels e"
  "en_channels (answer_all xs e) = en_channels e" "en_channels (put_device d h e) = en_channels e"
  "en_channels (drop_device d e) = en_channels e" "en_channels (drop_reconnecting d e) = en_channels e"
  "en_queue (answer i a e) = en_queue e" "en_queue (announce ev e) = en_queue e"
  "en_queue (answer_all xs e) = en_queue e" "en_queue (put_device d h e) = en_queue e"
  "en_queue (drop_device d e) = en_queue e" "en_queue (drop_reconnecting d e) = en_queue e"
  "en_tasks (answer i a e) = en_tasks e" "en_tasks (announce ev e) = en_tasks e"
  "en_tasks (answer_all xs e) = en_tasks e" "en_tasks (put_device d h e) = en_tasks e"
  "en_tasks (drop_device d e) = en_tasks e" "en_tasks (drop_reconnecting d e) = en_tasks e"
  "en_events (answer i a e) = en_events e" "en_events (announce ev e) = en_events e @ [ev]"
  "en_events (answer_all xs e) = en_events e" "en_events (put_device d h e) = en_events e"
  "en_events (drop_device d e) = en_events e" "en_events (drop_reconnecting d e) = en_events e"
  "en_answers (answer i a e) = en_answers e @ [(i, a)]" "en_answers (announce ev e) = en_answers e"
  "en_answers (answer_all xs e) = en_answers e @ xs" "en_answers (put_device d h e) = en_answers e"
  "en_answers (drop_device d e) = en_answers e" "en_answers (drop_reconnecting d e) = en_answers e"
  "en_dropped (answer i a e) = en_dropped e" "en_dropped (announce ev e) = en_dropped e"
  "en_dropped (answer_all xs e) = en_dropped e" "en_dropped (put_device d h e) = en_dropped e"
  "en_dropped (drop_device d e) = en_dropped e" "en_dropped (drop_reconnecting d e) = en_dropped e"
  "en_table (answer i a e) = en_table e" "en_table (announce ev e) = en_table e" "en_table (put_device d h e) = en_table e"
  "en_table (drop_device d e) = en_table e" "en_table (drop_reconnecting d e) = en_table e"
  by (simp_all add: answer_def announce_def answer_all_def put_device_def drop_device_def drop_reconnecting_def)

text \<open>The topology in a handle is what the driver behind it answered when it was attached.\<close>

definition topology_of_driver :: "('w, 's) driver_factory \<Rightarrow> device_handle \<Rightarrow> 's driver_ops \<Rightarrow> bool" where
  "topology_of_driver f h ops \<longleftrightarrow> (\<exists>w w' b s1 s2 rows cols layers.
     f (dh_hidraw_path h) w = (Inr b, w') \<and> bx_ops b = ops
   \<and> kd_get_matrix_dimensions (bx_ops b) (bx_state b) = (Inr (rows, cols), s1) \<and> kd_get_layer_count (bx_ops b) s1 = (Inr layers, s2)
   \<and> dh_topology h = \<lparr>dt_matrix = \<lparr>km_rows = rows, km_cols = cols\<rparr>, dt_layer_count = layers\<rparr>)"

definition reported_by :: "('w, 's) driver_table \<Rightarrow> device_handle \<Rightarrow> 's driver_ops \<Rightarrow> bool" where
  "reported_by table h ops \<longleftrightarrow>
     (\<exists>f. select_factory table (dh_vendor_id h) (dh_product_id h) = Some f \<and> topology_of_driver f h ops)"

text \<open>Opening and attaching either fails with nothing but the world changed, or adds one channel.\<close>

lemma open_and_attach_cases:
  assumes "open_and_attach f d vid pid path e = (r, e')"
  obtains (failed) err w where "r = Inl err" "e' = e\<lparr>en_world := w\<rparr>"
    | (attached) h w b where "r = Inr h" "dh_tx h = length (en_channels e)"
      "dh_vendor_id h = vid" "dh_product_id h = pid" "dh_hidraw_path h = path"
      "e' = e\<lparr>en_world := w, en_channels := en_channels e @ [\<lparr>ch_queue = [], ch_worker = worker_start d b\<rparr>]\<rparr>"
      "topology_of_driver f h (bx_ops b)"
proof (cases r)
  case (Inl err)
  with assms failed show ?thesis
    by (auto simp: open_and_attach_def run_factory_def attach_device_def Let_def split: prod.splits sum.splits)
next
  case (Inr h)
  with assms obtain b0 w rows cols s1 layers s2 where f: "f path (en_world e) = (Inr b0, w)"
    and calls: "kd_get_matrix_dimensions (bx_ops b0) (bx_state b0) = (Inr (rows, cols), s1)"
      "kd_get_layer_count (bx_ops b0) s1 = (Inr layers, s2)"
    by (auto simp: open_and_attach_def run_factory_def attach_device_def Let_def split: prod.splits sum.splits)
  with Inr assms have h: "h = \<lparr>dh_topology = \<lparr>dt_matrix = \<lparr>km_rows = rows, km_cols = cols\<rparr>, dt_layer_count = layers\<rparr>,
      dh_model = kd_model_name (bx_ops b0) s2, dh_tx = length (en_channels e), dh_vendor_id = vid, dh_product_id = pid,
      dh_hidraw_path = path\<rparr>"
    and e': "e' = e\<lparr>en_world := w, en_channels := en_channels e
        @ [\<lparr>ch_queue = [], ch_worker = worker_start d (b0\<lparr>bx_state := s2\<rparr>)\<rparr>]\<rparr>"
    by (auto simp: open_and_attach_def run_factory_def attach_device_def Let_def)
  have "topology_of_driver f h (bx_ops (b0\<lparr>bx_state := s2\<rparr>))"
    using f calls unfolding topology_of_driver_def h by auto blast
  with Inr h e' show ?thesis by (intro attached[where h = h and w = w and b = "b0\<lparr>bx_state := s2\<rparr>"]) simp_all
qed

lemma devices_world [simp]: "devices (e\<lparr>en_world := w\<rparr>) = devices e" "reconnecting (e\<lparr>en_world := w\<rparr>) = reconnecting e"
  "devices (e\<lparr>en_channels := cs\<rparr>) = devices e" "reconnecting (e\<lparr>en_channels := cs\<rparr>) = reconnecting e"
  "devices (e\<lparr>en_queue := q\<rparr>) = devices e" "reconnecting (e\<lparr>en_queue := q\<rparr>) = reconnecting e"
  "devices (e\<lparr>en_tasks := ts\<rparr>) = devices e" "reconnecting (e\<lparr>en_tasks := ts\<rparr>) = reconnecting e"
  "devices (e\<lparr>en_now := n\<rparr>) = devices e" "reconnecting (e\<lparr>en_now := n\<rparr>) = reconnecting e"
  "devices (e\<lparr>en_answers := a\<rparr>) = devices e" "reconnecting (e\<lparr>en_answers := a\<rparr>) = reconnecting e"
  "devices (e\<lparr>en_events := ev\<rparr>) = devices e" "reconnecting (e\<lparr>en_events := ev\<rparr>) = reconnecting e"
  "devices (e\<lparr>en_dropped := x\<rparr>) = devices e" "reconnecting (e\<lparr>en_dropped := x\<rparr>) = reconnecting e"
  by (simp_all add: devices_def reconnecting_def)

text \<open>Sending to a worker: the three outcomes.\<close>

lemma send_to_worker_cases:
  obtains (sent) "send_to_worker h d op e = e\<lparr>en_channels := (en_channels e)[dh_tx h :=
      (en_channels e ! dh_tx h)\<lparr>ch_queue := ch_queue (en_channels e ! dh_tx h) @ [op]\<rparr>]\<rparr>"
      "wk_phase (ch_worker (en_channels e ! dh_tx h)) \<noteq> Exited"
      "length (ch_queue (en_channels e ! dh_tx h)) < WORKER_CHANNEL_CAPACITY"
    | (full) "send_to_worker h d op e = answer_all (reply_with_error op (DbusRouting (''device `'' @ d @ ''` is busy''))) e"
    | (closed) "send_to_worker h d op e = answer_all (reply_with_error op (DeviceNotFound d)) (drop_device d e)"
      "wk_phase (ch_worker (en_channels e ! dh_tx h)) = Exited"
  by (cases "wk_phase (ch_worker (en_channels e ! dh_tx h)) = Exited";
      cases "WORKER_CHANNEL_CAPACITY \<le> length (ch_queue (en_channels e ! dh_tx h))")
     (auto simp: send_to_worker_def try_send_def Let_def)

section \<open>Registry and senders\<close>

definition registry_inv :: "('w, 's) engine \<Rightarrow> bool" where
  "registry_inv e \<longleftrightarrow> dom (devices e) \<inter> dom (reconnecting e) = {}
     \<and> hm_wf (rg_devices (en_registry e)) \<and> hm_wf (rg_reconnecting (en_registry e))"

definition handles :: "('w, 's) engine \<Rightarrow> device_handle set" where
  "handles e = ran (devices e) \<union> Option.these (handle_of_task ` set (en_tasks e))
     \<union> Option.these (handle_of_command ` set (en_queue e))"

definition senders_inv :: "('w, 's) engine \<Rightarrow> bool" where
  "senders_inv e \<longleftrightarrow> (\<forall>h \<in> handles e. dh_tx h < length (en_channels e))"

text \<open>
  A command with a reply channel ends in one of three ways: answered on the spot, answered while its
  dead worker is evicted, or handed to the queue of the worker of its device.
\<close>

definition answered_now :: "reply_id \<Rightarrow> ('w, 's) engine \<Rightarrow> ('w, 's) engine \<Rightarrow> bool" where
  "answered_now i e e' \<longleftrightarrow> (\<exists>a. e' = answer i a e)"

definition evicted :: "reply_id \<Rightarrow> ('w, 's) engine \<Rightarrow> ('w, 's) engine \<Rightarrow> bool" where
  "evicted i e e' \<longleftrightarrow> (\<exists>a d h. e' = answer i a (drop_device d e) \<and> devices e d = Some h
     \<and> wk_phase (ch_worker (en_channels e ! dh_tx h)) = Exited)"

text \<open>The bounds of the cached topology, for the two operations that name a key.\<close>

fun op_fits :: "device_topology \<Rightarrow> worker_op \<Rightarrow> bool" where
  "op_fits t (WGetKeycode l r c _) = topology_contains t l r c"
| "op_fits t (WSetKeycode l r c _ _) = topology_contains t l r c"
| "op_fits t _ = True"

definition enqueued :: "reply_id \<Rightarrow> ('w, 's) engine \<Rightarrow> ('w, 's) engine \<Rightarrow> bool" where
  "enqueued i e e' \<longleftrightarrow> (\<exists>d h op. devices e d = Some h \<and> reply_of op = i \<and> op_fits (dh_topology h) op
     \<and> wk_phase (ch_worker (en_channels e ! dh_tx h)) \<noteq> Exited
     \<and> length (ch_queue (en_channels e ! dh_tx h)) < WORKER_CHANNEL_CAPACITY
     \<and> e' = e\<lparr>en_channels := (en_channels e)[dh_tx h :=
          (en_channels e ! dh_tx h)\<lparr>ch_queue := ch_queue (en_channels e ! dh_tx h) @ [op]\<rparr>]\<rparr>)"

definition served :: "reply_id \<Rightarrow> ('w, 's) engine \<Rightarrow> ('w, 's) engine \<Rightarrow> bool" where
  "served i e e' \<longleftrightarrow> answered_now i e e' \<or> evicted i e e' \<or> enqueued i e e'"

lemma answer_all_single: "answer_all (reply_with_error op err) e = answer (reply_of op) (error_answer op err) e"
  by (simp add: answer_all_def answer_def reply_with_error_def)

lemma send_to_worker_served:
  assumes "devices e d = Some h" and "op_fits (dh_topology h) op"
  shows "served (reply_of op) e (send_to_worker h d op e)"
proof (cases rule: send_to_worker_cases[of h d op e])
  case sent
  with assms show ?thesis unfolding served_def enqueued_def by blast
next
  case full
  then show ?thesis unfolding served_def answered_now_def answer_all_single by blast
next
  case closed
  with assms show ?thesis unfolding served_def evicted_def answer_all_single by blast
qed

lemma answer_served: "served i e (answer i a e)"
  unfolding served_def answered_now_def by blast

lemma dispatch_op_served:
  "(\<And>t. op_fits t op) \<Longrightarrow> served (reply_of op) e (dispatch_op d op e)"
  by (auto simp: dispatch_op_def answer_served send_to_worker_served split: option.split)

lemma dispatch_key_op_served:
  "(\<And>t. op_fits t op = topology_contains t l r c) \<Longrightarrow> served (reply_of op) e (dispatch_key_op d l r c op e)"
  by (auto simp: dispatch_key_op_def answer_served send_to_worker_served split: option.split)

lemma handle_command_served:
  assumes "replies_of_command cmd = [i]"
  shows "served i e (handle_command cmd e)"
  using assms
  by (cases cmd) (auto simp: dispatch_get_def dispatch_set_def answer_served
     intro: dispatch_key_op_served[where op = "WGetKeycode _ _ _ _", simplified]
       dispatch_key_op_served[where op = "WSetKeycode _ _ _ _ _", simplified]
       dispatch_op_served[where op = "WCommit _", simplified]
       dispatch_op_served[where op = "WGetMacro _ _ _", simplified]
       dispatch_op_served[where op = "WSetMacro _ _ _", simplified]
       dispatch_op_served[where op = "WGetLighting _ _ _", simplified]
       dispatch_op_served[where op = "WSetLighting _ _ _ _", simplified])

text \<open>The commands without a reply.\<close>

lemma command_cases:
  obtains (request) i where "replies_of_command cmd = [i]"
    | (connected) d vid pid path where "cmd = DeviceConnected d vid pid path"
    | (disconnected) d where "cmd = DeviceDisconnected d"
    | (failed) d err where "cmd = DeviceError d err"
    | (reattached) d h token where "cmd = DeviceReattached d h token"
    | (stop) "cmd = Shutdown"
  by (cases cmd) auto

text \<open>Connecting: ignored, refused, attached, or left to the backoff.\<close>

lemma handle_connected_cases:
  obtains (ignored) w where "handle_connected d vid pid path e = (drop_reconnecting d e)\<lparr>en_world := w\<rparr>"
    | (attached) h w b where "devices e d = None" "dh_tx h = length (en_channels e)"
      "handle_connected d vid pid path e = announce (DeviceAdded d) (put_device d h
         ((drop_reconnecting d e)\<lparr>en_world := w,
            en_channels := en_channels e @ [\<lparr>ch_queue = [], ch_worker = worker_start d b\<rparr>]\<rparr>))"
      "reported_by (en_table e) h (bx_ops b)"
    | (backoff) w where "devices e d = None"
      "handle_connected d vid pid path e = start_reconnect_backoff d vid pid path ((drop_reconnecting d e)\<lparr>en_world := w\<rparr>)"
proof -
  let ?e1 = "drop_reconnecting d e"
  have same: "?e1 = ?e1\<lparr>en_world := en_world ?e1\<rparr>" by simp
  show thesis
  proof (cases "devices e d")
    case (Some h)
    then have "handle_connected d vid pid path e = ?e1" by (simp add: handle_connected_def Let_def)
    with same that(1) show ?thesis by metis
  next
    case None
    show ?thesis
    proof (cases "select_factory (en_table ?e1) vid pid")
      case None
      with \<open>devices e d = None\<close> have "handle_connected d vid pid path e = ?e1"
        by (simp add: handle_connected_def Let_def)
      with same that(1) show ?thesis by metis
    next
      case (Some f)
      obtain r e2 where oa: "open_and_attach f d vid pid path ?e1 = (r, e2)" by fastforce
      show ?thesis
      proof (cases rule: open_and_attach_cases[OF oa])
        case (1 err w)
        with \<open>devices e d = None\<close> Some oa show ?thesis
          using that(1)[of w] that(3)[of w] by (cases "is_transient_attach_error err")
            (simp_all add: handle_connected_def Let_def)
      next
        case (2 h w b)
        with \<open>devices e d = None\<close> Some oa show ?thesis
          using that(2)[where h = h and w = w and b = b] by (simp add: handle_connected_def Let_def reported_by_def)
      qed
    qed
  qed
qed

section \<open>The registry invariant\<close>

lemma registry_inv_same:
  "en_registry e' = en_registry e \<Longrightarrow> registry_inv e' = registry_inv e"
  by (simp add: registry_inv_def devices_def reconnecting_def)

lemma registry_same [simp]:
  "en_registry (answer i a e) = en_registry e" "en_registry (announce ev e) = en_registry e"
  by (simp_all add: answer_def announce_def)

lemma registry_inv_drop_device: "registry_inv e \<Longrightarrow> registry_inv (drop_device d e)"
  by (auto simp: registry_inv_def) (simp_all add: drop_device_def)

lemma registry_inv_drop_reconnecting: "registry_inv e \<Longrightarrow> registry_inv (drop_reconnecting d e)"
  by (auto simp: registry_inv_def) (simp_all add: drop_reconnecting_def)

lemma registry_inv_put_device:
  "registry_inv e \<Longrightarrow> reconnecting e d = None \<Longrightarrow> registry_inv (put_device d h e)"
  by (auto simp: registry_inv_def) (simp_all add: put_device_def)

lemma registry_inv_start_reconnect:
  "registry_inv e \<Longrightarrow> devices e d = None \<Longrightarrow> registry_inv (start_reconnect_backoff d vid pid path e)"
  by (auto simp: registry_inv_def) (simp_all add: start_reconnect_backoff_def Let_def)

lemma registry_inv_served:
  assumes "served i e e'" and "registry_inv e"
  shows "registry_inv e'"
  using assms(1) unfolding served_def answered_now_def evicted_def enqueued_def
proof (elim disjE exE conjE)
  fix a assume "e' = answer i a e"
  with assms(2) show ?thesis using registry_inv_same[of e' e] by simp
next
  fix a d h assume "e' = answer i a (drop_device d e)"
  with registry_inv_drop_device[OF assms(2)] show ?thesis using registry_inv_same[of e' "drop_device d e"] by simp
next
  fix d h op
  assume "e' = e\<lparr>en_channels := (en_channels e)[dh_tx h :=
      (en_channels e ! dh_tx h)\<lparr>ch_queue := ch_queue (en_channels e ! dh_tx h) @ [op]\<rparr>]\<rparr>"
  with assms(2) show ?thesis using registry_inv_same[of e' e] by simp
qed

lemma registry_inv_command:
  assumes "registry_inv e"
  shows "registry_inv (handle_command cmd e)"
proof (cases rule: command_cases[of cmd])
  case (request i)
  with handle_command_served registry_inv_served assms show ?thesis by blast
next
  case (connected d vid pid path)
  have dr: "registry_inv ((drop_reconnecting d e)\<lparr>en_world := w\<rparr>)" for w
    using registry_inv_drop_reconnecting[OF assms] registry_inv_same[of "(drop_reconnecting d e)\<lparr>en_world := w\<rparr>" "drop_reconnecting d e"]
    by simp
  show ?thesis
  proof (cases rule: handle_connected_cases[of d vid pid path e])
    case (ignored w)
    with connected dr show ?thesis by simp
  next
    case (attached h w b)
    let ?x = "(drop_reconnecting d e)\<lparr>en_world := w,
            en_channels := en_channels e @ [\<lparr>ch_queue = [], ch_worker = worker_start d b\<rparr>]\<rparr>"
    have "registry_inv ?x" using dr[of w] registry_inv_same[of ?x "(drop_reconnecting d e)\<lparr>en_world := w\<rparr>"] by simp
    then have "registry_inv (put_device d h ?x)" by (rule registry_inv_put_device) simp
    with attached connected show ?thesis
      using registry_inv_same[of "announce (DeviceAdded d) (put_device d h ?x)" "put_device d h ?x"] by simp
  next
    case (backoff w)
    with connected registry_inv_start_reconnect[OF dr[of w]] show ?thesis by simp
  qed
next
  case (disconnected d)
  have "registry_inv (drop_device d (drop_reconnecting d e))"
    by (intro registry_inv_drop_device registry_inv_drop_reconnecting assms)
  with disconnected registry_inv_drop_reconnecting[OF assms, of d] show ?thesis
    using registry_inv_same[of "announce (DeviceRemoved d) (drop_device d (drop_reconnecting d e))"
        "drop_device d (drop_reconnecting d e)"]
    by (simp add: handle_disconnected_def Let_def)
next
  case (failed d err)
  let ?e1 = "announce (DeviceRemoved d) (drop_device d e)"
  have "registry_inv ?e1" "devices ?e1 d = None"
    using registry_inv_drop_device[OF assms, of d] registry_inv_same[of ?e1 "drop_device d e"] by simp_all
  with failed assms show ?thesis
    by (simp add: handle_device_error_def Let_def registry_inv_start_reconnect split: option.split)
next
  case (reattached d h token)
  have "registry_inv (put_device d h (drop_reconnecting d e))"
    by (rule registry_inv_put_device[OF registry_inv_drop_reconnecting[OF assms]]) simp
  with reattached assms show ?thesis
    using registry_inv_same[of "announce (DeviceAdded d) (put_device d h (drop_reconnecting d e))"
        "put_device d h (drop_reconnecting d e)"]
    by (simp add: handle_reattached_def)
next
  case stop
  with assms show ?thesis by simp
qed

lemma open_and_attach_registry:
  "open_and_attach f d vid pid path e = (r, e') \<Longrightarrow> en_registry e' = en_registry e"
  by (erule open_and_attach_cases) simp_all

lemma attempt_registry [simp]: "en_registry (attempt_reconnect k t e) = en_registry e"
proof -
  obtain f r e1 where "select_factory (en_table e) (rt_vendor_id t) (rt_product_id t) = None
      \<or> select_factory (en_table e) (rt_vendor_id t) (rt_product_id t) = Some f
        \<and> open_and_attach f (rt_device_id t) (rt_vendor_id t) (rt_product_id t) (rt_hidraw_path t) e = (r, e1)"
    by (metis option.exhaust surj_pair)
  then show ?thesis
    using open_and_attach_registry[of f "rt_device_id t" "rt_vendor_id t" "rt_product_id t" "rt_hidraw_path t" e r e1]
    by (auto simp: attempt_reconnect_def Let_def put_task_def split: sum.split)
qed

lemma step_registry [simp]:
  "en_registry (put_worker c q x e) = en_registry e" "en_registry (exit_worker c w e) = en_registry e"
  "en_registry (report_and_exit c w e) = en_registry e" "en_registry (put_task k t e) = en_registry e"
  "en_registry (check_cancelled k t h e) = en_registry e" "en_registry (send_reattached k t h e) = en_registry e"
  by (simp_all add: put_worker_def apply_effects_def exit_worker_def report_and_exit_def put_task_def
      check_cancelled_def send_reattached_def)

lemma hm_wf_order: "hm_wf m \<Longrightarrow> reorders (hm_order m)"
  by (simp add: hm_wf_def)

lemma stop_supervisor_registry:
  "registry_inv e \<Longrightarrow> registry_inv (stop_supervisor e)"
  by (simp add: registry_inv_def stop_supervisor_def devices_def reconnecting_def hm_wf_order)

lemma registry_inv_step:
  assumes "engine_step idle e lab e'" and "registry_inv e"
  shows "registry_inv e'"
  using assms(1)
proof cases
  case (step_supervise cmd rest)
  have "registry_inv (e\<lparr>en_queue := rest\<rparr>)" using assms(2) registry_inv_same[of "e\<lparr>en_queue := rest\<rparr>" e] by simp
  with step_supervise registry_inv_command stop_supervisor_registry show ?thesis by (auto simp: supervise_def)
qed (use assms(2) registry_inv_same[of e' e] in simp_all)

section \<open>Senders point at channels\<close>

lemma these_image_iff: "x \<in> Option.these (f ` A) \<longleftrightarrow> (\<exists>a \<in> A. f a = Some x)"
  by (auto simp: Option.these_def image_iff)

lemma handles_iff:
  "h \<in> handles e \<longleftrightarrow> h \<in> ran (devices e) \<or> (\<exists>t \<in> set (en_tasks e). handle_of_task t = Some h)
     \<or> (\<exists>cmd \<in> set (en_queue e). handle_of_command cmd = Some h)"
  by (auto simp: handles_def these_image_iff)

lemma sender_alive_iff: "sender_alive e c \<longleftrightarrow> (\<exists>h \<in> handles e. dh_tx h = c)"
  by (auto simp: sender_alive_def handles_def)

lemma senders_inv_mono:
  assumes "senders_inv e" and "handles e' \<subseteq> handles e" and "length (en_channels e) \<le> length (en_channels e')"
  shows "senders_inv e'"
  using assms by (fastforce simp: senders_inv_def)

lemma handles_update_task:
  assumes "k < length (en_tasks e)"
  shows "handles (put_task k t e) \<subseteq> handles e \<union> {h. handle_of_task t = Some h}"
  using set_update_subset_insert[of "en_tasks e" k t] by (fastforce simp: handles_iff put_task_def)

text \<open>A command may only use the handles of the state and of the message, or a new one on a new channel.\<close>

definition new_handles_ok :: "('w, 's) engine \<Rightarrow> device_handle set \<Rightarrow> ('w, 's) engine \<Rightarrow> bool" where
  "new_handles_ok e H e' \<longleftrightarrow> length (en_channels e) \<le> length (en_channels e')
     \<and> (\<forall>h \<in> handles e'. h \<in> handles e \<or> h \<in> H \<or> dh_tx h < length (en_channels e'))"

lemma ran_upd: "ran (m(k := None)) \<subseteq> ran m" "ran (m(k \<mapsto> v)) \<subseteq> insert v (ran m)"
  by (auto simp: ran_def)

lemma new_handles_served: "served i e e' \<Longrightarrow> new_handles_ok e H e'"
  using ran_upd(1)[of "devices e"]
  by (fastforce simp: served_def answered_now_def evicted_def enqueued_def new_handles_ok_def handles_iff)

lemma handle_of_new_task: "handle_of_task (t\<lparr>rt_phase := Sleeping n\<rparr>) = None" "handle_of_task (t\<lparr>rt_phase := Ended\<rparr>) = None"
  by (simp_all add: handle_of_task_def)

lemma start_reconnect_tasks:
  "\<exists>t. en_tasks (start_reconnect_backoff d vid pid path e) = en_tasks e @ [t] \<and> handle_of_task t = None"
  by (simp add: start_reconnect_backoff_def Let_def handle_of_task_def)

lemma handles_start_reconnect [simp]: "handles (start_reconnect_backoff d vid pid path e) = handles e"
proof -
  obtain t where "en_tasks (start_reconnect_backoff d vid pid path e) = en_tasks e @ [t]" "handle_of_task t = None"
    using start_reconnect_tasks by blast
  then show ?thesis by (auto simp: set_eq_iff handles_iff)
qed

lemma new_handles_command:
  "new_handles_ok e {h. handle_of_command cmd = Some h} (handle_command cmd e)"
proof (cases rule: command_cases[of cmd])
  case (request i)
  then show ?thesis by (intro new_handles_served[of i] handle_command_served)
next
  case (connected d vid pid path)
  show ?thesis
  proof (cases rule: handle_connected_cases[of d vid pid path e])
    case (ignored w)
    with connected show ?thesis by (auto simp: new_handles_ok_def handles_iff)
  next
    case (attached h w b)
    with connected show ?thesis
      using ran_upd(2)[of "devices e" d h] by (fastforce simp: new_handles_ok_def handles_iff)
  next
    case (backoff w)
    with connected show ?thesis by (simp add: new_handles_ok_def) (auto simp: handles_iff)
  qed
next
  case (disconnected d)
  then show ?thesis
    using ran_upd(1)[of "devices e" d]
    by (auto simp: handle_disconnected_def Let_def new_handles_ok_def handles_iff)
next
  case (failed d err)
  have "handles (announce (DeviceRemoved d) (drop_device d e)) \<subseteq> handles e"
    using ran_upd(1)[of "devices e" d] by (auto simp: handles_iff)
  with failed show ?thesis
    by (auto simp: handle_device_error_def Let_def new_handles_ok_def split: option.split)
next
  case (reattached d h token)
  then show ?thesis
    using ran_upd(2)[of "devices e" d h]
    by (auto simp: handle_reattached_def new_handles_ok_def handles_iff handle_of_command_def)
next
  case stop
  then show ?thesis by (auto simp: new_handles_ok_def)
qed

lemma attempt_reconnect_cases:
  obtains (quiet) w t' where "attempt_reconnect k t e = put_task k t' (e\<lparr>en_world := w\<rparr>)" "handle_of_task t' = None"
    | (attached) w h b t' where "attempt_reconnect k t e = put_task k t' (e\<lparr>en_world := w,
         en_channels := en_channels e @ [\<lparr>ch_queue = [], ch_worker = worker_start (rt_device_id t) b\<rparr>]\<rparr>)"
       "handle_of_task t' = Some h" "dh_tx h = length (en_channels e)" "reported_by (en_table e) h (bx_ops b)"
proof (cases "select_factory (en_table e) (rt_vendor_id t) (rt_product_id t)")
  case None
  have "attempt_reconnect k t e = put_task k (t\<lparr>rt_attempts := rt_attempts t + 1, rt_phase := Ended\<rparr>) (e\<lparr>en_world := en_world e\<rparr>)"
    using None by (simp add: attempt_reconnect_def Let_def)
  then show ?thesis by (rule quiet) (simp add: handle_of_task_def)
next
  case (Some f)
  obtain r e1 where oa: "open_and_attach f (rt_device_id t) (rt_vendor_id t) (rt_product_id t) (rt_hidraw_path t) e = (r, e1)"
    by fastforce
  show ?thesis
  proof (cases rule: open_and_attach_cases[OF oa])
    case (1 err w)
    let ?t1 = "t\<lparr>rt_attempts := rt_attempts t + 1\<rparr>"
    let ?t' = "if is_transient_attach_error err then next_pause (en_now e) ?t1 else ?t1\<lparr>rt_phase := Ended\<rparr>"
    have "attempt_reconnect k t e = put_task k ?t' (e\<lparr>en_world := w\<rparr>)"
      using Some oa 1 by (simp add: attempt_reconnect_def Let_def)
    moreover have "handle_of_task ?t' = None" by (simp add: handle_of_task_def next_pause_def Let_def)
    ultimately show ?thesis by (rule quiet)
  next
    case (2 h w b)
    have "attempt_reconnect k t e = put_task k (t\<lparr>rt_attempts := rt_attempts t + 1, rt_phase := Attached h\<rparr>) (e\<lparr>en_world := w,
         en_channels := en_channels e @ [\<lparr>ch_queue = [], ch_worker = worker_start (rt_device_id t) b\<rparr>]\<rparr>)"
      using Some oa 2 by (simp add: attempt_reconnect_def Let_def)
    then show ?thesis by (rule attached[where h = h]) (use 2 Some in \<open>simp_all add: handle_of_task_def reported_by_def\<close>)
  qed
qed

lemma senders_inv_put_task:
  assumes "senders_inv e" and "k < length (en_tasks e)"
    and "\<And>h. handle_of_task t = Some h \<Longrightarrow> dh_tx h < length (en_channels e)"
  shows "senders_inv (put_task k t e)"
proof -
  have "en_channels (put_task k t e) = en_channels e" by (simp add: put_task_def)
  then show ?thesis
    using assms handles_update_task[OF assms(2), of t] by (fastforce simp: senders_inv_def)
qed

lemma senders_inv_grow:
  assumes "senders_inv e" and "length (en_channels e) \<le> length cs"
  shows "senders_inv (e\<lparr>en_world := w, en_channels := cs\<rparr>)"
  by (rule senders_inv_mono[OF assms(1)]) (use assms(2) in \<open>auto simp: handles_iff\<close>)

lemma senders_inv_world: "senders_inv e \<Longrightarrow> senders_inv (e\<lparr>en_world := w\<rparr>)"
  by (erule senders_inv_mono) (auto simp: handles_iff)

lemma senders_inv_supervise:
  assumes "senders_inv e" and "en_queue e = cmd # rest"
  shows "senders_inv (supervise cmd (e\<lparr>en_queue := rest\<rparr>))"
proof (cases "cmd = Shutdown")
  case True
  have "handles (stop_supervisor (e\<lparr>en_queue := rest\<rparr>)) \<subseteq> handles e"
    by (auto simp: handles_iff stop_supervisor_def devices_def)
  with True assms(1) show ?thesis
    by (intro senders_inv_mono[OF assms(1)]) (simp_all add: supervise_def stop_supervisor_def)
next
  case False
  let ?e1 = "e\<lparr>en_queue := rest\<rparr>"
  have sub: "handles ?e1 \<union> {h. handle_of_command cmd = Some h} \<subseteq> handles e"
    using assms(2) by (auto simp: handles_iff)
  note ok = new_handles_command[of ?e1 cmd]
  show ?thesis
    unfolding senders_inv_def
  proof
    fix h assume "h \<in> handles (supervise cmd ?e1)"
    with ok False have "h \<in> handles ?e1 \<or> h \<in> {h. handle_of_command cmd = Some h}
        \<or> dh_tx h < length (en_channels (handle_command cmd ?e1))" by (auto simp: supervise_def new_handles_ok_def)
    moreover have "length (en_channels e) \<le> length (en_channels (handle_command cmd ?e1))"
      using ok by (simp add: new_handles_ok_def)
    ultimately show "dh_tx h < length (en_channels (supervise cmd ?e1))"
      using sub assms(1) False by (fastforce simp: senders_inv_def supervise_def)
  qed
qed

lemma senders_inv_step:
  assumes "engine_step idle e lab e'" and "senders_inv e"
  shows "senders_inv e'"
  using assms(1)
proof cases
  case (step_post cmd)
  have "handle_of_command cmd = None" using step_post by (cases cmd) (simp_all add: handle_of_command_def)
  with step_post show ?thesis by (intro senders_inv_mono[OF assms(2)]) (auto simp: handles_iff)
next
  case (step_supervise cmd rest)
  with senders_inv_supervise[OF assms(2)] show ?thesis by simp
next
  case (step_recv c ch op rest)
  then show ?thesis
    by (intro senders_inv_mono[OF assms(2)]) (auto simp: handles_iff put_worker_def apply_effects_def)
next
  case (step_closed c ch)
  then show ?thesis by (intro senders_inv_mono[OF assms(2)]) (auto simp: handles_iff exit_worker_def)
next
  case (step_debounce c ch t)
  then show ?thesis
    by (intro senders_inv_mono[OF assms(2)]) (auto simp: handles_iff put_worker_def apply_effects_def)
next
  case (step_report c ch)
  then show ?thesis
    by (intro senders_inv_mono[OF assms(2)])
       (auto simp: handles_iff report_and_exit_def exit_worker_def handle_of_command_def)
next
  case (step_idle c ch s')
  then show ?thesis by (intro senders_inv_mono[OF assms(2)]) (auto simp: handles_iff)
next
  case (step_cancel k t until)
  then show ?thesis by (auto intro!: senders_inv_put_task[OF assms(2)] simp: handle_of_task_def)
next
  case (step_wake k t until)
  show ?thesis
  proof (cases rule: attempt_reconnect_cases[of k t e])
    case (quiet w t')
    with step_wake senders_inv_world[OF assms(2)] show ?thesis by (auto intro!: senders_inv_put_task)
  next
    case (attached w h b t')
    with step_wake show ?thesis
      by (auto intro!: senders_inv_put_task senders_inv_grow[OF assms(2)])
  qed
next
  case (step_check k t h)
  then have "h \<in> handles e" by (auto simp: handles_iff handle_of_task_def intro!: bexI[of _ t])
  then have "dh_tx h < length (en_channels e)" using assms(2) by (simp add: senders_inv_def)
  with step_check show ?thesis
    by (auto simp: check_cancelled_def handle_of_task_def intro!: senders_inv_put_task[OF assms(2)])
next
  case (step_send k t h)
  then have h: "h \<in> handles e" by (auto simp: handles_iff handle_of_task_def intro!: bexI[of _ t])
  let ?e1 = "if en_running e
        then e\<lparr>en_queue := en_queue e @ [DeviceReattached (rt_device_id t) h (rt_token t)]\<rparr> else e"
  have "handles ?e1 \<subseteq> handles e" using h by (auto simp: handles_iff handle_of_command_def)
  then have "senders_inv ?e1" by (intro senders_inv_mono[OF assms(2)]) auto
  with step_send show ?thesis
    by (auto simp: send_reattached_def handle_of_task_def intro!: senders_inv_put_task)
next
  case (step_elapse now)
  then show ?thesis by (intro senders_inv_mono[OF assms(2)]) (auto simp: handles_iff)
qed

end
