(* ===== verification/Engine_Census.thy ===== *)
theory Engine_Census
  imports Engine_Inv
begin

text \<open>
  The account of the reply channels: an identifier that came in with a command is at every moment in
  exactly one place, which is the engine queue, a worker queue, the answers or the dropped ones.
\<close>

section \<open>The places of a reply identifier\<close>

definition channel_ids :: "'s channel list \<Rightarrow> reply_id multiset" where
  "channel_ids cs = mset (concat (map (\<lambda>ch. map reply_of (ch_queue ch)) cs))"

definition command_ids :: "engine_command list \<Rightarrow> reply_id multiset" where
  "command_ids cmds = mset (concat (map replies_of_command cmds))"

definition waiting_ids :: "('w, 's) engine \<Rightarrow> reply_id multiset" where
  "waiting_ids e = command_ids (en_queue e) + channel_ids (en_channels e)"

definition settled_ids :: "('w, 's) engine \<Rightarrow> reply_id multiset" where
  "settled_ids e = mset (map fst (en_answers e)) + mset (en_dropped e)"

definition census :: "('w, 's) engine \<Rightarrow> reply_id multiset" where
  "census e = waiting_ids e + settled_ids e"

lemmas census_defs = census_def waiting_ids_def settled_ids_def

lemma command_ids_simps [simp]:
  "command_ids [] = {#}" "command_ids (cmd # cmds) = mset (replies_of_command cmd) + command_ids cmds"
  "command_ids (cmds @ cmds') = command_ids cmds + command_ids cmds'"
  by (simp_all add: command_ids_def)

lemma channel_ids_append [simp]: "channel_ids (cs @ cs') = channel_ids cs + channel_ids cs'"
  "channel_ids [ch] = mset (map reply_of (ch_queue ch))"
  by (simp_all add: channel_ids_def)

lemma channel_ids_update:
  assumes "c < length cs"
  shows "channel_ids (cs[c := ch]) + mset (map reply_of (ch_queue (cs ! c)))
    = channel_ids cs + mset (map reply_of (ch_queue ch))"
  using assms
proof (induction cs arbitrary: c)
  case Nil
  then show ?case by simp
next
  case (Cons x cs)
  then show ?case by (cases c) (simp_all add: channel_ids_def ac_simps)
qed

section \<open>A command\<close>

lemma device_handle_index:
  "senders_inv e \<Longrightarrow> devices e d = Some h \<Longrightarrow> dh_tx h < length (en_channels e)"
  by (auto simp: senders_inv_def handles_iff ran_def)

lemma census_served:
  assumes "served i e e'" and "senders_inv e"
  shows "census e' = census e + {#i#}"
  using assms(1) unfolding served_def answered_now_def evicted_def enqueued_def
proof (elim disjE exE conjE)
  fix d h op
  assume h: "devices e d = Some h" "reply_of op = i"
    and e': "e' = e\<lparr>en_channels := (en_channels e)[dh_tx h :=
      (en_channels e ! dh_tx h)\<lparr>ch_queue := ch_queue (en_channels e ! dh_tx h) @ [op]\<rparr>]\<rparr>"
  from channel_ids_update[OF device_handle_index[OF assms(2) h(1)],
      of "(en_channels e ! dh_tx h)\<lparr>ch_queue := ch_queue (en_channels e ! dh_tx h) @ [op]\<rparr>"]
  show ?thesis using h(2) by (simp add: e' census_defs)
qed (simp_all add: census_defs)

lemma census_quiet_command:
  assumes "replies_of_command cmd = []"
  shows "census (handle_command cmd e) = census e"
proof (cases rule: command_cases[of cmd])
  case (request i)
  with assms show ?thesis by simp
next
  case (connected d vid pid path)
  then show ?thesis
    by (cases rule: handle_connected_cases[of d vid pid path e]) (simp_all add: census_defs worker_start_def)
next
  case (disconnected d)
  then show ?thesis by (simp add: handle_disconnected_def Let_def census_defs)
next
  case (failed d err)
  then show ?thesis by (simp add: handle_device_error_def Let_def census_defs split: option.split)
next
  case (reattached d h token)
  then show ?thesis by (simp add: handle_reattached_def census_defs)
qed simp

lemma census_supervise:
  assumes "senders_inv e" and "en_queue e = cmd # rest"
  shows "census (supervise cmd (e\<lparr>en_queue := rest\<rparr>)) = census e"
proof -
  let ?e1 = "e\<lparr>en_queue := rest\<rparr>"
  have pop: "census e = census ?e1 + mset (replies_of_command cmd)" using assms(2) by (simp add: census_defs)
  have inv: "senders_inv ?e1" by (rule senders_inv_mono[OF assms(1)]) (use assms(2) in \<open>auto simp: handles_iff\<close>)
  show ?thesis
  proof (cases rule: command_cases[of cmd])
    case (request i)
    moreover from request have "cmd \<noteq> Shutdown" by auto
    ultimately show ?thesis
      using census_served[OF handle_command_served[OF request] inv] pop by (simp add: supervise_def)
  next
    case stop
    then show ?thesis using assms(2) by (simp add: supervise_def stop_supervisor_def census_defs command_ids_def)
  qed (use pop census_quiet_command[of cmd ?e1] in \<open>simp_all add: supervise_def\<close>)
qed

section \<open>A step\<close>

lemma census_put_worker:
  assumes "c < length (en_channels e)" and "ch_queue (en_channels e ! c) = used @ rest"
    and "map fst (answers_of (snd x)) = map reply_of used"
  shows "census (put_worker c rest x e) = census e"
  using channel_ids_update[OF assms(1), of "\<lparr>ch_queue = rest, ch_worker = fst x\<rparr>"] assms(2,3)
  by (simp add: census_defs put_worker_def apply_effects_def flip: mset_map)

lemma census_exit_worker:
  assumes "c < length (en_channels e)"
  shows "census (exit_worker c w e) = census e"
  using channel_ids_update[OF assms, of "\<lparr>ch_queue = [], ch_worker = w\<lparr>wk_phase := Exited\<rparr>\<rparr>"]
  by (simp add: census_defs exit_worker_def)

lemma census_put_task [simp]: "census (put_task k t e) = census e"
  by (simp add: census_defs put_task_def)

lemma census_attempt: "census (attempt_reconnect k t e) = census e"
  by (cases rule: attempt_reconnect_cases[of k t e]) (simp_all add: census_defs put_task_def)

lemma debounce_answers_nothing: "answers_of (snd (worker_debounced_commit w)) = []"
  by (simp add: worker_debounced_commit_def prod.case_eq_if)

definition label_ids :: "engine_command option \<Rightarrow> reply_id multiset" where
  "label_ids lab = (case lab of Some cmd \<Rightarrow> mset (replies_of_command cmd) | None \<Rightarrow> {#})"

lemma census_step:
  assumes "engine_step idle e lab e'" and "senders_inv e"
  shows "census e' = census e + label_ids lab"
  using assms(1)
proof cases
  case (step_post cmd)
  then show ?thesis by (simp add: census_defs label_ids_def)
next
  case (step_supervise cmd rest)
  with census_supervise[OF assms(2)] show ?thesis by (simp add: label_ids_def)
next
  case (step_recv c ch op rest)
  then show ?thesis
    using census_put_worker[of c e "[op]" rest] worker_handle_answers[of "en_now e" op "ch_worker ch"]
    by (simp add: label_ids_def)
next
  case (step_closed c ch)
  then show ?thesis by (simp add: census_exit_worker label_ids_def)
next
  case (step_debounce c ch t)
  then show ?thesis
    using census_put_worker[of c e "[]" "[]"] by (simp add: debounce_answers_nothing label_ids_def)
next
  case (step_report c ch)
  then show ?thesis
    using census_exit_worker[of c "e\<lparr>en_queue := en_queue e @ [DeviceError (wk_device_id (ch_worker ch)) worker_report]\<rparr>"]
      census_exit_worker[of c e]
    by (simp add: report_and_exit_def label_ids_def) (simp add: census_defs)
next
  case (step_idle c ch s')
  then show ?thesis
    using channel_ids_update[of c "en_channels e" "ch\<lparr>ch_worker := (ch_worker ch)\<lparr>wk_driver := (wk_driver (ch_worker ch))\<lparr>bx_state := s'\<rparr>\<rparr>\<rparr>"]
    by (simp add: census_defs label_ids_def)
next
  case (step_wake k t until)
  then show ?thesis by (simp add: census_attempt label_ids_def)
next
  case (step_send k t h)
  then show ?thesis by (simp add: send_reattached_def label_ids_def) (simp add: census_defs)
qed (simp_all add: check_cancelled_def label_ids_def, simp add: census_defs)

lemma senders_inv_start: "senders_inv (engine_start ord table w)"
  by (simp add: senders_inv_def handles_iff engine_start_def devices_def)

lemma senders_inv_run:
  assumes "engine_run idle (engine_start ord table w) posted e"
  shows "senders_inv e"
  by (rule engine_run_invariant[where P = senders_inv, OF assms senders_inv_start senders_inv_step])

lemma census_run:
  assumes "engine_run idle (engine_start ord table w) posted e"
  shows "census e = command_ids posted"
  using assms
proof (induction "engine_start ord table w" posted e rule: engine_run.induct)
  case run_start
  show ?case by (simp add: census_defs engine_start_def channel_ids_def)
next
  case (run_step posted e' cmd e'')
  then show ?case using census_step senders_inv_run by (fastforce simp: label_ids_def)
next
  case (run_silent posted e' e'')
  then show ?case using census_step senders_inv_run by (fastforce simp: label_ids_def)
qed


section \<open>Capacities\<close>

definition within_capacity :: "('w, 's) engine \<Rightarrow> bool" where
  "within_capacity e \<longleftrightarrow> length (en_queue e) \<le> ENGINE_CHANNEL_CAPACITY
     \<and> list_all (\<lambda>ch. length (ch_queue ch) \<le> WORKER_CHANNEL_CAPACITY) (en_channels e)"

lemma list_all_update:
  "list_all P xs \<Longrightarrow> P x \<Longrightarrow> list_all P (xs[k := x])"
  using set_update_subset_insert[of xs k x] by (auto simp: list_all_iff)

lemma within_capacity_served:
  assumes "served i e e'" and "within_capacity e"
  shows "within_capacity e'"
  using assms by (auto simp: served_def answered_now_def evicted_def enqueued_def within_capacity_def intro!: list_all_update)

lemma within_capacity_command:
  assumes "within_capacity e"
  shows "within_capacity (handle_command cmd e)"
proof (cases rule: command_cases[of cmd])
  case (request i)
  with handle_command_served within_capacity_served assms show ?thesis by blast
next
  case (connected d vid pid path)
  with assms show ?thesis
    by (cases rule: handle_connected_cases[of d vid pid path e]) (simp_all add: within_capacity_def)
next
  case (disconnected d)
  with assms show ?thesis by (simp add: handle_disconnected_def Let_def within_capacity_def)
next
  case (failed d err)
  with assms show ?thesis by (simp add: handle_device_error_def Let_def within_capacity_def split: option.split)
next
  case (reattached d h token)
  with assms show ?thesis by (simp add: handle_reattached_def within_capacity_def)
qed (use assms in simp)

lemma within_capacity_step:
  assumes "engine_step idle e lab e'" and "within_capacity e"
  shows "within_capacity e'"
  using assms(1)
proof cases
  case (step_supervise cmd rest)
  then have "within_capacity (e\<lparr>en_queue := rest\<rparr>)" using assms(2) by (simp add: within_capacity_def)
  with step_supervise within_capacity_command[of "e\<lparr>en_queue := rest\<rparr>" cmd] show ?thesis
    by (auto simp: supervise_def stop_supervisor_def within_capacity_def)
next
  case (step_recv c ch op rest)
  then have "ch \<in> set (en_channels e)" using nth_mem by blast
  with assms(2) have "length (ch_queue ch) \<le> WORKER_CHANNEL_CAPACITY"
    by (auto simp: within_capacity_def list_all_iff)
  with step_recv assms(2) show ?thesis
    by (simp add: within_capacity_def put_worker_def apply_effects_def list_all_update)
next
  case (step_idle c ch s')
  then have "ch \<in> set (en_channels e)" using nth_mem by blast
  with assms(2) have "length (ch_queue ch) \<le> WORKER_CHANNEL_CAPACITY"
    by (auto simp: within_capacity_def list_all_iff)
  with step_idle assms(2) show ?thesis by (simp add: within_capacity_def list_all_update)
next
  case (step_wake k t until)
  with assms(2) show ?thesis
    by (cases rule: attempt_reconnect_cases[of k t e]) (simp_all add: within_capacity_def put_task_def)
qed (use assms(2) in \<open>auto simp: within_capacity_def has_room_def put_worker_def apply_effects_def exit_worker_def
      report_and_exit_def put_task_def check_cancelled_def send_reattached_def intro!: list_all_update\<close>)

section \<open>What is dropped\<close>

text \<open>A reply is dropped unanswered only by the shutdown or by a worker that has exited.\<close>

definition has_exited :: "('w, 's) engine \<Rightarrow> bool" where
  "has_exited e \<longleftrightarrow> (\<exists>ch \<in> set (en_channels e). wk_phase (ch_worker ch) = Exited)"

definition drops_explained :: "('w, 's) engine \<Rightarrow> bool" where
  "drops_explained e \<longleftrightarrow> (en_dropped e \<noteq> [] \<longrightarrow> \<not> en_running e \<or> has_exited e)"

lemma has_exited_update:
  assumes "has_exited e" and "c < length (en_channels e)"
    and "wk_phase (ch_worker (en_channels e ! c)) = Exited \<longrightarrow> wk_phase (ch_worker ch) = Exited"
  shows "\<exists>x \<in> set ((en_channels e)[c := ch]). wk_phase (ch_worker x) = Exited"
proof -
  obtain k where k: "k < length (en_channels e)" "wk_phase (ch_worker (en_channels e ! k)) = Exited"
    using assms(1) by (auto simp: has_exited_def in_set_conv_nth)
  then have "wk_phase (ch_worker ((en_channels e)[c := ch] ! k)) = Exited"
    using assms(2,3) by (cases "k = c") simp_all
  moreover have "(en_channels e)[c := ch] ! k \<in> set ((en_channels e)[c := ch])" using k(1) by simp
  ultimately show ?thesis by blast
qed

lemma has_exited_served:
  assumes "served i e e'" and "has_exited e" and "senders_inv e"
  shows "has_exited e'"
  using assms(1) unfolding served_def answered_now_def evicted_def enqueued_def
proof (elim disjE exE conjE)
  fix d h op
  assume h: "devices e d = Some h"
    and e': "e' = e\<lparr>en_channels := (en_channels e)[dh_tx h :=
      (en_channels e ! dh_tx h)\<lparr>ch_queue := ch_queue (en_channels e ! dh_tx h) @ [op]\<rparr>]\<rparr>"
  from has_exited_update[OF assms(2) device_handle_index[OF assms(3) h],
      of "(en_channels e ! dh_tx h)\<lparr>ch_queue := ch_queue (en_channels e ! dh_tx h) @ [op]\<rparr>"]
  show ?thesis by (simp add: e' has_exited_def)
qed (use assms(2) in \<open>simp_all add: has_exited_def\<close>)

lemma served_drops_nothing: "served i e e' \<Longrightarrow> en_dropped e' = en_dropped e \<and> en_running e' = en_running e"
  by (auto simp: served_def answered_now_def evicted_def enqueued_def answer_def drop_device_def)

lemma drops_explained_command:
  assumes "drops_explained e" and "senders_inv e"
  shows "drops_explained (handle_command cmd e)"
proof (cases rule: command_cases[of cmd])
  case (request i)
  from handle_command_served[OF this, of e] served_drops_nothing has_exited_served assms show ?thesis
    unfolding drops_explained_def by metis
next
  case (connected d vid pid path)
  with assms(1) show ?thesis
    by (cases rule: handle_connected_cases[of d vid pid path e])
       (simp_all add: drops_explained_def has_exited_def drop_reconnecting_def announce_def put_device_def)
next
  case (disconnected d)
  with assms(1) show ?thesis
    by (simp add: handle_disconnected_def Let_def drops_explained_def has_exited_def drop_reconnecting_def
        announce_def drop_device_def)
next
  case (failed d err)
  with assms(1) show ?thesis
    by (simp add: handle_device_error_def Let_def drops_explained_def has_exited_def announce_def
        drop_device_def split: option.split)
next
  case (reattached d h token)
  with assms(1) show ?thesis
    by (simp add: handle_reattached_def drops_explained_def has_exited_def drop_reconnecting_def announce_def put_device_def)
qed (use assms in simp)

lemma put_worker_exited:
  assumes "c < length (en_channels e)" and "wk_phase (ch_worker (en_channels e ! c)) = Running" and "drops_explained e"
  shows "drops_explained (put_worker c q x e)"
  using has_exited_update[OF _ assms(1), of "\<lparr>ch_queue = q, ch_worker = fst x\<rparr>"] assms(2,3)
  by (auto simp: drops_explained_def has_exited_def put_worker_def apply_effects_def)

lemma exit_worker_exited:
  assumes "c < length (en_channels e)"
  shows "drops_explained (exit_worker c w e)"
proof -
  have "has_exited (exit_worker c w e)"
    unfolding has_exited_def
    by (rule bexI[where x = "\<lparr>ch_queue = [], ch_worker = w\<lparr>wk_phase := Exited\<rparr>\<rparr>"])
       (simp_all add: exit_worker_def set_update_memI assms)
  then show ?thesis by (simp add: drops_explained_def)
qed

lemma drops_explained_step:
  assumes "engine_step idle e lab e'" and "drops_explained e \<and> senders_inv e"
  shows "drops_explained e'"
  using assms(1)
proof cases
  case (step_supervise cmd rest)
  have "senders_inv (e\<lparr>en_queue := rest\<rparr>)"
    by (rule senders_inv_mono[of e]) (use step_supervise assms(2) in \<open>auto simp: handles_iff\<close>)
  moreover have "drops_explained (e\<lparr>en_queue := rest\<rparr>)" using assms(2) by (simp add: drops_explained_def has_exited_def)
  ultimately show ?thesis
    using step_supervise drops_explained_command[of "e\<lparr>en_queue := rest\<rparr>" cmd]
    by (auto simp: supervise_def) (simp add: stop_supervisor_def drops_explained_def)
next
  case (step_idle c ch s')
  with assms(2) has_exited_update[of e c "ch\<lparr>ch_worker := (ch_worker ch)\<lparr>wk_driver := (wk_driver (ch_worker ch))\<lparr>bx_state := s'\<rparr>\<rparr>\<rparr>"]
  show ?thesis by (auto simp: drops_explained_def has_exited_def)
next
  case (step_wake k t until)
  with assms(2) show ?thesis
    by (cases rule: attempt_reconnect_cases[of k t e])
       (simp_all add: drops_explained_def has_exited_def put_task_def)
qed (use assms(2) in \<open>auto simp: report_and_exit_def check_cancelled_def send_reattached_def put_task_def
      intro: put_worker_exited exit_worker_exited\<close>,
     auto simp: drops_explained_def has_exited_def)

lemma drops_explained_run:
  assumes "engine_run idle (engine_start ord table w) posted e"
  shows "drops_explained e"
proof -
  have "drops_explained (engine_start ord table w) \<and> senders_inv (engine_start ord table w)"
    using senders_inv_start[of ord table w] by (simp add: drops_explained_def) (simp add: engine_start_def)
  from engine_run_invariant[where P = "\<lambda>e. drops_explained e \<and> senders_inv e", OF assms this]
  show ?thesis by (blast intro: senders_inv_step drops_explained_step)
qed

text \<open>Step by step: only a worker that leaves after a fatal error, and the shutdown, drop replies, and exactly those queued.\<close>

lemma command_drops_nothing: "en_dropped (handle_command cmd e) = en_dropped e"
proof (cases rule: command_cases[of cmd])
  case (request i)
  from served_drops_nothing[OF handle_command_served[OF this]] show ?thesis by blast
next
  case (connected d vid pid path)
  then show ?thesis by (cases rule: handle_connected_cases[of d vid pid path e]) simp_all
next
  case (disconnected d)
  then show ?thesis by (simp add: handle_disconnected_def Let_def)
next
  case (failed d err)
  then show ?thesis by (simp add: handle_device_error_def Let_def split: option.split)
next
  case (reattached d h token)
  then show ?thesis by (simp add: handle_reattached_def)
qed simp

definition drops_nothing :: "('w, 's) engine \<Rightarrow> ('w, 's) engine \<Rightarrow> bool" where
  "drops_nothing e e' \<longleftrightarrow> en_dropped e' = en_dropped e"

definition drops_of_worker :: "nat \<Rightarrow> ('w, 's) engine \<Rightarrow> ('w, 's) engine \<Rightarrow> bool" where
  "drops_of_worker c e e' \<longleftrightarrow> c < length (en_channels e) \<and> wk_phase (ch_worker (en_channels e ! c)) = Reporting
     \<and> wk_phase (ch_worker (en_channels e' ! c)) = Exited
     \<and> en_dropped e' = en_dropped e @ map reply_of (ch_queue (en_channels e ! c))"

definition drops_of_shutdown :: "('w, 's) engine \<Rightarrow> ('w, 's) engine \<Rightarrow> bool" where
  "drops_of_shutdown e e' \<longleftrightarrow> \<not> en_running e' \<and> (\<exists>rest. en_queue e = Shutdown # rest
     \<and> en_dropped e' = en_dropped e @ concat (map replies_of_command rest))"

lemma drops_step:
  assumes "engine_step idle e lab e'"
  shows "drops_nothing e e' \<or> (\<exists>c. drops_of_worker c e e') \<or> drops_of_shutdown e e'"
  using assms
proof cases
  case (step_supervise cmd rest)
  then show ?thesis
    by (cases "cmd = Shutdown")
       (simp_all add: supervise_def stop_supervisor_def drops_of_shutdown_def drops_nothing_def command_drops_nothing)
next
  case (step_report c ch)
  then have "drops_of_worker c e e'" by (simp add: drops_of_worker_def report_and_exit_def exit_worker_def)
  then show ?thesis by blast
next
  case (step_wake k t until)
  then show ?thesis
    by (cases rule: attempt_reconnect_cases[of k t e]) (simp_all add: drops_nothing_def put_task_def)
qed (simp_all add: drops_nothing_def put_worker_def apply_effects_def exit_worker_def put_task_def check_cancelled_def
      send_reattached_def)

end
