(* ===== verification/Engine_Bounds.thy ===== *)
theory Engine_Bounds
  imports Engine_Inv
begin

text \<open>
  An invariant over the runs of the engine: every handle carries the topology that the driver of its worker
  reported when it was attached, and a key operation in a worker's queue lies inside that topology.
\<close>

section \<open>Queued operations fit their topology\<close>

definition queue_of :: "('w, 's) engine \<Rightarrow> nat \<Rightarrow> worker_op list" where
  "queue_of e c = (if c < length (en_channels e) then ch_queue (en_channels e ! c) else [])"

definition ops_of :: "('w, 's) engine \<Rightarrow> nat \<Rightarrow> 's driver_ops option" where
  "ops_of e c = (if c < length (en_channels e) then Some (bx_ops (wk_driver (ch_worker (en_channels e ! c)))) else None)"

definition fits :: "(nat \<Rightarrow> device_topology) \<Rightarrow> ('w, 's) engine \<Rightarrow> bool" where
  "fits T e \<longleftrightarrow> (\<forall>h \<in> handles e. T (dh_tx h) = dh_topology h
       \<and> (\<exists>ops. ops_of e (dh_tx h) = Some ops \<and> reported_by (en_table e) h ops)) \<and> (\<forall>c. list_all (op_fits (T c)) (queue_of e c))"

definition bounds_inv :: "('w, 's) engine \<Rightarrow> bool" where
  "bounds_inv e \<longleftrightarrow> (\<exists>T. fits T e)"

definition queues_shrink :: "('w, 's) engine \<Rightarrow> ('w, 's) engine \<Rightarrow> bool" where
  "queues_shrink e e' \<longleftrightarrow> en_table e' = en_table e \<and> (\<forall>c. set (queue_of e' c) \<subseteq> set (queue_of e c))
     \<and> (\<forall>c ops. ops_of e c = Some ops \<longrightarrow> ops_of e' c = Some ops)"

lemma bounds_inv_shrink:
  assumes "bounds_inv e" and "handles e' \<subseteq> handles e" and "queues_shrink e e'"
  shows "bounds_inv e'"
proof -
  obtain T where T: "fits T e" using assms(1) by (auto simp: bounds_inv_def)
  have table: "en_table e' = en_table e" using assms(3) by (simp add: queues_shrink_def)
  have "fits T e'"
    unfolding fits_def list_all_iff table
    using T assms(2,3) unfolding fits_def queues_shrink_def list_all_iff by blast
  then show ?thesis unfolding bounds_inv_def by blast
qed

text \<open>A fresh channel comes with its own topology.\<close>

lemma bounds_inv_attach:
  assumes "bounds_inv e" and "senders_inv e" and "queues_shrink e e'"
    and "handles e' \<subseteq> insert h (handles e)" and "dh_tx h = length (en_channels e)"
    and "ops_of e' (dh_tx h) = Some ops" and "reported_by (en_table e) h ops"
  shows "bounds_inv e'"
proof -
  obtain T where T: "fits T e" using assms(1) by (auto simp: bounds_inv_def)
  have old: "g \<in> handles e \<Longrightarrow> dh_tx g \<noteq> dh_tx h" for g
    using assms(2,5) by (auto simp: senders_inv_def)
  have none: "queue_of e (dh_tx h) = []" using assms(5) by (simp add: queue_of_def)
  have "fits (T(dh_tx h := dh_topology h)) e'"
    unfolding fits_def
  proof (intro conjI ballI allI)
    fix g assume "g \<in> handles e'"
    with assms(4) have "g = h \<or> g \<in> handles e" by blast
    with T old show "(T(dh_tx h := dh_topology h)) (dh_tx g) = dh_topology g" by (auto simp: fits_def)
    have table: "en_table e' = en_table e" using assms(3) by (simp add: queues_shrink_def)
    from \<open>g = h \<or> g \<in> handles e\<close> show "\<exists>ops. ops_of e' (dh_tx g) = Some ops \<and> reported_by (en_table e') g ops"
      unfolding table using T assms(3,6,7) unfolding fits_def queues_shrink_def by blast
  next
    fix c
    show "list_all (op_fits ((T(dh_tx h := dh_topology h)) c)) (queue_of e' c)"
      using T assms(3) none by (cases "c = dh_tx h") (fastforce simp: fits_def queues_shrink_def list_all_iff)+
  qed
  then show ?thesis by (auto simp: bounds_inv_def)
qed

lemma shrink_same: "en_channels e' = en_channels e \<Longrightarrow> en_table e' = en_table e \<Longrightarrow> queues_shrink e e'"
  by (simp add: queues_shrink_def queue_of_def ops_of_def)

lemma shrink_append:
  assumes "en_channels e' = en_channels e @ [\<lparr>ch_queue = [], ch_worker = w\<rparr>]" and "en_table e' = en_table e"
  shows "queues_shrink e e'"
proof -
  have "queue_of e' c = queue_of e c" for c
    by (cases "c < length (en_channels e)"; cases "c = length (en_channels e)")
       (simp_all add: queue_of_def assms nth_append)
  then show ?thesis using assms by (auto simp: queues_shrink_def ops_of_def nth_append split: if_splits)
qed

lemma shrink_update:
  assumes "en_channels e' = (en_channels e)[c := ch]" and "c < length (en_channels e)"
    and "set (ch_queue ch) \<subseteq> set (ch_queue (en_channels e ! c))"
    and "bx_ops (wk_driver (ch_worker ch)) = bx_ops (wk_driver (ch_worker (en_channels e ! c)))" and "en_table e' = en_table e"
  shows "queues_shrink e e'"
  using assms(2-5) by (auto simp: queues_shrink_def queue_of_def ops_of_def assms(1) nth_list_update split: if_splits)

text \<open>A worker keeps the driver it was started with.\<close>

lemma call_driver_ops [simp]: "bx_ops (wk_driver (snd (call_driver m w))) = bx_ops (wk_driver w)"
  by (simp add: call_driver_def Let_def prod.case_eq_if)

lemma worker_keeps_driver [simp]:
  "bx_ops (wk_driver (fst (worker_handle now op w))) = bx_ops (wk_driver w)"
  "bx_ops (wk_driver (fst (worker_debounced_commit w))) = bx_ops (wk_driver w)"
  "bx_ops (wk_driver (worker_shutdown w)) = bx_ops (wk_driver w)"
  by (cases op) (simp_all add: answer_op_def Let_def prod.case_eq_if worker_debounced_commit_def worker_shutdown_def
      split: sum.split option.split)

lemma bounds_inv_served:
  assumes "served i e e'" and "bounds_inv e" and "senders_inv e"
  shows "bounds_inv e'"
  using assms(1) unfolding served_def answered_now_def evicted_def enqueued_def
proof (elim disjE exE conjE)
  fix a assume "e' = answer i a e"
  then show ?thesis by (intro bounds_inv_shrink[OF assms(2)]) (auto simp: handles_iff intro: shrink_same)
next
  fix a d h assume "e' = answer i a (drop_device d e)"
  then show ?thesis using ran_upd(1)[of "devices e" d]
    by (intro bounds_inv_shrink[OF assms(2)]) (auto simp: handles_iff intro: shrink_same)
next
  fix d h op
  assume h: "devices e d = Some h" and op: "op_fits (dh_topology h) op"
    and e': "e' = e\<lparr>en_channels := (en_channels e)[dh_tx h :=
      (en_channels e ! dh_tx h)\<lparr>ch_queue := ch_queue (en_channels e ! dh_tx h) @ [op]\<rparr>]\<rparr>"
  obtain T where T: "fits T e" using assms(2) by (auto simp: bounds_inv_def)
  have hd: "h \<in> handles e" using h by (auto simp: handles_iff ran_def)
  have q: "queue_of e' c = (if c = dh_tx h then queue_of e c @ [op] else queue_of e c)" for c
    using hd assms(3) by (auto simp: queue_of_def e' senders_inv_def)
  have "ops_of e' = ops_of e" using hd assms(3) by (auto simp: fun_eq_iff ops_of_def e' senders_inv_def nth_list_update)
  moreover have "handles e' = handles e" "en_table e' = en_table e" by (simp_all add: handles_def e')
  moreover have "op_fits (T (dh_tx h)) op" using T op hd by (simp add: fits_def)
  ultimately have "fits T e'" using T by (auto simp: fits_def q)
  then show ?thesis by (auto simp: bounds_inv_def)
qed


lemma pop_handles:
  "en_queue e = cmd # rest \<Longrightarrow> handles (e\<lparr>en_queue := rest\<rparr>) \<subseteq> handles e"
  by (auto simp: handles_iff)

lemma bounds_inv_connected:
  assumes "bounds_inv e" and "senders_inv e"
  shows "bounds_inv (handle_connected d vid pid path e)"
proof (cases rule: handle_connected_cases[of d vid pid path e])
  case (ignored w)
  then show ?thesis by (intro bounds_inv_shrink[OF assms(1)] shrink_same) (auto simp: handles_iff)
next
  case (attached h w b)
  have "queues_shrink e (handle_connected d vid pid path e)"
    by (rule shrink_append[where w = "worker_start d b"]) (simp_all add: attached)
  moreover have "handles (handle_connected d vid pid path e) \<subseteq> insert h (handles e)"
    using ran_upd(2)[of "devices e" d h] by (auto simp: attached(3) handles_iff)
  ultimately show ?thesis
    by (rule bounds_inv_attach[OF assms _ _ attached(2) _ attached(4)]) (simp add: attached(2,3) ops_of_def worker_start_def)
next
  case (backoff w)
  then show ?thesis
    by (intro bounds_inv_shrink[OF assms(1)] shrink_same) (simp_all, auto simp: handles_iff)
qed

lemma bounds_inv_supervise:
  assumes "bounds_inv e" and "senders_inv e" and "en_queue e = cmd # rest"
  shows "bounds_inv (supervise cmd (e\<lparr>en_queue := rest\<rparr>))"
proof -
  let ?e1 = "e\<lparr>en_queue := rest\<rparr>"
  have inv: "bounds_inv ?e1" "senders_inv ?e1"
    by (intro bounds_inv_shrink[OF assms(1) pop_handles[OF assms(3)]] shrink_same, simp, simp)
       (intro senders_inv_mono[OF assms(2) pop_handles[OF assms(3)]], simp)
  note shrink = bounds_inv_shrink[OF inv(1) _ shrink_same]
  show ?thesis
  proof (cases rule: command_cases[of cmd])
    case (request i)
    then have "cmd \<noteq> Shutdown" by auto
    with bounds_inv_served[OF handle_command_served[OF request] inv] show ?thesis by (simp add: supervise_def)
  next
    case (connected d vid pid path)
    with bounds_inv_connected[OF inv] show ?thesis by (simp add: supervise_def)
  next
    case (disconnected d)
    have "bounds_inv (handle_disconnected d ?e1)"
      using ran_upd(1)[of "devices e" d]
      by (intro shrink) (auto simp: handle_disconnected_def Let_def handles_iff)
    with disconnected show ?thesis by (simp add: supervise_def)
  next
    case (failed d err)
    have "handles (announce (DeviceRemoved d) (drop_device d ?e1)) \<subseteq> handles ?e1"
      using ran_upd(1)[of "devices e" d] by (auto simp: handles_iff)
    then have "bounds_inv (handle_device_error d err ?e1)"
      by (intro shrink) (simp_all add: handle_device_error_def Let_def split: option.split)
    with failed show ?thesis by (simp add: supervise_def)
  next
    case (reattached d h token)
    have "handles (handle_reattached d h token ?e1) \<subseteq> handles e"
      using ran_upd(2)[of "devices e" d h] assms(3) reattached
      by (auto simp: handle_reattached_def handles_iff handle_of_command_def)
    then have "bounds_inv (handle_reattached d h token ?e1)"
      by (rule bounds_inv_shrink[OF assms(1)]) (simp add: shrink_same handle_reattached_def)
    with reattached show ?thesis by (simp add: supervise_def)
  next
    case stop
    have "bounds_inv (stop_supervisor ?e1)"
      by (intro shrink) (auto simp: handles_iff stop_supervisor_def devices_def)
    with stop show ?thesis by (simp add: supervise_def)
  qed
qed

lemma bounds_inv_attempt:
  assumes "bounds_inv e" and "senders_inv e" and "k < length (en_tasks e)"
  shows "bounds_inv (attempt_reconnect k t e)"
proof (cases rule: attempt_reconnect_cases[of k t e])
  case (quiet w t')
  have "handles (put_task k t' (e\<lparr>en_world := w\<rparr>)) \<subseteq> handles (e\<lparr>en_world := w\<rparr>)"
    using handles_update_task[of k "e\<lparr>en_world := w\<rparr>" t'] assms(3) quiet(2) by simp
  then have "handles (attempt_reconnect k t e) \<subseteq> handles e" by (simp add: quiet(1)) (simp add: handles_def)
  then show ?thesis by (rule bounds_inv_shrink[OF assms(1)]) (simp add: quiet put_task_def shrink_same)
next
  case (attached w h b t')
  let ?x = "e\<lparr>en_world := w, en_channels := en_channels e @ [\<lparr>ch_queue = [], ch_worker = worker_start (rt_device_id t) b\<rparr>]\<rparr>"
  have "queues_shrink e (attempt_reconnect k t e)"
    by (rule shrink_append[where w = "worker_start (rt_device_id t) b"]) (simp_all add: attached put_task_def)
  moreover have "handles (attempt_reconnect k t e) \<subseteq> insert h (handles e)"
    using handles_update_task[of k ?x t'] assms(3) attached(2) by (simp add: attached(1)) (auto simp: handles_def)
  ultimately show ?thesis
    by (rule bounds_inv_attach[OF assms(1,2) _ _ attached(3) _ attached(4)])
       (simp add: attached(1,3) ops_of_def worker_start_def put_task_def)
qed

lemma bounds_inv_put_task:
  assumes "bounds_inv e" and "k < length (en_tasks e)" and "\<And>h. handle_of_task t = Some h \<Longrightarrow> h \<in> handles e"
  shows "bounds_inv (put_task k t e)"
  by (rule bounds_inv_shrink[OF assms(1)])
     (use handles_update_task[OF assms(2), of t] assms(3) in \<open>auto simp: put_task_def shrink_same\<close>)

lemma bounds_inv_step:
  assumes "engine_step idle e lab e'" and "bounds_inv e \<and> senders_inv e"
  shows "bounds_inv e'"
proof -
  note shrink = bounds_inv_shrink[OF conjunct1[OF assms(2)]]
  show ?thesis
    using assms(1)
  proof cases
    case (step_post cmd)
    have "handle_of_command cmd = None" using step_post by (cases cmd) (simp_all add: handle_of_command_def)
    with step_post assms(2) show ?thesis
      by (intro shrink) (auto simp: handles_iff intro: shrink_same)
  next
    case (step_supervise cmd rest)
    with bounds_inv_supervise assms(2) show ?thesis by blast
  next
    case (step_recv c ch op rest)
    have "queues_shrink e e'"
      by (rule shrink_update[of _ _ c "\<lparr>ch_queue = rest, ch_worker = fst (worker_handle (en_now e) op (ch_worker ch))\<rparr>"])
         (use step_recv in \<open>auto simp: put_worker_def apply_effects_def\<close>)
    then show ?thesis
      by (intro shrink) (use step_recv assms(2) in \<open>auto simp: handles_iff put_worker_def apply_effects_def\<close>)
  next
    case (step_closed c ch)
    have "queues_shrink e e'"
      by (rule shrink_update[of _ _ c "\<lparr>ch_queue = [], ch_worker = (worker_shutdown (ch_worker ch))\<lparr>wk_phase := Exited\<rparr>\<rparr>"])
         (use step_closed in \<open>auto simp: exit_worker_def\<close>)
    then show ?thesis
      by (intro shrink) (use step_closed assms(2) in \<open>auto simp: handles_iff exit_worker_def\<close>)
  next
    case (step_debounce c ch t)
    have "queues_shrink e e'"
      by (rule shrink_update[of _ _ c "\<lparr>ch_queue = [], ch_worker = fst (worker_debounced_commit (ch_worker ch))\<rparr>"])
         (use step_debounce in \<open>auto simp: put_worker_def apply_effects_def\<close>)
    then show ?thesis
      by (intro shrink) (use step_debounce assms(2) in \<open>auto simp: handles_iff put_worker_def apply_effects_def\<close>)
  next
    case (step_report c ch)
    have "queues_shrink e e'"
      by (rule shrink_update[of _ _ c "\<lparr>ch_queue = [], ch_worker = (ch_worker ch)\<lparr>wk_phase := Exited\<rparr>\<rparr>"])
         (use step_report in \<open>auto simp: report_and_exit_def exit_worker_def\<close>)
    then show ?thesis
      by (intro shrink)
         (use step_report assms(2) in \<open>auto simp: handles_iff report_and_exit_def exit_worker_def handle_of_command_def\<close>)
  next
    case (step_idle c ch s')
    have "queues_shrink e e'"
      by (rule shrink_update[of _ _ c "ch\<lparr>ch_worker := (ch_worker ch)\<lparr>wk_driver := (wk_driver (ch_worker ch))\<lparr>bx_state := s'\<rparr>\<rparr>\<rparr>"])
         (use step_idle in auto)
    then show ?thesis
      by (intro shrink) (use step_idle assms(2) in \<open>auto simp: handles_iff\<close>)
  next
    case (step_cancel k t until)
    with assms(2) show ?thesis by (auto intro!: bounds_inv_put_task simp: handle_of_task_def)
  next
    case (step_wake k t until)
    with assms(2) bounds_inv_attempt show ?thesis by blast
  next
    case (step_check k t h)
    then have "h \<in> handles e" by (auto simp: handles_iff handle_of_task_def intro!: bexI[of _ t])
    with step_check assms(2) show ?thesis
      by (auto simp: check_cancelled_def handle_of_task_def intro!: bounds_inv_put_task)
  next
    case (step_send k t h)
    then have h: "h \<in> handles e" by (auto simp: handles_iff handle_of_task_def intro!: bexI[of _ t])
    let ?e1 = "if en_running e
          then e\<lparr>en_queue := en_queue e @ [DeviceReattached (rt_device_id t) h (rt_token t)]\<rparr> else e"
    have "handles ?e1 \<subseteq> handles e" using h by (auto simp: handles_iff handle_of_command_def)
    then have "bounds_inv ?e1" by (intro shrink) (auto intro: shrink_same)
    with step_send show ?thesis
      by (auto simp: send_reattached_def handle_of_task_def intro!: bounds_inv_put_task)
  next
    case (step_elapse now)
    then show ?thesis by (intro shrink) (auto simp: handles_iff intro: shrink_same)
  qed
qed

lemma handles_start: "handles (engine_start ord table w) = {}"
  by (auto simp: handles_iff) (simp_all add: engine_start_def devices_def)

lemma bounds_inv_run:
  assumes "engine_run idle (engine_start ord table w) posted e"
  shows "bounds_inv e \<and> senders_inv e"
proof -
  have "senders_inv (engine_start ord table w)" by (simp add: senders_inv_def handles_start)
  moreover have "bounds_inv (engine_start ord table w)"
    by (simp add: bounds_inv_def fits_def handles_start) (simp add: engine_start_def queue_of_def)
  ultimately have "bounds_inv (engine_start ord table w) \<and> senders_inv (engine_start ord table w)" by blast
  from engine_run_invariant[where P = "\<lambda>e. bounds_inv e \<and> senders_inv e", OF assms this]
  show ?thesis by (blast intro: senders_inv_step bounds_inv_step)
qed

end
