(* ===== verification/Engine_Presence.thy ===== *)
theory Engine_Presence
  imports Engine_Inv
begin

text \<open>
  What a listener of the lifecycle channel learns: the announced presence of a device, and how it
  agrees with the registry. The bounds of the reconnect tasks follow.
\<close>

section \<open>Announced presence\<close>

text \<open>The state of a listener for one device: \<open>Some True\<close> after an added event, \<open>None\<close> once a removal
  came without an addition before it.\<close>

fun hear :: "string \<Rightarrow> lifecycle_event \<Rightarrow> bool option \<Rightarrow> bool option" where
  "hear d (DeviceAdded x) b = (if x = d then map_option (\<lambda>_. True) b else b)"
| "hear d (DeviceRemoved x) b = (if x = d then (if b = Some True then Some False else None) else b)"
| "hear d (LayoutUpdated x) b = b"

definition heard :: "string \<Rightarrow> lifecycle_event list \<Rightarrow> bool option" where
  "heard d evs = fold (hear d) evs (Some False)"

lemma heard_simps [simp]:
  "heard d [] = Some False" "heard d (evs @ [ev]) = hear d ev (heard d evs)"
  by (simp_all add: heard_def)

definition presence_inv :: "('w, 's) engine \<Rightarrow> bool" where
  "presence_inv e \<longleftrightarrow> (\<forall>d. heard d (en_events e) \<noteq> None \<and> (devices e d \<noteq> None \<longrightarrow> heard d (en_events e) = Some True))"

lemma presence_inv_same:
  assumes "presence_inv e" and "en_events e' = en_events e" and "devices e' \<subseteq>\<^sub>m devices e"
  shows "presence_inv e'"
proof -
  have "devices e d \<noteq> None" if "devices e' d \<noteq> None" for d
    using assms(3) that unfolding map_le_def dom_def by force
  with assms(1) show ?thesis unfolding presence_inv_def assms(2) by blast
qed

lemma presence_inv_added:
  assumes "presence_inv e" and "en_events e' = en_events e @ [DeviceAdded d]" and "devices e' = (devices e)(d \<mapsto> h)"
  shows "presence_inv e'"
  using assms by (auto simp: presence_inv_def)

lemma presence_inv_removed:
  assumes "presence_inv e" and "en_events e' = en_events e @ [DeviceRemoved d]"
    and "devices e d \<noteq> None" and "devices e' = (devices e)(d := None)"
  shows "presence_inv e'"
  using assms by (auto simp: presence_inv_def)

lemma heard_layout: "list_all (\<lambda>ev. \<exists>x. ev = LayoutUpdated x) ys \<Longrightarrow> heard d (evs @ ys) = heard d evs"
  unfolding heard_def by (induction ys arbitrary: evs rule: rev_induct) auto

lemma worker_announces_layouts:
  "list_all (\<lambda>ev. \<exists>x. ev = LayoutUpdated x) (announced_of (snd (worker_handle now op w)))"
  "list_all (\<lambda>ev. \<exists>x. ev = LayoutUpdated x) (announced_of (snd (worker_debounced_commit w)))"
  by (cases op; auto simp: answer_op_def Let_def prod.case_eq_if split: sum.split)
     (auto simp: worker_debounced_commit_def prod.case_eq_if)

lemma presence_inv_layout:
  assumes "presence_inv e" and "devices e' = devices e" and "en_events e' = en_events e @ ys"
    and "list_all (\<lambda>ev. \<exists>x. ev = LayoutUpdated x) ys"
  shows "presence_inv e'"
  using assms(1) by (simp add: presence_inv_def assms(2,3) heard_layout[OF assms(4)])

lemma presence_inv_command:
  assumes "presence_inv e"
  shows "presence_inv (handle_command cmd e)"
proof (cases rule: command_cases[of cmd])
  case (request i)
  from handle_command_served[OF this, of e] show ?thesis
    unfolding served_def answered_now_def evicted_def enqueued_def
    by (elim disjE exE conjE) (auto intro: presence_inv_same[OF assms] simp: map_le_def)
next
  case (connected d vid pid path)
  show ?thesis
  proof (cases rule: handle_connected_cases[of d vid pid path e])
    case (attached h w b)
    with connected show ?thesis by (intro presence_inv_added[OF assms, of _ d h]) simp_all
  qed (simp_all add: connected, (intro presence_inv_same[OF assms], simp_all)+)
next
  case (disconnected d)
  then show ?thesis
  proof (cases "devices e d")
    case None
    with disconnected show ?thesis
      by (intro presence_inv_same[OF assms]) (simp_all add: handle_disconnected_def Let_def)
  next
    case (Some h)
    with disconnected show ?thesis
      by (intro presence_inv_removed[OF assms, of _ d]) (simp_all add: handle_disconnected_def Let_def)
  qed
next
  case (failed d err)
  then show ?thesis
  proof (cases "devices e d")
    case None
    with failed assms show ?thesis by (simp add: handle_device_error_def)
  next
    case (Some h)
    with failed show ?thesis
      by (intro presence_inv_removed[OF assms, of _ d]) (simp_all add: handle_device_error_def Let_def)
  qed
next
  case (reattached d h token)
  with assms show ?thesis
    by (auto simp: handle_reattached_def intro: presence_inv_added[OF assms, of _ d h])
qed (use assms in simp)

lemma devices_registry: "en_registry e' = en_registry e \<Longrightarrow> devices e' = devices e"
  by (simp add: devices_def)

lemma attempt_events [simp]: "en_events (attempt_reconnect k t e) = en_events e"
  by (cases rule: attempt_reconnect_cases[of k t e]) (simp_all add: put_task_def)

lemma presence_inv_step:
  assumes "engine_step idle e lab e'" and "presence_inv e"
  shows "presence_inv e'"
proof -
  note quiet = presence_inv_same[OF assms(2)]
  show ?thesis
    using assms(1)
  proof cases
    case (step_supervise cmd rest)
    have "presence_inv (e\<lparr>en_queue := rest\<rparr>)" by (rule quiet) simp_all
    from presence_inv_command[OF this, of cmd] show ?thesis
      using assms(2) unfolding step_supervise
      by (auto simp: supervise_def)
         (simp add: presence_inv_def stop_supervisor_def devices_def)
  next
    case (step_recv c ch op rest)
    then show ?thesis
      by (intro presence_inv_layout[OF assms(2) _ _ worker_announces_layouts(1)] devices_registry)
         (simp_all add: put_worker_def apply_effects_def)
  next
    case (step_debounce c ch t)
    then show ?thesis
      by (intro presence_inv_layout[OF assms(2) _ _ worker_announces_layouts(2)] devices_registry)
         (simp_all add: put_worker_def apply_effects_def)
  qed (rule quiet; simp_all add: devices_def exit_worker_def report_and_exit_def put_task_def
        check_cancelled_def send_reattached_def)+
qed

lemma presence_inv_run:
  assumes "engine_run idle (engine_start ord table w) posted e"
  shows "presence_inv e"
proof -
  have "presence_inv (engine_start ord table w)" by (simp add: presence_inv_def engine_start_def devices_def)
  from engine_run_invariant[where P = presence_inv, OF assms this presence_inv_step] show ?thesis .
qed

section \<open>Reconnect tasks\<close>

text \<open>The pause before attempt \<open>n + 1\<close>: 100 ms doubled each time, up to 5 s.\<close>

definition pause_before :: "nat \<Rightarrow> nat" where
  "pause_before n = min (RECONNECT_INITIAL_BACKOFF_MS * 2 ^ n) RECONNECT_MAX_BACKOFF_MS"

lemma pause_before_Suc: "min (pause_before n * 2) RECONNECT_MAX_BACKOFF_MS = pause_before (Suc n)"
  by (simp add: pause_before_def min_def RECONNECT_MAX_BACKOFF_MS_def)

definition task_ok :: "reconnect_task \<Rightarrow> bool" where
  "task_ok t \<longleftrightarrow> rt_attempts t \<le> RECONNECT_MAX_ATTEMPTS
     \<and> (\<forall>until. rt_phase t = Sleeping until \<longrightarrow> rt_attempts t < RECONNECT_MAX_ATTEMPTS
          \<and> rt_backoff t = pause_before (rt_attempts t))"

definition tasks_inv :: "('w, 's) engine \<Rightarrow> bool" where
  "tasks_inv e \<longleftrightarrow> list_all task_ok (en_tasks e)"

lemma served_tasks: "served i e e' \<Longrightarrow> en_tasks e' = en_tasks e"
  by (auto simp: served_def answered_now_def evicted_def enqueued_def)

text \<open>What one step does to the tasks: nothing, one task starts, or one goes on.\<close>

definition task_moves :: "nat \<Rightarrow> reconnect_task \<Rightarrow> reconnect_task \<Rightarrow> bool" where
  "task_moves now t t' \<longleftrightarrow>
     (rt_attempts t' = rt_attempts t \<and> (\<forall>u. rt_phase t' \<noteq> Sleeping u))
   \<or> (\<exists>until \<le> now. rt_phase t = Sleeping until
        \<and> (rt_attempts t' = rt_attempts t + 1 \<and> (\<forall>u. rt_phase t' \<noteq> Sleeping u)
         \<or> t' = next_pause now (t\<lparr>rt_attempts := rt_attempts t + 1\<rparr>)))"

definition task_starts :: "nat \<Rightarrow> reconnect_task \<Rightarrow> bool" where
  "task_starts now t \<longleftrightarrow> rt_attempts t = 0 \<and> rt_backoff t = RECONNECT_INITIAL_BACKOFF_MS
     \<and> rt_phase t = Sleeping (now + RECONNECT_INITIAL_BACKOFF_MS)"

definition tasks_change :: "('w, 's) engine \<Rightarrow> ('w, 's) engine \<Rightarrow> bool" where
  "tasks_change e e' \<longleftrightarrow> en_now e \<le> en_now e' \<and> (en_tasks e' = en_tasks e
     \<or> (\<exists>t. en_tasks e' = en_tasks e @ [t] \<and> task_starts (en_now e) t)
     \<or> (\<exists>k t. k < length (en_tasks e) \<and> en_tasks e' = (en_tasks e)[k := t] \<and> task_moves (en_now e) (en_tasks e ! k) t))"

lemma tasks_change_none: "en_tasks e' = en_tasks e \<Longrightarrow> en_now e \<le> en_now e' \<Longrightarrow> tasks_change e e'"
  by (simp add: tasks_change_def)

lemma tasks_change_start:
  "en_tasks e1 = en_tasks e \<Longrightarrow> en_now e1 = en_now e \<Longrightarrow> tasks_change e (start_reconnect_backoff d vid pid path e1)"
  by (simp add: tasks_change_def start_reconnect_backoff_def Let_def task_starts_def)

lemma tasks_change_put:
  "k < length (en_tasks e) \<Longrightarrow> en_tasks e1 = en_tasks e \<Longrightarrow> en_now e1 = en_now e \<Longrightarrow> task_moves (en_now e) (en_tasks e ! k) t
    \<Longrightarrow> tasks_change e (put_task k t e1)"
  by (auto simp: tasks_change_def put_task_def)

lemma served_now: "served i e e' \<Longrightarrow> en_now e' = en_now e"
  by (auto simp: served_def answered_now_def evicted_def enqueued_def answer_def drop_device_def)

lemma now_simps [simp]:
  "en_now (announce ev e) = en_now e" "en_now (put_device d h e) = en_now e" "en_now (drop_device d e) = en_now e"
  "en_now (drop_reconnecting d e) = en_now e"
  by (simp_all add: announce_def put_device_def drop_device_def drop_reconnecting_def)

lemma tasks_change_command: "tasks_change e (handle_command cmd e)"
proof (cases rule: command_cases[of cmd])
  case (request i)
  from handle_command_served[OF this, of e] show ?thesis
    by (intro tasks_change_none) (auto dest: served_tasks served_now)
next
  case (connected d vid pid path)
  then show ?thesis
    by (cases rule: handle_connected_cases[of d vid pid path e]) (simp_all add: tasks_change_none tasks_change_start)
next
  case (disconnected d)
  then show ?thesis by (simp add: handle_disconnected_def Let_def tasks_change_none)
next
  case (failed d err)
  then show ?thesis
    by (simp add: handle_device_error_def Let_def tasks_change_none tasks_change_start split: option.split)
next
  case (reattached d h token)
  then show ?thesis by (simp add: handle_reattached_def tasks_change_none)
qed (simp add: tasks_change_none)

lemma tasks_change_attempt:
  assumes "k < length (en_tasks e)" and "en_tasks e ! k = t" and "rt_phase t = Sleeping until" and "until \<le> en_now e"
  shows "tasks_change e (attempt_reconnect k t e)"
proof -
  let ?t1 = "t\<lparr>rt_attempts := rt_attempts t + 1\<rparr>"
  have moves: "task_moves (en_now e) t (?t1\<lparr>rt_phase := x\<rparr>)" if "\<forall>u. x \<noteq> Sleeping u" for x
    using assms(3,4) that by (auto simp: task_moves_def)
  have again: "task_moves (en_now e) t (next_pause (en_now e) ?t1)"
    using assms(3,4) by (auto simp: task_moves_def)
  show ?thesis
  proof (cases "select_factory (en_table e) (rt_vendor_id t) (rt_product_id t)")
    case None
    then show ?thesis
      using assms(1,2) moves by (auto simp: attempt_reconnect_def Let_def intro!: tasks_change_put)
  next
    case (Some f)
    obtain r e1 where oa: "open_and_attach f (rt_device_id t) (rt_vendor_id t) (rt_product_id t) (rt_hidraw_path t) e = (r, e1)"
      by fastforce
    then have "en_tasks e1 = en_tasks e" "en_now e1 = en_now e" by (cases rule: open_and_attach_cases; simp)+
    with Some oa assms(1,2) moves again show ?thesis
      by (auto simp: attempt_reconnect_def Let_def intro!: tasks_change_put split: sum.split)
  qed
qed

lemma tasks_step:
  assumes "engine_step idle e lab e'"
  shows "tasks_change e e'"
  using assms
proof cases
  case (step_supervise cmd rest)
  have "tasks_change (e\<lparr>en_queue := rest\<rparr>) (supervise cmd (e\<lparr>en_queue := rest\<rparr>))"
    using tasks_change_command[of "e\<lparr>en_queue := rest\<rparr>" cmd]
    by (simp add: supervise_def) (simp add: stop_supervisor_def tasks_change_def)
  with step_supervise show ?thesis by (simp add: tasks_change_def)
next
  case (step_wake k t until)
  with tasks_change_attempt show ?thesis by blast
qed (auto simp: tasks_change_none put_worker_def apply_effects_def exit_worker_def report_and_exit_def check_cancelled_def
      send_reattached_def task_moves_def intro!: tasks_change_put)

lemma tasks_change_all:
  assumes "tasks_change e e'" and "list_all (P (en_now e)) (en_tasks e)"
    and "\<And>now t. now \<le> en_now e' \<Longrightarrow> P now t \<Longrightarrow> P (en_now e') t"
    and "\<And>t. task_starts (en_now e) t \<Longrightarrow> P (en_now e) t"
    and "\<And>t t'. P (en_now e) t \<Longrightarrow> task_moves (en_now e) t t' \<Longrightarrow> P (en_now e) t'"
  shows "list_all (P (en_now e')) (en_tasks e')"
proof -
  have now: "en_now e \<le> en_now e'" using assms(1) by (simp add: tasks_change_def)
  have "list_all (P (en_now e)) (en_tasks e')"
    using assms(1) unfolding tasks_change_def
  proof (elim conjE disjE exE)
    fix k t assume k: "k < length (en_tasks e)" "en_tasks e' = (en_tasks e)[k := t]" "task_moves (en_now e) (en_tasks e ! k) t"
    then have "P (en_now e) t" using assms(2,5) by (auto simp: list_all_length)
    then show ?thesis using assms(2) k(2) set_update_subset_insert[of "en_tasks e" k t] by (auto simp: list_all_iff)
  qed (use assms(2,4) in auto)
  with now assms(3) show ?thesis by (auto simp: list_all_iff)
qed

lemma next_pause_fields:
  "rt_attempts (next_pause now t) = rt_attempts t" "rt_backoff (next_pause now t) = min (rt_backoff t * 2) RECONNECT_MAX_BACKOFF_MS"
  "rt_phase (next_pause now t) = Sleeping u \<longleftrightarrow> rt_attempts t < RECONNECT_MAX_ATTEMPTS
     \<and> u = now + min (rt_backoff t * 2) RECONNECT_MAX_BACKOFF_MS"
  by (auto simp: next_pause_def Let_def)

lemma task_ok_moves: "task_ok t \<Longrightarrow> task_moves now t t' \<Longrightarrow> task_ok t'"
  by (auto simp: task_moves_def task_ok_def next_pause_fields pause_before_Suc)

lemma task_ok_starts: "task_starts now t \<Longrightarrow> task_ok t"
  by (simp add: task_starts_def task_ok_def pause_before_def RECONNECT_MAX_ATTEMPTS_def RECONNECT_INITIAL_BACKOFF_MS_def
      RECONNECT_MAX_BACKOFF_MS_def)

lemma tasks_inv_step:
  assumes "engine_step idle e lab e'" and "tasks_inv e"
  shows "tasks_inv e'"
  using tasks_change_all[where P = "\<lambda>_. task_ok", OF tasks_step[OF assms(1)]] assms(2) task_ok_moves task_ok_starts
  unfolding tasks_inv_def by blast

lemma tasks_inv_run:
  assumes "engine_run idle (engine_start ord table w) posted e"
  shows "tasks_inv e"
proof -
  have "tasks_inv (engine_start ord table w)" by (simp add: tasks_inv_def engine_start_def)
  from engine_run_invariant[where P = tasks_inv, OF assms this tasks_inv_step] show ?thesis .
qed

text \<open>The pauses of a task that started at \<open>s\<close>, at the time \<open>now\<close>.\<close>

definition paced :: "nat \<Rightarrow> nat \<Rightarrow> reconnect_task \<Rightarrow> bool" where
  "paced s now t \<longleftrightarrow> rt_attempts t \<le> RECONNECT_MAX_ATTEMPTS \<and> s + sum pause_before {..<rt_attempts t} \<le> now
     \<and> (\<forall>until. rt_phase t = Sleeping until \<longrightarrow> rt_attempts t < RECONNECT_MAX_ATTEMPTS
          \<and> rt_backoff t = pause_before (rt_attempts t) \<and> s + sum pause_before {..rt_attempts t} \<le> until
          \<and> until \<le> now + pause_before (rt_attempts t))"

lemma paced_moves: "paced s now t \<Longrightarrow> task_moves now t t' \<Longrightarrow> paced s now t'"
  by (auto simp: task_moves_def paced_def next_pause_fields pause_before_Suc lessThan_Suc_atMost)

lemma paced_starts: "s \<le> now \<Longrightarrow> task_starts now t \<Longrightarrow> paced s now t"
  by (simp add: task_starts_def paced_def pause_before_def RECONNECT_MAX_ATTEMPTS_def RECONNECT_INITIAL_BACKOFF_MS_def
      RECONNECT_MAX_BACKOFF_MS_def)

lemma paced_later: "paced s now t \<Longrightarrow> now \<le> now' \<Longrightarrow> paced s now' t"
  by (fastforce simp: paced_def)

text \<open>Tasks keep their places, so those of a run are the ones behind those there were.\<close>

lemma tasks_grow: "tasks_change e e' \<Longrightarrow> length (en_tasks e) \<le> length (en_tasks e')"
  by (auto simp: tasks_change_def)

lemma paced_change:
  assumes "tasks_change e e'" and "n \<le> length (en_tasks e)" and "s \<le> en_now e" and "list_all (paced s (en_now e)) (drop n (en_tasks e))"
  shows "list_all (paced s (en_now e')) (drop n (en_tasks e'))"
proof -
  have now: "en_now e \<le> en_now e'" using assms(1) by (simp add: tasks_change_def)
  have old: "\<forall>t \<in> set (drop n (en_tasks e)). paced s (en_now e) t" using assms(4) by (simp add: list_all_iff)
  have "list_all (paced s (en_now e)) (drop n (en_tasks e'))"
    using assms(1) unfolding tasks_change_def
  proof (elim conjE disjE exE)
    fix t assume "en_tasks e' = en_tasks e @ [t]" "task_starts (en_now e) t"
    then show ?thesis using assms(2,4) paced_starts[OF assms(3)] by simp
  next
    fix k t assume k: "k < length (en_tasks e)" "en_tasks e' = (en_tasks e)[k := t]" "task_moves (en_now e) (en_tasks e ! k) t"
    show ?thesis
    proof (cases "k < n")
      case True
      with k(2) assms(4) show ?thesis by simp
    next
      case False
      then have "drop n (en_tasks e) ! (k - n) = en_tasks e ! k" "k - n < length (drop n (en_tasks e))" using k(1) by simp_all
      then have "paced s (en_now e) (en_tasks e ! k)" using old nth_mem by metis
      then have "paced s (en_now e) t" using k(3) by (rule paced_moves)
      moreover have "drop n (en_tasks e') = (drop n (en_tasks e))[k - n := t]" using False k(2) by (simp add: drop_update_swap)
      ultimately show ?thesis using old set_update_subset_insert[of "drop n (en_tasks e)" "k - n" t] by (auto simp: list_all_iff)
    qed
  qed (use assms(4) in simp)
  with now show ?thesis by (auto simp: list_all_iff intro: paced_later)
qed

lemma paced_run:
  assumes "engine_run idle e1 posted e2"
  shows "length (en_tasks e1) \<le> length (en_tasks e2) \<and> en_now e1 \<le> en_now e2
    \<and> list_all (paced (en_now e1) (en_now e2)) (drop (length (en_tasks e1)) (en_tasks e2))"
  using assms
proof (induction rule: engine_run.induct)
  case (run_step e1 posted e cmd e')
  note change = tasks_step[OF run_step.hyps(2)]
  have "en_now e \<le> en_now e'" using change by (simp add: tasks_change_def)
  with run_step.IH tasks_grow[OF change] paced_change[OF change, of "length (en_tasks e1)" "en_now e1"] show ?case by auto
next
  case (run_silent e1 posted e e')
  note change = tasks_step[OF run_silent.hyps(2)]
  have "en_now e \<le> en_now e'" using change by (simp add: tasks_change_def)
  with run_silent.IH tasks_grow[OF change] paced_change[OF change, of "length (en_tasks e1)" "en_now e1"] show ?case by auto
qed simp

end
