(* ===== verification/Engine_Claims.thy ===== *)
theory Engine_Claims
  imports Engine_Census Engine_Bounds Engine_Presence
begin

text \<open>
  The properties of the engine over all its runs, and two races between a worker that retires and the
  commands around it. The witnesses run a small keyboard whose reads fail with \<open>Disconnected\<close>.
\<close>

section \<open>A keyboard for the witnesses\<close>

definition demo_ops :: "unit driver_ops" where
  "demo_ops = \<lparr>kd_get_matrix_dimensions = ok (2, 2), kd_get_layer_count = ok 1,
     kd_get_keycode = (\<lambda>_ _ _. throw Disconnected), kd_set_keycode = (\<lambda>_ _ _ _. ok ()),
     kd_get_macro_buffer = (\<lambda>_ _. ok []), kd_set_macro_buffer = (\<lambda>_ _. ok ()),
     kd_get_lighting = (\<lambda>_ _. ok []), kd_set_lighting = (\<lambda>_ _ _. ok ()), kd_commit_to_nvram = ok (),
     kd_emits_layout_event_per_set = (\<lambda>_. True), kd_model_name = (\<lambda>_. ''demo'')\<rparr>"

definition demo_table :: "(unit, unit) driver_table" where
  "demo_table = \<lparr>dt_by_vid_pid = (\<lambda>_. None),
     dt_via_fallback = Some (\<lambda>_ w. (Inr \<lparr>bx_ops = demo_ops, bx_state = ()\<rparr>, w))\<rparr>"

definition demo_start :: "(unit, unit) engine" where
  "demo_start = engine_start id demo_table ()"

abbreviation demo_run :: "engine_command list \<Rightarrow> (unit, unit) engine \<Rightarrow> bool" where
  "demo_run \<equiv> engine_run (\<lambda>_ _. False) (engine_start id demo_table ())"

definition demo_handle :: "nat \<Rightarrow> device_handle" where
  "demo_handle c = \<lparr>dh_topology = \<lparr>dt_matrix = \<lparr>km_rows = 2, km_cols = 2\<rparr>, dt_layer_count = 1\<rparr>, dh_model = ''demo'',
     dh_tx = c, dh_vendor_id = 1, dh_product_id = 2, dh_hidraw_path = ''p''\<rparr>"

text \<open>The steps of a run, forwards.\<close>

definition posted_to :: "engine_command \<Rightarrow> ('w, 's) engine \<Rightarrow> ('w, 's) engine" where
  "posted_to cmd e = e\<lparr>en_queue := en_queue e @ [cmd]\<rparr>"

definition supervised :: "('w, 's) engine \<Rightarrow> ('w, 's) engine" where
  "supervised e = supervise (hd (en_queue e)) (e\<lparr>en_queue := tl (en_queue e)\<rparr>)"

definition received :: "nat \<Rightarrow> ('w, 's) engine \<Rightarrow> ('w, 's) engine" where
  "received c e = put_worker c (tl (ch_queue (en_channels e ! c)))
     (worker_handle (en_now e) (hd (ch_queue (en_channels e ! c))) (ch_worker (en_channels e ! c))) e"

definition reported :: "nat \<Rightarrow> ('w, 's) engine \<Rightarrow> ('w, 's) engine" where
  "reported c e = report_and_exit c (ch_worker (en_channels e ! c)) e"

lemma run_posted:
  "engine_run idle s posted e \<Longrightarrow> en_running e \<Longrightarrow> has_room e \<Longrightarrow> external cmd \<Longrightarrow>
    engine_run idle s (posted @ [cmd]) (posted_to cmd e)"
  unfolding posted_to_def by (rule run_step[OF _ step_post])

lemma run_supervised:
  "engine_run idle s posted e \<Longrightarrow> en_running e \<Longrightarrow> en_queue e \<noteq> [] \<Longrightarrow> engine_run idle s posted (supervised e)"
  unfolding supervised_def by (rule run_silent[OF _ step_supervise]) simp_all

lemma run_received:
  "engine_run idle s posted e \<Longrightarrow> c < length (en_channels e) \<Longrightarrow> wk_phase (ch_worker (en_channels e ! c)) = Running \<Longrightarrow>
    ch_queue (en_channels e ! c) \<noteq> [] \<Longrightarrow> engine_run idle s posted (received c e)"
  unfolding received_def by (rule run_silent[OF _ step_recv[OF _ refl]]) simp_all

lemma run_reported:
  "engine_run idle s posted e \<Longrightarrow> c < length (en_channels e) \<Longrightarrow> wk_phase (ch_worker (en_channels e ! c)) = Reporting \<Longrightarrow>
    \<not> en_running e \<or> has_room e \<Longrightarrow> engine_run idle s posted (reported c e)"
  unfolding reported_def by (rule run_silent[OF _ step_report[OF _ refl]]) simp_all

abbreviation demo_connect :: engine_command where "demo_connect \<equiv> DeviceConnected ''k'' 1 2 ''p''"
abbreviation demo_get :: "reply_id \<Rightarrow> engine_command" where "demo_get i \<equiv> CmdGetKeycode ''k'' 0 0 0 i"

definition demo_attached :: "(unit, unit) engine" where
  "demo_attached = supervised (posted_to demo_connect demo_start)"

text \<open>The worker has failed a read and awaits to report it.\<close>

definition demo_failing :: "(unit, unit) engine" where
  "demo_failing = received 0 (supervised (posted_to (demo_get 7) demo_attached))"

lemmas demo_steps = posted_to_def supervised_def supervise_def received_def reported_def report_and_exit_def
  exit_worker_def put_worker_def apply_effects_def handle_connected_def handle_disconnected_def Let_def
  open_and_attach_def run_factory_def attach_device_def select_factory_def worker_start_def answer_op_def
  call_driver_def map_driver_err_def retire_if_def ok_def throw_def dispatch_get_def dispatch_key_op_def
  send_to_worker_def try_send_def topology_contains_def matrix_contains_def WORKER_CHANNEL_CAPACITY_def
  announce_def put_device_def drop_device_def drop_reconnecting_def devices_def

lemma demo_attached_state:
  "demo_attached = demo_start\<lparr>en_registry := (en_registry demo_start)\<lparr>rg_devices := hm_insert ''k'' (demo_handle 0) (hm_new id),
       rg_reconnecting := hm_remove ''k'' (hm_new id)\<rparr>,
     en_channels := [\<lparr>ch_queue = [], ch_worker = worker_start ''k'' \<lparr>bx_ops = demo_ops, bx_state = ()\<rparr>\<rparr>],
     en_events := [DeviceAdded ''k'']\<rparr>"
  by (simp add: demo_attached_def demo_start_def engine_start_def demo_table_def demo_ops_def demo_handle_def demo_steps)

lemma demo_failing_state:
  "demo_failing = demo_attached\<lparr>
     en_channels := [\<lparr>ch_queue = [], ch_worker = (worker_start ''k'' \<lparr>bx_ops = demo_ops, bx_state = ()\<rparr>)\<lparr>wk_phase := Reporting\<rparr>\<rparr>],
     en_answers := [(7, AnsU16 (Inl (Driver Disconnected)))]\<rparr>"
  by (simp add: demo_failing_def demo_attached_state demo_start_def engine_start_def demo_handle_def demo_ops_def demo_steps)


lemma demo_run_attached: "demo_run [demo_connect] demo_attached"
  unfolding demo_attached_def demo_start_def
  by (rule run_supervised, rule run_posted[where posted = "[]", simplified], rule run_start)
     (simp_all add: engine_start_def has_room_def ENGINE_CHANNEL_CAPACITY_def posted_to_def)

lemma demo_run_failing: "demo_run [demo_connect, demo_get 7] demo_failing"
proof -
  let ?e1 = "posted_to (demo_get 7) demo_attached"
  have 1: "demo_run [demo_connect, demo_get 7] ?e1"
    by (rule run_posted[OF demo_run_attached, simplified])
       (simp_all add: demo_attached_state demo_start_def engine_start_def has_room_def ENGINE_CHANNEL_CAPACITY_def)
  have 2: "demo_run [demo_connect, demo_get 7] (supervised ?e1)"
    by (rule run_supervised[OF 1]) (simp_all add: posted_to_def demo_attached_state demo_start_def engine_start_def)
  show ?thesis
    unfolding demo_failing_def
    by (rule run_received[OF 2])
       (simp_all add: demo_attached_state demo_start_def engine_start_def demo_handle_def demo_steps)
qed

section \<open>Invariants of every run\<close>

text \<open>C7. Every reply channel has exactly one fate: at every moment the identifiers that came in with the
  posted commands are, with their multiplicity, those waiting in the engine queue or in a worker's
  queue together with those answered or dropped; so none is answered twice, and none is lost. A step of the
  daemon drops no reply unanswered, unless a worker that reports a fatal error exits, when it drops
  those of the operations in its queue, or the supervisor takes \<open>Shutdown\<close>, when it drops those of the
  commands behind it.\<close>

theorem reply_channels_have_one_fate:
  assumes "engine_run idle (engine_start ord table w) posted e"
  shows "mset (map fst (en_answers e)) + mset (en_dropped e) + waiting_ids e = command_ids posted
    \<and> (\<forall>lab e'. engine_step idle e lab e' \<longrightarrow> en_dropped e' = en_dropped e
       \<or> (\<exists>c < length (en_channels e). wk_phase (ch_worker (en_channels e ! c)) = Reporting
            \<and> wk_phase (ch_worker (en_channels e' ! c)) = Exited
            \<and> en_dropped e' = en_dropped e @ map reply_of (ch_queue (en_channels e ! c)))
       \<or> (\<exists>rest. en_queue e = Shutdown # rest \<and> \<not> en_running e'
            \<and> en_dropped e' = en_dropped e @ concat (map replies_of_command rest)))"
  using census_run[OF assms] drops_step[of idle e]
  by (auto simp: census_def settled_ids_def drops_nothing_def drops_of_worker_def drops_of_shutdown_def ac_simps)

text \<open>Two reads are queued, the first fails fatally, and the exit of the worker drops the second.\<close>

definition demo_backlog :: "(unit, unit) engine" where
  "demo_backlog = received 0 (supervised (supervised (posted_to (demo_get 8) (posted_to (demo_get 7) demo_attached))))"

lemma demo_backlog_state:
  "demo_backlog = demo_attached\<lparr>
     en_channels := [\<lparr>ch_queue = [WGetKeycode 0 0 0 8],
       ch_worker = (worker_start ''k'' \<lparr>bx_ops = demo_ops, bx_state = ()\<rparr>)\<lparr>wk_phase := Reporting\<rparr>\<rparr>],
     en_answers := [(7, AnsU16 (Inl (Driver Disconnected)))]\<rparr>"
  by (simp add: demo_backlog_def demo_attached_state demo_start_def engine_start_def demo_handle_def demo_ops_def demo_steps)

lemma demo_run_backlog: "demo_run [demo_connect, demo_get 7, demo_get 8] demo_backlog"
proof -
  let ?e1 = "posted_to (demo_get 7) demo_attached"
  let ?e2 = "posted_to (demo_get 8) ?e1"
  note state = posted_to_def demo_attached_state demo_start_def engine_start_def has_room_def ENGINE_CHANNEL_CAPACITY_def
  have 1: "demo_run [demo_connect, demo_get 7] ?e1"
    by (rule run_posted[OF demo_run_attached, simplified]) (simp_all add: state)
  have 2: "demo_run [demo_connect, demo_get 7, demo_get 8] ?e2"
    by (rule run_posted[OF 1, simplified]) (simp_all add: state)
  have 3: "demo_run [demo_connect, demo_get 7, demo_get 8] (supervised ?e2)" by (rule run_supervised[OF 2]) (simp_all add: state)
  have 4: "demo_run [demo_connect, demo_get 7, demo_get 8] (supervised (supervised ?e2))"
    by (rule run_supervised[OF 3]) (simp_all add: state demo_handle_def demo_steps)
  show ?thesis
    unfolding demo_backlog_def
    by (rule run_received[OF 4])
       (simp_all add: demo_attached_state demo_start_def engine_start_def demo_handle_def demo_steps)
qed

theorem reply_channels_have_one_fate_witness:
  "mset (map fst (en_answers demo_backlog)) + mset (en_dropped demo_backlog) + waiting_ids demo_backlog = {#7, 8#}
    \<and> en_answers demo_backlog = [(7, AnsU16 (Inl (Driver Disconnected)))]
    \<and> (\<exists>e. engine_step (\<lambda>_ _. False) demo_backlog None e \<and> en_dropped e = [8])"
proof -
  have "engine_step (\<lambda>_ _. False) demo_backlog None (reported 0 demo_backlog)"
    unfolding reported_def by (rule step_report[OF _ refl])
      (simp_all add: demo_backlog_state demo_attached_state demo_start_def engine_start_def has_room_def ENGINE_CHANNEL_CAPACITY_def)
  moreover have "en_dropped (reported 0 demo_backlog) = [8]"
    by (simp add: demo_backlog_state demo_attached_state demo_start_def engine_start_def demo_steps)
  ultimately show ?thesis
    using reply_channels_have_one_fate[OF demo_run_backlog] by (auto simp: demo_backlog_state add_mset_commute)
qed

lemma registry_or_backoff:
  assumes "engine_run idle (engine_start ord table w) posted e" and "reorders ord"
  shows "devices e d = None \<or> reconnecting e d = None"
proof -
  have "registry_inv (engine_start ord table w)"
    using assms(2) by (simp add: registry_inv_def engine_start_def devices_def reconnecting_def)
  from engine_run_invariant[where P = registry_inv, OF assms(1) this] registry_inv_step
  have "registry_inv e" by blast
  then show ?thesis by (auto simp: registry_inv_def)
qed

text \<open>C16. A device is never registered and being reconnected at the same time: whatever the order of hot-plug
  events, worker reports and reattachments, an identifier with a handle has no reconnect entry.\<close>

theorem registry_and_backoff_exclude_each_other:
  assumes "engine_run idle (engine_start ord table w) posted e" and "reorders ord"
  shows "devices e d = None \<or> reconnecting e d = None"
  by (rule registry_or_backoff[OF assms])

theorem registry_and_backoff_exclude_each_other_witness:
  "devices demo_attached ''k'' = Some (demo_handle 0) \<and> reconnecting demo_attached ''k'' = None"
  using registry_and_backoff_exclude_each_other[OF demo_run_attached, of "''k''"]
  by (simp add: reorders_def demo_attached_state devices_def demo_start_def engine_start_def)

text \<open>The channels never hold more than their capacity.\<close>

lemma queues_stay_bounded:
  assumes "engine_run idle (engine_start ord table w) posted e"
  shows "length (en_queue e) \<le> 32 \<and> list_all (\<lambda>ch. length (ch_queue ch) \<le> 16) (en_channels e)"
proof -
  have "within_capacity (engine_start ord table w)" by (simp add: within_capacity_def engine_start_def)
  from engine_run_invariant[where P = within_capacity, OF assms this within_capacity_step] show ?thesis
    by (simp add: within_capacity_def ENGINE_CHANNEL_CAPACITY_def WORKER_CHANNEL_CAPACITY_def)
qed

text \<open>C9. No driver is asked for a key it does not have. For every registered device there is a driver that the
  factory of its vendor and product id opened on its node, that answered the matrix query with \<open>rows\<close> and
  \<open>cols\<close> and then the layer query with \<open>layers\<close>, and whose operations the worker behind the handle runs; these
  numbers are the topology of the handle; and every read or write of a key that waits in the queue of this worker names a layer below
  \<open>layers\<close>, a row below \<open>rows\<close> and a column below \<open>cols\<close>.\<close>

fun key_named :: "worker_op \<Rightarrow> (u8 \<times> u8 \<times> u8) option" where
  "key_named (WGetKeycode l r c _) = Some (l, r, c)"
| "key_named (WSetKeycode l r c _ _) = Some (l, r, c)"
| "key_named _ = None"

lemma op_fits_named: "op_fits t op \<Longrightarrow> key_named op = Some (l, r, c) \<Longrightarrow> topology_contains t l r c"
  by (cases op) auto

theorem queued_keys_are_in_bounds:
  assumes "engine_run idle (engine_start ord table w0) posted e" and "devices e d = Some h"
    and "ch = en_channels e ! dh_tx h"
  shows "dh_tx h < length (en_channels e) \<and> (\<exists>factory w w' b s1 s2 rows cols layers.
      select_factory (en_table e) (dh_vendor_id h) (dh_product_id h) = Some factory
    \<and> factory (dh_hidraw_path h) w = (Inr b, w') \<and> bx_ops b = bx_ops (wk_driver (ch_worker ch))
    \<and> kd_get_matrix_dimensions (bx_ops b) (bx_state b) = (Inr (rows, cols), s1)
    \<and> kd_get_layer_count (bx_ops b) s1 = (Inr layers, s2)
    \<and> dh_topology h = \<lparr>dt_matrix = \<lparr>km_rows = rows, km_cols = cols\<rparr>, dt_layer_count = layers\<rparr>
    \<and> (\<forall>op l r c. op \<in> set (ch_queue ch) \<and> key_named op = Some (l, r, c) \<longrightarrow> l < layers \<and> r < rows \<and> c < cols))"
proof -
  obtain T where T: "fits T e" "senders_inv e" using bounds_inv_run[OF assms(1)] by (auto simp: bounds_inv_def)
  have h: "h \<in> handles e" using assms(2) by (auto simp: handles_iff ran_def)
  with T have at: "dh_tx h < length (en_channels e)" "T (dh_tx h) = dh_topology h" and
    rep: "reported_by (en_table e) h (bx_ops (wk_driver (ch_worker ch)))"
    by (auto simp: senders_inv_def fits_def ops_of_def assms(3))
  from rep obtain factory w w' b s1 s2 rows cols layers where drv:
      "select_factory (en_table e) (dh_vendor_id h) (dh_product_id h) = Some factory"
      "factory (dh_hidraw_path h) w = (Inr b, w')" "bx_ops b = bx_ops (wk_driver (ch_worker ch))"
      "kd_get_matrix_dimensions (bx_ops b) (bx_state b) = (Inr (rows, cols), s1)" "kd_get_layer_count (bx_ops b) s1 = (Inr layers, s2)"
      and top: "dh_topology h = \<lparr>dt_matrix = \<lparr>km_rows = rows, km_cols = cols\<rparr>, dt_layer_count = layers\<rparr>"
    unfolding reported_by_def topology_of_driver_def by blast
  have "list_all (op_fits (T (dh_tx h))) (queue_of e (dh_tx h))" using T(1) by (simp add: fits_def)
  with at have "op_fits (dh_topology h) op" if "op \<in> set (ch_queue ch)" for op
    using that by (simp add: queue_of_def list_all_iff assms(3))
  then have "l < layers \<and> r < rows \<and> c < cols" if "op \<in> set (ch_queue ch)" "key_named op = Some (l, r, c)" for op l r c
    using op_fits_named[of "dh_topology h" op] that top by (simp add: topology_contains_def matrix_contains_def)
  with at(1) drv top show ?thesis by blast
qed

text \<open>The second read is in the queue.\<close>

theorem queued_keys_are_in_bounds_witness:
  "WGetKeycode 0 0 0 8 \<in> set (ch_queue (en_channels demo_backlog ! dh_tx (demo_handle 0)))
    \<and> (\<exists>s s1 s2 rows cols layers. kd_get_matrix_dimensions demo_ops s = (Inr (rows, cols), s1)
         \<and> kd_get_layer_count demo_ops s1 = (Inr layers, s2) \<and> 0 < rows \<and> 0 < cols \<and> 0 < layers)"
proof -
  have h: "devices demo_backlog ''k'' = Some (demo_handle 0)"
    and ch: "en_channels demo_backlog ! dh_tx (demo_handle 0) = \<lparr>ch_queue = [WGetKeycode 0 0 0 8],
       ch_worker = (worker_start ''k'' \<lparr>bx_ops = demo_ops, bx_state = ()\<rparr>)\<lparr>wk_phase := Reporting\<rparr>\<rparr>"
    by (simp_all add: demo_backlog_state demo_attached_state devices_def demo_start_def engine_start_def demo_handle_def)
  from queued_keys_are_in_bounds[OF demo_run_backlog h refl] show ?thesis
    unfolding ch by (auto simp: worker_start_def)
qed

text \<open>C17. The lifecycle signals are consistent: for every device a removal is announced only after an addition
  that no removal followed, and a registered device is always one whose last presence signal was an
  addition, so a listener never takes a usable device for absent.\<close>

theorem presence_signals_are_consistent:
  assumes "engine_run idle (engine_start ord table w) posted e"
  shows "heard d (en_events e) \<noteq> None \<and> (devices e d \<noteq> None \<longrightarrow> heard d (en_events e) = Some True)"
  using presence_inv_run[OF assms] by (simp add: presence_inv_def)

theorem presence_signals_are_consistent_witness:
  "heard ''k'' (en_events demo_failing) = Some True \<and> devices demo_failing ''k'' \<noteq> None"
  using presence_signals_are_consistent[OF demo_run_failing, of "''k''"]
  by (simp add: demo_failing_state demo_attached_state devices_def demo_start_def engine_start_def)

text \<open>C18. Reconnection backs off and ends. Between two moments of a run, a task that started in between has made
  at most eight attempts, and before the first, the second and every further attempt it has slept at
  least 100, 200, 400, 800, 1600, 3200, 5000 and 5000 ms; while it sleeps, an attempt is left, and it
  wakes when the pauses up to this one are over and no later than this pause from now.\<close>

definition reconnect_pauses :: "nat list" where
  "reconnect_pauses = [100, 200, 400, 800, 1600, 3200, 5000, 5000]"

lemma reconnect_pauses: "reconnect_pauses = map pause_before [0..<8]"
  by (simp add: reconnect_pauses_def pause_before_def RECONNECT_INITIAL_BACKOFF_MS_def RECONNECT_MAX_BACKOFF_MS_def upt_rec)

lemma sum_of_pauses: "n \<le> 8 \<Longrightarrow> sum_list (take n reconnect_pauses) = sum pause_before {..<n}"
  by (simp add: reconnect_pauses take_map interv_sum_list_conv_sum_set_nat atLeast0LessThan)

theorem reconnection_is_bounded:
  assumes "engine_run idle e1 posted e2" and "length (en_tasks e1) \<le> k" and "k < length (en_tasks e2)"
    and "t = en_tasks e2 ! k"
  shows "rt_attempts t \<le> 8 \<and> en_now e1 + sum_list (take (rt_attempts t) reconnect_pauses) \<le> en_now e2
    \<and> (\<forall>until. rt_phase t = Sleeping until \<longrightarrow> rt_attempts t < 8
         \<and> en_now e1 + sum_list (take (rt_attempts t + 1) reconnect_pauses) \<le> until
         \<and> until \<le> en_now e2 + reconnect_pauses ! rt_attempts t)"
proof -
  have "list_all (paced (en_now e1) (en_now e2)) (drop (length (en_tasks e1)) (en_tasks e2))"
    using paced_run[OF assms(1)] by blast
  moreover have "drop (length (en_tasks e1)) (en_tasks e2) ! (k - length (en_tasks e1)) \<in> set (drop (length (en_tasks e1)) (en_tasks e2))"
    using assms(2,3) by (intro nth_mem) simp
  then have "t \<in> set (drop (length (en_tasks e1)) (en_tasks e2))" using assms(2-4) by simp
  ultimately have t: "paced (en_now e1) (en_now e2) t" by (simp add: list_all_iff)
  then have n: "rt_attempts t \<le> 8" by (simp add: paced_def RECONNECT_MAX_ATTEMPTS_def)
  from t have "rt_phase t = Sleeping until \<longrightarrow> rt_attempts t < 8
      \<and> en_now e1 + sum_list (take (rt_attempts t + 1) reconnect_pauses) \<le> until
      \<and> until \<le> en_now e2 + reconnect_pauses ! rt_attempts t" for until
    by (auto simp: paced_def RECONNECT_MAX_ATTEMPTS_def sum_of_pauses lessThan_Suc_atMost)
       (simp_all add: reconnect_pauses)
  with t n show ?thesis by (simp add: paced_def sum_of_pauses)
qed

definition demo_absent_table :: "(unit, unit) driver_table" where
  "demo_absent_table = \<lparr>dt_by_vid_pid = (\<lambda>_. None), dt_via_fallback = Some (\<lambda>_ w. (Inl (Driver Disconnected), w))\<rparr>"

text \<open>A keyboard that cannot be opened is tried again after 100 ms, and then a pause of 200 ms begins.\<close>

theorem reconnection_is_bounded_witness:
  "\<exists>(e :: (unit, unit) engine) t. en_tasks e = [t] \<and> rt_phase t = Sleeping 300 \<and> rt_attempts t = 1
    \<and> 100 \<le> en_now e \<and> 300 \<le> en_now e + 200"
proof -
  let ?s = "engine_start id demo_absent_table ()"
  let ?e1 = "supervised (posted_to demo_connect ?s)"
  let ?e2 = "attempt_reconnect 0 (en_tasks ?e1 ! 0) (?e1\<lparr>en_now := 100\<rparr>)"
  have "engine_run (\<lambda>_ _. False) ?s [demo_connect] ?e1"
    by (rule run_supervised, rule run_posted[where posted = "[]", simplified], rule run_start)
       (simp_all add: engine_start_def has_room_def ENGINE_CHANNEL_CAPACITY_def posted_to_def)
  moreover have e1: "?e1 = ?s\<lparr>en_registry := en_registry ?e1, en_tasks := [reconnect_task_start ''k'' 1 2 ''p'' 0 0]\<rparr>"
    by (simp add: engine_start_def demo_absent_table_def demo_steps start_reconnect_backoff_def RECONNECT_INITIAL_BACKOFF_MS_def)
  then have wake: "0 < length (en_tasks ?e1)" "rt_phase (en_tasks ?e1 ! 0) = Sleeping 100" "en_now ?e1 = 0"
    by (simp_all add: demo_absent_table_def demo_steps start_reconnect_backoff_def RECONNECT_INITIAL_BACKOFF_MS_def engine_start_def)
  ultimately have "engine_run (\<lambda>_ _. False) ?s [demo_connect] (?e1\<lparr>en_now := 100\<rparr>)"
    by (intro run_silent[OF _ step_elapse]) simp_all
  then have run: "engine_run (\<lambda>_ _. False) ?s [demo_connect] ?e2"
    by (rule run_silent[OF _ step_wake[OF _ _ wake(2)]]) (use wake in simp_all)
  have t: "en_tasks ?e2 = [(reconnect_task_start ''k'' 1 2 ''p'' 0 0)\<lparr>rt_attempts := 1, rt_backoff := 200, rt_phase := Sleeping 300\<rparr>]"
    "en_now ?e2 = 100" "en_tasks ?s = []" "en_now ?s = 0"
    by (simp_all add: engine_start_def demo_absent_table_def demo_steps start_reconnect_backoff_def attempt_reconnect_def
        put_task_def next_pause_def RECONNECT_INITIAL_BACKOFF_MS_def RECONNECT_MAX_BACKOFF_MS_def RECONNECT_MAX_ATTEMPTS_def)
  from reconnection_is_bounded[OF run, of 0 "en_tasks ?e2 ! 0"] t show ?thesis
    by (intro exI[of _ ?e2] exI[of _ "en_tasks ?e2 ! 0"]) (simp add: reconnect_pauses_def)
qed

section \<open>Two races\<close>

text \<open>C23. A request that overtakes the report of a dead worker makes the device vanish: the request finds the
  worker's channel closed and drops the handle without a signal, so the report that follows finds no
  handle. In the end the device is neither registered nor being reconnected, no reconnect task was
  started, the client is told that there is no such device, and every listener still takes it for present.\<close>

theorem eviction_swallows_the_retirement:
  assumes "engine_run idle (engine_start ord table w) posted e" and "reorders ord" and "en_running e"
    and "en_queue e = [CmdGetKeycode d l r c i, DeviceError d err]"
    and "devices e d = Some h" and "topology_contains (dh_topology h) l r c"
    and "wk_phase (ch_worker (en_channels e ! dh_tx h)) = Exited"
  shows "\<exists>e'. engine_run idle (engine_start ord table w) posted e' \<and> en_queue e' = []
    \<and> devices e' d = None \<and> reconnecting e' d = None \<and> en_tasks e' = en_tasks e
    \<and> en_answers e' = en_answers e @ [(i, AnsU16 (Inl (DeviceNotFound d)))]
    \<and> heard d (en_events e') = Some True"
proof -
  let ?e1 = "supervised e" and ?e2 = "supervised (supervised e)"
  have 1: "?e1 = (drop_device d (e\<lparr>en_queue := [DeviceError d err]\<rparr>))
      \<lparr>en_answers := en_answers e @ [(i, AnsU16 (Inl (DeviceNotFound d)))]\<rparr>"
    using assms(4-7)
    by (simp add: supervised_def supervise_def dispatch_get_def dispatch_key_op_def send_to_worker_def try_send_def
        Let_def answer_all_def reply_with_error_def drop_device_def)
  have "?e2 = supervise (hd (en_queue ?e1)) (?e1\<lparr>en_queue := tl (en_queue ?e1)\<rparr>)" by (rule supervised_def)
  then have 2: "?e2 = ?e1\<lparr>en_queue := []\<rparr>"
    by (simp add: 1 supervise_def handle_device_error_def)
  have "engine_run idle (engine_start ord table w) posted ?e2"
    by (intro run_supervised assms(1,3)) (use assms(3,4) in \<open>simp_all add: 1, simp_all add: drop_device_def\<close>)
  moreover have "devices ?e2 d = None" unfolding 2 unfolding 1 by simp
  moreover have "reconnecting ?e2 d = None"
    using registry_or_backoff[OF assms(1,2), of d] assms(5) unfolding 2 unfolding 1 by simp
  moreover have "heard d (en_events ?e2) = Some True"
    using presence_inv_run[OF assms(1)] assms(5) unfolding 2 unfolding 1 by (simp add: presence_inv_def)
  moreover have "en_queue ?e2 = [] \<and> en_tasks ?e2 = en_tasks e
      \<and> en_answers ?e2 = en_answers e @ [(i, AnsU16 (Inl (DeviceNotFound d)))]"
    unfolding 2 unfolding 1 by simp
  ultimately show ?thesis by blast
qed

definition demo_overtaken :: "(unit, unit) engine" where
  "demo_overtaken = reported 0 (posted_to (demo_get 8) demo_failing)"

lemma demo_overtaken_state:
  "demo_overtaken = demo_failing\<lparr>en_queue := [demo_get 8, DeviceError ''k'' (Driver Disconnected)],
     en_channels := [\<lparr>ch_queue = [], ch_worker = (worker_start ''k'' \<lparr>bx_ops = demo_ops, bx_state = ()\<rparr>)\<lparr>wk_phase := Exited\<rparr>\<rparr>]\<rparr>"
  by (simp add: demo_overtaken_def demo_failing_state demo_attached_state demo_start_def engine_start_def demo_steps worker_report_def)

lemma demo_run_overtaken: "demo_run [demo_connect, demo_get 7, demo_get 8] demo_overtaken"
  unfolding demo_overtaken_def
  by (rule run_reported, rule run_posted[OF demo_run_failing, simplified])
     (simp_all add: posted_to_def demo_failing_state demo_attached_state demo_start_def engine_start_def has_room_def
        ENGINE_CHANNEL_CAPACITY_def)

theorem eviction_swallows_the_retirement_witness:
  "\<exists>e'. demo_run [demo_connect, demo_get 7, demo_get 8] e' \<and> devices e' ''k'' = None \<and> reconnecting e' ''k'' = None
    \<and> en_tasks e' = [] \<and> heard ''k'' (en_events e') = Some True"
proof -
  have "devices demo_overtaken ''k'' = Some (demo_handle 0)" "en_running demo_overtaken" "en_tasks demo_overtaken = []"
    "en_queue demo_overtaken = [demo_get 8, DeviceError ''k'' (Driver Disconnected)]"
    "wk_phase (ch_worker (en_channels demo_overtaken ! dh_tx (demo_handle 0))) = Exited"
    "topology_contains (dh_topology (demo_handle 0)) 0 0 0"
    by (simp_all add: demo_overtaken_state demo_failing_state demo_attached_state demo_start_def engine_start_def
        devices_def demo_handle_def topology_contains_def matrix_contains_def)
  with eviction_swallows_the_retirement[OF demo_run_overtaken, of "''k''" 0 0 0 8 "Driver Disconnected" "demo_handle 0"]
  show ?thesis by (auto simp: reorders_def)
qed

text \<open>C24. A stale report evicts a healthy keyboard: a report of a retired worker that is still queued when its
  device was removed and attached again carries nothing that tells the two workers apart. Handling it
  drops the handle of the new worker and announces a removal, although that worker runs; when the report
  is a disconnection, a reconnect task is started for a device that is there.\<close>

theorem stale_report_evicts_a_live_worker:
  assumes "engine_run idle (engine_start ord table w) posted e" and "en_running e"
    and "en_queue e = [DeviceError d err]" and "devices e d = Some h"
    and "wk_phase (ch_worker (en_channels e ! dh_tx h)) = Running"
  shows "\<exists>e'. engine_run idle (engine_start ord table w) posted e' \<and> devices e' d = None
    \<and> en_events e' = en_events e @ [DeviceRemoved d]
    \<and> wk_phase (ch_worker (en_channels e' ! dh_tx h)) = Running
    \<and> (err = Driver Disconnected \<longrightarrow> reconnecting e' d = Some (rg_next_token (en_registry e)))"
proof -
  let ?e1 = "announce (DeviceRemoved d) (drop_device d (e\<lparr>en_queue := []\<rparr>))"
  have 1: "supervised e = (if err = Driver Disconnected
      then start_reconnect_backoff d (dh_vendor_id h) (dh_product_id h) (dh_hidraw_path h) ?e1 else ?e1)"
    using assms(3,4) by (simp add: supervised_def supervise_def handle_device_error_def Let_def)
  have "engine_run idle (engine_start ord table w) posted (supervised e)"
    by (rule run_supervised[OF assms(1,2)]) (simp add: assms(3))
  then show ?thesis
    by (intro exI[of _ "supervised e"]) (simp add: 1 assms(5), simp add: drop_device_def announce_def)
qed


text \<open>The old worker fails its read, the device is unplugged and plugged in again, and only then does the
  worker get its report through.\<close>

definition demo_replugged :: "(unit, unit) engine" where
  "demo_replugged = supervised (supervised (reported 0
     (posted_to demo_connect (posted_to (DeviceDisconnected ''k'') demo_failing))))"

lemma demo_replugged_state:
  "en_running demo_replugged" "en_queue demo_replugged = [DeviceError ''k'' (Driver Disconnected)]"
  "devices demo_replugged ''k'' = Some (demo_handle 1)"
  "wk_phase (ch_worker (en_channels demo_replugged ! 1)) = Running"
  by (simp_all add: demo_replugged_def demo_failing_state demo_attached_state demo_start_def engine_start_def
      demo_table_def demo_ops_def demo_handle_def demo_steps worker_report_def)

lemma demo_run_replugged:
  "demo_run [demo_connect, demo_get 7, DeviceDisconnected ''k'', demo_connect] demo_replugged"
proof -
  let ?e1 = "posted_to (DeviceDisconnected ''k'') demo_failing"
  let ?e2 = "posted_to demo_connect ?e1"
  have 1: "demo_run [demo_connect, demo_get 7, DeviceDisconnected ''k''] ?e1"
    by (rule run_posted[OF demo_run_failing, simplified])
       (simp_all add: demo_failing_state demo_attached_state demo_start_def engine_start_def has_room_def ENGINE_CHANNEL_CAPACITY_def)
  have 2: "demo_run [demo_connect, demo_get 7, DeviceDisconnected ''k'', demo_connect] ?e2"
    by (rule run_posted[OF 1, simplified])
       (simp_all add: posted_to_def demo_failing_state demo_attached_state demo_start_def engine_start_def has_room_def ENGINE_CHANNEL_CAPACITY_def)
  show ?thesis
    unfolding demo_replugged_def
    by (intro run_supervised run_reported[OF 2])
       (simp_all add: demo_failing_state demo_attached_state demo_start_def engine_start_def demo_steps has_room_def
          ENGINE_CHANNEL_CAPACITY_def)
qed

theorem stale_report_evicts_a_live_worker_witness:
  "\<exists>e'. demo_run [demo_connect, demo_get 7, DeviceDisconnected ''k'', demo_connect] e' \<and> devices e' ''k'' = None
    \<and> wk_phase (ch_worker (en_channels e' ! 1)) = Running"
  using stale_report_evicts_a_live_worker[OF demo_run_replugged demo_replugged_state(1-3)] demo_replugged_state(4)
  by (auto simp: demo_handle_def)

end
