(* ===== verification/Worker_Claims.thy ===== *)
theory Worker_Claims
  imports Engine_Steps Via_Claims Gmk67_Claims
begin

text \<open>
  The worker together with the drivers it can own: what it answers and when it retires, for any
  driver; a keymap behind the worker, for every driver that keeps the contract of the trait; and the
  debounced commits of the EK68.
\<close>

section \<open>Sessions of a worker\<close>

text \<open>Operations, debounced commits, and the driver's own activity between calls (\<open>idle\<close>), in any order.\<close>

inductive worker_session :: "('s \<Rightarrow> 's \<Rightarrow> bool) \<Rightarrow> 's worker \<Rightarrow> worker_op list \<Rightarrow> effect list \<Rightarrow> 's worker \<Rightarrow> bool"
  for idle where
  ws_start: "worker_session idle w [] [] w"
| ws_op: "worker_session idle w ops effs w1 \<Longrightarrow> wk_phase w1 = Running \<Longrightarrow> worker_handle now op w1 = (w2, new) \<Longrightarrow>
      worker_session idle w (ops @ [op]) (effs @ new) w2"
| ws_debounce: "worker_session idle w ops effs w1 \<Longrightarrow> wk_phase w1 = Running \<Longrightarrow> wk_deadline w1 = Some t \<Longrightarrow>
      worker_debounced_commit w1 = (w2, new) \<Longrightarrow> worker_session idle w ops (effs @ new) w2"
| ws_idle: "worker_session idle w ops effs w1 \<Longrightarrow> idle (bx_state (wk_driver w1)) s' \<Longrightarrow>
      worker_session idle w ops effs (w1\<lparr>wk_driver := (wk_driver w1)\<lparr>bx_state := s'\<rparr>\<rparr>)"

lemma answers_of_append [simp]: "answers_of (xs @ ys) = answers_of xs @ answers_of ys"
  by (induction xs rule: answers_of.induct) simp_all

section \<open>Answers and retirement\<close>

definition fatal_answer :: "answer \<Rightarrow> bool" where
  "fatal_answer a \<longleftrightarrow> (\<exists>e. answer_error a = Some (Driver e) \<and> retires_worker e)"

lemma fatal_answer_u16: "fatal_answer (AnsU16 r) = is_fatal_driver_error r"
  by (cases r) (simp_all add: fatal_answer_def fatal_cases)

lemma fatal_answer_unit: "fatal_answer (AnsUnit r) = is_fatal_driver_error r"
  by (cases r) (simp_all add: fatal_answer_def fatal_cases)

lemma fatal_answer_bytes: "fatal_answer (AnsBytes r) = is_fatal_driver_error r"
  by (cases r) (simp_all add: fatal_answer_def fatal_cases)

lemmas fatal_answer_simps = fatal_answer_u16 fatal_answer_unit fatal_answer_bytes

lemma fatal_ok [simp]: "\<not> is_fatal_driver_error (Inr x)"
  by simp

text \<open>Every operation runs one driver call, answers with its result and retires on a fatal one.\<close>

lemma worker_handle_shape:
  obtains (u16) r u where "snd (worker_handle now op w) = [Answered (reply_of op) (AnsU16 r)]"
      "fst (worker_handle now op w) = retire_if (is_fatal_driver_error r) u" "wk_phase u = wk_phase w"
    | (bytes) r u where "snd (worker_handle now op w) = [Answered (reply_of op) (AnsBytes r)]"
      "fst (worker_handle now op w) = retire_if (is_fatal_driver_error r) u" "wk_phase u = wk_phase w"
    | (unit) r u more where "snd (worker_handle now op w) = Answered (reply_of op) (AnsUnit r) # more"
      "answers_of more = []" "fst (worker_handle now op w) = retire_if (is_fatal_driver_error r) u"
      "wk_phase u = wk_phase w"
proof (cases op)
  case (WGetKeycode l r' c i)
  obtain r u where c: "call_driver (\<lambda>ops. kd_get_keycode ops l r' c) w = (r, u)" by fastforce
  show ?thesis
    by (rule that(1)[where r = r and u = u])
       (simp_all add: WGetKeycode c answer_op_def call_driver_fields[OF c])
next
  case (WGetMacro off len i)
  obtain r u where c: "call_driver (\<lambda>ops. kd_get_macro_buffer ops off len) w = (r, u)" by fastforce
  show ?thesis
    by (rule that(2)[where r = r and u = u])
       (simp_all add: WGetMacro c answer_op_def call_driver_fields[OF c])
next
  case (WGetLighting ch v i)
  obtain r u where c: "call_driver (\<lambda>ops. kd_get_lighting ops ch v) w = (r, u)" by fastforce
  show ?thesis
    by (rule that(2)[where r = r and u = u])
       (simp_all add: WGetLighting c answer_op_def call_driver_fields[OF c])
next
  case (WSetMacro off data i)
  obtain r u where c: "call_driver (\<lambda>ops. kd_set_macro_buffer ops off data) w = (r, u)" by fastforce
  show ?thesis
    by (rule that(3)[where r = r and u = u and more = "[]"])
       (simp_all add: WSetMacro c answer_op_def call_driver_fields[OF c])
next
  case (WSetLighting ch v data i)
  obtain r u where c: "call_driver (\<lambda>ops. kd_set_lighting ops ch v data) w = (r, u)" by fastforce
  show ?thesis
    by (rule that(3)[where r = r and u = u and more = "[]"])
       (simp_all add: WSetLighting c answer_op_def call_driver_fields[OF c])
next
  case (WCommit i)
  obtain r u where c: "call_driver kd_commit_to_nvram (w\<lparr>wk_deadline := None\<rparr>) = (r, u)" by fastforce
  show ?thesis
    by (rule that(3)[where r = r and u = u
          and more = "if is_ok r then [Announced (LayoutUpdated (wk_device_id u))] else []"])
       (simp_all add: WCommit c call_driver_fields[OF c])
next
  case (WSetKeycode l r c k i)
  obtain x u where d: "call_driver (\<lambda>ops. kd_set_keycode ops l r c k) w = (x, u)" by fastforce
  note fields = call_driver_fields[OF d]
  show ?thesis
  proof (cases "is_ok x \<and> \<not> kd_emits_layout_event_per_set (bx_ops (wk_driver u)) (bx_state (wk_driver u))")
    case True
    show ?thesis
      by (rule that(3)[where r = x and u = "u\<lparr>wk_deadline := Some (now + LEGACY_COMMIT_DEBOUNCE)\<rparr>" and more = "[]"])
         (use True in \<open>auto simp: WSetKeycode d fields Let_def is_ok_def split: sum.splits\<close>)
  next
    case False
    show ?thesis
      by (rule that(3)[where r = x and u = u
            and more = "if is_ok x then [Announced (LayoutUpdated (wk_device_id u))] else []"])
         (use False in \<open>auto simp: WSetKeycode d fields Let_def is_ok_def split: sum.splits\<close>)
  qed
qed

text \<open>C26. For every driver and every operation the worker sends exactly one answer, on the channel of that
  operation, and retires exactly when the answer carries a disconnection or a permission failure;
  every other error leaves it serving, a timeout and the other USB errors included, after which the README
  has the handle dropped. What it reports to the engine when it retires is always a disconnection.\<close>

theorem worker_answers_once_and_retires_on_fatal:
  assumes "wk_phase w = Running"
  shows "\<exists>a. answers_of (snd (worker_handle now op w)) = [(reply_of op, a)]
    \<and> wk_phase (fst (worker_handle now op w)) = (if fatal_answer a then Reporting else Running)
    \<and> en_queue (report_and_exit c (fst (worker_handle now op w)) e)
        = (if en_running e then en_queue e @ [DeviceError (wk_device_id w) (Driver Disconnected)] else en_queue e)"
  using assms worker_handle_device_id[of now op w]
  by (cases rule: worker_handle_shape[of now op w])
     (auto simp: fatal_answer_simps report_and_exit_def exit_worker_def worker_report_def)


definition denying_ops :: "unit driver_ops" where
  "denying_ops = \<lparr>kd_get_matrix_dimensions = ok (2, 2), kd_get_layer_count = ok 1,
     kd_get_keycode = (\<lambda>_ _ _. throw (PermissionDenied ''hidraw0'')), kd_set_keycode = (\<lambda>_ _ _ _. throw (Timeout ''hidraw0'' ''set'')),
     kd_get_macro_buffer = (\<lambda>_ _. ok []), kd_set_macro_buffer = (\<lambda>_ _. ok ()),
     kd_get_lighting = (\<lambda>_ _. ok []), kd_set_lighting = (\<lambda>_ _ _. ok ()), kd_commit_to_nvram = ok (),
     kd_emits_layout_event_per_set = (\<lambda>_. True), kd_model_name = (\<lambda>_. ''demo'')\<rparr>"

theorem worker_answers_once_and_retires_on_fatal_witness:
  "\<exists>a. answers_of (snd (worker_handle 0 (WGetKeycode 0 0 0 5) (worker_start ''k'' \<lparr>bx_ops = denying_ops, bx_state = ()\<rparr>))) = [(5, a)]
    \<and> fatal_answer a"
  using worker_answers_once_and_retires_on_fatal[of "worker_start ''k'' \<lparr>bx_ops = denying_ops, bx_state = ()\<rparr>" 0 "WGetKeycode 0 0 0 5"]
  by (simp add: worker_start_def answer_op_def call_driver_def denying_ops_def throw_def map_driver_err_def fatal_answer_def)

section \<open>A keymap behind the worker\<close>

lemma length_keymap_run: "length (fst (keymap_run xs m)) = length xs"
  by (induction xs arbitrary: m) (simp_all add: prod.case_eq_if)

fun key_op_of :: "worker_op \<Rightarrow> keymap_op option" where
  "key_op_of (WGetKeycode l r c _) = Some (KGet l r c)"
| "key_op_of (WSetKeycode l r c k _) = Some (KSet l r c k)"
| "key_op_of (WCommit _) = Some KCommit"
| "key_op_of _ = None"

fun answer_of_reply :: "keymap_reply \<Rightarrow> answer" where
  "answer_of_reply (KKeycode r) = AnsU16 (map_driver_err r)"
| "answer_of_reply (KDone r) = AnsUnit (map_driver_err r)"

text \<open>A driver that also works on its own between calls, without a client noticing.\<close>

locale keyboard_task = keyboard_driver ops healthy view V
  for ops :: "'s driver_ops" and healthy view V +
  fixes idle :: "'s \<Rightarrow> 's \<Rightarrow> bool"
  assumes idle_view: "healthy s \<Longrightarrow> idle s s' \<Longrightarrow> healthy s' \<and> view s' = view s"
begin

abbreviation serving :: "'s worker \<Rightarrow> bool" where
  "serving w \<equiv> bx_ops (wk_driver w) = ops \<and> healthy (bx_state (wk_driver w)) \<and> wk_phase w = Running"

abbreviation shown :: "'s worker \<Rightarrow> key_pos \<Rightarrow> u16" where
  "shown w \<equiv> view (bx_state (wk_driver w))"

lemma worker_handle_refines:
  assumes "serving w" and "key_op_of op = Some x" and "op_within V x" and "worker_handle now op w = (w', effs)"
  shows "serving w' \<and> shown w' = snd (keymap_step x (shown w))
    \<and> answers_of effs = [(reply_of op, answer_of_reply (fst (keymap_step x (shown w))))]"
proof (cases op)
  case (WGetKeycode l r c i)
  with assms(2,3) have "(l, r, c) \<in> V" by auto
  with get_view[of "bx_state (wk_driver w)"] assms(1) obtain s' where
    "kd_get_keycode ops l r c (bx_state (wk_driver w)) = (Inr (shown w (l, r, c)), s')" "healthy s'" "view s' = shown w"
    by blast
  with WGetKeycode assms show ?thesis by (auto simp: answer_op_def call_driver_def Let_def map_driver_err_def retire_if_def)
next
  case (WSetKeycode l r c k i)
  with assms(2,3) have "(l, r, c) \<in> V" by auto
  with set_view[of "bx_state (wk_driver w)" l r c k] assms(1) obtain s' where
    "kd_set_keycode ops l r c k (bx_state (wk_driver w)) = (Inr (), s')" "healthy s'" "view s' = (shown w)((l, r, c) := k)"
    by blast
  with WSetKeycode assms show ?thesis
    by (auto simp: call_driver_def Let_def map_driver_err_def retire_if_def split: if_splits)
next
  case (WCommit i)
  from commit_view[of "bx_state (wk_driver w)"] assms(1) obtain s' where
    "kd_commit_to_nvram ops (bx_state (wk_driver w)) = (Inr (), s')" "healthy s'" "view s' = shown w" by blast
  with WCommit assms show ?thesis
    by (auto simp: call_driver_def Let_def map_driver_err_def retire_if_def is_ok_def)
qed (use assms(2) in simp_all)

lemma worker_debounce_refines:
  assumes "serving w" and "worker_debounced_commit w = (w', effs)"
  shows "serving w' \<and> shown w' = shown w \<and> answers_of effs = []"
proof -
  from commit_view[of "bx_state (wk_driver w)"] assms(1) obtain s' where
    "kd_commit_to_nvram ops (bx_state (wk_driver w)) = (Inr (), s')" "healthy s'" "view s' = shown w" by blast
  with assms show ?thesis
    by (auto simp: worker_debounced_commit_def call_driver_def Let_def map_driver_err_def retire_if_def is_ok_def)
qed

text \<open>What a client of the worker sees is a plain keymap, and the worker keeps serving.\<close>

lemma worker_session_refines:
  assumes "worker_session idle w wops effs w'" and "serving w"
    and "map key_op_of wops = map Some xs" and "list_all (op_within V) xs"
  shows "serving w' \<and> shown w' = snd (keymap_run xs (shown w))
    \<and> answers_of effs = zip (map reply_of wops) (map answer_of_reply (fst (keymap_run xs (shown w))))"
  using assms
proof (induction arbitrary: xs rule: worker_session.induct)
  case (ws_start w)
  then show ?case by simp
next
  case (ws_op w wops effs w1 now op w2 new)
  then obtain ys y where xs: "xs = ys @ [y]" "map key_op_of wops = map Some ys" "key_op_of op = Some y"
    by (cases xs rule: rev_cases) auto
  with ws_op have IH: "serving w1" "shown w1 = snd (keymap_run ys (shown w))"
    "answers_of effs = zip (map reply_of wops) (map answer_of_reply (fst (keymap_run ys (shown w))))"
    and y: "op_within V y" by auto
  have len: "length wops = length (fst (keymap_run ys (shown w)))"
    using map_eq_imp_length_eq[OF xs(2)] by (simp add: length_keymap_run)
  from worker_handle_refines[OF IH(1) xs(3) y ws_op.hyps(3)] IH len show ?case
    by (auto simp: xs(1) keymap_run_snoc split: prod.split)
next
  case (ws_debounce w wops effs w1 t w2 new)
  from worker_debounce_refines[OF _ ws_debounce.hyps(4)] ws_debounce.IH[OF ws_debounce.prems] show ?case by simp
next
  case (ws_idle w wops effs w1 s')
  from ws_idle.IH[OF ws_idle.prems] idle_view[OF _ ws_idle.hyps(2)] show ?case by simp
qed

end


interpretation via_kt: keyboard_task via_driver_ops "vd_healthy V H F" "vd_view V" V via_idle
  for V :: "key_pos set" and H :: "u8 set" and F :: "bytes set"
  by unfold_locales (blast intro: via_idle_view)

interpretation gmk_kt: keyboard_task gmk_driver_ops gmk_healthy gmk_view gmk_positions "\<lambda>_ _. False"
  by unfold_locales blast

text \<open>C11. The worker of a VIA board is a keymap service: in front of a board that answers as QMK documents,
  with a driver opened in either mode, and with the coalescer's timer and the worker's debounce firing
  at any time between requests, every read, write and commit is answered on its own channel, in order,
  with what a plain keymap would answer, and the worker stays in service.\<close>

theorem via_worker_is_a_keymap_service:
  assumes "hn_open node = Inr (hw, dev)" and "via_firmware hw DEFAULT_TIMEOUT_MS V H ready km" and "ready dev"
    and "freshly_opened node d"
    and "worker_session via_idle (worker_start device_id \<lparr>bx_ops = via_driver_ops, bx_state = d\<rparr>) wops effs w'"
    and "map key_op_of wops = map Some xs" and "list_all (op_within V) xs"
  shows "answers_of effs = zip (map reply_of wops)
      (map answer_of_reply (fst (keymap_run xs (\<lambda>p. if p \<in> V then km dev p else 0))))
    \<and> wk_phase w' = Running"
proof -
  note start = freshly_opened_healthy[OF assms(1-4)]
  have "via_kt.serving V H {} (worker_start device_id \<lparr>bx_ops = via_driver_ops, bx_state = d\<rparr>)"
    using start(1) by (simp add: worker_start_def)
  from via_kt.worker_session_refines[OF assms(5) this assms(6,7)] start(2) show ?thesis by (simp add: worker_start_def)
qed

theorem via_worker_is_a_keymap_service_witness:
  "\<exists>effs w'. worker_session via_idle (worker_start ''hidraw3'' \<lparr>bx_ops = via_driver_ops, bx_state = sim_driver\<rparr>)
      [WSetKeycode 0 1 2 7 5, WGetKeycode 0 1 2 6] effs w'
    \<and> answers_of effs = [(5, AnsUnit (Inr ())), (6, AnsU16 (Inr 7))] \<and> wk_phase w' = Running"
proof -
  let ?w = "worker_start ''hidraw3'' \<lparr>bx_ops = via_driver_ops, bx_state = sim_driver\<rparr>"
  let ?ops = "[WSetKeycode 0 1 2 7 5, WGetKeycode 0 1 2 6]"
  obtain w1 e1 where w1: "worker_handle 0 (WSetKeycode 0 1 2 7 5) ?w = (w1, e1)" by fastforce
  obtain w2 e2 where w2: "worker_handle 0 (WGetKeycode 0 1 2 6) w1 = (w2, e2)" by fastforce
  have s1: "worker_session via_idle ?w [WSetKeycode 0 1 2 7 5] e1 w1"
    using ws_op[OF ws_start[of via_idle ?w] _ w1] by (simp add: worker_start_def)
  note k = via_worker_is_a_keymap_service[OF sim_node_open sim_firmware[OF default_timeout_pos] _ sim_opened]
  have "wk_phase w1 = Running" using k[OF _ s1, of "[KSet 0 1 2 7]"] by simp
  from ws_op[OF s1 this w2] have s2: "worker_session via_idle ?w ?ops (e1 @ e2) w2" by simp
  have "answers_of (e1 @ e2) = [(5, AnsUnit (Inr ())), (6, AnsU16 (Inr 7))] \<and> wk_phase w2 = Running"
    using k[OF _ s2, of "[KSet 0 1 2 7, KGet 0 1 2]"] by (simp add: map_driver_err_def)
  with s2 show ?thesis by blast
qed

section \<open>Debounced commits of the EK68\<close>

definition pending_edits :: "('i, 'f) gmk_driver worker \<Rightarrow> bool" where
  "pending_edits w \<longleftrightarrow> shadow_is_dirty (gd_shadow (bx_state (wk_driver w)))"

lemma commit_leaves_nothing_pending:
  "gd_commit_to_nvram d = (r, d') \<Longrightarrow> \<not> shadow_is_dirty (gd_shadow d')"
  by (auto simp: gd_commit_to_nvram_def Let_def shadow_is_dirty_def shadow_confirm_commit_def shadow_rollback_def
      split: if_splits sum.splits prod.splits)

lemma lighting_keeps_dirty:
  assumes "gd_set_lighting ch v data d = (r, d')"
  shows "sh_dirty (gd_shadow d') = sh_dirty (gd_shadow d)"
proof (cases "chosen_lighting ch v data (gd_lighting d)")
  case (Inl e)
  with assms show ?thesis by (simp add: gd_set_lighting_def)
next
  case (Inr l)
  obtain q d1 where q: "render_effect l d = (q, d1)" by fastforce
  have "gd_shadow d1 = gd_shadow d" using io_onlyD[OF io_only_render_effect q] by auto
  with assms Inr q show ?thesis
    by (auto simp: gd_set_lighting_def andthen_def shadow_persist_lighting_def shadow_set_lighting_def
        split: if_splits sum.splits)
qed

lemma bt_insert_nonempty: "bt_insert k v m \<noteq> []"
  by (cases "(k, v, m)" rule: bt_insert.cases) simp_all

definition edits_armed :: "('i, 'f) gmk_driver worker \<Rightarrow> bool" where
  "edits_armed w \<longleftrightarrow> bx_ops (wk_driver w) = gmk_driver_ops \<and> (pending_edits w \<longrightarrow> wk_deadline w \<noteq> None)"

lemma call_keeps_armed:
  assumes "edits_armed w" and "call_driver m w = (r, w1)"
    and "\<And>d q d'. m gmk_driver_ops d = (q, d') \<Longrightarrow> sh_dirty (gd_shadow d') = sh_dirty (gd_shadow d)"
  shows "edits_armed w1"
  using assms by (fastforce simp: edits_armed_def pending_edits_def shadow_is_dirty_def call_driver_def Let_def split: prod.splits)

lemma call_commit_armed:
  assumes "bx_ops (wk_driver w) = gmk_driver_ops" and "call_driver kd_commit_to_nvram w = (r, w1)"
  shows "edits_armed w1 \<and> \<not> pending_edits w1"
  using assms commit_leaves_nothing_pending
  by (fastforce simp: edits_armed_def pending_edits_def call_driver_def Let_def gmk_driver_ops_def split: prod.splits)

lemma edits_armed_retire [simp]: "edits_armed (retire_if b w) = edits_armed w"
  by (simp add: edits_armed_def pending_edits_def)

lemma answer_op_armed: "edits_armed w1 \<Longrightarrow> edits_armed (fst (answer_op mk i (r, w1)))"
  by (simp add: answer_op_def)

lemma edits_armed_handle:
  assumes "edits_armed w"
  shows "edits_armed (fst (worker_handle now op w))"
proof -
  have ops: "bx_ops (wk_driver w) = gmk_driver_ops" using assms by (simp add: edits_armed_def)
  have quiet: "edits_armed (fst (answer_op mk i (call_driver m w)))"
    if "\<And>d q d'. m gmk_driver_ops d = (q, d') \<Longrightarrow> sh_dirty (gd_shadow d') = sh_dirty (gd_shadow d)"
    for mk :: "daemon_error + 'x \<Rightarrow> answer" and m i
    using call_keeps_armed[OF assms _ that] by (cases "call_driver m w") (auto intro!: answer_op_armed)
  show ?thesis
  proof (cases op)
    case (WSetKeycode l r c k i)
    obtain x w1 where d: "call_driver (\<lambda>o'. kd_set_keycode o' l r c k) w = (x, w1)" by fastforce
    note f = call_driver_fields[OF d]
    show ?thesis
    proof (cases x)
      case (Inl e)
      then have "gd_shadow (bx_state (wk_driver w1)) = gd_shadow (bx_state (wk_driver w))"
        using d ops by (auto simp: call_driver_def Let_def gmk_driver_ops_def gd_set_keycode_def map_driver_err_def split: if_splits)
      with f assms have "edits_armed w1" by (simp add: edits_armed_def pending_edits_def)
      with WSetKeycode d Inl show ?thesis by (simp add: Let_def)
    next
      case (Inr u)
      with WSetKeycode d f ops show ?thesis by (simp add: Let_def edits_armed_def gmk_driver_ops_def)
    qed
  next
    case (WCommit i)
    obtain x w1 where d: "call_driver kd_commit_to_nvram (w\<lparr>wk_deadline := None\<rparr>) = (x, w1)" by fastforce
    from call_commit_armed[OF _ d] ops WCommit d show ?thesis by simp
  qed (use lighting_keeps_dirty in \<open>auto intro!: quiet simp: gmk_driver_ops_def gd_get_keycode_def gd_get_macro_buffer_def
        gd_set_macro_buffer_def throw_def gd_get_lighting_def Let_def split: if_splits prod.splits\<close>)
qed

lemma edits_armed_session:
  assumes "worker_session idle w wops effs w'" and "edits_armed w" and "idle = (\<lambda>_ _. False)"
  shows "edits_armed w'"
  using assms
proof (induction rule: worker_session.induct)
  case (ws_op w wops effs w1 now op w2 new)
  then show ?case using edits_armed_handle[of w1 now op] by simp
next
  case (ws_debounce w wops effs w1 t w2 new)
  obtain x w3 where d: "call_driver kd_commit_to_nvram (w1\<lparr>wk_deadline := None\<rparr>) = (x, w3)" by fastforce
  have "bx_ops (wk_driver w1) = gmk_driver_ops" using ws_debounce by (simp add: edits_armed_def)
  with call_commit_armed[OF _ d] ws_debounce d show ?case by (auto simp: worker_debounced_commit_def)
qed auto

text \<open>C13. No edit of an EK68 is left behind: in every session of its worker, whatever the board, the disk and
  the driver errors, a pending edit always has a debounce deadline armed; and when the worker shuts down
  nothing is pending any more, since the final flush confirms the edits or takes them back.\<close>

theorem ek68_edits_are_always_armed:
  assumes "worker_session (\<lambda>_ _. False) (worker_start device_id \<lparr>bx_ops = gmk_driver_ops, bx_state = d\<rparr>) wops effs w'"
    and "\<not> shadow_is_dirty (gd_shadow d)"
  shows "(pending_edits w' \<longrightarrow> wk_deadline w' \<noteq> None) \<and> \<not> pending_edits (worker_shutdown w')"
proof -
  have "edits_armed (worker_start device_id \<lparr>bx_ops = gmk_driver_ops, bx_state = d\<rparr>)"
    using assms(2) by (simp add: edits_armed_def pending_edits_def worker_start_def)
  from edits_armed_session[OF assms(1) this refl]
  have w: "bx_ops (wk_driver w') = gmk_driver_ops" "pending_edits w' \<longrightarrow> wk_deadline w' \<noteq> None"
    by (simp_all add: edits_armed_def)
  obtain x w3 where d: "call_driver kd_commit_to_nvram (w'\<lparr>wk_deadline := None\<rparr>) = (x, w3)" by fastforce
  have "\<not> pending_edits (worker_shutdown w')"
  proof (cases "wk_deadline w'")
    case None
    with w(2) show ?thesis by (auto simp: worker_shutdown_def pending_edits_def)
  next
    case (Some t)
    with call_commit_armed[OF _ d] w(1) d show ?thesis by (simp add: worker_shutdown_def pending_edits_def)
  qed
  with w(2) show ?thesis by blast
qed


theorem ek68_edits_are_always_armed_witness:
  "\<exists>w'. worker_session (\<lambda>_ _. False)
      (worker_start ''hidraw1'' \<lparr>bx_ops = gmk_driver_ops, bx_state = gmk_with_io dead_io () null_disk () ''hidraw1'' (5, 15) 2\<rparr>)
      [WSetKeycode 0 1 1 7 3] [Answered 3 (AnsUnit (Inr ()))] w'
    \<and> pending_edits w' \<and> wk_deadline w' = Some 510 \<and> \<not> pending_edits (worker_shutdown w')"
proof -
  let ?d = "gmk_with_io dead_io () null_disk () ''hidraw1'' (5, 15) 2"
  let ?w = "worker_start ''hidraw1'' \<lparr>bx_ops = gmk_driver_ops, bx_state = ?d\<rparr>"
  have keys: "keydef_command 0 \<noteq> None" "key_index_for 1 1 \<noteq> None" by code_simp+
  obtain w1 e1 where w1: "worker_handle 10 (WSetKeycode 0 1 1 7 3) ?w = (w1, e1)" by fastforce
  then have v: "e1 = [Answered 3 (AnsUnit (Inr ()))]" "wk_deadline w1 = Some 510" "pending_edits w1"
    using keys by (auto simp: worker_start_def call_driver_def gmk_driver_ops_def gd_set_keycode_def map_driver_err_def
        Let_def retire_if_def LEGACY_COMMIT_DEBOUNCE_def pending_edits_def shadow_is_dirty_def shadow_set_keycode_def
        bt_insert_nonempty)
  have s: "worker_session (\<lambda>_ _. False) ?w [WSetKeycode 0 1 1 7 3] [Answered 3 (AnsUnit (Inr ()))] w1"
    using ws_op[OF ws_start[of "\<lambda>_ _. False" ?w] _ w1] v(1) by (simp add: worker_start_def)
  have "\<not> shadow_is_dirty (gd_shadow ?d)" by (simp add: gmk_with_io_def shadow_is_dirty_def shadow_ephemeral_def)
  from ek68_edits_are_always_armed[OF s this] s v show ?thesis by blast
qed

end
