(* ===== verification/Engine_Desk.thy ===== *)
theory Engine_Desk
  imports Engine_Census
begin

text \<open>
  One keyboard seen from the outside: of the whole engine only the requests for that keyboard, its worker
  with its queue, and the answers matter. Every step of the engine, whatever it does for other keyboards
  and other clients, is one step of this smaller system.
\<close>

section \<open>The requests for a keyboard\<close>

text \<open>A request reaches the worker as an operation when its position passes the topology check.\<close>

fun request_for :: "string \<Rightarrow> device_topology \<Rightarrow> engine_command \<Rightarrow> worker_op option" where
  "request_for dev t (CmdGetKeycode d l r c i) =
     (if d = dev \<and> topology_contains t l r c then Some (WGetKeycode l r c i) else None)"
| "request_for dev t (CmdSetKeycode d l r c k i) =
     (if d = dev \<and> topology_contains t l r c then Some (WSetKeycode l r c k i) else None)"
| "request_for dev t (CommitToNvram d i) = (if d = dev then Some (WCommit i) else None)"
| "request_for dev t (CmdGetMacro d offset len i) = (if d = dev then Some (WGetMacro offset len i) else None)"
| "request_for dev t (CmdSetMacro d offset data i) = (if d = dev then Some (WSetMacro offset data i) else None)"
| "request_for dev t (CmdGetLighting d ch v i) = (if d = dev then Some (WGetLighting ch v i) else None)"
| "request_for dev t (CmdSetLighting d ch v data i) = (if d = dev then Some (WSetLighting ch v data i) else None)"
| "request_for dev t _ = None"

definition requests :: "string \<Rightarrow> device_topology \<Rightarrow> engine_command list \<Rightarrow> worker_op list" where
  "requests dev t cmds = List.map_filter (request_for dev t) cmds"

lemma requests_simps [simp]:
  "requests dev t [] = []"
  "requests dev t (cmd # cmds) = (case request_for dev t cmd of Some op \<Rightarrow> [op] | None \<Rightarrow> []) @ requests dev t cmds"
  "requests dev t (cmds @ cmds') = requests dev t cmds @ requests dev t cmds'"
  by (simp_all add: requests_def List.map_filter_def split: option.split)

text \<open>
  Commands under which the keyboard stays: no shutdown and no removal, and only requests of it that satisfy \<open>Q\<close>.
  Other keyboards may do anything.
\<close>

fun orderly :: "string \<Rightarrow> device_topology \<Rightarrow> (worker_op \<Rightarrow> bool) \<Rightarrow> engine_command \<Rightarrow> bool" where
  "orderly dev t Q (DeviceDisconnected d) \<longleftrightarrow> d \<noteq> dev"
| "orderly dev t Q (DeviceError d _) \<longleftrightarrow> d \<noteq> dev"
| "orderly dev t Q (DeviceReattached d _ _) \<longleftrightarrow> d \<noteq> dev"
| "orderly dev t Q Shutdown \<longleftrightarrow> False"
| "orderly dev t Q cmd \<longleftrightarrow> (case request_for dev t cmd of Some op \<Rightarrow> Q op | None \<Rightarrow> True)"

lemma orderly_request: "orderly dev t Q cmd \<Longrightarrow> request_for dev t cmd = Some op \<Longrightarrow> Q op"
  by (cases cmd) auto

lemma requests_satisfy: "list_all (orderly dev t Q) cmds \<Longrightarrow> list_all Q (requests dev t cmds)"
  by (induction cmds) (auto split: option.split dest: orderly_request)

section \<open>The smaller system\<close>

record 's desk =
  dk_waiting :: "worker_op list"
  dk_queue :: "worker_op list"
  dk_worker :: "'s worker"
  dk_answers :: "(reply_id \<times> answer) list"

definition refusal :: "string \<Rightarrow> worker_op \<Rightarrow> reply_id \<times> answer" where
  "refusal dev op = (reply_of op, error_answer op (DbusRouting (''device `'' @ dev @ ''` is busy'')))"

text \<open>The label is what is asked in the step.\<close>

inductive desk_step :: "('s \<Rightarrow> 's \<Rightarrow> bool) \<Rightarrow> string \<Rightarrow> 's desk \<Rightarrow> worker_op list \<Rightarrow> 's desk \<Rightarrow> bool" for idle dev where
  desk_ask: "desk_step idle dev d ops (d\<lparr>dk_waiting := dk_waiting d @ ops\<rparr>)"
| desk_accept: "dk_waiting d = op # ops \<Longrightarrow> length (dk_queue d) < WORKER_CHANNEL_CAPACITY \<Longrightarrow>
    desk_step idle dev d [] (d\<lparr>dk_waiting := ops, dk_queue := dk_queue d @ [op]\<rparr>)"
| desk_refuse: "dk_waiting d = op # ops \<Longrightarrow> WORKER_CHANNEL_CAPACITY \<le> length (dk_queue d) \<Longrightarrow>
    desk_step idle dev d [] (d\<lparr>dk_waiting := ops, dk_answers := dk_answers d @ [refusal dev op]\<rparr>)"
| desk_work: "dk_queue d = op # ops \<Longrightarrow> worker_handle now op (dk_worker d) = (w, effs) \<Longrightarrow>
    desk_step idle dev d [] (d\<lparr>dk_queue := ops, dk_worker := w, dk_answers := dk_answers d @ answers_of effs\<rparr>)"
| desk_debounce: "worker_debounced_commit (dk_worker d) = (w, effs) \<Longrightarrow>
    desk_step idle dev d [] (d\<lparr>dk_worker := w, dk_answers := dk_answers d @ answers_of effs\<rparr>)"
| desk_idle: "idle (bx_state (wk_driver (dk_worker d))) s' \<Longrightarrow>
    desk_step idle dev d [] (d\<lparr>dk_worker := (dk_worker d)\<lparr>wk_driver := (wk_driver (dk_worker d))\<lparr>bx_state := s'\<rparr>\<rparr>\<rparr>)"
| desk_elsewhere: "desk_step idle dev d [] (d\<lparr>dk_answers := dk_answers d @ others\<rparr>)"

definition desk_of :: "string \<Rightarrow> device_handle \<Rightarrow> ('w, 's) engine \<Rightarrow> 's desk" where
  "desk_of dev h e =
     \<lparr>dk_waiting = requests dev (dh_topology h) (en_queue e), dk_queue = ch_queue (en_channels e ! dh_tx h),
      dk_worker = ch_worker (en_channels e ! dh_tx h), dk_answers = en_answers e\<rparr>"

section \<open>The keyboard and its surroundings\<close>

text \<open>Handles by which another device, a task or a message could reach a worker.\<close>

definition foreign :: "string \<Rightarrow> ('w, 's) engine \<Rightarrow> device_handle set" where
  "foreign dev e = {h. \<exists>d. d \<noteq> dev \<and> devices e d = Some h} \<union> {h. \<exists>t \<in> set (en_tasks e). handle_of_task t = Some h}
     \<union> {h. \<exists>cmd \<in> set (en_queue e). handle_of_command cmd = Some h}"

text \<open>No other worker carries the keyboard's identifier any more, so no stale report can evict it.\<close>

definition lone :: "string \<Rightarrow> nat \<Rightarrow> 's channel list \<Rightarrow> bool" where
  "lone dev c chs \<longleftrightarrow> (\<forall>k < length chs. k \<noteq> c \<and> wk_device_id (ch_worker (chs ! k)) = dev
     \<longrightarrow> wk_phase (ch_worker (chs ! k)) = Exited)"

definition tended :: "string \<Rightarrow> device_handle \<Rightarrow> (worker_op \<Rightarrow> bool) \<Rightarrow> ('w, 's) engine \<Rightarrow> bool" where
  "tended dev h Q e \<longleftrightarrow> en_running e \<and> devices e dev = Some h \<and> dh_tx h < length (en_channels e)
     \<and> (\<forall>h' \<in> foreign dev e. dh_tx h' \<noteq> dh_tx h) \<and> lone dev (dh_tx h) (en_channels e)
     \<and> (\<forall>t \<in> set (en_tasks e). rt_device_id t = dev \<longrightarrow> rt_phase t = Ended)
     \<and> list_all (orderly dev (dh_topology h) Q) (en_queue e)"

text \<open>What a step elsewhere may do.\<close>

definition aside :: "string \<Rightarrow> device_handle \<Rightarrow> (worker_op \<Rightarrow> bool) \<Rightarrow> ('w, 's) engine \<Rightarrow> ('w, 's) engine \<Rightarrow> bool" where
  "aside dev h Q e e' \<longleftrightarrow> tended dev h Q e' \<and> en_channels e' ! dh_tx h = en_channels e ! dh_tx h
     \<and> requests dev (dh_topology h) (en_queue e') = requests dev (dh_topology h) (en_queue e)
     \<and> (\<exists>others. en_answers e' = en_answers e @ others)"

lemma aside_step: "aside dev h Q e e' \<Longrightarrow> desk_step idle dev (desk_of dev h e) [] (desk_of dev h e')"
  using desk_elsewhere[of idle dev "desk_of dev h e"] by (auto simp: aside_def desk_of_def)

lemma lone_update:
  assumes "lone dev c chs" and "wk_device_id (ch_worker ch) = wk_device_id (ch_worker (chs ! k))"
    and "wk_phase (ch_worker (chs ! k)) = Exited \<Longrightarrow> wk_phase (ch_worker ch) = Exited"
  shows "lone dev c (chs[k := ch])"
  using assms unfolding lone_def by (metis length_list_update nth_list_update_eq nth_list_update_neq)

lemma lone_append: "lone dev c chs \<Longrightarrow> wk_device_id (ch_worker ch) \<noteq> dev \<Longrightarrow> lone dev c (chs @ [ch])"
  by (auto simp: lone_def nth_append less_Suc_eq)

text \<open>An update after which the handles of others are old ones or lead to other channels.\<close>

lemma tendedI:
  assumes "tended dev h Q e" and "en_running e'" and "devices e' dev = Some h"
    and "length (en_channels e) \<le> length (en_channels e')" and "lone dev (dh_tx h) (en_channels e')"
    and "\<And>h'. h' \<in> foreign dev e' \<Longrightarrow> h' \<in> foreign dev e \<or> dh_tx h' \<noteq> dh_tx h"
    and "\<And>t. t \<in> set (en_tasks e') \<Longrightarrow> rt_device_id t = dev \<Longrightarrow> rt_phase t = Ended"
    and "list_all (orderly dev (dh_topology h) Q) (en_queue e')"
  shows "tended dev h Q e'"
  using assms unfolding tended_def by (metis less_le_trans)

section \<open>Commands that go elsewhere\<close>

lemma foreign_same:
  assumes "devices e' = devices e" and "en_tasks e' = en_tasks e" and "en_queue e' = en_queue e"
  shows "foreign dev e' = foreign dev e"
  by (simp add: foreign_def assms)

lemma lone_tended: "tended dev h Q e \<Longrightarrow> lone dev (dh_tx h) (en_channels e)"
  by (simp add: tended_def)

lemma aside_same:
  assumes "tended dev h Q e" and "en_running e' = en_running e" and "devices e' = devices e" and "en_tasks e' = en_tasks e"
    and "en_queue e' = en_queue e" and "en_channels e' = en_channels e" and "en_answers e' = en_answers e @ others"
  shows "aside dev h Q e e'"
  using assms foreign_same[OF assms(3-5)] by (auto simp: aside_def tended_def)

lemma running_updates [simp]:
  "en_running (answer i a e) = en_running e" "en_running (answer_all xs e) = en_running e"
  "en_running (announce ev e) = en_running e" "en_running (put_device d h e) = en_running e"
  "en_running (drop_device d e) = en_running e" "en_running (drop_reconnecting d e) = en_running e"
  by (simp_all add: answer_def answer_all_def announce_def put_device_def drop_device_def drop_reconnecting_def)

lemma foreign_registry:
  "foreign dev (put_device d h' e) \<subseteq> insert h' (foreign dev e)" "foreign dev (drop_device d e) \<subseteq> foreign dev e"
  "foreign dev (drop_reconnecting d e) = foreign dev e" "foreign dev (announce ev e) = foreign dev e"
  "foreign dev (answer_all xs e) = foreign dev e"
  by (auto simp: foreign_def split: if_splits)

lemma foreign_start_reconnect: "foreign dev (start_reconnect_backoff d vid pid path e) = foreign dev e"
proof -
  obtain t where "en_tasks (start_reconnect_backoff d vid pid path e) = en_tasks e @ [t]" "handle_of_task t = None"
    using start_reconnect_tasks by blast
  then show ?thesis by (simp add: foreign_def)
qed

lemma update_elsewhere:
  assumes "tended dev h Q e" and "k \<noteq> dh_tx h" and "wk_device_id (ch_worker ch) = wk_device_id (ch_worker (en_channels e ! k))"
    and "wk_phase (ch_worker (en_channels e ! k)) = Exited \<Longrightarrow> wk_phase (ch_worker ch) = Exited"
    and "en_channels e' = (en_channels e)[k := ch]" and "en_running e' = en_running e" and "devices e' = devices e"
    and "en_tasks e' = en_tasks e" and "en_queue e' = en_queue e" and "en_answers e' = en_answers e @ others"
  shows "aside dev h Q e e'"
proof -
  have "lone dev (dh_tx h) (en_channels e')" unfolding assms(5) by (rule lone_update[OF lone_tended[OF assms(1)] assms(3,4)])
  moreover from assms(2) have "en_channels e' ! dh_tx h = en_channels e ! dh_tx h" by (simp add: assms(5))
  ultimately show ?thesis
    using assms(1,5-10) foreign_same[OF assms(7-9)] by (auto simp: aside_def tended_def)
qed

lemma send_elsewhere:
  assumes "tended dev h Q e" and "d \<noteq> dev" and "devices e d = Some h'"
  shows "aside dev h Q e (send_to_worker h' d op e)"
proof -
  from assms have other: "dh_tx h' \<noteq> dh_tx h" by (auto simp: tended_def foreign_def)
  show ?thesis
  proof (cases rule: send_to_worker_cases[of h' d op e])
    case sent
    then show ?thesis by (intro update_elsewhere[OF assms(1) other]) simp_all
  next
    case full
    then show ?thesis by (intro aside_same[OF assms(1)]) (simp_all add: answer_all_def)
  next
    case closed
    have "tended dev h Q (send_to_worker h' d op e)"
      by (rule tendedI[OF assms(1)])
         (use assms foreign_registry(2)[of dev d e] in \<open>simp_all add: closed tended_def foreign_registry(5) subsetD\<close>)
    then show ?thesis using closed by (auto simp: aside_def)
  qed
qed

lemma dispatch_elsewhere:
  assumes "tended dev h Q e" and "d \<noteq> dev"
  shows "aside dev h Q e (dispatch_op d op e)" "aside dev h Q e (dispatch_key_op d l r c op e)"
proof -
  have quick: "aside dev h Q e (answer i a e)" for i a
    by (rule aside_same[OF assms(1), where others = "[(i, a)]"]) simp_all
  with send_elsewhere[OF assms] show "aside dev h Q e (dispatch_op d op e)" "aside dev h Q e (dispatch_key_op d l r c op e)"
    by (auto simp: dispatch_op_def dispatch_key_op_def split: option.split)
qed

text \<open>Connecting, losing and getting back another keyboard.\<close>

lemma tended_start_reconnect:
  assumes "tended dev h Q e" and "d \<noteq> dev"
  shows "tended dev h Q (start_reconnect_backoff d vid pid path e)"
proof -
  obtain t where t: "en_tasks (start_reconnect_backoff d vid pid path e) = en_tasks e @ [t]" "rt_device_id t = d"
    by (simp add: start_reconnect_backoff_def Let_def)
  show ?thesis
    by (rule tendedI[OF assms(1)]) (use assms t in \<open>auto simp: tended_def foreign_start_reconnect\<close>)
qed

lemma connected_elsewhere:
  assumes "tended dev h Q e"
  shows "aside dev h Q e (handle_connected d vid pid path e)"
proof -
  have h: "devices e dev = Some h" "dh_tx h < length (en_channels e)" using assms by (simp_all add: tended_def)
  show ?thesis
  proof (cases rule: handle_connected_cases[of d vid pid path e])
    case (ignored w)
    then show ?thesis
      by (intro aside_same[OF assms, where others = "[]"]) simp_all
  next
    case (attached h' w b)
    with h have other: "d \<noteq> dev" by auto
    let ?e' = "handle_connected d vid pid path e"
    have f: "foreign dev ?e' \<subseteq> insert h' (foreign dev e)"
      unfolding attached(3) using foreign_registry(1)[of dev d h'] by (auto simp: foreign_def split: if_splits)
    have l: "lone dev (dh_tx h) (en_channels ?e')"
      using lone_append[OF lone_tended[OF assms], of "\<lparr>ch_queue = [], ch_worker = worker_start d b\<rparr>"] other
      by (simp add: attached(3) worker_start_def)
    have "tended dev h Q ?e'"
    proof (rule tendedI[OF assms _ _ _ l])
      show "h'' \<in> foreign dev e \<or> dh_tx h'' \<noteq> dh_tx h" if "h'' \<in> foreign dev ?e'" for h''
        using f that attached(2) h(2) by auto
    qed (use assms other in \<open>auto simp: attached(3) tended_def\<close>)
    then show ?thesis using h by (simp add: aside_def attached(3) nth_append)
  next
    case (backoff w)
    with h have other: "d \<noteq> dev" by auto
    have "aside dev h Q e ((drop_reconnecting d e)\<lparr>en_world := w\<rparr>)"
      by (rule aside_same[OF assms, where others = "[]"]) simp_all
    then have "tended dev h Q (handle_connected d vid pid path e)"
      using tended_start_reconnect[OF _ other] by (simp add: aside_def backoff(2))
    then show ?thesis by (simp add: aside_def backoff(2))
  qed
qed

lemma lost_elsewhere:
  assumes "tended dev h Q e" and "d \<noteq> dev"
  shows "aside dev h Q e (announce ev (drop_device d (drop_reconnecting d' e)))"
    and "aside dev h Q e (announce ev (drop_device d e))"
    and "aside dev h Q e (start_reconnect_backoff d vid pid path (announce ev (drop_device d e)))"
proof -
  have f: "foreign dev (announce ev (drop_device d (drop_reconnecting d' e))) \<subseteq> foreign dev e"
    "foreign dev (announce ev (drop_device d e)) \<subseteq> foreign dev e"
    using foreign_registry(2) foreign_registry(2)[of dev d "drop_reconnecting d' e"] by (simp_all only: foreign_registry)
  have "tended dev h Q (announce ev (drop_device d (drop_reconnecting d' e)))"
    by (rule tendedI[OF assms(1)]) (use assms f(1) in \<open>auto simp: tended_def\<close>)
  then show "aside dev h Q e (announce ev (drop_device d (drop_reconnecting d' e)))" by (simp add: aside_def)
  have "tended dev h Q (announce ev (drop_device d e))"
    by (rule tendedI[OF assms(1)]) (use assms f(2) in \<open>auto simp: tended_def\<close>)
  then show "aside dev h Q e (announce ev (drop_device d e))" by (simp add: aside_def)
  have "tended dev h Q (start_reconnect_backoff d vid pid path (announce ev (drop_device d e)))"
    by (rule tended_start_reconnect[OF \<open>tended dev h Q (announce ev (drop_device d e))\<close> assms(2)])
  then show "aside dev h Q e (start_reconnect_backoff d vid pid path (announce ev (drop_device d e)))"
    by (simp add: aside_def)
qed

lemma reattached_elsewhere:
  assumes "tended dev h Q e" and "d \<noteq> dev" and "dh_tx h' \<noteq> dh_tx h"
  shows "aside dev h Q e (handle_reattached d h' token e)"
proof (cases "reconnecting e d = Some token")
  case True
  let ?e' = "announce (DeviceAdded d) (put_device d h' (drop_reconnecting d e))"
  have f: "foreign dev ?e' \<subseteq> insert h' (foreign dev e)"
    using foreign_registry(1)[of dev d h' "drop_reconnecting d e"] by (simp only: foreign_registry)
  have "tended dev h Q ?e'"
    unfolding tended_def using assms f by (auto simp: tended_def)
  with True show ?thesis by (simp add: handle_reattached_def aside_def)
next
  case False
  then show ?thesis
    using aside_same[OF assms(1), where others = "[]"] by (simp add: handle_reattached_def)
qed

section \<open>Every step of the engine is a step of the smaller system\<close>

lemma tended_pop:
  assumes "tended dev h Q e" and "en_queue e = cmd # rest"
  shows "tended dev h Q (e\<lparr>en_queue := rest\<rparr>)" and "orderly dev (dh_topology h) Q cmd"
    and "handle_of_command cmd = Some h' \<Longrightarrow> dh_tx h' \<noteq> dh_tx h"
proof -
  have "foreign dev (e\<lparr>en_queue := rest\<rparr>) \<subseteq> foreign dev e" using assms(2) by (auto simp: foreign_def)
  with assms show "tended dev h Q (e\<lparr>en_queue := rest\<rparr>)" by (auto simp: tended_def)
  from assms show "orderly dev (dh_topology h) Q cmd" by (simp add: tended_def)
  from assms show "handle_of_command cmd = Some h' \<Longrightarrow> dh_tx h' \<noteq> dh_tx h" by (auto simp: tended_def foreign_def)
qed

text \<open>A command for the worker of the keyboard is sent to it; any other is handled aside.\<close>

lemma command_elsewhere:
  assumes "tended dev h Q e" and "orderly dev (dh_topology h) Q cmd" and "request_for dev (dh_topology h) cmd = None"
    and "\<And>h'. handle_of_command cmd = Some h' \<Longrightarrow> dh_tx h' \<noteq> dh_tx h"
  shows "aside dev h Q e (handle_command cmd e)"
proof -
  have same: "aside dev h Q e e" using aside_same[OF assms(1), where others = "[]"] by simp
  have quick: "aside dev h Q e (answer i a e)" for i a
    by (rule aside_same[OF assms(1), where others = "[(i, a)]"]) simp_all
  have drop: "aside dev h Q e (drop_reconnecting d e)" for d
    by (rule aside_same[OF assms(1), where others = "[]"]) simp_all
  have key: "aside dev h Q e (dispatch_key_op d l r c op e)" if "d = dev \<longrightarrow> \<not> topology_contains (dh_topology h) l r c" for d l r c op
  proof (cases "d = dev")
    case True
    moreover have "devices e dev = Some h" using assms(1) by (simp add: tended_def)
    ultimately show ?thesis using that quick by (simp add: dispatch_key_op_def)
  qed (rule dispatch_elsewhere(2)[OF assms(1)])
  show ?thesis
  proof (cases cmd)
    case (DeviceDisconnected d)
    with assms(2) lost_elsewhere(1)[OF assms(1)] drop show ?thesis by (simp add: handle_disconnected_def Let_def)
  next
    case (DeviceError d err)
    with assms(2) lost_elsewhere(2,3)[OF assms(1)] same show ?thesis
      by (simp add: handle_device_error_def Let_def split: option.split)
  next
    case (DeviceReattached d h' token)
    with assms(2,4) reattached_elsewhere[OF assms(1)] show ?thesis by (simp add: handle_of_command_def)
  qed (use assms(2,3) key quick connected_elsewhere[OF assms(1)] dispatch_elsewhere(1)[OF assms(1)]
       in \<open>auto simp: dispatch_get_def dispatch_set_def split: if_splits\<close>)
qed

lemma request_sent:
  assumes "devices e dev = Some h" and "request_for dev (dh_topology h) cmd = Some op"
  shows "handle_command cmd e = send_to_worker h dev op e"
  using assms
  by (cases cmd) (auto simp: dispatch_get_def dispatch_set_def dispatch_key_op_def dispatch_op_def split: if_splits)

lemma supervise_desk:
  assumes "tended dev h Q e" and "en_queue e = cmd # rest" and "wk_phase (ch_worker (en_channels e ! dh_tx h)) = Running"
  shows "tended dev h Q (supervise cmd (e\<lparr>en_queue := rest\<rparr>))
    \<and> desk_step idle dev (desk_of dev h e) [] (desk_of dev h (supervise cmd (e\<lparr>en_queue := rest\<rparr>)))"
proof -
  let ?e1 = "e\<lparr>en_queue := rest\<rparr>" and ?c = "dh_tx h"
  note pop = tended_pop[OF assms(1,2)]
  have h: "devices ?e1 dev = Some h" "?c < length (en_channels e)" using assms(1) by (simp_all add: tended_def)
  have "cmd \<noteq> Shutdown" using pop(2) by auto
  then have sup: "supervise cmd ?e1 = handle_command cmd ?e1" by (simp add: supervise_def)
  show ?thesis
  proof (cases "request_for dev (dh_topology h) cmd")
    case None
    from command_elsewhere[OF pop(1,2) None pop(3)] have a: "aside dev h Q ?e1 (handle_command cmd ?e1)" .
    have "desk_of dev h ?e1 = desk_of dev h e" using assms(2) None by (simp add: desk_of_def)
    with aside_step[OF a, of idle] a sup show ?thesis by (simp add: aside_def)
  next
    case (Some op)
    note sent = request_sent[OF h(1) Some]
    let ?ch = "en_channels e ! ?c"
    show ?thesis
    proof (cases "length (ch_queue ?ch) < WORKER_CHANNEL_CAPACITY")
      case True
      let ?e' = "?e1\<lparr>en_channels := (en_channels e)[?c := ?ch\<lparr>ch_queue := ch_queue ?ch @ [op]\<rparr>]\<rparr>"
      have e': "supervise cmd ?e1 = ?e'"
        using True assms(3) by (simp add: sup sent send_to_worker_def try_send_def Let_def)
      have "lone dev ?c (en_channels ?e')"
        using lone_update[OF lone_tended[OF assms(1)], of "?ch\<lparr>ch_queue := ch_queue ?ch @ [op]\<rparr>" ?c] by simp
      with pop(1) have "tended dev h Q ?e'" by (simp add: tended_def foreign_def)
      moreover have "desk_step idle dev (desk_of dev h e) [] (desk_of dev h ?e')"
        using desk_accept[of "desk_of dev h e" op "requests dev (dh_topology h) rest" idle dev] True h(2) assms(2) Some
        by (simp add: desk_of_def)
      ultimately show ?thesis by (simp only: e')
    next
      case False
      have e': "supervise cmd ?e1 = answer_all [refusal dev op] ?e1"
        using False assms(3)
        by (simp add: sup sent send_to_worker_def try_send_def Let_def reply_with_error_def refusal_def)
      have "aside dev h Q ?e1 (answer_all [refusal dev op] ?e1)"
        by (rule aside_same[OF pop(1), where others = "[refusal dev op]"]) simp_all
      moreover have "desk_step idle dev (desk_of dev h e) [] (desk_of dev h (answer_all [refusal dev op] ?e1))"
        using desk_refuse[of "desk_of dev h e" op "requests dev (dh_topology h) rest" idle dev] False assms(2) Some
        by (simp add: desk_of_def answer_all_def)
      ultimately show ?thesis by (simp add: e' aside_def)
    qed
  qed
qed

lemma aside_trans: "aside dev h Q e e1 \<Longrightarrow> aside dev h Q e1 e2 \<Longrightarrow> aside dev h Q e e2"
  by (auto simp: aside_def)

text \<open>A task of another device may change its phase; the handle it then holds is not the keyboard's.\<close>

lemma task_elsewhere:
  assumes "tended dev h Q e" and "k < length (en_tasks e)" and "rt_device_id t' \<noteq> dev"
    and "\<And>h'. handle_of_task t' = Some h' \<Longrightarrow> h' \<in> foreign dev e \<or> dh_tx h' \<noteq> dh_tx h"
  shows "aside dev h Q e (put_task k t' e)"
proof -
  have sub: "set ((en_tasks e)[k := t']) \<subseteq> insert t' (set (en_tasks e))" by (rule set_update_subset_insert)
  have "tended dev h Q (put_task k t' e)"
  proof (rule tendedI[OF assms(1)])
    fix h'
    assume "h' \<in> foreign dev (put_task k t' e)"
    then have "h' \<in> foreign dev e \<or> handle_of_task t' = Some h'" using sub by (auto simp: foreign_def put_task_def)
    with assms(4) show "h' \<in> foreign dev e \<or> dh_tx h' \<noteq> dh_tx h" by blast
  next
    fix t
    assume "t \<in> set (en_tasks (put_task k t' e))" and "rt_device_id t = dev"
    then show "rt_phase t = Ended" using assms(1,3) sub by (auto simp: put_task_def tended_def)
  qed (use assms(1) in \<open>simp_all add: put_task_def tended_def\<close>)
  then show ?thesis by (simp add: aside_def put_task_def)
qed

lemma attempt_device: "\<exists>t'. en_tasks (attempt_reconnect k t e) = (en_tasks e)[k := t'] \<and> rt_device_id t' = rt_device_id t"
proof (cases "select_factory (en_table e) (rt_vendor_id t) (rt_product_id t)")
  case None
  show ?thesis
    by (rule exI[of _ "t\<lparr>rt_attempts := Suc (rt_attempts t), rt_phase := Ended\<rparr>"])
       (simp add: attempt_reconnect_def None put_task_def)
next
  case (Some f)
  obtain r e1 where oa: "open_and_attach f (rt_device_id t) (rt_vendor_id t) (rt_product_id t) (rt_hidraw_path t) e = (r, e1)"
    by fastforce
  then have "en_tasks e1 = en_tasks e" by (cases rule: open_and_attach_cases) simp_all
  with Some oa show ?thesis
    by (cases r) (auto simp: attempt_reconnect_def put_task_def next_pause_def Let_def)
qed

lemma attempt_elsewhere:
  assumes "tended dev h Q e" and "k < length (en_tasks e)" and "en_tasks e ! k = t" and "rt_device_id t \<noteq> dev"
  shows "aside dev h Q e (attempt_reconnect k t e)"
proof -
  have "t' = t''" if "(en_tasks e)[k := t'] = (en_tasks e)[k := t'']" for t' t''
    using arg_cong[OF that, of "\<lambda>ts. ts ! k"] assms(2) by simp
  then have device: "rt_device_id t' \<noteq> dev" if "en_tasks (attempt_reconnect k t e) = (en_tasks e)[k := t']" for t'
    using that attempt_device[of k t e] assms(4) by metis
  show ?thesis
  proof (cases rule: attempt_reconnect_cases[of k t e])
    case (quiet w t')
    have same: "aside dev h Q e (e\<lparr>en_world := w\<rparr>)" by (rule aside_same[OF assms(1), where others = "[]"]) simp_all
    moreover have "aside dev h Q (e\<lparr>en_world := w\<rparr>) (put_task k t' (e\<lparr>en_world := w\<rparr>))"
      by (rule task_elsewhere) (use same assms(2) quiet device[of t'] in \<open>auto simp: aside_def put_task_def\<close>)
    ultimately show ?thesis using aside_trans quiet(1) by metis
  next
    case (attached w h' b t')
    let ?e1 = "e\<lparr>en_world := w, en_channels := en_channels e @ [\<lparr>ch_queue = [], ch_worker = worker_start (rt_device_id t) b\<rparr>]\<rparr>"
    have "lone dev (dh_tx h) (en_channels ?e1)"
      using lone_append[OF lone_tended[OF assms(1)]] assms(4) by (simp add: worker_start_def)
    then have "tended dev h Q ?e1" using assms(1) by (auto simp: tended_def foreign_def)
    with assms(1) have one: "aside dev h Q e ?e1" by (auto simp: aside_def tended_def nth_append)
    have "dh_tx h' \<noteq> dh_tx h" using assms(1) attached(3) by (simp add: tended_def)
    moreover have "rt_device_id t' \<noteq> dev" using device[of t'] attached(1) by (simp add: put_task_def)
    ultimately have "aside dev h Q ?e1 (put_task k t' ?e1)"
      using one assms(2) attached(2) by (intro task_elsewhere) (auto simp: aside_def)
    with one show ?thesis unfolding attached(1) by (rule aside_trans)
  qed
qed

lemma report_elsewhere:
  assumes "tended dev h Q e" and "c < length (en_channels e)" and "en_channels e ! c = ch"
    and "wk_phase (ch_worker ch) = Reporting" and "wk_phase (ch_worker (en_channels e ! dh_tx h)) = Running"
  shows "aside dev h Q e (report_and_exit c (ch_worker ch) e)"
proof -
  have c: "c \<noteq> dh_tx h" using assms(3-5) by auto
  have other: "wk_device_id (ch_worker ch) \<noteq> dev"
    using lone_tended[OF assms(1)] assms(2-4) c unfolding lone_def by (metis worker_phase.distinct(5))
  let ?e1 = "e\<lparr>en_queue := en_queue e @ [DeviceError (wk_device_id (ch_worker ch)) worker_report]\<rparr>"
  have "foreign dev ?e1 = foreign dev e" by (auto simp: foreign_def handle_of_command_def)
  with assms(1) other have one: "aside dev h Q e ?e1" by (auto simp: aside_def tended_def)
  have "aside dev h Q ?e1 (exit_worker c (ch_worker ch) ?e1)"
    by (rule update_elsewhere[where k = c and ch = "\<lparr>ch_queue = [], ch_worker = (ch_worker ch)\<lparr>wk_phase := Exited\<rparr>\<rparr>" and others = "[]"])
       (use one c assms(3) in \<open>simp_all add: aside_def exit_worker_def devices_def\<close>)
  with one have "aside dev h Q e (exit_worker c (ch_worker ch) ?e1)" by (rule aside_trans)
  moreover have "en_running e" using assms(1) by (simp add: tended_def)
  ultimately show ?thesis by (simp add: report_and_exit_def)
qed

definition asked :: "string \<Rightarrow> device_topology \<Rightarrow> engine_command option \<Rightarrow> worker_op list" where
  "asked dev t lab = (case lab of Some cmd \<Rightarrow> requests dev t [cmd] | None \<Rightarrow> [])"

text \<open>The worker of the keyboard itself: an operation, the debounce, and the driver on its own.\<close>

lemma work_here:
  assumes "tended dev h Q e" and "en_channels e ! dh_tx h = ch" and "wk_device_id (fst x) = wk_device_id (ch_worker ch)"
    and "wk_phase (ch_worker ch) = Running"
  shows "tended dev h Q (put_worker (dh_tx h) q x e)"
    and "desk_of dev h (put_worker (dh_tx h) q x e)
      = (desk_of dev h e)\<lparr>dk_queue := q, dk_worker := fst x, dk_answers := en_answers e @ answers_of (snd x)\<rparr>"
proof -
  have "lone dev (dh_tx h) ((en_channels e)[dh_tx h := \<lparr>ch_queue = q, ch_worker = fst x\<rparr>])"
    by (rule lone_update[OF lone_tended[OF assms(1)]]) (use assms(2-4) in simp_all)
  with assms(1) show "tended dev h Q (put_worker (dh_tx h) q x e)"
    by (simp add: tended_def put_worker_def apply_effects_def foreign_def)
  from assms(1) show "desk_of dev h (put_worker (dh_tx h) q x e)
      = (desk_of dev h e)\<lparr>dk_queue := q, dk_worker := fst x, dk_answers := en_answers e @ answers_of (snd x)\<rparr>"
    by (simp add: desk_of_def put_worker_def apply_effects_def tended_def)
qed

lemma worker_elsewhere:
  assumes "tended dev h Q e" and "c \<noteq> dh_tx h" and "en_channels e ! c = ch"
    and "wk_device_id (fst x) = wk_device_id (ch_worker ch)" and "wk_phase (ch_worker ch) = Running"
  shows "aside dev h Q e (put_worker c q x e)"
  by (rule update_elsewhere[OF assms(1,2), where ch = "\<lparr>ch_queue = q, ch_worker = fst x\<rparr>" and others = "answers_of (snd x)"])
     (use assms(3-5) in \<open>simp_all add: put_worker_def apply_effects_def\<close>)

lemma debounce_device: "wk_device_id (fst (worker_debounced_commit w)) = wk_device_id w"
  by (simp add: worker_debounced_commit_def call_driver_def Let_def prod.case_eq_if)

lemma tended_sender: "tended dev h Q e \<Longrightarrow> sender_alive e (dh_tx h)"
  by (auto simp: tended_def sender_alive_iff handles_iff ran_def intro!: bexI[of _ h])

lemma other_task: "tended dev h Q e \<Longrightarrow> t \<in> set (en_tasks e) \<Longrightarrow> rt_phase t \<noteq> Ended \<Longrightarrow> rt_device_id t \<noteq> dev"
  by (auto simp: tended_def)

lemma send_elsewhere_task:
  assumes "tended dev h Q e" and "k < length (en_tasks e)" and "en_tasks e ! k = t" and "rt_phase t = Sending h'"
  shows "aside dev h Q e (send_reattached k t h' e)"
proof -
  have other: "rt_device_id t \<noteq> dev" using other_task[OF assms(1) nth_mem[OF assms(2)]] assms(3,4) by simp
  let ?e1 = "e\<lparr>en_queue := en_queue e @ [DeviceReattached (rt_device_id t) h' (rt_token t)]\<rparr>"
  have "h' \<in> foreign dev e"
    using assms(2-4) nth_mem[OF assms(2)] by (auto simp: foreign_def handle_of_task_def intro!: bexI[of _ t])
  then have "foreign dev ?e1 = foreign dev e" by (auto simp: foreign_def handle_of_command_def)
  with assms(1) other have one: "aside dev h Q e ?e1" by (auto simp: aside_def tended_def)
  have "aside dev h Q ?e1 (put_task k (t\<lparr>rt_phase := Ended\<rparr>) ?e1)"
    by (rule task_elsewhere) (use one assms(2) other in \<open>simp_all add: aside_def handle_of_new_task\<close>)
  with one have "aside dev h Q e (put_task k (t\<lparr>rt_phase := Ended\<rparr>) ?e1)" by (rule aside_trans)
  moreover have "en_running e" using assms(1) by (simp add: tended_def)
  ultimately show ?thesis by (simp add: send_reattached_def)
qed

lemma desk_simulates:
  assumes "engine_step idle e lab e'" and "tended dev h Q e" and "wk_phase (ch_worker (en_channels e ! dh_tx h)) = Running"
    and "\<And>cmd. lab = Some cmd \<Longrightarrow> orderly dev (dh_topology h) Q cmd"
  shows "tended dev h Q e' \<and> desk_step idle dev (desk_of dev h e) (asked dev (dh_topology h) lab) (desk_of dev h e')"
proof -
  let ?c = "dh_tx h" and ?d = "desk_of dev h e"
  have fields: "dk_queue ?d = ch_queue (en_channels e ! ?c)" "dk_worker ?d = ch_worker (en_channels e ! ?c)"
    "dk_answers ?d = en_answers e" by (simp_all add: desk_of_def)
  have away: ?thesis if "aside dev h Q e e'" and "lab = None"
    using that aside_step[OF that(1)] by (simp add: aside_def asked_def)
  show ?thesis
    using assms(1)
  proof cases
    case (step_post cmd)
    have "handle_of_command cmd = None" using step_post by (cases cmd) (simp_all add: handle_of_command_def)
    then have "foreign dev e' = foreign dev e" using step_post by (auto simp: foreign_def)
    with assms(2,4) step_post have "tended dev h Q e'" by (simp add: tended_def)
    moreover have "desk_of dev h e' = ?d\<lparr>dk_waiting := dk_waiting ?d @ asked dev (dh_topology h) lab\<rparr>"
      using step_post by (simp add: desk_of_def asked_def)
    ultimately show ?thesis using desk_ask[of idle dev ?d] by simp
  next
    case (step_supervise cmd rest)
    with supervise_desk[OF assms(2) _ assms(3)] show ?thesis by (simp add: asked_def)
  next
    case (step_recv c ch op rest)
    show ?thesis
    proof (cases "c = ?c")
      case True
      with step_recv have ch: "en_channels e ! ?c = ch" by simp
      note here = work_here[OF assms(2) ch worker_handle_device_id]
      have "desk_step idle dev ?d [] (desk_of dev h e')" "tended dev h Q e'"
        using step_recv True here desk_work[OF _ prod.collapse[symmetric], where d = ?d and now = "en_now e" and idle = idle and dev = dev]
        by (simp_all add: fields ch)
      with step_recv show ?thesis by (simp add: asked_def)
    next
      case False
      with step_recv worker_elsewhere[OF assms(2) False _ worker_handle_device_id, of ch] show ?thesis
        by (intro away) simp_all
    qed
  next
    case (step_closed c ch)
    then have c: "c \<noteq> ?c" using tended_sender[OF assms(2)] by auto
    have "aside dev h Q e e'"
      by (rule update_elsewhere[OF assms(2) c, where ch = "\<lparr>ch_queue = [], ch_worker = (worker_shutdown (ch_worker ch))\<lparr>wk_phase := Exited\<rparr>\<rparr>"
            and others = "[]"])
         (use step_closed in \<open>simp_all add: exit_worker_def devices_def worker_shutdown_def call_driver_def Let_def
            prod.case_eq_if split: option.split\<close>)
    with step_closed away show ?thesis by blast
  next
    case (step_debounce c ch t)
    show ?thesis
    proof (cases "c = ?c")
      case True
      with step_debounce have ch: "en_channels e ! ?c = ch" by simp
      note here = work_here[OF assms(2) ch debounce_device, where q = "[]"]
      have same: "?d\<lparr>dk_queue := [], dk_worker := w, dk_answers := as\<rparr> = ?d\<lparr>dk_worker := w, dk_answers := as\<rparr>" for w as
        using step_debounce ch by (simp add: desk_of_def)
      have "desk_step idle dev ?d [] (desk_of dev h e')" "tended dev h Q e'"
        using step_debounce True here desk_debounce[OF prod.collapse[symmetric], where d = ?d and idle = idle and dev = dev]
        by (simp_all add: fields ch same)
      with step_debounce show ?thesis by (simp add: asked_def)
    next
      case False
      with step_debounce worker_elsewhere[OF assms(2) False _ debounce_device, of ch] show ?thesis
        by (intro away) simp_all
    qed
  next
    case (step_report c ch)
    with report_elsewhere[OF assms(2) _ _ _ assms(3)] away show ?thesis by blast
  next
    case (step_idle c ch s')
    let ?ch = "ch\<lparr>ch_worker := (ch_worker ch)\<lparr>wk_driver := (wk_driver (ch_worker ch))\<lparr>bx_state := s'\<rparr>\<rparr>\<rparr>"
    show ?thesis
    proof (cases "c = ?c")
      case True
      have "lone dev ?c ((en_channels e)[?c := ?ch])"
        by (rule lone_update[OF lone_tended[OF assms(2)]]) (use step_idle True in simp_all)
      with step_idle True assms(2) have "tended dev h Q e'" by (simp add: tended_def foreign_def)
      moreover have "desk_step idle dev ?d [] (desk_of dev h e')"
        using step_idle True desk_idle[of idle ?d s' dev] by (simp add: desk_of_def)
      ultimately show ?thesis using step_idle by (simp add: asked_def)
    next
      case False
      have "aside dev h Q e e'"
        by (rule update_elsewhere[OF assms(2) False, where ch = ?ch and others = "[]"]) (use step_idle in simp_all)
      with step_idle away show ?thesis by blast
    qed
  next
    case (step_cancel k t until)
    have "rt_device_id t \<noteq> dev" using other_task[OF assms(2), of t] step_cancel by auto
    then have "aside dev h Q e e'"
      unfolding step_cancel by (intro task_elsewhere[OF assms(2)]) (use step_cancel in \<open>simp_all add: handle_of_new_task\<close>)
    with step_cancel away show ?thesis by blast
  next
    case (step_wake k t until)
    have "rt_device_id t \<noteq> dev" using other_task[OF assms(2), of t] step_wake by auto
    with step_wake attempt_elsewhere[OF assms(2)] away show ?thesis by blast
  next
    case (step_check k t h')
    have other: "rt_device_id t \<noteq> dev" using other_task[OF assms(2), of t] step_check by auto
    have "h' \<in> foreign dev e"
      using step_check nth_mem[of k "en_tasks e"] by (auto simp: foreign_def handle_of_task_def intro!: bexI[of _ t])
    then have "aside dev h Q e e'"
      unfolding step_check check_cancelled_def
      by (intro task_elsewhere[OF assms(2)]) (use step_check other in \<open>auto simp: handle_of_task_def split: if_splits\<close>)
    with step_check away show ?thesis by blast
  next
    case (step_send k t h')
    with send_elsewhere_task[OF assms(2)] away show ?thesis by blast
  next
    case (step_elapse now)
    have "aside dev h Q e e'" by (rule aside_same[OF assms(2), where others = "[]"]) (use step_elapse in simp_all)
    with step_elapse away show ?thesis by blast
  qed
qed

end
