(* ===== verification/Engine_Settle.thy ===== *)
theory Engine_Settle
  imports Engine_Claims
begin

text \<open>
  The engine comes to rest. Every step that a task takes on its own, with no command posted and no time
  passing, uses up some of the work that is left; when no such step is possible any more, no request is
  still waiting, and after \<open>Shutdown\<close> every worker and every reconnect task has ended.
\<close>

section \<open>Steps of the tasks alone\<close>

text \<open>A step without a command, a change of the clock, or a driver acting between two calls.\<close>

definition works :: "('w, 's) engine \<Rightarrow> ('w, 's) engine \<Rightarrow> bool" where
  "works e e' \<longleftrightarrow> engine_step (\<lambda>_ _. False) e None e' \<and> en_now e' = en_now e \<and> e' \<noteq> e"

definition at_rest :: "('w, 's) engine \<Rightarrow> bool" where
  "at_rest e \<longleftrightarrow> (\<forall>e'. \<not> works e e')"

section \<open>The work that is left\<close>

text \<open>
  What a message can still cause. A request can become one operation in a worker's queue, a connected
  device one worker, an error one reconnect task. A worker can commit once when its deadline has passed,
  and can retire, which sends one error. A task that is due can attach one worker and send one message.
\<close>

definition command_work :: "engine_command \<Rightarrow> nat" where
  "command_work cmd =
     (if replies_of_command cmd \<noteq> [] then 2
      else case cmd of DeviceConnected _ _ _ _ \<Rightarrow> 5 | DeviceError _ _ \<Rightarrow> 2 | _ \<Rightarrow> 1)"

definition worker_work :: "nat \<Rightarrow> 's worker \<Rightarrow> nat" where
  "worker_work now w =
     (case wk_phase w of
        Running \<Rightarrow> 4 + (case wk_deadline w of Some t \<Rightarrow> if t \<le> now then 1 else 0 | None \<Rightarrow> 0)
      | Reporting \<Rightarrow> 3
      | Exited \<Rightarrow> 0)"

definition channel_work :: "nat \<Rightarrow> 's channel \<Rightarrow> nat" where
  "channel_work now ch = worker_work now (ch_worker ch) + length (ch_queue ch)"

definition task_work :: "nat \<Rightarrow> reconnect_task \<Rightarrow> nat" where
  "task_work now t =
     (case rt_phase t of
        Sleeping until \<Rightarrow> if until \<le> now then 8 else 1
      | Attached _ \<Rightarrow> 3
      | Sending _ \<Rightarrow> 2
      | Ended \<Rightarrow> 0)"

definition work_left :: "('w, 's) engine \<Rightarrow> nat" where
  "work_left e = sum_list (map command_work (en_queue e))
     + sum_list (map (channel_work (en_now e)) (en_channels e)) + sum_list (map (task_work (en_now e)) (en_tasks e))"

lemma sum_list_map_update:
  "k < length xs \<Longrightarrow> sum_list (map f (xs[k := x])) + f (xs ! k) = sum_list (map f xs) + f x" for f :: "'a \<Rightarrow> nat"
proof (induction xs arbitrary: k)
  case (Cons y xs)
  then show ?case by (cases k) simp_all
qed simp

lemma worker_work_cases [simp]:
  "wk_phase w = Reporting \<Longrightarrow> worker_work now w = 3" "wk_phase w = Exited \<Longrightarrow> worker_work now w = 0"
  "wk_phase w = Running \<Longrightarrow> wk_deadline w = None \<Longrightarrow> worker_work now w = 4"
  by (simp_all add: worker_work_def)

lemma worker_work_running: "wk_phase w = Running \<Longrightarrow> 4 \<le> worker_work now w"
  by (simp add: worker_work_def)

lemma worker_start_work [simp]: "worker_work now (worker_start d b) = 4"
  by (simp add: worker_work_def worker_start_def)

lemma worker_handle_shrinks:
  assumes "wk_phase w = Running"
  shows "worker_work now (fst (worker_handle now op w)) \<le> worker_work now w"
proof (cases op)
  case (WSetKeycode l r c k i)
  obtain x w1 where x: "call_driver (\<lambda>ops. kd_set_keycode ops l r c k) w = (x, w1)" by fastforce
  from call_driver_fields[OF x] assms have "wk_phase w1 = Running" "wk_deadline w1 = wk_deadline w" by simp_all
  with assms x WSetKeycode show ?thesis
    by (auto simp: worker_work_def Let_def LEGACY_COMMIT_DEBOUNCE_def split: sum.split worker_phase.split)
next
  case (WCommit i)
  obtain x w1 where x: "call_driver kd_commit_to_nvram (w\<lparr>wk_deadline := None\<rparr>) = (x, w1)" by fastforce
  from call_driver_fields[OF x] assms have "wk_phase w1 = Running" "wk_deadline w1 = None" by simp_all
  with assms x WCommit show ?thesis by (auto simp: worker_work_def split: worker_phase.split)
qed (use assms in \<open>auto simp: answer_op_def worker_work_def call_driver_def Let_def split: worker_phase.split prod.splits\<close>)

lemma worker_commit_shrinks:
  assumes "wk_phase w = Running" and "wk_deadline w = Some t" and "t \<le> now"
  shows "worker_work now (fst (worker_debounced_commit w)) < worker_work now w"
proof -
  obtain x w1 where x: "call_driver kd_commit_to_nvram (w\<lparr>wk_deadline := None\<rparr>) = (x, w1)" by fastforce
  from call_driver_fields[OF x] assms have "wk_phase w1 = Running" "wk_deadline w1 = None" by simp_all
  with assms x show ?thesis by (auto simp: worker_debounced_commit_def worker_work_def split: worker_phase.split)
qed

section \<open>Every step uses some up\<close>

lemma work_served:
  assumes "served i e e'"
  shows "work_left e' \<le> work_left e + 1"
  using assms unfolding served_def
proof (elim disjE)
  assume "answered_now i e e'"
  then show ?thesis by (auto simp: answered_now_def work_left_def answer_def)
next
  assume "evicted i e e'"
  then show ?thesis by (auto simp: evicted_def work_left_def answer_def drop_device_def)
next
  assume "enqueued i e e'"
  then obtain h :: device_handle and op where e': "e' = e\<lparr>en_channels := (en_channels e)[dh_tx h :=
          (en_channels e ! dh_tx h)\<lparr>ch_queue := ch_queue (en_channels e ! dh_tx h) @ [op]\<rparr>]\<rparr>"
    unfolding enqueued_def by blast
  show ?thesis
  proof (cases "dh_tx h < length (en_channels e)")
    case True
    from sum_list_map_update[OF this, of "channel_work (en_now e)"
        "(en_channels e ! dh_tx h)\<lparr>ch_queue := ch_queue (en_channels e ! dh_tx h) @ [op]\<rparr>"] e' show ?thesis
      by (simp add: work_left_def channel_work_def)
  qed (simp add: e' list_update_beyond)
qed

lemma command_work_request: "replies_of_command cmd = [i] \<Longrightarrow> command_work cmd = 2"
  by (simp add: command_work_def)

lemma new_channel_work [simp]:
  "channel_work now \<lparr>ch_queue = [], ch_worker = worker_start d b\<rparr> = 4"
  by (simp add: channel_work_def)

lemma work_updates [simp]:
  "work_left (announce ev e) = work_left e" "work_left (put_device d h e) = work_left e"
  "work_left (drop_device d e) = work_left e" "work_left (drop_reconnecting d e) = work_left e"
  "work_left (e\<lparr>en_world := w\<rparr>) = work_left e"
  by (simp_all add: work_left_def announce_def put_device_def drop_device_def drop_reconnecting_def)

lemma work_new_task [simp]: "work_left (start_reconnect_backoff d vid pid path e) = work_left e + 1"
  by (simp add: work_left_def start_reconnect_backoff_def Let_def task_work_def RECONNECT_INITIAL_BACKOFF_MS_def)

lemma work_new_channel:
  "work_left (e\<lparr>en_world := w, en_channels := en_channels e @ [\<lparr>ch_queue = [], ch_worker = worker_start d b\<rparr>]\<rparr>)
    = work_left e + 4"
  by (simp add: work_left_def)

lemma work_command: "work_left (handle_command cmd e) < work_left e + command_work cmd"
proof (cases rule: command_cases[of cmd])
  case (request i)
  from work_served[OF handle_command_served[OF this], of e] command_work_request[OF this] show ?thesis by linarith
next
  case (connected d vid pid path)
  then show ?thesis
  proof (cases rule: handle_connected_cases[of d vid pid path e])
    case (attached h w b)
    with connected work_new_channel[where e = "drop_reconnecting d e" and w = w and d = d and b = b] show ?thesis by (simp add: command_work_def)
  qed (simp_all add: command_work_def)
next
  case (failed d err)
  then show ?thesis by (auto simp: handle_device_error_def Let_def command_work_def split: option.split)
qed (simp_all add: handle_disconnected_def handle_reattached_def Let_def command_work_def)

lemma work_supervise:
  assumes "en_queue e = cmd # rest"
  shows "work_left (supervise cmd (e\<lparr>en_queue := rest\<rparr>)) < work_left e"
proof -
  have "work_left e = work_left (e\<lparr>en_queue := rest\<rparr>) + command_work cmd" using assms by (simp add: work_left_def)
  moreover have "work_left (stop_supervisor (e\<lparr>en_queue := rest\<rparr>)) \<le> work_left (e\<lparr>en_queue := rest\<rparr>)"
    by (simp add: stop_supervisor_def work_left_def)
  moreover have "0 < command_work Shutdown" by (simp add: command_work_def)
  ultimately show ?thesis using work_command[of cmd "e\<lparr>en_queue := rest\<rparr>"] by (auto simp: supervise_def)
qed

lemma work_put_channel:
  assumes "c < length (en_channels e)" and "channel_work (en_now e) ch' < channel_work (en_now e) (en_channels e ! c)"
  shows "work_left (e\<lparr>en_channels := (en_channels e)[c := ch']\<rparr>) < work_left e"
  using sum_list_map_update[OF assms(1), of "channel_work (en_now e)" ch'] assms(2) by (simp add: work_left_def)

lemma work_put_worker:
  assumes "c < length (en_channels e)"
    and "worker_work (en_now e) (fst x) + length q < channel_work (en_now e) (en_channels e ! c)"
  shows "work_left (put_worker c q x e) < work_left e"
  using work_put_channel[OF assms(1), of "\<lparr>ch_queue = q, ch_worker = fst x\<rparr>"] assms(2)
  by (simp add: put_worker_def apply_effects_def channel_work_def work_left_def)

lemma work_exit_worker:
  assumes "c < length (en_channels e)"
  shows "work_left (exit_worker c w e) + channel_work (en_now e) (en_channels e ! c) = work_left e"
  using sum_list_map_update[OF assms, of "channel_work (en_now e)" "\<lparr>ch_queue = [], ch_worker = w\<lparr>wk_phase := Exited\<rparr>\<rparr>"]
  by (simp add: work_left_def exit_worker_def channel_work_def)

lemma work_put_task:
  assumes "k < length (en_tasks e)"
  shows "work_left (put_task k t e) + task_work (en_now e) (en_tasks e ! k) = work_left e + task_work (en_now e) t"
  using sum_list_map_update[OF assms, of "task_work (en_now e)" t] by (simp add: work_left_def put_task_def)

lemma work_recv:
  assumes "c < length (en_channels e)" and "wk_phase (ch_worker (en_channels e ! c)) = Running"
    and "ch_queue (en_channels e ! c) = op # rest"
  shows "work_left (put_worker c rest (worker_handle (en_now e) op (ch_worker (en_channels e ! c))) e) < work_left e"
  by (rule work_put_worker[OF assms(1)])
     (use worker_handle_shrinks[OF assms(2), of "en_now e" op] assms(3) in \<open>simp add: channel_work_def\<close>)

lemma work_closed:
  assumes "c < length (en_channels e)" and "wk_phase (ch_worker (en_channels e ! c)) = Running"
  shows "work_left (exit_worker c w e) < work_left e"
  using work_exit_worker[OF assms(1), of w] worker_work_running[OF assms(2), of "en_now e"]
  by (simp add: channel_work_def)

lemma work_debounce:
  assumes "c < length (en_channels e)" and "wk_phase (ch_worker (en_channels e ! c)) = Running"
    and "wk_deadline (ch_worker (en_channels e ! c)) = Some t" and "t \<le> en_now e"
  shows "work_left (put_worker c [] (worker_debounced_commit (ch_worker (en_channels e ! c))) e) < work_left e"
  by (rule work_put_worker[OF assms(1)])
     (use worker_commit_shrinks[OF assms(2-4)] in \<open>simp add: channel_work_def\<close>)

lemma work_report:
  assumes "c < length (en_channels e)" and "wk_phase (ch_worker (en_channels e ! c)) = Reporting"
  shows "work_left (report_and_exit c w e) < work_left e"
proof -
  let ?e1 = "if en_running e
    then e\<lparr>en_queue := en_queue e @ [DeviceError (wk_device_id w) worker_report]\<rparr> else e"
  have "work_left ?e1 \<le> work_left e + 2" by (simp add: work_left_def command_work_def)
  moreover have "3 \<le> channel_work (en_now e) (en_channels e ! c)" using assms(2) by (simp add: channel_work_def)
  moreover have "work_left (exit_worker c w ?e1) + channel_work (en_now e) (en_channels e ! c) = work_left ?e1"
    using work_exit_worker[of c ?e1 w] assms(1) by auto
  ultimately show ?thesis by (simp only: report_and_exit_def)
qed

lemma work_cancel:
  assumes "k < length (en_tasks e)" and "rt_phase (en_tasks e ! k) = Sleeping until"
  shows "work_left (put_task k ((en_tasks e ! k)\<lparr>rt_phase := Ended\<rparr>) e) < work_left e"
proof -
  have "1 \<le> task_work (en_now e) (en_tasks e ! k)" using assms(2) by (simp add: task_work_def)
  with work_put_task[OF assms(1), of "(en_tasks e ! k)\<lparr>rt_phase := Ended\<rparr>"] show ?thesis by (simp add: task_work_def)
qed

text \<open>The pause after a failed attempt is never empty, so the task is not due again.\<close>

lemma next_pause_work:
  assumes "task_ok t" and "rt_phase t = Sleeping until"
  shows "task_work now (next_pause now (t\<lparr>rt_attempts := n\<rparr>)) \<le> 1"
proof -
  have "0 < min (rt_backoff t * 2) RECONNECT_MAX_BACKOFF_MS"
    using assms by (simp add: task_ok_def pause_before_def RECONNECT_INITIAL_BACKOFF_MS_def RECONNECT_MAX_BACKOFF_MS_def)
  then show ?thesis by (auto simp: task_work_def next_pause_def Let_def RECONNECT_MAX_BACKOFF_MS_def)
qed

lemma work_wake:
  assumes "k < length (en_tasks e)" and "en_tasks e ! k = t" and "rt_phase t = Sleeping until" and "until \<le> en_now e"
    and "task_ok t"
  shows "work_left (attempt_reconnect k t e) < work_left e"
proof -
  have eight: "task_work (en_now e) t = 8" using assms(3,4) by (simp add: task_work_def)
  let ?t1 = "t\<lparr>rt_attempts := rt_attempts t + 1\<rparr>"
  have less: "work_left (put_task k x e1) < work_left e"
    if "work_left e1 + task_work (en_now e) x < work_left e + 8" and "en_tasks e1 = en_tasks e" and "en_now e1 = en_now e"
    for x e1
    using work_put_task[of k e1 x] that eight assms(1,2) by simp
  show ?thesis
  proof (cases "select_factory (en_table e) (rt_vendor_id t) (rt_product_id t)")
    case None
    then show ?thesis by (simp add: attempt_reconnect_def Let_def) (intro less; simp add: task_work_def)
  next
    case (Some f)
    obtain r e1 where oa: "open_and_attach f (rt_device_id t) (rt_vendor_id t) (rt_product_id t) (rt_hidraw_path t) e = (r, e1)"
      by fastforce
    then show ?thesis
    proof (cases rule: open_and_attach_cases)
      case (failed err w)
      have "task_work (en_now e) (next_pause (en_now e) ?t1) \<le> 1" by (rule next_pause_work[OF assms(5,3)])
      moreover have "task_work (en_now e) (?t1\<lparr>rt_phase := Ended\<rparr>) \<le> 1" by (simp add: task_work_def)
      ultimately have "task_work (en_now e) (if is_transient_attach_error err then next_pause (en_now e) ?t1
          else ?t1\<lparr>rt_phase := Ended\<rparr>) \<le> 1" by simp
      then have "work_left (put_task k (if is_transient_attach_error err then next_pause (en_now e) ?t1
          else ?t1\<lparr>rt_phase := Ended\<rparr>) e1) < work_left e"
        by (intro less) (simp_all add: failed)
      with Some oa failed show ?thesis by (simp add: attempt_reconnect_def Let_def split: if_splits)
    next
      case (attached h w b)
      have "task_work (en_now e) (?t1\<lparr>rt_phase := Attached h\<rparr>) = 3" by (simp add: task_work_def)
      then have "work_left (put_task k (?t1\<lparr>rt_phase := Attached h\<rparr>) e1) < work_left e"
        by (intro less) (simp_all add: attached work_new_channel)
      with Some oa attached show ?thesis by (simp add: attempt_reconnect_def Let_def)
    qed
  qed
qed

lemma work_check:
  assumes "k < length (en_tasks e)" and "rt_phase (en_tasks e ! k) = Attached h"
  shows "work_left (check_cancelled k (en_tasks e ! k) h e) < work_left e"
proof -
  let ?t = "(en_tasks e ! k)\<lparr>rt_phase := (if cancelled e (en_tasks e ! k) then Ended else Sending h)\<rparr>"
  have "task_work (en_now e) ?t < task_work (en_now e) (en_tasks e ! k)" using assms(2) by (simp add: task_work_def)
  with work_put_task[OF assms(1), of ?t] show ?thesis by (simp add: check_cancelled_def)
qed

lemma work_send:
  assumes "k < length (en_tasks e)" and "rt_phase (en_tasks e ! k) = Sending h"
  shows "work_left (send_reattached k (en_tasks e ! k) h e) < work_left e"
proof -
  let ?t = "(en_tasks e ! k)\<lparr>rt_phase := Ended\<rparr>"
  let ?e1 = "if en_running e then e\<lparr>en_queue := en_queue e @ [DeviceReattached (rt_device_id (en_tasks e ! k)) h
    (rt_token (en_tasks e ! k))]\<rparr> else e"
  have "work_left ?e1 \<le> work_left e + 1" by (simp add: work_left_def command_work_def)
  moreover have "task_work (en_now e) (en_tasks e ! k) = 2" "task_work (en_now e) ?t = 0"
    using assms(2) by (simp_all add: task_work_def)
  moreover have "work_left (put_task k ?t ?e1) + task_work (en_now e) (en_tasks e ! k)
      = work_left ?e1 + task_work (en_now e) ?t"
    using work_put_task[of k ?e1 ?t] assms(1) by auto
  ultimately show ?thesis by (simp add: send_reattached_def)
qed

text \<open>So a step of the tasks alone uses some of the work up, unless it only looks at the clock.\<close>

lemma work_step:
  assumes "works e e'" and "tasks_inv e"
  shows "work_left e' < work_left e"
proof -
  from assms(1) have "engine_step (\<lambda>_ _. False) e None e'" and same: "en_now e' = en_now e" "e' \<noteq> e"
    by (simp_all add: works_def)
  then show ?thesis
  proof cases
    case (step_supervise cmd rest)
    with work_supervise show ?thesis by simp
  next
    case (step_recv c ch op rest)
    with work_recv[of c e op rest] show ?thesis by simp
  next
    case (step_closed c ch)
    with work_closed[of c e] show ?thesis by simp
  next
    case (step_debounce c ch t)
    with work_debounce[of c e t] show ?thesis by simp
  next
    case (step_report c ch)
    with work_report[of c e] show ?thesis by simp
  next
    case (step_cancel k t until)
    with work_cancel[of k e until] show ?thesis by simp
  next
    case (step_wake k t until)
    moreover from step_wake assms(2) have "task_ok t" by (auto simp: tasks_inv_def list_all_length)
    ultimately show ?thesis using work_wake[of k e t until] by simp
  next
    case (step_check k t h)
    with work_check[of k e h] show ?thesis by simp
  next
    case (step_send k t h)
    with work_send[of k e h] show ?thesis by simp
  next
    case (step_elapse now)
    with same show ?thesis by simp
  qed simp
qed

lemma works_tasks_inv: "works e e' \<Longrightarrow> tasks_inv e \<Longrightarrow> tasks_inv e'"
  unfolding works_def by (blast intro: tasks_inv_step)

lemma works_bounded: "(works ^^ n) e e' \<Longrightarrow> tasks_inv e \<Longrightarrow> n + work_left e' \<le> work_left e"
proof (induction n arbitrary: e')
  case (Suc n)
  then obtain e1 where e1: "(works ^^ n) e e1" "works e1 e'" by auto
  have "tasks_inv e1"
    using rtranclp_induct[OF relpowp_imp_rtranclp[OF e1(1)], of tasks_inv] Suc.prems(2) works_tasks_inv by blast
  with work_step[OF e1(2)] Suc.IH[OF e1(1) Suc.prems(2)] show ?case by simp
qed simp

lemma works_until_rest: "tasks_inv e \<Longrightarrow> \<exists>e'. works\<^sup>*\<^sup>* e e' \<and> at_rest e'"
proof (induction "work_left e" arbitrary: e rule: less_induct)
  case less
  show ?case
  proof (cases "at_rest e")
    case False
    then obtain e1 where e1: "works e e1" by (auto simp: at_rest_def)
    with less.hyps[of e1] work_step works_tasks_inv less.prems obtain e' where "works\<^sup>*\<^sup>* e1 e'" "at_rest e'" by blast
    with e1 show ?thesis by (blast intro: converse_rtranclp_into_rtranclp)
  qed blast
qed

section \<open>What holds at rest\<close>

text \<open>After \<open>Shutdown\<close> the registry and the queue are gone, and a worker that has left keeps no queue.\<close>

definition stopped_inv :: "('w, 's) engine \<Rightarrow> bool" where
  "stopped_inv e \<longleftrightarrow> (\<not> en_running e \<longrightarrow> en_queue e = [] \<and> devices e = Map.empty \<and> reconnecting e = Map.empty)"

definition exits_inv :: "('w, 's) engine \<Rightarrow> bool" where
  "exits_inv e \<longleftrightarrow> (\<forall>ch \<in> set (en_channels e). wk_phase (ch_worker ch) = Exited \<longrightarrow> ch_queue ch = [])"

lemma handle_command_running: "en_running (handle_command cmd e) = en_running e"
proof (cases rule: command_cases[of cmd])
  case (request i)
  from handle_command_served[OF this, of e] served_drops_nothing show ?thesis by blast
next
  case (connected d vid pid path)
  then show ?thesis
    by (cases rule: handle_connected_cases[of d vid pid path e])
       (simp_all add: announce_def put_device_def drop_reconnecting_def)
next
  case (disconnected d)
  then show ?thesis by (simp add: handle_disconnected_def Let_def drop_reconnecting_def announce_def drop_device_def)
next
  case (failed d err)
  then show ?thesis
    by (simp add: handle_device_error_def Let_def announce_def drop_device_def split: option.split)
next
  case (reattached d h token)
  then show ?thesis by (simp add: handle_reattached_def announce_def put_device_def drop_reconnecting_def)
qed simp

lemma stopped_inv_step:
  assumes "engine_step idle e lab e'" and "stopped_inv e"
  shows "stopped_inv e'"
  using assms(1)
proof cases
  case (step_supervise cmd rest)
  then show ?thesis
    by (simp add: supervise_def stopped_inv_def stop_supervisor_def devices_def reconnecting_def
        handle_command_running del: fun_upd_apply)
next
  case (step_wake k t until)
  with assms(2) show ?thesis
    by (cases rule: attempt_reconnect_cases[of k t e]) (simp_all add: stopped_inv_def put_task_def)
qed (use assms(2) in \<open>auto simp: stopped_inv_def put_worker_def apply_effects_def exit_worker_def report_and_exit_def
      put_task_def check_cancelled_def send_reattached_def\<close>)

lemma exits_inv_update:
  assumes "exits_inv e" and "wk_phase (ch_worker ch) = Exited \<Longrightarrow> ch_queue ch = []"
    and "en_channels e' = (en_channels e)[c := ch]"
  shows "exits_inv e'"
  using assms set_update_subset_insert[of "en_channels e" c ch] by (auto simp: exits_inv_def)

lemma exits_inv_same: "exits_inv e \<Longrightarrow> en_channels e' = en_channels e \<Longrightarrow> exits_inv e'"
  by (simp add: exits_inv_def)

lemma exits_inv_new:
  "exits_inv e \<Longrightarrow> en_channels e' = en_channels e @ [\<lparr>ch_queue = [], ch_worker = w\<rparr>] \<Longrightarrow> exits_inv e'"
  by (auto simp: exits_inv_def)

lemma exits_inv_command:
  assumes "exits_inv e"
  shows "exits_inv (handle_command cmd e)"
proof (cases rule: command_cases[of cmd])
  case (request i)
  from handle_command_served[OF this, of e] show ?thesis
    unfolding served_def answered_now_def evicted_def enqueued_def
  proof (elim disjE exE conjE)
    fix d h op
    assume h: "wk_phase (ch_worker (en_channels e ! dh_tx h)) \<noteq> Exited"
      and e': "handle_command cmd e = e\<lparr>en_channels := (en_channels e)[dh_tx h :=
        (en_channels e ! dh_tx h)\<lparr>ch_queue := ch_queue (en_channels e ! dh_tx h) @ [op]\<rparr>]\<rparr>"
    show ?thesis unfolding e' by (rule exits_inv_update[OF assms, where c = "dh_tx h" and
      ch = "(en_channels e ! dh_tx h)\<lparr>ch_queue := ch_queue (en_channels e ! dh_tx h) @ [op]\<rparr>"]) (use h in simp_all)
  qed (simp_all add: exits_inv_same[OF assms])
next
  case (connected d vid pid path)
  then show ?thesis
    by (cases rule: handle_connected_cases[of d vid pid path e])
       (auto intro: exits_inv_same[OF assms] exits_inv_new[OF assms])
next
  case (disconnected d)
  then show ?thesis by (auto simp: handle_disconnected_def Let_def intro: exits_inv_same[OF assms])
next
  case (failed d err)
  with assms show ?thesis
    by (auto simp: handle_device_error_def Let_def split: option.split intro: exits_inv_same[OF assms])
next
  case (reattached d h token)
  then show ?thesis by (auto simp: handle_reattached_def intro: exits_inv_same[OF assms])
qed (use assms in simp)

lemma exits_inv_put_worker:
  assumes "exits_inv e" and "wk_phase (fst x) \<noteq> Exited"
  shows "exits_inv (put_worker c q x e)"
  by (rule exits_inv_update[OF assms(1), where ch = "\<lparr>ch_queue = q, ch_worker = fst x\<rparr>" and c = c])
     (use assms(2) in \<open>simp_all add: put_worker_def apply_effects_def\<close>)

lemma exits_inv_exit: "exits_inv e \<Longrightarrow> exits_inv (exit_worker c w e)"
  by (erule exits_inv_update[where ch = "\<lparr>ch_queue = [], ch_worker = w\<lparr>wk_phase := Exited\<rparr>\<rparr>" and c = c])
     (simp_all add: exit_worker_def)

lemma worker_handle_stays: "wk_phase w = Running \<Longrightarrow> wk_phase (fst (worker_handle now op w)) \<noteq> Exited"
  by (cases op)
     (auto simp: answer_op_def call_driver_def retire_if_def Let_def split: prod.split sum.split)

lemma worker_commit_stays: "wk_phase w = Running \<Longrightarrow> wk_phase (fst (worker_debounced_commit w)) \<noteq> Exited"
  by (auto simp: worker_debounced_commit_def call_driver_def retire_if_def Let_def split: prod.split sum.split)

lemma exits_inv_step:
  assumes "engine_step idle e lab e'" and "exits_inv e"
  shows "exits_inv e'"
proof -
  note same = exits_inv_same[OF assms(2)]
  show ?thesis
    using assms(1)
  proof cases
    case (step_supervise cmd rest)
    have "exits_inv (e\<lparr>en_queue := rest\<rparr>)" by (rule same) simp
    with exits_inv_command step_supervise show ?thesis
      by (auto simp: supervise_def) (simp add: stop_supervisor_def exits_inv_def)
  next
    case (step_recv c ch op rest)
    with exits_inv_put_worker[OF assms(2)] worker_handle_stays show ?thesis by blast
  next
    case (step_closed c ch)
    with exits_inv_exit[OF assms(2)] show ?thesis by blast
  next
    case (step_debounce c ch t)
    with exits_inv_put_worker[OF assms(2)] worker_commit_stays show ?thesis by blast
  next
    case (step_report c ch)
    have "exits_inv (if en_running e
      then e\<lparr>en_queue := en_queue e @ [DeviceError (wk_device_id (ch_worker ch)) worker_report]\<rparr> else e)"
      by (rule same) simp
    with exits_inv_exit step_report show ?thesis unfolding report_and_exit_def by blast
  next
    case (step_idle c ch s')
    then have "ch \<in> set (en_channels e)" by auto
    then have "wk_phase (ch_worker ch) = Exited \<Longrightarrow> ch_queue ch = []" using assms(2) by (simp add: exits_inv_def)
    with step_idle show ?thesis by (intro exits_inv_update[OF assms(2), where c = c]) auto
  next
    case (step_wake k t until)
    then show ?thesis
      by (cases rule: attempt_reconnect_cases[of k t e])
         (auto intro: same exits_inv_new[OF assms(2)] simp: put_task_def)
  qed (auto intro: same simp: put_task_def check_cancelled_def send_reattached_def)
qed

definition rest_inv :: "('w, 's) engine \<Rightarrow> bool" where
  "rest_inv e \<longleftrightarrow> tasks_inv e \<and> stopped_inv e \<and> exits_inv e"

lemma rest_inv_run:
  assumes "engine_run idle (engine_start ord table w) posted e"
  shows "rest_inv e"
proof -
  have "rest_inv (engine_start ord table w)"
    by (simp add: rest_inv_def tasks_inv_def stopped_inv_def exits_inv_def engine_start_def)
  from engine_run_invariant[where P = rest_inv, OF assms this] show ?thesis
    unfolding rest_inv_def by (blast intro: tasks_inv_step stopped_inv_step exits_inv_step)
qed

text \<open>A step that is possible and uses work up is one the tasks take.\<close>

lemma not_at_rest:
  assumes "engine_step (\<lambda>_ _. False) e None e'" and "work_left e' < work_left e" and "en_now e' = en_now e"
  shows "\<not> at_rest e"
proof -
  from assms(2) have "e' \<noteq> e" by auto
  with assms(1,3) show ?thesis unfolding at_rest_def works_def by blast
qed

lemma supervise_now: "en_now (supervise cmd e) = en_now e"
proof (cases "cmd = Shutdown")
  case False
  have "en_now (handle_command cmd e) = en_now e"
  proof (cases rule: command_cases[of cmd])
    case (request i)
    from handle_command_served[OF this, of e] show ?thesis
      by (auto simp: served_def answered_now_def evicted_def enqueued_def answer_def drop_device_def)
  next
    case (connected d vid pid path)
    then show ?thesis
      by (cases rule: handle_connected_cases[of d vid pid path e])
         (simp_all add: announce_def put_device_def drop_reconnecting_def start_reconnect_backoff_def Let_def)
  qed (auto simp: handle_disconnected_def handle_device_error_def handle_reattached_def Let_def drop_reconnecting_def
        announce_def drop_device_def put_device_def start_reconnect_backoff_def split: option.split)
  with False show ?thesis by (simp add: supervise_def)
qed (simp add: supervise_def stop_supervisor_def)

lemma at_rest_tasks:
  assumes "at_rest e" and "rest_inv e" and "en_queue e = []" and "t \<in> set (en_tasks e)"
  shows "rt_phase t = Ended \<or> (\<exists>until. rt_phase t = Sleeping until \<and> en_now e < until \<and> \<not> cancelled e t)"
proof -
  from assms(4) obtain k where k: "k < length (en_tasks e)" "en_tasks e ! k = t" by (auto simp: in_set_conv_nth)
  have room: "has_room e" using assms(3) by (simp add: has_room_def ENGINE_CHANNEL_CAPACITY_def)
  show ?thesis
  proof (cases "rt_phase t")
    case (Sleeping until)
    have "\<not> cancelled e t"
      using not_at_rest[OF step_cancel[OF k Sleeping]] work_cancel[of k e until] k Sleeping assms(1) by (auto simp: put_task_def)
    moreover have "\<not> until \<le> en_now e"
    proof
      assume "until \<le> en_now e"
      moreover have "task_ok t" using assms(2) k by (auto simp: rest_inv_def tasks_inv_def list_all_length)
      moreover have "en_now (attempt_reconnect k t e) = en_now e"
        by (cases rule: attempt_reconnect_cases[of k t e]) (simp_all add: put_task_def)
      ultimately show False
        using not_at_rest[OF step_wake[OF k Sleeping]] work_wake[OF k Sleeping] assms(1) by blast
    qed
    ultimately show ?thesis using Sleeping by simp
  next
    case (Attached h)
    have "en_now (check_cancelled k t h e) = en_now e" by (simp add: check_cancelled_def put_task_def)
    with not_at_rest[OF step_check[OF k Attached]] work_check[of k e h] k Attached assms(1) show ?thesis by simp
  next
    case (Sending h)
    have "en_now (send_reattached k t h e) = en_now e" by (simp add: send_reattached_def put_task_def)
    with not_at_rest[OF step_send[OF k Sending]] work_send[of k e h] k Sending room assms(1) show ?thesis by simp
  qed simp
qed

lemma at_rest_channels:
  assumes "at_rest e" and "rest_inv e" and "en_queue e = []" and "ch \<in> set (en_channels e)"
  shows "ch_queue ch = []" and "wk_phase (ch_worker ch) = Exited \<or> wk_phase (ch_worker ch) = Running
    \<and> (\<exists>c < length (en_channels e). en_channels e ! c = ch \<and> sender_alive e c)"
proof -
  from assms(4) obtain c where c: "c < length (en_channels e)" "en_channels e ! c = ch" by (auto simp: in_set_conv_nth)
  have room: "has_room e" using assms(3) by (simp add: has_room_def ENGINE_CHANNEL_CAPACITY_def)
  have exited: "wk_phase (ch_worker ch) = Exited \<Longrightarrow> ch_queue ch = []"
    using assms(2,4) by (simp add: rest_inv_def exits_inv_def)
  have not_reporting: "wk_phase (ch_worker ch) \<noteq> Reporting"
  proof
    assume r: "wk_phase (ch_worker ch) = Reporting"
    have "en_now (report_and_exit c (ch_worker ch) e) = en_now e" by (simp add: report_and_exit_def exit_worker_def)
    with not_at_rest[OF step_report[OF c r]] work_report[of c e] c r room assms(1) show False by simp
  qed
  have empty: "wk_phase (ch_worker ch) = Running \<Longrightarrow> ch_queue ch = []"
  proof (cases "ch_queue ch")
    case (Cons op rest)
    assume r: "wk_phase (ch_worker ch) = Running"
    have "en_now (put_worker c rest (worker_handle (en_now e) op (ch_worker ch)) e) = en_now e"
      by (simp add: put_worker_def apply_effects_def)
    with not_at_rest[OF step_recv[OF c r Cons]] work_recv[of c e op rest] c r Cons assms(1) show ?thesis by simp
  qed
  have alive: "sender_alive e c" if r: "wk_phase (ch_worker ch) = Running"
  proof (rule ccontr)
    assume dead: "\<not> sender_alive e c"
    have "en_now (exit_worker c (worker_shutdown (ch_worker ch)) e) = en_now e" by (simp add: exit_worker_def)
    with not_at_rest[OF step_closed[OF c r empty[OF r] dead]] work_closed[of c e] c r assms(1) show False by simp
  qed
  from exited empty not_reporting show "ch_queue ch = []" by (cases "wk_phase (ch_worker ch)") auto
  from not_reporting alive c show "wk_phase (ch_worker ch) = Exited \<or> wk_phase (ch_worker ch) = Running
      \<and> (\<exists>c < length (en_channels e). en_channels e ! c = ch \<and> sender_alive e c)"
    by (cases "wk_phase (ch_worker ch)") auto
qed

lemma at_rest_queue:
  assumes "at_rest e" and "rest_inv e"
  shows "en_queue e = []"
proof (cases "en_queue e")
  case (Cons cmd rest)
  show ?thesis
  proof (cases "en_running e")
    case True
    have "en_now (supervise cmd (e\<lparr>en_queue := rest\<rparr>)) = en_now e" by (simp add: supervise_now)
    with not_at_rest[OF step_supervise[OF True Cons]] work_supervise[OF Cons] assms(1) show ?thesis by blast
  next
    case False
    with assms(2) show ?thesis by (simp add: rest_inv_def stopped_inv_def)
  qed
qed

section \<open>The property\<close>

lemma engine_step_mono: "engine_step (\<lambda>_ _. False) e lab e' \<Longrightarrow> engine_step idle e lab e'"
  by (erule engine_step.cases) (auto intro: engine_step.intros)

lemma works_run: "works\<^sup>*\<^sup>* e e' \<Longrightarrow> engine_run idle s posted e \<Longrightarrow> engine_run idle s posted e'"
proof (induction rule: rtranclp_induct)
  case (step e1 e2)
  then show ?case using run_silent engine_step_mono unfolding works_def by blast
qed

lemma channel_ids_empty: "(\<And>ch. ch \<in> set cs \<Longrightarrow> ch_queue ch = []) \<Longrightarrow> channel_ids cs = {#}"
  by (induction cs) (simp_all add: channel_ids_def)

lemma nobody_waits:
  assumes "at_rest e" and "rest_inv e"
  shows "waiting_ids e = {#}"
  using at_rest_queue[OF assms] channel_ids_empty[of "en_channels e"] at_rest_channels(1)[OF assms]
  by (simp add: waiting_ids_def)

lemma nothing_runs_on:
  assumes "at_rest e" and "rest_inv e" and "\<not> en_running e"
  shows "(\<forall>t \<in> set (en_tasks e). rt_phase t = Ended) \<and> (\<forall>ch \<in> set (en_channels e). wk_phase (ch_worker ch) = Exited)"
proof -
  from assms(2,3) have gone: "devices e = Map.empty" "reconnecting e = Map.empty" "en_queue e = []"
    by (simp_all add: rest_inv_def stopped_inv_def)
  then have ended: "\<forall>t \<in> set (en_tasks e). rt_phase t = Ended"
    using at_rest_tasks[OF assms(1,2)] by (auto simp: cancelled_def)
  then have "\<forall>t \<in> set (en_tasks e). handle_of_task t = None" by (simp add: handle_of_task_def)
  then have "\<not> sender_alive e c" for c using gone by (auto simp: sender_alive_iff handles_iff)
  with ended at_rest_channels(2)[OF assms(1,2) gone(3)] show ?thesis by blast
qed

text \<open>C5. The engine comes to rest: from any state it can be in, the steps its tasks take on their own
  (no command posted, no time passing) are at most \<open>work_left\<close> many, whatever their order, and lead to a
  state where no task can go on. In such a state no request waits any more: the reply channels of the
  posted commands have all been answered or dropped, and all were answered when the engine runs and no
  worker has left. What a task still sleeping waits for is time. After \<open>Shutdown\<close> nothing is left running:
  every worker has exited and every reconnect task has ended.\<close>

theorem engine_comes_to_rest:
  assumes "engine_run idle (engine_start ord table w) posted e"
  shows "(\<forall>n e'. (works ^^ n) e e' \<longrightarrow> n \<le> work_left e) \<and> (\<exists>e'. works\<^sup>*\<^sup>* e e' \<and> at_rest e')
    \<and> (\<forall>e'. works\<^sup>*\<^sup>* e e' \<and> at_rest e' \<longrightarrow>
          mset (map fst (en_answers e')) + mset (en_dropped e') = command_ids posted
        \<and> (en_running e' \<and> \<not> has_exited e' \<longrightarrow> en_dropped e' = [])
        \<and> (\<forall>t \<in> set (en_tasks e'). rt_phase t = Ended
              \<or> (\<exists>until. rt_phase t = Sleeping until \<and> en_now e' < until \<and> \<not> cancelled e' t))
        \<and> (\<not> en_running e' \<longrightarrow> (\<forall>t \<in> set (en_tasks e'). rt_phase t = Ended)
              \<and> (\<forall>ch \<in> set (en_channels e'). wk_phase (ch_worker ch) = Exited)))"
proof (intro conjI allI impI)
  from rest_inv_run[OF assms] have inv: "tasks_inv e" by (simp add: rest_inv_def)
  show "n \<le> work_left e" if "(works ^^ n) e e'" for n e' using works_bounded[OF that inv] by simp
  show "\<exists>e'. works\<^sup>*\<^sup>* e e' \<and> at_rest e'" by (rule works_until_rest[OF inv])
next
  fix e'
  assume "works\<^sup>*\<^sup>* e e' \<and> at_rest e'"
  then have run: "engine_run idle (engine_start ord table w) posted e'" and rest: "at_rest e'"
    using works_run[OF _ assms] by blast+
  note inv = rest_inv_run[OF run]
  show "mset (map fst (en_answers e')) + mset (en_dropped e') = command_ids posted"
    using census_run[OF run] nobody_waits[OF rest inv] by (simp add: census_def settled_ids_def)
  show "en_dropped e' = []" if "en_running e' \<and> \<not> has_exited e'"
    using drops_explained_run[OF run] that by (auto simp: drops_explained_def)
  show "\<forall>t \<in> set (en_tasks e'). rt_phase t = Ended
      \<or> (\<exists>until. rt_phase t = Sleeping until \<and> en_now e' < until \<and> \<not> cancelled e' t)"
    using at_rest_tasks[OF rest inv at_rest_queue[OF rest inv]] by blast
  show "\<forall>t \<in> set (en_tasks e'). rt_phase t = Ended" "\<forall>ch \<in> set (en_channels e'). wk_phase (ch_worker ch) = Exited"
    if "\<not> en_running e'" using nothing_runs_on[OF rest inv that] by simp_all
qed

theorem engine_comes_to_rest_witness:
  "\<exists>e'. works\<^sup>*\<^sup>* demo_failing e' \<and> at_rest e' \<and> mset (map fst (en_answers e')) + mset (en_dropped e') = {#7#}"
proof -
  from engine_comes_to_rest[OF demo_run_failing]
  obtain e' where "works\<^sup>*\<^sup>* demo_failing e'" "at_rest e'"
    "mset (map fst (en_answers e')) + mset (en_dropped e') = command_ids [demo_connect, demo_get 7]" by blast
  then show ?thesis by auto
qed

end
