(* ===== verification/Ipc.thy ===== *)
theory Ipc
  imports Engine_Steps
begin

text \<open>
  The D-Bus frontend (\<open>src/ipc/mod.rs\<close>, \<open>src/ipc/frontend.rs\<close>): each method becomes one engine command
  and waits for its reply, errors of the daemon become D-Bus errors, and the signal pump turns
  lifecycle events into signals.
\<close>

section \<open>Errors on the bus\<close>

text \<open>The variants of \<open>zbus::fdo::Error\<close> the frontend uses.\<close>

datatype fdo_error = FdoFailed string | UnknownObject string | AccessDenied string | NotSupported string

text \<open>The texts of errors that other code prints: the operating system's and tokio's.\<close>

record foreign_texts =
  ft_io :: "io_error \<Rightarrow> string"
  ft_recv :: string
  ft_elapsed :: string

text \<open>\<open>{:?}\<close> on a path: quoted, with quotes and backslashes escaped.\<close>

definition debug_path :: "string \<Rightarrow> string" where
  "debug_path p =
     [CHR 0x22] @ concat (map (\<lambda>c. if c = CHR 0x22 \<or> c = CHR 0x5C then [CHR 0x5C, c] else [c]) p) @ [CHR 0x22]"

fun display_driver_error :: "foreign_texts \<Rightarrow> driver_error \<Rightarrow> string" where
  "display_driver_error ft (Io e) = ''hidraw I/O error: '' @ ft_io ft e"
| "display_driver_error ft (Timeout device op) = ''device `'' @ device @ ''` timed out during `'' @ op @ ''`''"
| "display_driver_error ft (PermissionDenied path) = ''permission denied for hidraw node '' @ debug_path path"
| "display_driver_error ft (ProtocolViolation reason) = ''hidraw protocol violation: '' @ reason"
| "display_driver_error ft Disconnected = ''device disconnected''"
| "display_driver_error ft (Unsupported op) = ''operation not supported by this device: '' @ op"
| "display_driver_error ft (VendorCompile vendor detail) =
     ''vendor `'' @ vendor @ ''` blob compile failed: '' @ detail"

fun display_daemon_error :: "foreign_texts \<Rightarrow> daemon_error \<Rightarrow> string" where
  "display_daemon_error ft (Driver e) = ''driver error: '' @ display_driver_error ft e"
| "display_daemon_error ft (DeviceNotFound d) = ''no device registered with id `'' @ d @ ''`''"
| "display_daemon_error ft (DeviceUnauthorized d) = ''session not authorized for device `'' @ d @ ''`''"
| "display_daemon_error ft (DeviceTaskPanicked d) = ''worker task for device `'' @ d @ ''` panicked''"
| "display_daemon_error ft EngineSend = ''failed to dispatch command to engine: receiver dropped''"
| "display_daemon_error ft ReplyDropped = ''engine reply channel was closed: '' @ ft_recv ft"
| "display_daemon_error ft Elapsed = ''engine-level deadline elapsed: '' @ ft_elapsed ft"
| "display_daemon_error ft (DbusRouting m) = ''dbus routing error: '' @ m"

definition from_daemon_error :: "foreign_texts \<Rightarrow> daemon_error \<Rightarrow> fdo_error" where
  "from_daemon_error ft e =
     (case e of
        DeviceNotFound device_id \<Rightarrow> UnknownObject device_id
      | DeviceUnauthorized _ \<Rightarrow> AccessDenied (display_daemon_error ft e)
      | Driver (PermissionDenied _) \<Rightarrow> AccessDenied (display_daemon_error ft e)
      | Driver (Unsupported _) \<Rightarrow> NotSupported (display_daemon_error ft e)
      | _ \<Rightarrow> FdoFailed (display_daemon_error ft e))"

section \<open>The methods\<close>

text \<open>
  What a method needs of the engine: a fresh \<open>oneshot\<close> channel, the bounded command channel, whose
  \<open>send\<close> fails when the supervisor is gone, and the reply, which is None when its sender was dropped.
\<close>

record 's engine_port =
  ep_oneshot :: "'s \<Rightarrow> reply_id \<times> 's"
  ep_send :: "engine_command \<Rightarrow> 's \<Rightarrow> bool \<times> 's"
  ep_recv :: "reply_id \<Rightarrow> 's \<Rightarrow> answer option \<times> 's"

text \<open>
  The Rust type of a reply channel fixes what it carries. In the model it is a case of \<open>answer\<close>; that the
  other cases never arrive is a theorem about the engine.
\<close>

fun as_u16 :: "answer \<Rightarrow> (daemon_error + u16) option" where
  "as_u16 (AnsU16 r) = Some r" | "as_u16 _ = None"
fun as_unit :: "answer \<Rightarrow> (daemon_error + unit) option" where
  "as_unit (AnsUnit r) = Some r" | "as_unit _ = None"
fun as_bytes :: "answer \<Rightarrow> (daemon_error + bytes) option" where
  "as_bytes (AnsBytes r) = Some r" | "as_bytes _ = None"
fun as_ids :: "answer \<Rightarrow> string list option" where
  "as_ids (AnsIds xs) = Some xs" | "as_ids _ = None"
fun as_info :: "answer \<Rightarrow> (daemon_error + (string \<times> u8 \<times> u8 \<times> u8)) option" where
  "as_info (AnsInfo r) = Some r" | "as_info _ = None"
fun as_identity :: "answer \<Rightarrow> (daemon_error + (u16 \<times> u16 \<times> string)) option" where
  "as_identity (AnsIdentity r) = Some r" | "as_identity _ = None"

definition ask :: "'s engine_port \<Rightarrow> (reply_id \<Rightarrow> engine_command) \<Rightarrow> (answer \<Rightarrow> 'a option) \<Rightarrow> ('s, fdo_error, 'a) act" where
  "ask port mk as s =
     (let (i, s1) = ep_oneshot port s;
          (sent, s2) = ep_send port (mk i) s1
      in if \<not> sent then (Inl (FdoFailed ''engine command channel closed''), s2)
         else let (r, s3) = ep_recv port i s2
              in (case Option.bind r as of
                    None \<Rightarrow> Inl (FdoFailed ''engine reply channel dropped'')
                  | Some x \<Rightarrow> Inr x, s3))"

definition ask_res :: "foreign_texts \<Rightarrow> 's engine_port \<Rightarrow> (reply_id \<Rightarrow> engine_command)
    \<Rightarrow> (answer \<Rightarrow> (daemon_error + 'a) option) \<Rightarrow> ('s, fdo_error, 'a) act" where
  "ask_res ft port mk as = andthen (ask port mk as) (\<lambda>inner. lift_res (map_sum (from_daemon_error ft) id inner))"

definition get_keycode :: "foreign_texts \<Rightarrow> 's engine_port \<Rightarrow> string \<Rightarrow> u8 \<Rightarrow> u8 \<Rightarrow> u8 \<Rightarrow> ('s, fdo_error, u16) act" where
  "get_keycode ft port device_id layer row col = ask_res ft port (CmdGetKeycode device_id layer row col) as_u16"

definition set_keycode :: "foreign_texts \<Rightarrow> 's engine_port \<Rightarrow> string \<Rightarrow> u8 \<Rightarrow> u8 \<Rightarrow> u8 \<Rightarrow> u16 \<Rightarrow> ('s, fdo_error, unit) act" where
  "set_keycode ft port device_id layer row col keycode =
     ask_res ft port (CmdSetKeycode device_id layer row col keycode) as_unit"

definition list_devices :: "'s engine_port \<Rightarrow> ('s, fdo_error, string list) act" where
  "list_devices port = ask port ListDevices as_ids"

definition get_device_info :: "foreign_texts \<Rightarrow> 's engine_port \<Rightarrow> string \<Rightarrow> ('s, fdo_error, string \<times> u8 \<times> u8 \<times> u8) act" where
  "get_device_info ft port device_id = ask_res ft port (GetDeviceInfo device_id) as_info"

definition get_device_identity :: "foreign_texts \<Rightarrow> 's engine_port \<Rightarrow> string \<Rightarrow> ('s, fdo_error, u16 \<times> u16 \<times> string) act" where
  "get_device_identity ft port device_id = ask_res ft port (GetDeviceIdentity device_id) as_identity"

definition commit :: "foreign_texts \<Rightarrow> 's engine_port \<Rightarrow> string \<Rightarrow> ('s, fdo_error, unit) act" where
  "commit ft port device_id = ask_res ft port (CommitToNvram device_id) as_unit"

definition get_macro :: "foreign_texts \<Rightarrow> 's engine_port \<Rightarrow> string \<Rightarrow> u16 \<Rightarrow> u8 \<Rightarrow> ('s, fdo_error, bytes) act" where
  "get_macro ft port device_id offset len = ask_res ft port (CmdGetMacro device_id offset len) as_bytes"

definition set_macro :: "foreign_texts \<Rightarrow> 's engine_port \<Rightarrow> string \<Rightarrow> u16 \<Rightarrow> bytes \<Rightarrow> ('s, fdo_error, unit) act" where
  "set_macro ft port device_id offset data = ask_res ft port (CmdSetMacro device_id offset data) as_unit"

definition get_lighting :: "foreign_texts \<Rightarrow> 's engine_port \<Rightarrow> string \<Rightarrow> u8 \<Rightarrow> u8 \<Rightarrow> ('s, fdo_error, bytes) act" where
  "get_lighting ft port device_id channel value_id = ask_res ft port (CmdGetLighting device_id channel value_id) as_bytes"

definition set_lighting :: "foreign_texts \<Rightarrow> 's engine_port \<Rightarrow> string \<Rightarrow> u8 \<Rightarrow> u8 \<Rightarrow> bytes \<Rightarrow> ('s, fdo_error, unit) act" where
  "set_lighting ft port device_id channel value_id data =
     ask_res ft port (CmdSetLighting device_id channel value_id data) as_unit"

section \<open>The signal pump\<close>

text \<open>
  A receiver of tokio's broadcast channel that keeps the last \<open>capacity\<close> values: when the receiver fell
  further behind, the next \<open>recv\<close> says how many it skipped and continues with the oldest one kept.
  \<open>closed\<close> is that every sender is gone; without a value and a close, \<open>recv\<close> waits.
\<close>

datatype received = Event lifecycle_event | Lagged nat | ChannelClosed

definition broadcast_recv :: "nat \<Rightarrow> lifecycle_event list \<Rightarrow> bool \<Rightarrow> nat \<Rightarrow> (received \<times> nat) option" where
  "broadcast_recv capacity sent closed pos =
     (if capacity < length sent - pos then Some (Lagged (length sent - pos - capacity), length sent - capacity)
      else if pos < length sent then Some (Event (sent ! pos), pos + 1)
      else if closed then Some (ChannelClosed, pos)
      else None)"

datatype signal = DeviceAddedSignal string | DeviceRemovedSignal string | LayoutUpdatedSignal string

fun signal_of :: "lifecycle_event \<Rightarrow> signal" where
  "signal_of (DeviceAdded d) = DeviceAddedSignal d"
| "signal_of (DeviceRemoved d) = DeviceRemovedSignal d"
| "signal_of (LayoutUpdated d) = LayoutUpdatedSignal d"

text \<open>
  The pump awaits the next event, then the emission of its signal. It ends when the channel is closed and
  drained, or when \<open>main\<close> aborts its task, at whichever of the two it is.
\<close>

datatype pump_state = Pumping | Drained | Aborted

record pump =
  pu_pos :: nat
  pu_emitting :: "signal option"
  pu_signals :: "signal list"
  pu_failed :: nat
  pu_skipped :: nat
  pu_state :: pump_state

definition pump_start :: pump where
  "pump_start = \<lparr>pu_pos = 0, pu_emitting = None, pu_signals = [], pu_failed = 0, pu_skipped = 0, pu_state = Pumping\<rparr>"

definition signal_pump :: "received \<times> nat \<Rightarrow> pump \<Rightarrow> pump" where
  "signal_pump x p =
     (case x of
        (Event ev, pos) \<Rightarrow> p\<lparr>pu_pos := pos, pu_emitting := Some (signal_of ev)\<rparr>
      | (Lagged skipped, pos) \<Rightarrow> p\<lparr>pu_pos := pos, pu_skipped := pu_skipped p + skipped\<rparr>
      | (ChannelClosed, _) \<Rightarrow> p\<lparr>pu_state := Drained\<rparr>)"

text \<open>The emission has returned: the signal is on the bus, or it failed, which is only logged.\<close>

definition signal_returned :: "bool \<Rightarrow> signal \<Rightarrow> pump \<Rightarrow> pump" where
  "signal_returned emitted sig p =
     (if emitted then p\<lparr>pu_emitting := None, pu_signals := pu_signals p @ [sig]\<rparr>
      else p\<lparr>pu_emitting := None, pu_failed := pu_failed p + 1\<rparr>)"

text \<open>The daemon announces events and the pump takes its rounds, in any order.\<close>

inductive pump_step :: "nat \<Rightarrow> lifecycle_event list \<times> bool \<times> pump \<Rightarrow> lifecycle_event list \<times> bool \<times> pump \<Rightarrow> bool"
  for capacity where
  pump_announce: "pump_step capacity (sent, False, p) (sent @ [ev], False, p)"
| pump_close: "pump_step capacity (sent, False, p) (sent, True, p)"
| pump_round: "pu_state p = Pumping \<Longrightarrow> pu_emitting p = None \<Longrightarrow> broadcast_recv capacity sent closed (pu_pos p) = Some x \<Longrightarrow>
      pump_step capacity (sent, closed, p) (sent, closed, signal_pump x p)"
| pump_emit: "pu_state p = Pumping \<Longrightarrow> pu_emitting p = Some sig \<Longrightarrow>
      pump_step capacity (sent, closed, p) (sent, closed, signal_returned emitted sig p)"
| pump_abort: "pu_state p = Pumping \<Longrightarrow>
      pump_step capacity (sent, closed, p) (sent, closed, p\<lparr>pu_state := Aborted\<rparr>)"

inductive pump_run :: "nat \<Rightarrow> lifecycle_event list \<times> bool \<times> pump \<Rightarrow> bool" for capacity where
  pump_init: "pump_run capacity ([], False, pump_start)"
| pump_more: "pump_run capacity s \<Longrightarrow> pump_step capacity s s' \<Longrightarrow> pump_run capacity s'"

section \<open>The service on the bus\<close>

definition CLACKD_OBJECT_PATH :: string where "CLACKD_OBJECT_PATH = ''/io/github/clackd''"
definition CLACKD_BUS_NAME :: string where "CLACKD_BUS_NAME = ''io.github.clackd''"

text \<open>
  The calls of zbus are parameters: \<open>connect\<close> opens the session bus, requests the name and serves the
  interface at the path; \<open>lookup\<close> finds the interface again. The result says whether the ready channel was used
  (otherwise its sender is dropped), and is the error, or the interface over which the signal pump then runs.
\<close>

definition run_ipc_with_name :: "string \<Rightarrow> (string \<Rightarrow> string \<Rightarrow> 'e + 'c) \<Rightarrow> ('c \<Rightarrow> string \<Rightarrow> 'e + 'i)
    \<Rightarrow> bool \<times> ('e + 'i)" where
  "run_ipc_with_name bus_name connect lookup =
     (case connect bus_name CLACKD_OBJECT_PATH of
        Inl e \<Rightarrow> (False, Inl e)
      | Inr connection \<Rightarrow> (True, lookup connection CLACKD_OBJECT_PATH))"

definition run_ipc :: "(string \<Rightarrow> string \<Rightarrow> 'e + 'c) \<Rightarrow> ('c \<Rightarrow> string \<Rightarrow> 'e + 'i) \<Rightarrow> bool \<times> ('e + 'i)" where
  "run_ipc connect lookup = run_ipc_with_name CLACKD_BUS_NAME connect lookup"

text \<open>Ready is said exactly when the name is owned and the interface is served.\<close>

lemma ready_iff_connected:
  "fst (run_ipc connect lookup) \<longleftrightarrow> (\<exists>c. connect CLACKD_BUS_NAME CLACKD_OBJECT_PATH = Inr c)"
  by (simp add: run_ipc_def run_ipc_with_name_def split: sum.split)

end
