(* ===== verification/Engine_Types.thy ===== *)
theory Engine_Types
  imports Engine_Census
begin

text \<open>
  The types of the reply channels. In the code \<open>oneshot::Sender<Result<u16, _>>\<close> and its kin fix what a
  reply can carry; in the model every answer is a case of \<open>answer\<close>, and a run keeps each answer in the case
  that its command asked for. The phases of a worker are a linear order, along which it only moves up.
\<close>

section \<open>Types of replies\<close>

datatype reply_type = RU16 | RUnit | RBytes | RIds | RInfo | RIdentity

fun answer_type :: "answer \<Rightarrow> reply_type" where
  "answer_type (AnsU16 _) = RU16"
| "answer_type (AnsUnit _) = RUnit"
| "answer_type (AnsBytes _) = RBytes"
| "answer_type (AnsIds _) = RIds"
| "answer_type (AnsInfo _) = RInfo"
| "answer_type (AnsIdentity _) = RIdentity"

fun op_type :: "worker_op \<Rightarrow> reply_type" where
  "op_type (WGetKeycode _ _ _ _) = RU16"
| "op_type (WGetMacro _ _ _) = RBytes"
| "op_type (WGetLighting _ _ _) = RBytes"
| "op_type _ = RUnit"

fun command_type :: "engine_command \<Rightarrow> reply_type" where
  "command_type (CmdGetKeycode _ _ _ _ _) = RU16"
| "command_type (ListDevices _) = RIds"
| "command_type (GetDeviceInfo _ _) = RInfo"
| "command_type (GetDeviceIdentity _ _) = RIdentity"
| "command_type (CmdGetMacro _ _ _ _) = RBytes"
| "command_type (CmdGetLighting _ _ _ _) = RBytes"
| "command_type _ = RUnit"

lemma error_answer_type [simp]: "answer_type (error_answer op err) = op_type op"
  by (cases op) simp_all

definition typed_command :: "(reply_id \<Rightarrow> reply_type) \<Rightarrow> engine_command \<Rightarrow> bool" where
  "typed_command K cmd \<longleftrightarrow> list_all (\<lambda>i. K i = command_type cmd) (replies_of_command cmd)"

definition typed_op :: "(reply_id \<Rightarrow> reply_type) \<Rightarrow> worker_op \<Rightarrow> bool" where
  "typed_op K op \<longleftrightarrow> K (reply_of op) = op_type op"

definition typed_answer :: "(reply_id \<Rightarrow> reply_type) \<Rightarrow> reply_id \<times> answer \<Rightarrow> bool" where
  "typed_answer K x \<longleftrightarrow> K (fst x) = answer_type (snd x)"

definition typed_engine :: "(reply_id \<Rightarrow> reply_type) \<Rightarrow> ('w, 's) engine \<Rightarrow> bool" where
  "typed_engine K e \<longleftrightarrow> list_all (typed_command K) (en_queue e)
     \<and> list_all (\<lambda>ch. list_all (typed_op K) (ch_queue ch)) (en_channels e)
     \<and> list_all (typed_answer K) (en_answers e)"

named_theorems typing "typing predicates unfolded"

lemmas typing_defs [typing] = typed_command_def typed_op_def typed_answer_def

section \<open>Preservation\<close>

lemma typed_send:
  assumes "typed_engine K e" and "typed_op K op"
  shows "typed_engine K (send_to_worker h d op e)"
proof (cases rule: send_to_worker_cases[of h d op e])
  case sent
  show ?thesis
  proof (cases "dh_tx h < length (en_channels e)")
    case True
    then have "list_all (typed_op K) (ch_queue (en_channels e ! dh_tx h))"
      using assms(1) by (simp add: typed_engine_def list_all_length)
    with assms sent show ?thesis by (simp add: typed_engine_def list_all_update)
  next
    case False
    with assms(1) sent show ?thesis by (simp add: typed_engine_def list_update_beyond)
  qed
qed (use assms in \<open>simp_all add: typed_engine_def reply_with_error_def typing\<close>)

lemma typed_dispatch_op:
  "typed_engine K e \<Longrightarrow> typed_op K op \<Longrightarrow> typed_engine K (dispatch_op d op e)"
  by (auto simp: dispatch_op_def typed_send split: option.split) (simp add: typed_engine_def typing)

lemma typed_dispatch_key_op:
  "typed_engine K e \<Longrightarrow> typed_op K op \<Longrightarrow> typed_engine K (dispatch_key_op d l r c op e)"
  by (auto simp: dispatch_key_op_def typed_send split: option.split) (simp_all add: typed_engine_def typing)

lemma typed_request:
  assumes "typed_engine K e" and "typed_command K cmd" and "replies_of_command cmd = [i]"
  shows "typed_engine K (handle_command cmd e)"
  using assms
  by (cases cmd)
     (simp_all add: dispatch_get_def dispatch_set_def typed_dispatch_op typed_dispatch_key_op typing,
      simp_all add: typed_engine_def typing)

lemma typed_handle_command:
  assumes "typed_engine K e" and "typed_command K cmd"
  shows "typed_engine K (handle_command cmd e)"
proof (cases rule: command_cases[of cmd])
  case (request i)
  with typed_request assms show ?thesis by blast
next
  case (connected d vid pid path)
  with assms show ?thesis
    by (cases rule: handle_connected_cases[of d vid pid path e]) (simp_all add: typed_engine_def)
next
  case (disconnected d)
  with assms show ?thesis by (simp add: handle_disconnected_def Let_def typed_engine_def)
next
  case (failed d err)
  with assms show ?thesis by (simp add: handle_device_error_def Let_def typed_engine_def split: option.split)
next
  case (reattached d h token)
  with assms show ?thesis by (simp add: handle_reattached_def typed_engine_def)
qed (use assms in simp)

lemma worker_handle_types: "list_all (\<lambda>x. answer_type (snd x) = op_type op) (answers_of (snd (worker_handle now op w)))"
  by (cases op) (simp_all add: answer_op_def Let_def prod.case_eq_if split: sum.split)

lemma typed_worker_answers:
  assumes "typed_op K op"
  shows "list_all (typed_answer K) (answers_of (snd (worker_handle now op w)))"
proof -
  obtain a where "answers_of (snd (worker_handle now op w)) = [(reply_of op, a)]"
    using worker_handle_answers[of now op w] by (auto simp: map_eq_Cons_conv)
  with worker_handle_types[of op now w] assms show ?thesis by (simp add: typing)
qed

lemma typed_put_worker:
  assumes "typed_engine K e" and "list_all (typed_op K) queue" and "list_all (typed_answer K) (answers_of (snd x))"
  shows "typed_engine K (put_worker c queue x e)"
  using assms by (simp add: typed_engine_def put_worker_def apply_effects_def list_all_update)

lemma typed_exit_worker: "typed_engine K e \<Longrightarrow> typed_engine K (exit_worker c w e)"
  by (simp add: typed_engine_def exit_worker_def list_all_update)

lemma typed_queue_of:
  "typed_engine K e \<Longrightarrow> c < length (en_channels e) \<Longrightarrow> list_all (typed_op K) (ch_queue (en_channels e ! c))"
  by (simp add: typed_engine_def list_all_length)

definition typed_label :: "(reply_id \<Rightarrow> reply_type) \<Rightarrow> engine_command option \<Rightarrow> bool" where
  "typed_label K lab = (case lab of Some cmd \<Rightarrow> typed_command K cmd | None \<Rightarrow> True)"

lemma typed_step:
  assumes "engine_step idle e lab e'" and "typed_engine K e" and "typed_label K lab"
  shows "typed_engine K e'"
  using assms(1)
proof cases
  case (step_post cmd)
  with assms(2,3) show ?thesis by (simp add: typed_engine_def typed_label_def)
next
  case (step_supervise cmd rest)
  then have "typed_engine K (e\<lparr>en_queue := rest\<rparr>)" "typed_command K cmd"
    using assms(2) by (simp_all add: typed_engine_def)
  with step_supervise typed_handle_command[of K "e\<lparr>en_queue := rest\<rparr>" cmd] show ?thesis
    by (auto simp: supervise_def stop_supervisor_def typed_engine_def)
next
  case (step_recv c ch op rest)
  with typed_queue_of[OF assms(2), of c] have "typed_op K op" "list_all (typed_op K) rest" by simp_all
  with step_recv assms(2) show ?thesis by (simp add: typed_put_worker typed_worker_answers)
next
  case (step_closed c ch)
  with assms(2) show ?thesis by (simp add: typed_exit_worker)
next
  case (step_debounce c ch t)
  with assms(2) show ?thesis by (simp add: typed_put_worker debounce_answers_nothing)
next
  case (step_report c ch)
  have "typed_engine K (e\<lparr>en_queue := en_queue e @ [DeviceError (wk_device_id (ch_worker ch)) worker_report]\<rparr>)"
    using assms(2) by (simp add: typed_engine_def typing)
  with step_report assms(2) show ?thesis by (simp add: report_and_exit_def typed_exit_worker)
next
  case (step_idle c ch s')
  with typed_queue_of[OF assms(2), of c] assms(2) show ?thesis by (simp add: typed_engine_def list_all_update)
next
  case (step_wake k t until)
  with assms(2) show ?thesis
    by (cases rule: attempt_reconnect_cases[of k t e]) (simp_all add: typed_engine_def put_task_def)
next
  case (step_send k t h)
  with assms(2) show ?thesis by (simp add: send_reattached_def put_task_def typed_engine_def typing)
qed (use assms(2) in \<open>simp_all add: typed_engine_def put_task_def check_cancelled_def\<close>)

lemma typed_run:
  assumes "engine_run idle (engine_start ord table w) posted e" and "list_all (typed_command K) posted"
  shows "typed_engine K e"
  using assms
proof (induction "engine_start ord table w" posted e rule: engine_run.induct)
  case run_start
  show ?case by (simp add: typed_engine_def engine_start_def)
next
  case (run_step posted e' cmd e'')
  then show ?case using typed_step[of idle e' "Some cmd" e'' K] by (simp add: typed_label_def)
next
  case (run_silent posted e' e'')
  then show ?case using typed_step[of idle e' None e'' K] by (simp add: typed_label_def)
qed

section \<open>Phases of a worker\<close>

text \<open>Running, then Reporting, then Exited.\<close>

fun phase_rank :: "worker_phase \<Rightarrow> nat" where
  "phase_rank Running = 0" | "phase_rank Reporting = 1" | "phase_rank Exited = 2"

lemma phase_rank_inject: "phase_rank p = phase_rank q \<longleftrightarrow> p = q"
  by (cases p; cases q) simp_all

instantiation worker_phase :: linorder
begin

definition less_eq_worker_phase :: "worker_phase \<Rightarrow> worker_phase \<Rightarrow> bool" where
  "p \<le> q \<longleftrightarrow> phase_rank p \<le> phase_rank q"

definition less_worker_phase :: "worker_phase \<Rightarrow> worker_phase \<Rightarrow> bool" where
  "p < q \<longleftrightarrow> phase_rank p < phase_rank q"

instance
  by intro_classes (auto simp: less_eq_worker_phase_def less_worker_phase_def phase_rank_inject)

end

lemma Running_least [simp]: "Running \<le> p" and Exited_greatest [simp]: "p \<le> Exited"
  by (cases p; simp add: less_eq_worker_phase_def)+

text \<open>Channels are only added, and the worker of each keeps its phase or moves up.\<close>

definition phases_grow :: "('w, 's) engine \<Rightarrow> ('w, 's) engine \<Rightarrow> bool" where
  "phases_grow e e' \<longleftrightarrow> length (en_channels e) \<le> length (en_channels e')
     \<and> (\<forall>c < length (en_channels e). wk_phase (ch_worker (en_channels e ! c)) \<le> wk_phase (ch_worker (en_channels e' ! c)))"

lemmas phases_growI = phases_grow_def[THEN iffD2, OF conjI, OF _ allI, OF _ impI]

lemma phases_grow_same: "en_channels e' = en_channels e \<Longrightarrow> phases_grow e e'"
  by (rule phases_growI) simp_all

lemma phases_grow_update:
  assumes "en_channels e' = (en_channels e)[c := ch]"
    and "c < length (en_channels e) \<Longrightarrow> wk_phase (ch_worker (en_channels e ! c)) \<le> wk_phase (ch_worker ch)"
  shows "phases_grow e e'"
proof (rule phases_growI)
  fix i assume "i < length (en_channels e)"
  with assms show "wk_phase (ch_worker (en_channels e ! i)) \<le> wk_phase (ch_worker (en_channels e' ! i))"
    by (cases "c = i") auto
qed (use assms(1) in simp)

lemma phases_grow_add: "en_channels e' = en_channels e @ cs \<Longrightarrow> phases_grow e e'"
  by (rule phases_growI) (simp_all add: nth_append)

lemma phases_grow_served: "served i e e' \<Longrightarrow> phases_grow e e'"
  unfolding served_def answered_now_def evicted_def enqueued_def
  by (elim disjE exE conjE) (auto intro: phases_grow_same phases_grow_update)

lemma phases_grow_command: "phases_grow e (handle_command cmd e)"
proof (cases rule: command_cases[of cmd])
  case (request i)
  with handle_command_served phases_grow_served show ?thesis by blast
next
  case (connected d vid pid path)
  then show ?thesis
    by (cases rule: handle_connected_cases[of d vid pid path e]) (auto intro: phases_grow_same phases_grow_add)
next
  case (disconnected d)
  then show ?thesis by (intro phases_grow_same) (simp add: handle_disconnected_def Let_def)
next
  case (failed d err)
  then show ?thesis by (intro phases_grow_same) (simp add: handle_device_error_def Let_def split: option.split)
next
  case (reattached d h token)
  then show ?thesis by (intro phases_grow_same) (simp add: handle_reattached_def)
next
  case stop
  then show ?thesis by (intro phases_grow_same) simp
qed

lemma phases_grow_step:
  assumes "engine_step idle e lab e'"
  shows "phases_grow e e'"
  using assms
proof cases
  case (step_supervise cmd rest)
  have "phases_grow e (e\<lparr>en_queue := rest\<rparr>)" by (rule phases_grow_same) simp
  with step_supervise phases_grow_command[of "e\<lparr>en_queue := rest\<rparr>" cmd] show ?thesis
    by (auto simp: supervise_def stop_supervisor_def phases_grow_def)
next
  case (step_wake k t until)
  then show ?thesis
    by (cases rule: attempt_reconnect_cases[of k t e]) (auto simp: put_task_def intro: phases_grow_same phases_grow_add)
qed (auto simp: put_worker_def apply_effects_def exit_worker_def report_and_exit_def put_task_def check_cancelled_def
    send_reattached_def intro: phases_grow_same phases_grow_update)

lemma phases_grow_trans: "phases_grow e e' \<Longrightarrow> phases_grow e' e'' \<Longrightarrow> phases_grow e e''"
  unfolding phases_grow_def by (meson order.trans order.strict_trans2)

text \<open>A worker that has left its loop never serves again.\<close>

lemma phases_grow_run: "engine_run idle e posted e' \<Longrightarrow> phases_grow e e'"
proof (induction rule: engine_run.induct)
  case (run_start e)
  show ?case by (rule phases_grow_same) (rule refl)
next
  case (run_step e posted e' cmd e'')
  show ?case by (rule phases_grow_trans[OF run_step.IH phases_grow_step[OF run_step.hyps(2)]])
next
  case (run_silent e posted e' e'')
  show ?case by (rule phases_grow_trans[OF run_silent.IH phases_grow_step[OF run_silent.hyps(2)]])
qed

section \<open>Answers\<close>

text \<open>Replies are well typed: in every run of the engine, when each command carries a reply channel of the
  type of its method, every answer on a channel has the type of that channel, whoever sends it (the
  supervisor, a worker, or the dispatcher that refuses the request).\<close>

lemma answers_have_their_type:
  assumes "engine_run idle (engine_start ord table w) posted e" and "list_all (typed_command K) posted"
  shows "list_all (\<lambda>(i, a). answer_type a = K i) (en_answers e)"
  using typed_run[OF assms] by (fastforce simp: typed_engine_def typing list_all_iff)

end
