(* ===== verification/Keycodes.thy ===== *)
theory Keycodes
  imports Text Prelude "HOL-Library.Tree" "HOL-Library.List_Lexorder"
begin

text \<open>
  The key names of \<open>src/bin/clackctl/keycodes.rs\<close>: the table, the lookups by code and by name, and the
  two formats of a code.
\<close>

section \<open>The table\<close>

record key =
  key_code :: u16
  key_name :: string
  key_short :: string
  key_aliases :: "string list"

definition key_row :: "u16 \<Rightarrow> string \<Rightarrow> string \<Rightarrow> string list \<Rightarrow> key" where
  "key_row code name short aliases =
     \<lparr>key_code = code, key_name = name, key_short = short, key_aliases = aliases\<rparr>"

definition ALL_KEYS :: "key list" where
  "ALL_KEYS =
    [key_row 0x0000 ''KC_NO'' ''--'' [''none'', ''no'', ''xxx''],
     key_row 0x0001 ''KC_TRANSPARENT'' ''TRNS'' [''trans'', ''trns''], key_row 0x0004 ''KC_A'' ''A'' [],
     key_row 0x0005 ''KC_B'' ''B'' [], key_row 0x0006 ''KC_C'' ''C'' [], key_row 0x0007 ''KC_D'' ''D'' [],
     key_row 0x0008 ''KC_E'' ''E'' [], key_row 0x0009 ''KC_F'' ''F'' [], key_row 0x000A ''KC_G'' ''G'' [],
     key_row 0x000B ''KC_H'' ''H'' [], key_row 0x000C ''KC_I'' ''I'' [], key_row 0x000D ''KC_J'' ''J'' [],
     key_row 0x000E ''KC_K'' ''K'' [], key_row 0x000F ''KC_L'' ''L'' [], key_row 0x0010 ''KC_M'' ''M'' [],
     key_row 0x0011 ''KC_N'' ''N'' [], key_row 0x0012 ''KC_O'' ''O'' [], key_row 0x0013 ''KC_P'' ''P'' [],
     key_row 0x0014 ''KC_Q'' ''Q'' [], key_row 0x0015 ''KC_R'' ''R'' [], key_row 0x0016 ''KC_S'' ''S'' [],
     key_row 0x0017 ''KC_T'' ''T'' [], key_row 0x0018 ''KC_U'' ''U'' [], key_row 0x0019 ''KC_V'' ''V'' [],
     key_row 0x001A ''KC_W'' ''W'' [], key_row 0x001B ''KC_X'' ''X'' [], key_row 0x001C ''KC_Y'' ''Y'' [],
     key_row 0x001D ''KC_Z'' ''Z'' [], key_row 0x001E ''KC_1'' ''1'' [], key_row 0x001F ''KC_2'' ''2'' [],
     key_row 0x0020 ''KC_3'' ''3'' [], key_row 0x0021 ''KC_4'' ''4'' [], key_row 0x0022 ''KC_5'' ''5'' [],
     key_row 0x0023 ''KC_6'' ''6'' [], key_row 0x0024 ''KC_7'' ''7'' [], key_row 0x0025 ''KC_8'' ''8'' [],
     key_row 0x0026 ''KC_9'' ''9'' [], key_row 0x0027 ''KC_0'' ''0'' [],
     key_row 0x0028 ''KC_ENTER'' ''ENT'' [''ent'', ''return''], key_row 0x0029 ''KC_ESCAPE'' ''ESC'' [''esc''],
     key_row 0x002A ''KC_BACKSPACE'' ''BSPC'' [''bspc''], key_row 0x002B ''KC_TAB'' ''TAB'' [],
     key_row 0x002C ''KC_SPACE'' ''SPC'' [''spc''], key_row 0x002D ''KC_MINUS'' ''-'' [''mins'', ''-''],
     key_row 0x002E ''KC_EQUAL'' ''='' [''eql'', ''=''], key_row 0x002F ''KC_LEFT_BRACKET'' ''['' [''lbrc'', ''[''],
     key_row 0x0030 ''KC_RIGHT_BRACKET'' '']'' [''rbrc'', '']''],
     key_row 0x0031 ''KC_BACKSLASH'' [CHR 0x5C] [''bsls'', [CHR 0x5C]], key_row 0x0032 ''KC_NONUS_HASH'' ''#'' [''nuhs''],
     key_row 0x0033 ''KC_SEMICOLON'' '';'' [''scln'', '';''], key_row 0x0034 ''KC_QUOTE'' [CHR 0x27] [''quot'', [CHR 0x27]],
     key_row 0x0035 ''KC_GRAVE'' ''`'' [''grv'', ''`''], key_row 0x0036 ''KC_COMMA'' '','' [''comm'', '',''],
     key_row 0x0037 ''KC_DOT'' ''.'' [''.''], key_row 0x0038 ''KC_SLASH'' ''/'' [''slsh'', ''/''],
     key_row 0x0039 ''KC_CAPS_LOCK'' ''CAPS'' [''caps''], key_row 0x003A ''KC_F1'' ''F1'' [],
     key_row 0x003B ''KC_F2'' ''F2'' [], key_row 0x003C ''KC_F3'' ''F3'' [], key_row 0x003D ''KC_F4'' ''F4'' [],
     key_row 0x003E ''KC_F5'' ''F5'' [], key_row 0x003F ''KC_F6'' ''F6'' [], key_row 0x0040 ''KC_F7'' ''F7'' [],
     key_row 0x0041 ''KC_F8'' ''F8'' [], key_row 0x0042 ''KC_F9'' ''F9'' [], key_row 0x0043 ''KC_F10'' ''F10'' [],
     key_row 0x0044 ''KC_F11'' ''F11'' [], key_row 0x0045 ''KC_F12'' ''F12'' [],
     key_row 0x0046 ''KC_PRINT_SCREEN'' ''PSCR'' [''pscr'', ''prtsc''], key_row 0x0047 ''KC_SCROLL_LOCK'' ''SCRL'' [''scrl''],
     key_row 0x0048 ''KC_PAUSE'' ''PAUS'' [''paus'', ''brk''], key_row 0x0049 ''KC_INSERT'' ''INS'' [''ins''],
     key_row 0x004A ''KC_HOME'' ''HOME'' [], key_row 0x004B ''KC_PAGE_UP'' ''PGUP'' [''pgup''],
     key_row 0x004C ''KC_DELETE'' ''DEL'' [''del''], key_row 0x004D ''KC_END'' ''END'' [],
     key_row 0x004E ''KC_PAGE_DOWN'' ''PGDN'' [''pgdn''], key_row 0x004F ''KC_RIGHT'' ''RGHT'' [''rght''],
     key_row 0x0050 ''KC_LEFT'' ''LEFT'' [], key_row 0x0051 ''KC_DOWN'' ''DOWN'' [], key_row 0x0052 ''KC_UP'' ''UP'' [],
     key_row 0x0053 ''KC_NUM_LOCK'' ''NUM'' [''num''], key_row 0x0054 ''KC_KP_SLASH'' ''P/'' [''psls''],
     key_row 0x0055 ''KC_KP_ASTERISK'' ''P*'' [''past''], key_row 0x0056 ''KC_KP_MINUS'' ''P-'' [''pmns''],
     key_row 0x0057 ''KC_KP_PLUS'' ''P+'' [''ppls''], key_row 0x0058 ''KC_KP_ENTER'' ''PENT'' [''pent''],
     key_row 0x0059 ''KC_KP_1'' ''P1'' [], key_row 0x005A ''KC_KP_2'' ''P2'' [], key_row 0x005B ''KC_KP_3'' ''P3'' [],
     key_row 0x005C ''KC_KP_4'' ''P4'' [], key_row 0x005D ''KC_KP_5'' ''P5'' [], key_row 0x005E ''KC_KP_6'' ''P6'' [],
     key_row 0x005F ''KC_KP_7'' ''P7'' [], key_row 0x0060 ''KC_KP_8'' ''P8'' [], key_row 0x0061 ''KC_KP_9'' ''P9'' [],
     key_row 0x0062 ''KC_KP_0'' ''P0'' [], key_row 0x0063 ''KC_KP_DOT'' ''P.'' [''pdot''],
     key_row 0x0064 ''KC_NONUS_BACKSLASH'' ''NUBS'' [''nubs''], key_row 0x0065 ''KC_APPLICATION'' ''APP'' [''app'', ''menu''],
     key_row 0x0067 ''KC_KP_EQUAL'' ''P='' [''peql''], key_row 0x0068 ''KC_F13'' ''F13'' [],
     key_row 0x0069 ''KC_F14'' ''F14'' [], key_row 0x006A ''KC_F15'' ''F15'' [], key_row 0x006B ''KC_F16'' ''F16'' [],
     key_row 0x006C ''KC_F17'' ''F17'' [], key_row 0x006D ''KC_F18'' ''F18'' [], key_row 0x006E ''KC_F19'' ''F19'' [],
     key_row 0x006F ''KC_F20'' ''F20'' [], key_row 0x0070 ''KC_F21'' ''F21'' [], key_row 0x0071 ''KC_F22'' ''F22'' [],
     key_row 0x0072 ''KC_F23'' ''F23'' [], key_row 0x0073 ''KC_F24'' ''F24'' [],
     key_row 0x00A5 ''KC_SYSTEM_POWER'' ''PWR'' [''pwr''], key_row 0x00A6 ''KC_SYSTEM_SLEEP'' ''SLEP'' [''slep'', ''sleep''],
     key_row 0x00A7 ''KC_SYSTEM_WAKE'' ''WAKE'' [''wake''], key_row 0x00A8 ''KC_AUDIO_MUTE'' ''MUTE'' [''mute''],
     key_row 0x00A9 ''KC_AUDIO_VOL_UP'' ''VOLU'' [''volu''], key_row 0x00AA ''KC_AUDIO_VOL_DOWN'' ''VOLD'' [''vold''],
     key_row 0x00AB ''KC_MEDIA_NEXT_TRACK'' ''MNXT'' [''mnxt'', ''next''],
     key_row 0x00AC ''KC_MEDIA_PREV_TRACK'' ''MPRV'' [''mprv'', ''prev''],
     key_row 0x00AD ''KC_MEDIA_STOP'' ''MSTP'' [''mstp''],
     key_row 0x00AE ''KC_MEDIA_PLAY_PAUSE'' ''MPLY'' [''mply'', ''play''],
     key_row 0x00AF ''KC_MEDIA_SELECT'' ''MSEL'' [''msel''], key_row 0x00B0 ''KC_MEDIA_EJECT'' ''EJCT'' [''ejct''],
     key_row 0x00B1 ''KC_MAIL'' ''MAIL'' [], key_row 0x00B2 ''KC_CALCULATOR'' ''CALC'' [''calc''],
     key_row 0x00B3 ''KC_MY_COMPUTER'' ''MYCM'' [''mycm''], key_row 0x00B4 ''KC_WWW_SEARCH'' ''WSCH'' [''wsch''],
     key_row 0x00B5 ''KC_WWW_HOME'' ''WHOM'' [''whom''], key_row 0x00B6 ''KC_WWW_BACK'' ''WBAK'' [''wbak''],
     key_row 0x00B7 ''KC_WWW_FORWARD'' ''WFWD'' [''wfwd''], key_row 0x00B8 ''KC_WWW_STOP'' ''WSTP'' [''wstp''],
     key_row 0x00B9 ''KC_WWW_REFRESH'' ''WREF'' [''wref''], key_row 0x00BA ''KC_WWW_FAVORITES'' ''WFAV'' [''wfav''],
     key_row 0x00BB ''KC_MEDIA_FAST_FORWARD'' ''MFFD'' [''mffd''], key_row 0x00BC ''KC_MEDIA_REWIND'' ''MRWD'' [''mrwd''],
     key_row 0x00BD ''KC_BRIGHTNESS_UP'' ''BRIU'' [''briu''], key_row 0x00BE ''KC_BRIGHTNESS_DOWN'' ''BRID'' [''brid''],
     key_row 0x00E0 ''KC_LEFT_CTRL'' ''LCTL'' [''lctl'', ''lctrl''],
     key_row 0x00E1 ''KC_LEFT_SHIFT'' ''LSFT'' [''lsft'', ''lshift''],
     key_row 0x00E2 ''KC_LEFT_ALT'' ''LALT'' [''lalt'', ''lopt''],
     key_row 0x00E3 ''KC_LEFT_GUI'' ''LGUI'' [''lgui'', ''lcmd'', ''lwin''],
     key_row 0x00E4 ''KC_RIGHT_CTRL'' ''RCTL'' [''rctl'', ''rctrl''],
     key_row 0x00E5 ''KC_RIGHT_SHIFT'' ''RSFT'' [''rsft'', ''rshift''],
     key_row 0x00E6 ''KC_RIGHT_ALT'' ''RALT'' [''ralt'', ''ropt'', ''algr''],
     key_row 0x00E7 ''KC_RIGHT_GUI'' ''RGUI'' [''rgui'', ''rcmd'', ''rwin'']]"

section \<open>Lookups\<close>

definition by_code :: "u16 \<Rightarrow> key option" where
  "by_code code = find (\<lambda>k. key_code k = code) ALL_KEYS"

text \<open>A key by an alias, and by its name without \<open>KC_\<close> or an alias.\<close>

definition has_alias :: "string \<Rightarrow> key \<Rightarrow> bool" where
  "has_alias s k \<longleftrightarrow> list_ex (\<lambda>a. eq_ignore_case a s) (key_aliases k)"

definition by_name :: "string \<Rightarrow> u16 option" where
  "by_name s =
     (let raw = trim s in
      case find (has_alias raw) ALL_KEYS of
        Some k \<Rightarrow> Some (key_code k)
      | None \<Rightarrow>
          let norm0 = replace_char [CHR ''-''] (CHR ''_'') (ascii_upper raw);
              norm = (case strip_prefix ''KC_'' norm0 of Some t \<Rightarrow> t | None \<Rightarrow> norm0)
          in map_option key_code (find (\<lambda>k. drop 3 (key_name k) = norm \<or> has_alias norm k) ALL_KEYS))"

definition hex4 :: "u16 \<Rightarrow> string" where
  "hex4 v = ''0x'' @ hexw 4 (unat v)"

definition describe :: "u16 \<Rightarrow> string" where
  "describe code = (case by_code code of
      Some k \<Rightarrow> key_name k @ '' ('' @ hex4 code @ '')''
    | None \<Rightarrow> hex4 code @ '' (no name '' @ [CHR 0xE2, CHR 0x80, CHR 0x94] @ '' quantum keycode?)'')"

definition short_label :: "u16 \<Rightarrow> string" where
  "short_label code = (case by_code code of Some k \<Rightarrow> key_short k | None \<Rightarrow> hex4 code)"

lemma find_unique:
  "distinct (map f xs) \<Longrightarrow> x \<in> set xs \<Longrightarrow> find (\<lambda>y. f y = f x) xs = Some x"
  by (induction xs) auto

section \<open>No two keys share a spelling\<close>

definition spellings :: "key \<Rightarrow> string list" where
  "spellings k = remdups (drop 3 (key_name k) # map ascii_upper (key_aliases k))"

text \<open>Inserted one after the other into a search tree, every spelling is new.\<close>

fun char_num :: "char \<Rightarrow> int" where
  "char_num (Char b0 b1 b2 b3 b4 b5 b6 b7) =
     (let b = (\<lambda>b x. if b then x else 0 :: int) in
      b b0 1 + b b1 2 + b b2 4 + b b3 8 + b b4 16 + b b5 32 + b b6 64 + b b7 128)"

fun put_new :: "'a::linorder \<Rightarrow> 'a tree \<Rightarrow> 'a tree option" where
  "put_new x Leaf = Some (Node Leaf x Leaf)"
| "put_new x (Node l a r) =
     (if x < a then map_option (\<lambda>l'. Node l' a r) (put_new x l)
      else if x = a then None
      else map_option (\<lambda>r'. Node l a r') (put_new x r))"

fun all_new :: "'a::linorder list \<Rightarrow> 'a tree \<Rightarrow> bool" where
  "all_new [] t = True"
| "all_new (x # xs) t = (case put_new x t of None \<Rightarrow> False | Some t' \<Rightarrow> all_new xs t')"

lemma put_new_Some:
  "bst t \<Longrightarrow> put_new x t = Some t' \<Longrightarrow> x \<notin> set_tree t \<and> set_tree t' = insert x (set_tree t) \<and> bst t'"
proof (induction t arbitrary: t')
  case Leaf
  then show ?case by auto
next
  case (Node l a r)
  consider "x < a" | "x = a" | "a < x" by fastforce
  then show ?case
  proof cases
    case 1
    with Node.prems obtain l' where l': "put_new x l = Some l'" "t' = Node l' a r" by auto
    with Node.IH(1)[OF _ l'(1)] Node.prems(1) 1 show ?thesis by fastforce
  next
    case 2
    with Node.prems show ?thesis by simp
  next
    case 3
    with Node.prems obtain r' where r': "put_new x r = Some r'" "t' = Node l a r'" by (auto split: if_splits)
    with Node.IH(2)[OF _ r'(1)] Node.prems(1) 3 show ?thesis by fastforce
  qed
qed

lemma all_new_distinct: "all_new xs t \<Longrightarrow> bst t \<Longrightarrow> distinct xs \<and> set xs \<inter> set_tree t = {}"
proof (induction xs arbitrary: t)
  case Nil
  then show ?case by simp
next
  case (Cons x xs)
  then obtain t' where t': "put_new x t = Some t'" "all_new xs t'" by (auto split: option.splits)
  from put_new_Some[OF Cons.prems(2) t'(1)] Cons.IH[OF t'(2)] show ?case by auto
qed

lemma spellings_all_new: "all_new (map (map char_num) (concat (map spellings ALL_KEYS))) Leaf"
  by code_simp

lemma spellings_distinct: "distinct (concat (map spellings ALL_KEYS))"
  using all_new_distinct[OF spellings_all_new] by (simp add: distinct_map)

text \<open>The spellings are upper case, none starts with \<open>KC_\<close>, and only the minus sign itself has a dash.\<close>

lemma spellings_shape:
  "list_all (\<lambda>t. ascii_upper t = t \<and> take 3 t \<noteq> ''KC_'' \<and> t \<noteq> ''_'' \<and> (CHR ''-'' \<in> set t \<longrightarrow> t = ''-''))
     (concat (map spellings ALL_KEYS))"
  by code_simp

lemma spelling_shape:
  assumes "k \<in> set ALL_KEYS" and "t \<in> set (spellings k)"
  shows "ascii_upper t = t" "take 3 t \<noteq> ''KC_''" "t \<noteq> ''_''" "CHR ''-'' \<in> set t \<Longrightarrow> t = ''-''"
  using spellings_shape assms by (auto simp: list_all_iff)

lemma spelling_unique:
  assumes "k \<in> set ALL_KEYS" and "k' \<in> set ALL_KEYS" and "t \<in> set (spellings k)" and "t \<in> set (spellings k')"
  shows "k = k'"
proof -
  have "[] \<notin> set (map spellings ALL_KEYS)" by (auto simp: spellings_def)
  then have "distinct (map spellings ALL_KEYS)"
    using spellings_distinct by (simp add: distinct_concat_iff)
  then have inj: "inj_on spellings (set ALL_KEYS)" by (simp add: distinct_map)
  have disj: "ys = zs \<or> set ys \<inter> set zs = {}"
    if "ys \<in> set (map spellings ALL_KEYS)" "zs \<in> set (map spellings ALL_KEYS)" for ys zs
    using spellings_distinct that unfolding distinct_concat_iff by blast
  have "spellings k = spellings k'"
    using disj[of "spellings k" "spellings k'"] assms by auto
  with inj show ?thesis using assms(1,2) by (rule inj_onD)
qed

lemma has_alias_iff: "has_alias s k \<longleftrightarrow> ascii_upper s \<in> ascii_upper ` set (key_aliases k)"
  unfolding has_alias_def list_ex_iff eq_ignore_case_upper image_iff by (metis (no_types))

lemma undashed [simp]: "CHR ''-'' \<notin> set u \<Longrightarrow> replace_char [CHR ''-''] to u = u"
  unfolding replace_char_def by (rule map_idI) auto

lemma in_spellings:
  "t \<in> set (spellings k) \<longleftrightarrow> t = drop 3 (key_name k) \<or> t \<in> ascii_upper ` set (key_aliases k)"
  unfolding spellings_def set_remdups list.set(2) list.set_map insert_iff by (rule refl)

lemma alias_spelling: "has_alias s k \<Longrightarrow> ascii_upper s \<in> set (spellings k)"
  unfolding has_alias_iff in_spellings by blast

lemma dash_is_an_alias: "list_all (\<lambda>k. drop 3 (key_name k) \<noteq> ''-'') ALL_KEYS"
  by code_simp

lemma find_only:
  "x \<in> set xs \<Longrightarrow> P x \<Longrightarrow> (\<And>y. y \<in> set xs \<Longrightarrow> P y \<Longrightarrow> y = x) \<Longrightarrow> find P xs = Some x"
proof (induction xs)
  case (Cons a xs)
  show ?case
  proof (cases "P a")
    case True
    then have "a = x" by (rule Cons.prems(3)[OF list.set_intros(1)])
    with True show ?thesis by simp
  next
    case False
    then have "x \<in> set xs" using Cons.prems(1,2) by auto
    then have "find P xs = Some x"
      using Cons.prems(2) Cons.prems(3)[OF list.set_intros(2)] by (rule Cons.IH)
    with False show ?thesis by simp
  qed
qed simp

lemma by_name_alias:
  assumes "k \<in> set ALL_KEYS" and "has_alias (trim s) k"
  shows "by_name s = Some (key_code k)"
proof -
  have "find (has_alias (trim s)) ALL_KEYS = Some k"
  proof (rule find_only[where P = "has_alias (trim s)", OF assms])
    fix k' assume "k' \<in> set ALL_KEYS" "has_alias (trim s) k'"
    then show "k' = k"
      using spelling_unique[OF _ assms(1) alias_spelling alias_spelling[OF assms(2)]] by blast
  qed
  then show ?thesis by (simp add: by_name_def Let_def)
qed

lemma by_name_dashed:
  assumes k: "k \<in> set ALL_KEYS" and t: "t \<in> set (spellings k)" "t \<noteq> ''-''"
    and s: "replace_char [CHR ''-''] (CHR ''_'') (ascii_upper (trim s)) \<in> {t, ''KC_'' @ t}"
  shows "by_name s = Some (key_code k)"
proof (cases "find (has_alias (trim s)) ALL_KEYS")
  case (Some k')
  let ?u = "ascii_upper (trim s)"
  from Some have k': "k' \<in> set ALL_KEYS" "has_alias (trim s) k'" by (auto simp: find_Some_iff)
  note u = alias_spelling[OF k'(2)] spelling_shape[OF k'(1) alias_spelling[OF k'(2)]]
  have "CHR ''-'' \<notin> set ?u"
  proof
    assume "CHR ''-'' \<in> set ?u"
    with u(5) s have "''_'' \<in> {t, ''KC_'' @ t}" by (simp add: replace_char_def)
    with spelling_shape(3)[OF k t(1)] show False by auto
  qed
  then have "replace_char [CHR ''-''] (CHR ''_'') ?u = ?u"
    by simp
  with s u(3) have "?u = t" by auto
  with u(1) t(1) k k'(1) have "k' = k" by (auto intro: spelling_unique)
  with Some show ?thesis by (simp add: by_name_def Let_def)
next
  case None
  let ?n = "replace_char [CHR ''-''] (CHR ''_'') (ascii_upper (trim s))"
  have norm: "(case strip_prefix ''KC_'' ?n of Some x \<Rightarrow> x | None \<Rightarrow> ?n) = t"
    using s spelling_shape(2)[OF k t(1)] by (auto simp: strip_prefix_def numeral_3_eq_3)
  have "find (\<lambda>k. drop 3 (key_name k) = t \<or> has_alias t k) ALL_KEYS = Some k"
  proof (rule find_only[OF k])
    show "drop 3 (key_name k) = t \<or> has_alias t k"
      using t(1) spelling_shape(1)[OF k t(1)] by (auto simp: in_spellings has_alias_iff)
    fix k' assume k': "k' \<in> set ALL_KEYS" "drop 3 (key_name k') = t \<or> has_alias t k'"
    then have "t \<in> set (spellings k')"
      using alias_spelling[of t k'] spelling_shape(1)[OF k t(1)] by (auto simp: in_spellings)
    with k k'(1) t(1) show "k' = k" by (auto intro: spelling_unique)
  qed
  with None norm show ?thesis by (simp add: by_name_def Let_def)
qed

lemma codes_sorted: "sorted_wrt (<) (map key_code ALL_KEYS)"
proof -
  have "successively (<) (map key_code ALL_KEYS)" by (simp add: ALL_KEYS_def key_row_def)
  then show ?thesis by (simp add: successively_conv_sorted_wrt)
qed

lemma by_code_key: "k \<in> set ALL_KEYS \<Longrightarrow> by_code (key_code k) = Some k"
proof -
  have "distinct (map key_code ALL_KEYS)" using codes_sorted by (simp add: strict_sorted_iff)
  then show "k \<in> set ALL_KEYS \<Longrightarrow> by_code (key_code k) = Some k"
    unfolding by_code_def by (rule find_unique)
qed


text \<open>C22. The name table is unambiguous: every spelling of a key - its name without \<open>KC_\<close> or an alias, in any
  case, with white space around it, with \<open>KC_\<close> in front, with dashes for underscores - resolves to the
  code of that key and of no other, and the code leads back to the key.\<close>

theorem every_spelling_resolves:
  assumes "k \<in> set ALL_KEYS" and "t \<in> set (spellings k)"
    and "ascii_upper (trim s) = t \<or> t \<noteq> ''-'' \<and>
      replace_char [CHR ''-''] (CHR ''_'') (ascii_upper (trim s)) \<in> {t, ''KC_'' @ t}"
  shows "by_name s = Some (key_code k) \<and> by_code (key_code k) = Some k"
proof -
  have "by_name s = Some (key_code k)"
  proof (cases "t = ''-''")
    case True
    then have "ascii_upper (trim s) = ''-''" using assms(3) by simp
    moreover have "drop 3 (key_name k) \<noteq> ''-''"
      using dash_is_an_alias assms(1) by (auto simp: list_all_iff)
    ultimately have "has_alias (trim s) k" using assms(2) True by (auto simp: in_spellings has_alias_iff)
    with by_name_alias[OF assms(1)] show ?thesis by blast
  next
    case False
    then have "replace_char [CHR ''-''] (CHR ''_'') t = t"
      using spelling_shape(4)[OF assms(1,2)] by (intro undashed) auto
    with assms(3) False by_name_dashed[OF assms(1,2) False] show ?thesis by auto
  qed
  with by_code_key[OF assms(1)] show ?thesis by blast
qed

theorem every_spelling_resolves_witness:
  "by_name '' Page-Up '' = Some 0x4B \<and> by_name ''kc_0'' = Some 0x27 \<and> by_name ''-'' = Some 0x2D"
proof -
  let ?p = "key_row 0x4B ''KC_PAGE_UP'' ''PGUP'' [''pgup'']" and ?z = "key_row 0x27 ''KC_0'' ''0'' []"
    and ?m = "key_row 0x2D ''KC_MINUS'' ''-'' [''mins'', ''-'']"
  have rows: "?p \<in> set ALL_KEYS" "?z \<in> set ALL_KEYS" "?m \<in> set ALL_KEYS"
    unfolding ALL_KEYS_def by simp_all
  have names: "''PAGE_UP'' \<in> set (spellings ?p)" "''0'' \<in> set (spellings ?z)" "''-'' \<in> set (spellings ?m)"
    by code_simp+
  have typed: "''PAGE_UP'' \<noteq> ''-'' \<and> replace_char [CHR ''-''] (CHR ''_'') (ascii_upper (trim '' Page-Up '')) \<in> {''PAGE_UP'', ''KC_'' @ ''PAGE_UP''}"
    "''0'' \<noteq> ''-'' \<and> replace_char [CHR ''-''] (CHR ''_'') (ascii_upper (trim ''kc_0'')) \<in> {''0'', ''KC_'' @ ''0''}"
    "ascii_upper (trim ''-'') = ''-''"
    by code_simp+
  have codes: "key_code ?p = 0x4B" "key_code ?z = 0x27" "key_code ?m = 0x2D"
    by (simp_all add: key_row_def)
  show ?thesis
    using every_spelling_resolves[OF rows(1) names(1) disjI2[OF typed(1)]]
      every_spelling_resolves[OF rows(2) names(2) disjI2[OF typed(2)]]
      every_spelling_resolves[OF rows(3) names(3) disjI1[OF typed(3)]]
    unfolding codes by blast
qed

end
