(* ===== verification/Clackctl.thy ===== *)
theory Clackctl
  imports Keycodes Gmk67_Codec
begin

text \<open>
  The command line client \<open>src/bin/clackctl/main.rs\<close>: the parsers of its arguments, the resolution of a
  device, and every command over the D-Bus proxy. The proxy is a record of the calls the
  generated client offers, on a state of the bus; what a command prints is collected line by line
  in a terminal. Text is in UTF-8 bytes; arguments are ASCII.
\<close>

section \<open>The proxy and the terminal\<close>

text \<open>\<open>zbus::Error\<close> as far as the client tells errors apart.\<close>

datatype bus_error = MethodError string "string option" | InterfaceNotFound | OtherBusError string

datatype cli_error = Msg string | Bus bus_error

text \<open>
  What the three signal streams of a proxy deliver to a \<open>select!\<close> over them, in the order it takes their
  items: the branch and what \<open>args()\<close> gives, the device or an error. The list ends when the streams do, or
  when the user stops the client.
\<close>

datatype signal_kind = AddedStream | RemovedStream | LayoutStream
type_synonym delivery = "signal_kind \<times> (bus_error + string)"

record 's clackd_proxy =
  px_list_devices :: "('s, bus_error, string list) act"
  px_get_device_info :: "string \<Rightarrow> ('s, bus_error, string \<times> u8 \<times> u8 \<times> u8) act"
  px_get_device_identity :: "string \<Rightarrow> ('s, bus_error, u16 \<times> u16 \<times> string) act"
  px_get_keycode :: "string \<Rightarrow> u8 \<Rightarrow> u8 \<Rightarrow> u8 \<Rightarrow> ('s, bus_error, u16) act"
  px_set_keycode :: "string \<Rightarrow> u8 \<Rightarrow> u8 \<Rightarrow> u8 \<Rightarrow> u16 \<Rightarrow> ('s, bus_error, unit) act"
  px_commit :: "string \<Rightarrow> ('s, bus_error, unit) act"
  px_get_macro :: "string \<Rightarrow> u16 \<Rightarrow> u8 \<Rightarrow> ('s, bus_error, bytes) act"
  px_set_macro :: "string \<Rightarrow> u16 \<Rightarrow> bytes \<Rightarrow> ('s, bus_error, unit) act"
  px_get_lighting :: "string \<Rightarrow> u8 \<Rightarrow> u8 \<Rightarrow> ('s, bus_error, bytes) act"
  px_set_lighting :: "string \<Rightarrow> u8 \<Rightarrow> u8 \<Rightarrow> bytes \<Rightarrow> ('s, bus_error, unit) act"
  px_receive_device_added :: "('s, bus_error, unit) act"
  px_receive_device_removed :: "('s, bus_error, unit) act"
  px_receive_layout_updated :: "('s, bus_error, unit) act"
  px_delivered :: "delivery list"
  px_display :: "bus_error \<Rightarrow> string"

record 's terminal =
  tm_bus :: "'s"
  tm_out :: "string list"

type_synonym ('s, 'a) cli = "('s terminal, cli_error, 'a) act"

text \<open>A call with the question mark behind it, a call whose error the caller looks at, and \<open>println!\<close>.\<close>

definition try_call :: "('s, bus_error, 'a) act \<Rightarrow> ('s, bus_error + 'a) cli" where
  "try_call m t = (case m (tm_bus t) of (r, s) \<Rightarrow> (Inr r, t\<lparr>tm_bus := s\<rparr>))"

definition call :: "('s, bus_error, 'a) act \<Rightarrow> ('s, 'a) cli" where
  "call m = andthen (try_call m) (\<lambda>r. lift_res (map_sum Bus id r))"

definition println :: "string \<Rightarrow> ('s, unit) cli" where
  "println l t = (Inr (), t\<lparr>tm_out := tm_out t @ [l]\<rparr>)"

fun println_all :: "string list \<Rightarrow> ('s, unit) cli" where
  "println_all [] = ok ()"
| "println_all (l # ls) = andthen (println l) (\<lambda>_. println_all ls)"

text \<open>\<open>for x in xs { .. }\<close> collecting the results.\<close>

fun for_each :: "'a list \<Rightarrow> ('a \<Rightarrow> ('s, 'e, 'b) act) \<Rightarrow> ('s, 'e, 'b list) act" where
  "for_each [] f = ok []"
| "for_each (x # xs) f = andthen (f x) (\<lambda>y. andthen (for_each xs f) (\<lambda>ys. ok (y # ys)))"

definition EM_DASH :: string where "EM_DASH = [CHR 0xE2, CHR 0x80, CHR 0x94]"
definition EN_DASH :: string where "EN_DASH = [CHR 0xE2, CHR 0x80, CHR 0x93]"
definition TIMES_SIGN :: string where "TIMES_SIGN = [CHR 0xC3, CHR 0x97]"
definition LEFT_ARROW :: string where "LEFT_ARROW = [CHR 0xE2, CHR 0x86, CHR 0x90]"
definition MIDDLE_DOT :: string where "MIDDLE_DOT = [CHR 0xC2, CHR 0xB7]"

section \<open>Errors for humans\<close>

definition friendly_error :: "(bus_error \<Rightarrow> string) \<Rightarrow> cli_error \<Rightarrow> string" where
  "friendly_error display e =
     (case e of
        Msg m \<Rightarrow> m
      | Bus InterfaceNotFound \<Rightarrow>
          ''clackd does not expose the expected interface '' @ EM_DASH @
          '' version mismatch between clackctl and clackd?''
      | Bus (OtherBusError m) \<Rightarrow> display (OtherBusError m)
      | Bus (MethodError name detail0) \<Rightarrow>
          let detail = (case detail0 of Some d \<Rightarrow> d | None \<Rightarrow> ''no detail'') in
          if name = ''org.freedesktop.DBus.Error.NotSupported''
          then ''this keyboard cannot do that: '' @ detail
          else if name = ''org.freedesktop.DBus.Error.UnknownObject''
          then ''keyboard not found: '' @ detail @ '' (see `clackctl list`)''
          else if name = ''org.freedesktop.DBus.Error.AccessDenied''
          then ''access denied: '' @ detail @ '' (check the udev uaccess rule for /dev/hidraw*)''
          else if name = ''org.freedesktop.DBus.Error.ServiceUnknown''
          then ''clackd is not running on the session bus '' @ EM_DASH @ '' start it and retry''
          else detail @ '' ['' @ name @ '']'')"

definition unsupported_note :: "(bus_error \<Rightarrow> string) \<Rightarrow> bus_error \<Rightarrow> string" where
  "unsupported_note display e =
     (case e of
        MethodError name _ \<Rightarrow>
          if name = ''org.freedesktop.DBus.Error.NotSupported'' then ''not supported by this keyboard''
          else ''read failed ('' @ display e @ '')''
      | _ \<Rightarrow> ''read failed ('' @ display e @ '')'')"

section \<open>Parsing arguments\<close>

definition parse_radix :: "nat \<Rightarrow> string \<Rightarrow> nat option" where
  "parse_radix bound s =
     (case (case strip_prefix ''0x'' s of Some h \<Rightarrow> Some h | None \<Rightarrow> strip_prefix ''0X'' s) of
        Some h \<Rightarrow> from_str_radix bound 16 h
      | None \<Rightarrow> from_str_radix bound 10 s)"

definition parse_u16 :: "string \<Rightarrow> cli_error + u16" where
  "parse_u16 s0 =
     (let s = trim s0 in
      case parse_radix 65536 s of
        Some n \<Rightarrow> Inr (of_nat n)
      | None \<Rightarrow> Inl (Msg (''invalid number '' @ [CHR 0x27] @ s @ [CHR 0x27] @ '' (use decimal or 0xHEX)'')))"

definition parse_u8 :: "string \<Rightarrow> cli_error + u8" where
  "parse_u8 s0 =
     (let s = trim s0 in
      case parse_radix 256 s of
        Some n \<Rightarrow> Inr (of_nat n)
      | None \<Rightarrow> Inl (Msg (''invalid byte '' @ [CHR 0x27] @ s @ [CHR 0x27] @ '' (use decimal or 0xHEX)'')))"

text \<open>\<open>map_err(|_| ..)\<close>.\<close>

definition map_err :: "cli_error \<Rightarrow> cli_error + 'a \<Rightarrow> cli_error + 'a" where
  "map_err e r = (case r of Inl _ \<Rightarrow> Inl e | Inr x \<Rightarrow> Inr x)"

definition parse_key :: "string \<Rightarrow> cli_error + u16" where
  "parse_key s =
     (case by_name s of
        Some code \<Rightarrow> Inr code
      | None \<Rightarrow> map_err (Msg (''unknown key '' @ [CHR 0x27] @ s @ [CHR 0x27] @ '' '' @ EM_DASH @
            '' try a name from `clackctl keys`, or a 0xHEX keycode'')) (parse_u16 s))"

definition parse_level :: "string \<Rightarrow> cli_error + u8" where
  "parse_level s0 =
     (let s = trim s0 in
      case strip_suffix ''%'' s of
        Some pct \<Rightarrow>
          (case from_str_radix 65536 10 (trim pct) of
             None \<Rightarrow> Inl (Msg (''invalid percentage '' @ [CHR 0x27] @ s @ [CHR 0x27]))
           | Some n \<Rightarrow>
               if n > 100
               then Inl (Msg (''percentage out of range '' @ [CHR 0x27] @ s @ [CHR 0x27] @ '' (0%'' @ EN_DASH @ ''100%)''))
               else Inr (ucast (((of_nat n :: u16) * 255 + 50) div 100)))
      | None \<Rightarrow> map_err (Msg (''invalid level '' @ [CHR 0x27] @ s @ [CHR 0x27] @ '' (use 0'' @ EN_DASH @ ''255 or 0%'' @
            EN_DASH @ ''100%)'')) (parse_u8 s))"

definition CH_RGB_MATRIX :: u8 where "CH_RGB_MATRIX = 3"
definition VAL_BRIGHTNESS :: u8 where "VAL_BRIGHTNESS = 1"
definition VAL_EFFECT :: u8 where "VAL_EFFECT = 2"
definition VAL_SPEED :: u8 where "VAL_SPEED = 3"
definition VAL_COLOR :: u8 where "VAL_COLOR = 4"

definition EFFECTS :: "(u8 \<times> string) list" where
  "EFFECTS =
    [(0x01, ''static''), (0x02, ''keystroke-light-up''), (0x03, ''keystroke-dim''), (0x04, ''sparkle''),
     (0x05, ''rain''), (0x06, ''random-colors''), (0x07, ''breathing''), (0x08, ''spectrum-cycle''),
     (0x09, ''ring-gradient''), (0x0A, ''vertical-gradient''), (0x0B, ''rainbow-wave''),
     (0x0C, ''around-edges''), (0x0D, ''keystroke-horizontal-lines''), (0x0E, ''keystroke-tilted-lines''),
     (0x0F, ''keystroke-ripples''), (0x10, ''sequence''), (0x11, ''wave-line''), (0x12, ''tilted-lines''),
     (0x13, ''back-and-forth'')]"

definition COLORS :: "(string \<times> u8 \<times> u8 \<times> u8) list" where
  "COLORS =
    [(''red'', 0xFF, 0x00, 0x00), (''orange'', 0xFF, 0x80, 0x00), (''yellow'', 0xFF, 0xFF, 0x00),
     (''green'', 0x00, 0xFF, 0x00), (''cyan'', 0x00, 0xFF, 0xFF), (''blue'', 0x00, 0x00, 0xFF),
     (''purple'', 0x80, 0x00, 0xFF), (''magenta'', 0xFF, 0x00, 0xFF), (''pink'', 0xFF, 0x69, 0xB4),
     (''white'', 0xFF, 0xFF, 0xFF)]"

definition parse_effect :: "string \<Rightarrow> cli_error + u8" where
  "parse_effect s =
     (let norm = replace_char '' _'' (CHR ''-'') (ascii_lower (trim s)) in
      if norm = ''off'' then Inr 0
      else (case find (\<lambda>e. snd e = norm) EFFECTS of
              Some e \<Rightarrow> Inr (fst e)
            | None \<Rightarrow> map_err (Msg (''unknown effect '' @ [CHR 0x27] @ s @ [CHR 0x27] @ '' '' @ EM_DASH @
                  '' see `clackctl lighting <device> effects`'')) (parse_u8 s)))"

definition parse_color :: "string \<Rightarrow> cli_error + (u8 \<times> u8 \<times> u8)" where
  "parse_color s =
     (let raw = trim s in
      case find (\<lambda>c. eq_ignore_case (fst c) raw) COLORS of
        Some c \<Rightarrow> Inr (snd c)
      | None \<Rightarrow>
          let hex = (case strip_prefix ''#'' raw of Some h \<Rightarrow> h | None \<Rightarrow> raw);
              unknown = Msg (''unknown colour '' @ [CHR 0x27] @ s @ [CHR 0x27] @ '' (use #rrggbb, or one of: '' @
                join '', '' (map fst COLORS) @ '')'')
          in if length hex = 6
             then (case from_str_radix (2 ^ 32) 16 hex of
                     Some n \<Rightarrow> let v = (of_nat n :: u32) in Inr (ucast (drop_bit 16 v), ucast (drop_bit 8 v), ucast v)
                   | None \<Rightarrow> Inl unknown)
             else Inl unknown)"

text \<open>The pairs of characters at the even positions \<open>i, i + 2, ..\<close> of text of even length.\<close>

fun hex_pairs :: "string \<Rightarrow> nat \<Rightarrow> string \<Rightarrow> cli_error + bytes" where
  "hex_pairs s i (a # b # rest) =
     (case from_str_radix 256 16 [a, b] of
        None \<Rightarrow> Inl (Msg (''invalid hex byte at position '' @ dec i @ '' in '' @ [CHR 0x27] @ s @ [CHR 0x27]))
      | Some n \<Rightarrow> (case hex_pairs s (i + 2) rest of Inl e \<Rightarrow> Inl e | Inr bs \<Rightarrow> Inr (of_nat n # bs)))"
| "hex_pairs s i _ = Inr []"

definition parse_hex_bytes :: "string \<Rightarrow> cli_error + bytes" where
  "parse_hex_bytes s0 =
     (let s = trim s0;
          hex = (case (case strip_prefix ''0x'' s of Some h \<Rightarrow> Some h | None \<Rightarrow> strip_prefix ''0X'' s) of
                   Some h \<Rightarrow> h | None \<Rightarrow> s)
      in if odd (length hex)
         then Inl (Msg (''hex data must have even length, got '' @ [CHR 0x27] @ s @ [CHR 0x27]))
         else hex_pairs s 0 hex)"

definition to_hex :: "bytes \<Rightarrow> string" where
  "to_hex data = join '' '' (map (\<lambda>b. hexw 2 (unat b)) data)"

definition percent :: "u8 \<Rightarrow> string" where
  "percent v = dec (unat (((ucast v :: u16) * 100 + 127) div 255)) @ ''%''"

definition hex2 :: "u8 \<Rightarrow> string" where "hex2 v = ''0x'' @ hexw 2 (unat v)"

definition effect_label :: "u8 \<Rightarrow> string" where
  "effect_label i = (case find (\<lambda>e. fst e = i) EFFECTS of
      Some e \<Rightarrow> snd e @ '' ('' @ hex2 i @ '')''
    | None \<Rightarrow> hex2 i @ '' (no name for this keyboard)'')"

section \<open>Colours\<close>

text \<open>The client carries its own copy of the daemon's conversions.\<close>

definition ctl_hs_to_rgb :: "u8 \<Rightarrow> u8 \<Rightarrow> u8 \<times> u8 \<times> u8" where
  "ctl_hs_to_rgb h s0 =
     (if s0 = 0 then (255, 255, 255)
      else
        let region = h div 43;
            remainder = ((ucast h :: u16) - ucast region * 43) * 6;
            s = (ucast s0 :: u16);
            p = (ucast (255 * (255 - s) div 255) :: u8);
            q = (ucast (255 * (255 - (s * remainder) div 255) div 255) :: u8);
            t = (ucast (255 * (255 - (s * (255 - remainder)) div 255) div 255) :: u8)
        in if region = 0 then (255, t, p)
           else if region = 1 then (q, 255, p)
           else if region = 2 then (p, 255, t)
           else if region = 3 then (p, q, 255)
           else if region = 4 then (t, p, 255)
           else (255, p, q))"

definition ctl_rgb_to_hs :: "u8 \<Rightarrow> u8 \<Rightarrow> u8 \<Rightarrow> u8 \<times> u8" where
  "ctl_rgb_to_hs r0 g0 b0 =
     (let mx = uint (max (max r0 g0) b0); mn = uint (min (min r0 g0) b0); delta = mx - mn in
      if mx = 0 \<or> delta = 0 then (0, 0)
      else
        let s = (word_of_int (i32_div (delta * 255) mx) :: u8);
            r = uint r0; g = uint g0; b = uint b0;
            h = (if r = mx then i32_div (43 * (g - b)) delta
                 else if g = mx then 85 + i32_div (43 * (b - r)) delta
                 else 171 + i32_div (43 * (r - g)) delta)
        in (word_of_int (h mod 256), s))"

definition rgb_hex :: "u8 \<Rightarrow> u8 \<Rightarrow> u8 \<Rightarrow> string" where
  "rgb_hex r g b = ''#'' @ hexw 2 (unat r) @ hexw 2 (unat g) @ hexw 2 (unat b)"

section \<open>Which device\<close>

text \<open>One round of the loop that collects the devices whose id or product name contains the needle.\<close>

definition name_matches :: "'s clackd_proxy \<Rightarrow> string \<Rightarrow> string \<Rightarrow> ('s, string list) cli" where
  "name_matches proxy needle i =
     andthen (try_call (px_get_device_identity proxy i)) (\<lambda>r.
       let name = (case r of Inr (_, _, n) \<Rightarrow> n | Inl _ \<Rightarrow> []) in
       ok (if contains (ascii_lower i) needle \<or> contains (ascii_lower name) needle then [i] else []))"

definition resolve_device :: "'s clackd_proxy \<Rightarrow> string \<Rightarrow> ('s, string) cli" where
  "resolve_device proxy spec =
     andthen (call (px_list_devices proxy)) (\<lambda>devices.
       if spec \<in> set devices then ok spec
       else
         (case Option.bind (from_str_radix (2 ^ 64) 10 spec) (nth_opt devices) of
            Some i \<Rightarrow> ok i
          | None \<Rightarrow>
              andthen (for_each devices (name_matches proxy (ascii_lower spec))) (\<lambda>found.
                (case concat found of
                   [only] \<Rightarrow> ok only
                 | [] \<Rightarrow> throw (Msg (''no keyboard matching '' @ [CHR 0x27] @ spec @ [CHR 0x27] @ '' (available: '' @
                       (if devices = [] then ''none connected'' else join '', '' devices) @ '')''))
                 | many \<Rightarrow> throw (Msg ([CHR 0x27] @ spec @ [CHR 0x27] @ '' matches several keyboards: '' @
                       join '', '' many @ '' '' @ EM_DASH @ '' be more specific''))))))"

section \<open>Commands on devices and keys\<close>

definition describe_device :: "'s clackd_proxy \<Rightarrow> string \<Rightarrow> ('s, string) cli" where
  "describe_device proxy i =
     andthen (try_call (px_get_device_identity proxy i)) (\<lambda>identity.
     andthen (try_call (px_get_device_info proxy i)) (\<lambda>info.
       ok (case (identity, info) of
             (Inr (vid, pid, name0), Inr (_, rows, cols, layers)) \<Rightarrow>
               let name = (if name0 = [] then ''unnamed'' else name0) in
               i @ '' '' @ EM_DASH @ '' '' @ name @ '' ['' @ hexw 4 (unat vid) @ '':'' @ hexw 4 (unat pid) @ ''], '' @
               dec (unat rows) @ TIMES_SIGN @ dec (unat cols) @ '' keys, '' @ dec (unat layers) @ '' layers''
           | _ \<Rightarrow> i)))"

definition cmd_list :: "'s clackd_proxy \<Rightarrow> ('s, unit) cli" where
  "cmd_list proxy =
     andthen (call (px_list_devices proxy)) (\<lambda>devices.
       if devices = [] then println ''No keyboards connected (or none that clackd manages).''
       else andthen (for_each (enumerate 0 devices) (\<lambda>(idx, i).
              andthen (describe_device proxy i) (\<lambda>l. println (dec idx @ '': '' @ l)))) (\<lambda>_. ok ()))"

definition cmd_info :: "'s clackd_proxy \<Rightarrow> string \<Rightarrow> ('s, unit) cli" where
  "cmd_info proxy device =
     andthen (resolve_device proxy device) (\<lambda>i.
     andthen (call (px_get_device_info proxy i)) (\<lambda>(model, rows, cols, layers).
     andthen (call (px_get_device_identity proxy i)) (\<lambda>(vid, pid, name).
       println_all
         [i @ '':'',
          ''  name:    '' @ (if name = [] then ''(unknown)'' else name),
          ''  usb id:  '' @ hexw 4 (unat vid) @ '':'' @ hexw 4 (unat pid),
          ''  driver:  '' @ (if model = [] then ''(unknown)'' else model),
          ''  matrix:  '' @ dec (unat rows) @ '' rows '' @ TIMES_SIGN @ '' '' @ dec (unat cols) @ '' columns'',
          ''  layers:  '' @ dec (unat layers)])))"

definition cmd_get :: "'s clackd_proxy \<Rightarrow> string \<Rightarrow> u8 \<Rightarrow> u8 \<Rightarrow> u8 \<Rightarrow> ('s, unit) cli" where
  "cmd_get proxy device layer row col =
     andthen (resolve_device proxy device) (\<lambda>i.
     andthen (call (px_get_keycode proxy i layer row col)) (\<lambda>keycode. println (describe keycode)))"

definition cmd_set :: "'s clackd_proxy \<Rightarrow> string \<Rightarrow> u8 \<Rightarrow> u8 \<Rightarrow> u8 \<Rightarrow> string \<Rightarrow> ('s, unit) cli" where
  "cmd_set proxy device layer row col key =
     andthen (lift_res (parse_key key)) (\<lambda>keycode.
     andthen (resolve_device proxy device) (\<lambda>i.
     andthen (call (px_set_keycode proxy i layer row col keycode)) (\<lambda>_.
       println (i @ '': layer '' @ dec (unat layer) @ '', row '' @ dec (unat row) @ '', col '' @ dec (unat col) @
         '' '' @ LEFT_ARROW @ '' '' @ describe keycode))))"

definition cmd_commit :: "'s clackd_proxy \<Rightarrow> string \<Rightarrow> ('s, unit) cli" where
  "cmd_commit proxy device =
     andthen (resolve_device proxy device) (\<lambda>i.
     andthen (call (px_commit proxy i)) (\<lambda>_. println (i @ '': pending changes saved to the keyboard'')))"

text \<open>\<open>{:>width$}\<close> and \<open>{:<width}\<close> on ASCII text.\<close>

definition pad_left :: "nat \<Rightarrow> string \<Rightarrow> string" where
  "pad_left w s = replicate (w - length s) (CHR '' '') @ s"

definition pad_right :: "nat \<Rightarrow> string \<Rightarrow> string" where
  "pad_right w s = s @ replicate (w - length s) (CHR '' '')"

definition read_grid :: "'s clackd_proxy \<Rightarrow> string \<Rightarrow> u8 \<Rightarrow> nat \<Rightarrow> nat \<Rightarrow> ('s, string list list) cli" where
  "read_grid proxy i l rows cols =
     for_each [0..<rows] (\<lambda>r. for_each [0..<cols] (\<lambda>c.
       andthen (call (px_get_keycode proxy i l (of_nat r) (of_nat c))) (\<lambda>code. ok (short_label code))))"

definition grid_width :: "string list list \<Rightarrow> nat" where
  "grid_width grid = (if concat grid = [] then 2 else foldr max (map length (concat grid)) 0)"

definition grid_lines :: "string \<Rightarrow> u8 \<Rightarrow> nat \<Rightarrow> string list list \<Rightarrow> string list" where
  "grid_lines i l cols grid =
     (let w = grid_width grid in
      [i @ '' layer '' @ dec (unat l) @ '':'',
       ''     '' @ concat (map (\<lambda>c. '' '' @ pad_left w (''c'' @ dec c)) [0..<cols])] @
      map (\<lambda>(r, labels). ''  r'' @ dec r @ '' '' @ concat (map (\<lambda>label. '' '' @ pad_left w label) labels))
        (enumerate 0 grid) @
      [[]])"

definition cmd_keymap :: "'s clackd_proxy \<Rightarrow> string \<Rightarrow> u8 option \<Rightarrow> ('s, unit) cli" where
  "cmd_keymap proxy device layer =
     andthen (resolve_device proxy device) (\<lambda>i.
     andthen (call (px_get_device_info proxy i)) (\<lambda>(_, rows, cols, layer_count).
     andthen (for_each (case layer of Some l \<Rightarrow> [l] | None \<Rightarrow> map of_nat [0..<unat layer_count]) (\<lambda>l.
         andthen (read_grid proxy i l (unat rows) (unat cols)) (\<lambda>grid.
           println_all (grid_lines i l (unat cols) grid)))) (\<lambda>_.
       println (''-- = no key assigned '' @ MIDDLE_DOT @ '' TRNS = falls through to the layer below''))))"

definition key_line :: "key \<Rightarrow> string" where
  "key_line k = hex4 (key_code k) @ ''  '' @ key_name k @
     (if key_aliases k = [] then [] else ''  (also: '' @ join '', '' (key_aliases k) @ '')'')"

definition cmd_keys :: "string option \<Rightarrow> ('s, unit) cli" where
  "cmd_keys pattern0 =
     (let pattern = map_option ascii_lower pattern0;
          shown = filter (\<lambda>l. case pattern of None \<Rightarrow> True | Some p \<Rightarrow> contains (ascii_lower l) p)
                    (map key_line ALL_KEYS)
      in println_all (if shown = [] then [''No key names match '' @ EM_DASH @ '' try `clackctl keys` for the full list.'']
                      else shown))"

section \<open>Lighting\<close>

datatype lighting_action =
    Show | Brightness string | Effect string | Speed string | Color string | Off | Effects
  | GetRaw string string | SetRaw string string string

text \<open>One line of the report: its label, the least length of a usable reply and its text.\<close>

definition show_value :: "'s clackd_proxy \<Rightarrow> string \<Rightarrow> u8 \<Rightarrow> string \<Rightarrow> nat \<Rightarrow> (bytes \<Rightarrow> string) \<Rightarrow> ('s, unit) cli" where
  "show_value proxy i val label least f =
     andthen (try_call (px_get_lighting proxy i CH_RGB_MATRIX val)) (\<lambda>r.
       println (label @ (case r of
           Inr v \<Rightarrow> if least \<le> length v then f v else ''(empty reply)''
         | Inl e \<Rightarrow> unsupported_note (px_display proxy) e)))"

definition level_text :: "bytes \<Rightarrow> string" where
  "level_text v = percent (v ! 0) @ '' ('' @ dec (unat (v ! 0)) @ ''/255)''"

definition color_text :: "bytes \<Rightarrow> string" where
  "color_text v =
     (case ctl_hs_to_rgb (v ! 0) (v ! 1) of (r, g, b) \<Rightarrow>
        rgb_hex r g b @ '' (hue '' @ dec (unat (v ! 0)) @ '', sat '' @ dec (unat (v ! 1)) @ '')'')"

definition lighting_show :: "'s clackd_proxy \<Rightarrow> string \<Rightarrow> ('s, unit) cli" where
  "lighting_show proxy i =
     andthen (println (i @ '' lighting:'')) (\<lambda>_.
     andthen (show_value proxy i VAL_EFFECT ''  effect:      '' 1
                (\<lambda>v. if v ! 0 = 0 then ''off'' else effect_label (v ! 0))) (\<lambda>_.
     andthen (show_value proxy i VAL_BRIGHTNESS ''  brightness:  '' 1 level_text) (\<lambda>_.
     andthen (show_value proxy i VAL_SPEED ''  speed:       '' 1 level_text) (\<lambda>_.
     show_value proxy i VAL_COLOR ''  colour:      '' 2 color_text))))"

definition set_matrix :: "'s clackd_proxy \<Rightarrow> string \<Rightarrow> u8 \<Rightarrow> bytes \<Rightarrow> string \<Rightarrow> ('s, unit) cli" where
  "set_matrix proxy i val data text =
     andthen (call (px_set_lighting proxy i CH_RGB_MATRIX val data)) (\<lambda>_. println (i @ text))"

fun lighting_on :: "'s clackd_proxy \<Rightarrow> string \<Rightarrow> lighting_action \<Rightarrow> ('s, unit) cli" where
  "lighting_on proxy i Show = lighting_show proxy i"
| "lighting_on proxy i (Brightness level) =
     andthen (lift_res (parse_level level)) (\<lambda>v.
       set_matrix proxy i VAL_BRIGHTNESS [v]
         ('': brightness set to '' @ percent v @ '' ('' @ dec (unat v) @ ''/255)''))"
| "lighting_on proxy i (Speed level) =
     andthen (lift_res (parse_level level)) (\<lambda>v.
       set_matrix proxy i VAL_SPEED [v]
         ('': effect speed set to '' @ percent v @ '' ('' @ dec (unat v) @ ''/255)''))"
| "lighting_on proxy i (Effect effect) =
     andthen (lift_res (parse_effect effect)) (\<lambda>e.
       set_matrix proxy i VAL_EFFECT [e] ('': effect set to '' @ effect_label e))"
| "lighting_on proxy i Off = set_matrix proxy i VAL_EFFECT [0] '': lighting turned off''"
| "lighting_on proxy i (Color color) =
     andthen (lift_res (parse_color color)) (\<lambda>(r, g, b).
       case ctl_rgb_to_hs r g b of (h, s) \<Rightarrow>
         set_matrix proxy i VAL_COLOR [h, s]
           ('': colour set to '' @ rgb_hex r g b @ '' (hue '' @ dec (unat h) @ '', sat '' @ dec (unat s) @ '')''))"
| "lighting_on proxy i Effects = ok ()"
| "lighting_on proxy i (GetRaw channel value_id) =
     andthen (lift_res (parse_u8 channel)) (\<lambda>c.
     andthen (lift_res (parse_u8 value_id)) (\<lambda>v.
     andthen (call (px_get_lighting proxy i c v)) (\<lambda>data. println (to_hex data))))"
| "lighting_on proxy i (SetRaw channel value_id data) =
     andthen (lift_res (parse_u8 channel)) (\<lambda>c.
     andthen (lift_res (parse_u8 value_id)) (\<lambda>v.
     andthen (lift_res (parse_hex_bytes data)) (\<lambda>bs.
     andthen (call (px_set_lighting proxy i c v bs)) (\<lambda>_. println ''ok''))))"

definition cmd_lighting :: "'s clackd_proxy \<Rightarrow> string \<Rightarrow> lighting_action \<Rightarrow> ('s, unit) cli" where
  "cmd_lighting proxy device action =
     (if action = Effects
      then println_all (map (\<lambda>(idx, name). hex2 idx @ ''  '' @ name) EFFECTS @
             [''(names are for the GMK67 family; other keyboards may map ids differently)''])
      else andthen (resolve_device proxy device) (\<lambda>i. lighting_on proxy i action))"

section \<open>Macros\<close>

function chunks :: "nat \<Rightarrow> 'a list \<Rightarrow> 'a list list" where
  "chunks n xs = (if n = 0 \<or> xs = [] then [] else take n xs # chunks n (drop n xs))"
  by pat_completeness auto
termination by (relation "measure (\<lambda>(n, xs). length xs)") auto

declare chunks.simps [simp del]

fun hex :: "nat \<Rightarrow> string" where
  "hex n = (if n < 16 then [hex_digit n] else hex (n div 16) @ [hex_digit (n mod 16)])"

declare hex.simps [simp del]

definition is_printable :: "u8 \<Rightarrow> bool" where
  "is_printable b \<longleftrightarrow> 0x20 \<le> b \<and> b < 0x7F"

definition dump_line :: "u16 \<Rightarrow> nat \<times> bytes \<Rightarrow> string" where
  "dump_line off = (\<lambda>(i, chunk).
     let addr = hex (unat off + i * 16) in
     replicate (4 - length addr) (CHR ''0'') @ addr @ ''  '' @
     pad_right 48 (join '' '' (map (\<lambda>b. hexw 2 (unat b)) chunk)) @ ''  |'' @
     map (\<lambda>b. if is_printable b then char_of (unat b) else CHR ''.'') chunk @ ''|'')"

definition cmd_get_macro :: "'s clackd_proxy \<Rightarrow> string \<Rightarrow> string \<Rightarrow> u8 \<Rightarrow> ('s, unit) cli" where
  "cmd_get_macro proxy device offset len =
     andthen (resolve_device proxy device) (\<lambda>i.
     andthen (lift_res (parse_u16 offset)) (\<lambda>off.
     andthen (call (px_get_macro proxy i off len)) (\<lambda>data.
       println_all (map (dump_line off) (enumerate 0 (chunks 16 data))))))"

definition cmd_set_macro :: "'s clackd_proxy \<Rightarrow> string \<Rightarrow> string \<Rightarrow> string \<Rightarrow> ('s, unit) cli" where
  "cmd_set_macro proxy device offset data =
     andthen (resolve_device proxy device) (\<lambda>i.
     andthen (lift_res (parse_u16 offset)) (\<lambda>off.
     andthen (lift_res (parse_hex_bytes data)) (\<lambda>bs.
     andthen (call (px_set_macro proxy i off bs)) (\<lambda>_.
       println (i @ '': wrote '' @ dec (length bs) @ '' bytes at offset '' @ hex4 off)))))"

section \<open>Monitor\<close>

fun event_line :: "signal_kind \<Rightarrow> string \<Rightarrow> string" where
  "event_line AddedStream d = ''keyboard connected:    '' @ d"
| "event_line RemovedStream d = ''keyboard disconnected: '' @ d"
| "event_line LayoutStream d = ''layout saved:          '' @ d"

fun watch :: "delivery list \<Rightarrow> ('s, unit) cli" where
  "watch [] = ok ()"
| "watch ((k, args) # ds) =
     andthen (lift_res (map_sum Bus id args)) (\<lambda>d.
     andthen (println (event_line k d)) (\<lambda>_. watch ds))"

definition cmd_monitor :: "'s clackd_proxy \<Rightarrow> ('s, unit) cli" where
  "cmd_monitor proxy =
     andthen (call (px_receive_device_added proxy)) (\<lambda>_.
     andthen (call (px_receive_device_removed proxy)) (\<lambda>_.
     andthen (call (px_receive_layout_updated proxy)) (\<lambda>_.
       watch (px_delivered proxy))))"

section \<open>The program\<close>

datatype command =
    List | Info string | Keymap string "u8 option" | Get string u8 u8 u8 | Set string u8 u8 u8 string
  | Keys "string option" | Commit string | Lighting string "lighting_action option"
  | GetMacro string string u8 | SetMacro string string string | Monitor

fun run :: "'s clackd_proxy \<Rightarrow> command \<Rightarrow> ('s, unit) cli" where
  "run proxy List = cmd_list proxy"
| "run proxy (Info device) = cmd_info proxy device"
| "run proxy (Keymap device layer) = cmd_keymap proxy device layer"
| "run proxy (Get device layer row col) = cmd_get proxy device layer row col"
| "run proxy (Set device layer row col key) = cmd_set proxy device layer row col key"
| "run proxy (Keys pattern) = cmd_keys pattern"
| "run proxy (Commit device) = cmd_commit proxy device"
| "run proxy (Lighting device action) = cmd_lighting proxy device (case action of Some a \<Rightarrow> a | None \<Rightarrow> Show)"
| "run proxy (GetMacro device offset len) = cmd_get_macro proxy device offset len"
| "run proxy (SetMacro device offset data) = cmd_set_macro proxy device offset data"
| "run proxy Monitor = cmd_monitor proxy"

text \<open>The exit code and the line on standard error.\<close>

definition exit_of :: "(bus_error \<Rightarrow> string) \<Rightarrow> cli_error + unit \<Rightarrow> bool \<times> string option" where
  "exit_of display r = (case r of
      Inr _ \<Rightarrow> (True, None)
    | Inl e \<Rightarrow> (False, Some (''clackctl: '' @ friendly_error display e)))"

text \<open>The program: connect to the session bus, which may fail whatever the command, run it, and exit.\<close>

definition clackctl_main :: "(bus_error \<Rightarrow> string) \<Rightarrow> bus_error + 's clackd_proxy \<Rightarrow> command \<Rightarrow> 's terminal
    \<Rightarrow> (bool \<times> string option) \<times> 's terminal" where
  "clackctl_main display connection cmd t =
     (case (case connection of Inl e \<Rightarrow> throw (Bus e) t | Inr proxy \<Rightarrow> run proxy cmd t) of
        (r, t') \<Rightarrow> (exit_of display r, t'))"

end
