(* ===== verification/Clackctl_Claims.thy ===== *)
theory Clackctl_Claims
  imports Clackctl
begin

text \<open>
  What the parsers and printers of \<open>clackctl\<close> keep: every keycode has a spelling that \<open>set\<close> takes, bytes and
  percentages survive being printed and parsed, a device argument names one listed device.
\<close>

section \<open>Keycodes\<close>

lemma no_hex_spelling: "list_all (\<lambda>t. take 2 t \<noteq> ''0X'') (concat (map spellings ALL_KEYS))"
  by code_simp

lemma not_a_hex_spelling: "k \<in> set ALL_KEYS \<Longrightarrow> CHR ''0'' # CHR ''X'' # u \<notin> set (spellings k)"
  using no_hex_spelling by (fastforce simp: list_all_iff)

lemma find_none: "(\<And>x. x \<in> set xs \<Longrightarrow> \<not> P x) \<Longrightarrow> find P xs = None"
  by (simp add: find_None_iff)

lemma upper_0x: "ascii_upper (''0x'' @ u) = CHR ''0'' # CHR ''X'' # ascii_upper u"
proof -
  have "to_upper (CHR ''0'') = CHR ''0'' \<and> to_upper (CHR ''x'') = CHR ''X''" by code_simp
  then show ?thesis by (simp add: ascii_upper_def)
qed

lemma ascii_upper_upper [simp]: "ascii_upper (ascii_upper s) = ascii_upper s"
  by (simp add: ascii_upper_def comp_def)

lemma to_upper_dash: "to_upper c = CHR ''-'' \<longleftrightarrow> c = CHR ''-''"
  by (auto simp: to_upper_def chr_code_char_of simp flip: chr_code_inject) (simp_all add: chr_code_def)

lemma hex_text_has_no_dash: "CHR ''-'' \<notin> set (hexw k n)"
  by (auto dest!: hexw_chars simp: hex_digit_def simp flip: chr_code_inject)
     (simp_all add: chr_code_char_of, simp add: chr_code_def split: if_splits)

lemma trim_hex4: "trim (hex4 v) = hex4 v"
  unfolding hex4_def
proof (rule trim_none, rule ballI)
  fix c assume "c \<in> set (''0x'' @ hexw 4 (unat v))"
  then consider "c = CHR ''0''" | "c = CHR ''x''" | "c \<in> set (hexw 4 (unat v))" by auto
  then show "\<not> is_space c"
    by cases (auto dest!: hexw_chars simp: plain_digit, auto simp: is_space_def chr_code_def)
qed

lemma by_name_hex4: "by_name (hex4 v) = None"
proof -
  let ?u = "ascii_upper (hexw 4 (unat v))"
  have up: "ascii_upper (hex4 v) = CHR ''0'' # CHR ''X'' # ?u" by (simp only: hex4_def upper_0x)
  have "CHR ''-'' \<notin> set (CHR ''0'' # CHR ''X'' # ?u)"
    using hex_text_has_no_dash[of 4 "unat v"] by (auto simp: ascii_upper_def) (metis to_upper_dash)
  then have norm: "replace_char [CHR ''-''] (CHR ''_'') (ascii_upper (hex4 v)) = CHR ''0'' # CHR ''X'' # ?u"
    unfolding up by (rule undashed)
  have "\<not> has_alias s k" if "k \<in> set ALL_KEYS" "ascii_upper s = CHR ''0'' # CHR ''X'' # ?u" for s k
    using alias_spelling[of s k] not_a_hex_spelling[OF that(1)] that(2) by auto
  then have none: "find (has_alias s) ALL_KEYS = None" if "ascii_upper s = CHR ''0'' # CHR ''X'' # ?u" for s
    using that by (intro find_none) blast
  have up2: "ascii_upper (CHR ''0'' # CHR ''X'' # ?u) = CHR ''0'' # CHR ''X'' # ?u"
    using ascii_upper_upper[of "hex4 v"] unfolding up .
  have "find (\<lambda>k. drop 3 (key_name k) = CHR ''0'' # CHR ''X'' # ?u \<or> has_alias (CHR ''0'' # CHR ''X'' # ?u) k) ALL_KEYS = None"
  proof (rule find_none)
    fix k assume k: "k \<in> set ALL_KEYS"
    have "drop 3 (key_name k) \<noteq> CHR ''0'' # CHR ''X'' # ?u"
      using not_a_hex_spelling[OF k] by (metis in_spellings)
    moreover have "\<not> has_alias (CHR ''0'' # CHR ''X'' # ?u) k"
      using none[OF up2] k by (auto simp: find_None_iff)
    ultimately show "\<not> (drop 3 (key_name k) = CHR ''0'' # CHR ''X'' # ?u \<or> has_alias (CHR ''0'' # CHR ''X'' # ?u) k)"
      by blast
  qed
  then show ?thesis
    unfolding by_name_def Let_def trim_hex4 none[OF up] norm by (simp add: strip_prefix_def numeral_3_eq_3)
qed

lemma parse_u16_hex4: "parse_u16 (hex4 v) = Inr v"
proof -
  have "from_str_radix 65536 16 (hexw 4 (unat v)) = Some (unat v)"
    using unsigned_less[of v, where 'a = nat] by (subst from_str_radix_hexw) simp_all
  moreover have "strip_prefix ''0x'' (hex4 v) = Some (hexw 4 (unat v))"
    unfolding hex4_def by (rule strip_prefix_append)
  ultimately show ?thesis by (simp add: parse_u16_def parse_radix_def trim_hex4)
qed

lemma names_are_plain:
  "list_all (\<lambda>k. ''KC_'' @ drop 3 (key_name k) = key_name k \<and> trim (key_name k) = key_name k
     \<and> replace_char [CHR ''-''] (CHR ''_'') (ascii_upper (key_name k)) = key_name k
     \<and> drop 3 (key_name k) \<noteq> ''-'') ALL_KEYS"
  by code_simp

lemma parse_key_name:
  assumes "k \<in> set ALL_KEYS"
  shows "parse_key (key_name k) = Inr (key_code k)"
proof -
  have "by_name (key_name k) = Some (key_code k)"
    using names_are_plain assms
    by (intro by_name_dashed[of _ "drop 3 (key_name k)"]) (auto simp: in_spellings list_all_iff)
  then show ?thesis by (simp add: parse_key_def)
qed

text \<open>Every keycode can be typed back: the hexadecimal form that the client prints for any code, and the
  name it prints for a code of the table, are parsed to that code.\<close>

theorem printed_keys_parse_back:
  "parse_key (hex4 v) = Inr v \<and> (case by_code v of Some k \<Rightarrow> parse_key (key_name k) = Inr v | None \<Rightarrow> True)"
proof -
  have "key_code k = v \<and> k \<in> set ALL_KEYS" if "by_code v = Some k" for k
    using that by (auto simp: by_code_def find_Some_iff)
  moreover have "parse_key (hex4 v) = Inr v"
    by (simp add: parse_key_def by_name_hex4 parse_u16_hex4 map_err_def)
  ultimately show ?thesis by (auto simp: parse_key_name split: option.split)
qed

section \<open>Bytes\<close>

lemma from_str_radix_pair: "n < 256 \<Longrightarrow> from_str_radix 256 16 (hexw 2 n) = Some n"
  by (subst from_str_radix_hexw) simp_all

lemma hexw_two: "hexw 2 n = [hex_digit (n div 16 mod 16), hex_digit (n mod 16)]"
  by (simp add: numeral_2_eq_2)

lemma hex_pairs_printed: "hex_pairs s i (concat (map (\<lambda>b. hexw 2 (unat b)) data)) = Inr data"
proof (induction data arbitrary: i)
  case (Cons b data)
  have "unat b < 256" using unsigned_less[of b, where 'a = nat] by simp
  from from_str_radix_pair[OF this] Cons show ?case by (simp add: hexw_two)
qed simp

lemma hex_digit_plain: "n < 16 \<Longrightarrow> hex_digit n \<noteq> CHR ''x'' \<and> hex_digit n \<noteq> CHR ''X'' \<and> hex_digit n \<noteq> CHR '' ''"
  by (auto simp: hex_digit_def simp flip: chr_code_inject) (simp_all add: chr_code_char_of, auto simp: chr_code_def split: if_splits)

lemma take_two_mem: "take 2 s = [a, b] \<Longrightarrow> b \<in> set s"
  by (rule in_set_takeD[of _ 2]) simp

lemma no_prefix_in_hex:
  assumes "CHR ''x'' \<notin> set s" and "CHR ''X'' \<notin> set s"
  shows "strip_prefix ''0x'' s = None" "strip_prefix ''0X'' s = None"
  using assms take_two_mem[of s "CHR ''0''"] by (auto simp: strip_prefix_def numeral_2_eq_2)

lemma parse_hex_plain:
  assumes "CHR ''x'' \<notin> set s" and "CHR ''X'' \<notin> set s" and "trim s = s" and "even (length s)"
  shows "parse_hex_bytes s = hex_pairs s 0 s"
  using assms by (simp add: parse_hex_bytes_def Let_def no_prefix_in_hex)

lemma printed_char: "c \<in> set (hexw 2 n) \<Longrightarrow> c \<noteq> CHR ''x'' \<and> c \<noteq> CHR ''X'' \<and> c \<noteq> CHR '' '' \<and> \<not> is_space c"
  by (auto dest!: hexw_chars simp: hex_digit_plain plain_digit)

lemma to_hex_Cons:
  "to_hex [b] = hexw 2 (unat b)"
  "to_hex (b # c # bs) = hexw 2 (unat b) @ CHR '' '' # to_hex (c # bs)"
  by (simp_all add: to_hex_def)

lemma length_to_hex: "data \<noteq> [] \<Longrightarrow> length (to_hex data) + 1 = 3 * length data"
proof (induction data)
  case (Cons b data)
  then show ?case by (cases data) (auto simp: to_hex_Cons)
qed simp

lemma to_hex_Nil_iff [simp]: "to_hex data = [] \<longleftrightarrow> data = []"
  using length_to_hex[of data] by (cases data) (auto simp: to_hex_def)

lemma set_to_hex: "c \<in> set (to_hex data) \<Longrightarrow> c = CHR '' '' \<or> (\<exists>n. c \<in> set (hexw 2 n))"
proof (induction data)
  case (Cons b data)
  then show ?case by (cases data) (auto simp: to_hex_Cons)
qed (simp add: to_hex_def)

lemma space_is_no_digit: "from_str_radix bound 16 [CHR '' '', c] = None"
proof -
  have "digit_val 16 (CHR '' '') = None" by (simp add: digit_val_def chr_code_def)
  then show ?thesis by (simp add: from_str_radix_def)
qed

lemma trim_ends:
  assumes "s \<noteq> []" and "\<not> is_space (hd s)" and "\<not> is_space (last s)"
  shows "trim s = s"
proof -
  have "dropWhile is_space s = s" using assms by (cases s) simp_all
  moreover have "dropWhile is_space (rev s) = rev s" using assms by (cases "rev s") (simp_all add: last_rev flip: hd_rev)
  ultimately show ?thesis by (simp add: trim_def)
qed

lemma trim_to_hex: "trim (to_hex data) = to_hex data"
proof (cases "data = []")
  case False
  have "hd (to_hex data) \<in> set (hexw 2 (unat (hd data)))"
    using False by (cases data; cases "tl data") (auto simp: to_hex_Cons hexw_two)
  moreover have "last (to_hex data) \<in> set (hexw 2 (unat (last data)))"
    using False
  proof (induction data)
    case (Cons b data)
    then show ?case by (cases data) (auto simp: to_hex_Cons hexw_two)
  qed simp
  moreover have "to_hex data \<noteq> []" using False by simp
  ultimately show ?thesis by (intro trim_ends) (auto dest: printed_char)
qed (simp add: to_hex_def trim_def)

text \<open>C19. Bytes given in hexadecimal digits arrive as those bytes, with or without the \<open>0x\<close> in front; what
  \<open>lighting get-raw\<close> prints is taken back by \<open>set-raw\<close> only for at most one byte, because the client
  separates the bytes it prints and refuses separators in what it reads.\<close>

theorem hex_bytes_roundtrip:
  "parse_hex_bytes (concat (map (\<lambda>b. hexw 2 (unat b)) data)) = Inr data
    \<and> parse_hex_bytes (''0x'' @ concat (map (\<lambda>b. hexw 2 (unat b)) data)) = Inr data
    \<and> (is_ok (parse_hex_bytes (to_hex data)) \<longleftrightarrow> length data \<le> 1)"
proof -
  let ?s = "concat (map (\<lambda>b. hexw 2 (unat b)) data)"
  have even: "even (length ?s)" by (induction data) simp_all
  have chars: "\<forall>c \<in> set ?s. c \<noteq> CHR ''x'' \<and> c \<noteq> CHR ''X'' \<and> \<not> is_space c"
    using printed_char by fastforce
  then have "trim ?s = ?s" by (intro trim_none) blast
  with chars even have plain: "parse_hex_bytes ?s = Inr data"
    by (subst parse_hex_plain) (auto simp: hex_pairs_printed)
  have sp: "\<not> is_space c" if "c \<in> set (''0x'' @ ?s)" for c
  proof -
    have "\<not> is_space (CHR ''0'') \<and> \<not> is_space (CHR ''x'')" by code_simp
    with that chars show ?thesis by auto
  qed
  then have "trim (''0x'' @ ?s) = ''0x'' @ ?s" by (intro trim_none) blast
  then have prefixed: "parse_hex_bytes (''0x'' @ ?s) = Inr data"
    using even by (simp only: parse_hex_bytes_def Let_def strip_prefix_append) (simp add: hex_pairs_printed)
  have "is_ok (parse_hex_bytes (to_hex data)) \<longleftrightarrow> length data \<le> 1"
  proof -
    consider "data = []" | b where "data = [b]" | b c bs where "data = b # c # bs"
      by (metis list.exhaust)
    then show ?thesis
    proof cases
      case 1
      then show ?thesis by (simp add: to_hex_def parse_hex_bytes_def trim_def strip_prefix_def)
    next
      case 2
      with plain show ?thesis by (simp add: to_hex_Cons)
    next
      case 3
      have x: "CHR ''x'' \<notin> set (to_hex data)" "CHR ''X'' \<notin> set (to_hex data)"
        by (auto dest!: set_to_hex printed_char)
      show ?thesis
      proof (cases "even (length (to_hex data))")
        case True
        obtain d u where "to_hex (c # bs) = d # u"
          using length_to_hex[of "c # bs"] by (cases "to_hex (c # bs)") auto
        then have "to_hex data = hexw 2 (unat b) @ CHR '' '' # d # u"
          using 3 by (simp add: to_hex_Cons)
        with x True trim_to_hex[of data] 3 show ?thesis
          by (subst parse_hex_plain) (auto simp: hexw_two space_is_no_digit split: option.split)
      next
        case False
        with x trim_to_hex[of data] 3 show ?thesis
          by (simp add: parse_hex_bytes_def Let_def no_prefix_in_hex)
      qed
    qed
  qed
  with plain prefixed show ?thesis by blast
qed

section \<open>Percentages\<close>

lemma level_of_percent:
  assumes "p \<le> 100"
  shows "unat (ucast (((of_nat p :: u16) * 255 + 50) div 100) :: u8) = (p * 255 + 50) div 100"
proof -
  have p: "unat (of_nat p :: u16) = p" using assms by (simp add: unat_of_nat)
  have "unat ((of_nat p :: u16) * 255 + 50) = p * 255 + 50"
    using assms by (subst unat_u16_add; subst unat_u16_mult; simp add: p)
  then have "unat (((of_nat p :: u16) * 255 + 50) div 100) = (p * 255 + 50) div 100"
    by (simp add: unat_div_distrib)
  moreover have "(p * 255 + 50) div 100 < 256" using assms by simp
  ultimately show ?thesis by (simp add: unat_u8_of_u16)
qed

lemma percent_of_level: "percent v = dec ((unat v * 100 + 127) div 255) @ ''%''"
proof -
  have "unat ((ucast v :: u16) * 100 + 127) = unat v * 100 + 127"
    using unat_u8_less[of v] by (subst unat_u16_add; subst unat_u16_mult; simp)
  then show ?thesis by (simp add: percent_def unat_div_distrib)
qed

lemma trim_percent: "trim (dec p @ ''%'') = dec p @ ''%''"
proof (rule trim_none, rule ballI)
  fix c assume "c \<in> set (dec p @ ''%'')"
  moreover have "\<not> is_space (CHR ''%'')" by code_simp
  ultimately show "\<not> is_space c" by (auto dest!: dec_chars simp: plain_digit)
qed

text \<open>A percentage given for brightness or speed is accepted exactly up to 100, fills the range 0 to 255
  in order, and is the percentage that is reported for the value it sets.\<close>

theorem percentage_roundtrip:
  "(p \<le> 100 \<longrightarrow> (\<exists>v. parse_level (dec p @ ''%'') = Inr v \<and> unat v = (p * 255 + 50) div 100 \<and> percent v = dec p @ ''%''))
    \<and> (100 < p \<longrightarrow> \<not> is_ok (parse_level (dec p @ ''%'')))"
proof -
  have parsed: "from_str_radix 65536 10 (trim (dec p)) = (if p < 65536 then Some p else None)"
    by (simp add: trim_dec from_str_radix_dec)
  have "percent (ucast (((of_nat p :: u16) * 255 + 50) div 100)) = dec p @ ''%''" if "p \<le> 100"
  proof -
    have "100 * ((p * 255 + 50) div 100) \<le> p * 255 + 50"
      and "p * 255 + 50 < 100 * ((p * 255 + 50) div 100) + 100"
      using div_mult_mod_eq[of "p * 255 + 50" 100] mod_less_divisor[of 100 "p * 255 + 50"] by linarith+
    then have "((p * 255 + 50) div 100 * 100 + 127) div 255 = p"
      by (intro div_nat_eqI) (simp_all add: algebra_simps)
    then show ?thesis using level_of_percent[OF that] by (simp add: percent_of_level)
  qed
  then show ?thesis
    using level_of_percent[of p] by (auto simp: parse_level_def Let_def trim_percent parsed)
qed

theorem percentage_roundtrip_witness:
  "(\<exists>v. parse_level (dec 50 @ ''%'') = Inr v \<and> unat v = 128 \<and> percent v = dec 50 @ ''%'')
    \<and> \<not> is_ok (parse_level (dec 101 @ ''%''))"
  using percentage_roundtrip[of 50] percentage_roundtrip[of 101] by simp

section \<open>Devices\<close>

lemma for_each_keeps:
  assumes "\<And>x s. P s \<Longrightarrow> \<exists>s'. f x s = (Inr (g x), s') \<and> P s'" and "P s"
  shows "\<exists>s'. for_each xs f s = (Inr (map g xs), s') \<and> P s'"
  using assms(2)
proof (induction xs arbitrary: s)
  case (Cons x xs)
  from assms(1)[OF Cons.prems] obtain s1 where s1: "f x s = (Inr (g x), s1)" "P s1" by blast
  from Cons.IH[OF s1(2)] s1 show ?case by (auto simp: andthen_def ok_def)
qed (simp add: ok_def)

lemma call_Inr: "m (tm_bus t) = (Inr x, s) \<Longrightarrow> call m t = (Inr x, t\<lparr>tm_bus := s\<rparr>)"
  by (simp add: call_def try_call_def andthen_def lift_res_def)

definition spec_in :: "string \<Rightarrow> string \<Rightarrow> string \<Rightarrow> bool" where
  "spec_in spec i name \<longleftrightarrow> (\<exists>a b. ascii_lower i = a @ ascii_lower spec @ b) \<or> (\<exists>a b. ascii_lower name = a @ ascii_lower spec @ b)"

text \<open>The resolution as a function of the listed devices and of what the identity calls answer.\<close>

definition resolution :: "string list \<Rightarrow> (string \<Rightarrow> bus_error + (u16 \<times> u16 \<times> string)) \<Rightarrow> string \<Rightarrow> cli_error + string" where
  "resolution devs ident spec =
    (if spec \<in> set devs then Inr spec
     else case Option.bind (from_str_radix (2 ^ 64) 10 spec) (nth_opt devs) of
         Some i \<Rightarrow> Inr i
       | None \<Rightarrow> (case filter (\<lambda>i. spec_in spec i (case ident i of Inr (_, _, n) \<Rightarrow> n | Inl _ \<Rightarrow> [])) devs of
           [d] \<Rightarrow> Inr d
         | [] \<Rightarrow> Inl (Msg (''no keyboard matching '' @ [CHR 0x27] @ spec @ [CHR 0x27] @ '' (available: '' @
               (if devs = [] then ''none connected'' else join '', '' devs) @ '')''))
         | many \<Rightarrow> Inl (Msg ([CHR 0x27] @ spec @ [CHR 0x27] @ '' matches several keyboards: '' @
               join '', '' many @ '' '' @ EM_DASH @ '' be more specific''))))"

lemma resolve_device_when_listed:
  assumes "px_list_devices proxy (tm_bus t) = (Inr devs, s)" and "stays s"
    and "\<And>i u. stays u \<Longrightarrow> \<exists>u'. px_get_device_identity proxy i u = (ident i, u') \<and> stays u'"
  shows "fst (resolve_device proxy spec t) = resolution devs ident spec"
proof -
  let ?hit = "\<lambda>i. spec_in spec i (case ident i of Inr (_, _, n) \<Rightarrow> n | Inl _ \<Rightarrow> [])"
  have round: "\<exists>t'. name_matches proxy (ascii_lower spec) i t = (Inr (if ?hit i then [i] else []), t') \<and> stays (tm_bus t')"
    if stays: "stays (tm_bus t)" for i t
  proof -
    from assms(3)[OF stays] obtain u where u: "px_get_device_identity proxy i (tm_bus t) = (ident i, u)" "stays u" by blast
    then show ?thesis
      by (simp add: name_matches_def try_call_def andthen_def ok_def contains_iff spec_in_def Let_def)
  qed
  from assms(2) have "stays (tm_bus (t\<lparr>tm_bus := s\<rparr>))" by simp
  from for_each_keeps[where P = "\<lambda>t. stays (tm_bus t)" and xs = devs and f = "name_matches proxy (ascii_lower spec)"
      and g = "\<lambda>i. if ?hit i then [i] else []", OF round this]
  obtain t' where loop: "for_each devs (name_matches proxy (ascii_lower spec)) (t\<lparr>tm_bus := s\<rparr>)
      = (Inr (map (\<lambda>i. if ?hit i then [i] else []) devs), t')" by blast
  moreover have "concat (map (\<lambda>i. if ?hit i then [i] else []) devs) = filter ?hit devs"
    by (induction devs) simp_all
  ultimately show ?thesis
    by (simp add: resolve_device_def call_Inr[where m = "px_list_devices proxy", OF assms(1)] andthen_def ok_def throw_def
        resolution_def split: option.split list.split)
qed

text \<open>C21. A device argument names at most one keyboard: the listed id itself; else the keyboard at the printed
  index, when the argument is a number below the number of keyboards; else, a larger number included, the only
  keyboard whose id or product name contains the argument in any case, and none when there is no such keyboard
  or several. A list index in decimal is understood unless a keyboard has that very id.\<close>

definition spec_matches :: "string list \<Rightarrow> (string \<Rightarrow> bus_error + (u16 \<times> u16 \<times> string)) \<Rightarrow> string \<Rightarrow> string list" where
  "spec_matches devs ident spec =
     filter (\<lambda>i. spec_in spec i (case ident i of Inr (_, _, n) \<Rightarrow> n | Inl _ \<Rightarrow> [])) devs"

theorem resolve_device_names_one:
  assumes "px_list_devices proxy (tm_bus t) = (Inr devs, s)"
    and "stays s" and "\<And>i u. stays u \<Longrightarrow> \<exists>u'. px_get_device_identity proxy i u = (ident i, u') \<and> stays u'"
  shows "(fst (resolve_device proxy spec t) = Inr d \<longrightarrow> d \<in> set devs)
    \<and> (fst (resolve_device proxy spec t) = Inr d \<longleftrightarrow>
         (if spec \<in> set devs then d = spec
          else if \<exists>n < length devs. from_str_radix (2 ^ 64) 10 spec = Some n
          then d = devs ! the (from_str_radix (2 ^ 64) 10 spec)
          else spec_matches devs ident spec = [d]))
    \<and> (n < 2 ^ 64 \<and> dec n \<notin> set devs \<longrightarrow> (fst (resolve_device proxy (dec n) t) = Inr d \<longleftrightarrow>
         (if n < length devs then d = devs ! n else spec_matches devs ident (dec n) = [d])))"
proof -
  have hits: "set (spec_matches devs ident spec) \<subseteq> set devs" for spec by (auto simp: spec_matches_def)
  have resolved: "fst (resolve_device proxy spec t) = Inr d \<longleftrightarrow>
         (if spec \<in> set devs then d = spec
          else if \<exists>n < length devs. from_str_radix (2 ^ 64) 10 spec = Some n
          then d = devs ! the (from_str_radix (2 ^ 64) 10 spec)
          else spec_matches devs ident spec = [d])" for spec
    using resolve_device_when_listed[OF assms, of spec, unfolded resolution_def, folded spec_matches_def]
    by (cases "from_str_radix (2 ^ 64) 10 spec") (auto simp: nth_opt_def split: list.split)
  moreover have "d \<in> set devs" if "fst (resolve_device proxy spec t) = Inr d"
    using that hits[of spec] unfolding resolved by (auto split: if_splits)
  ultimately show ?thesis by (auto simp: from_str_radix_dec)
qed

definition two_boards :: "unit clackd_proxy" where
  "two_boards =
     \<lparr>px_list_devices = (\<lambda>s. (Inr [''hidraw0'', ''hidraw3''], s)),
      px_get_device_info = (\<lambda>i s. (Inr (''VIA'', 5, 14, 4), s)),
      px_get_device_identity = (\<lambda>i s. (Inr (1, 2, if i = ''hidraw3'' then ''Epomaker EK68'' else []), s)),
      px_get_keycode = (\<lambda>i l r c s. (Inr 4, s)),
      px_set_keycode = (\<lambda>i l r c k s. (Inr (), s)),
      px_commit = (\<lambda>i s. (Inr (), s)),
      px_get_macro = (\<lambda>i off len s. (Inr [], s)),
      px_set_macro = (\<lambda>i off data s. (Inr (), s)),
      px_get_lighting = (\<lambda>i ch v s. (Inr [], s)),
      px_set_lighting = (\<lambda>i ch v data s. (Inr (), s)),
      px_receive_device_added = ok (), px_receive_device_removed = ok (), px_receive_layout_updated = ok (),
      px_delivered = [], px_display = (\<lambda>_. [])\<rparr>"

theorem resolve_device_names_one_witness:
  "fst (resolve_device two_boards ''EK68'' \<lparr>tm_bus = (), tm_out = []\<rparr>) = Inr ''hidraw3''
    \<and> fst (resolve_device two_boards (dec 1) \<lparr>tm_bus = (), tm_out = []\<rparr>) = Inr ''hidraw3''"
proof -
  let ?ident = "\<lambda>i. Inr (1, 2, if i = ''hidraw3'' then ''Epomaker EK68'' else []) :: bus_error + (u16 \<times> u16 \<times> string)"
  have listed: "px_list_devices two_boards (tm_bus \<lparr>tm_bus = (), tm_out = []\<rparr>) = (Inr [''hidraw0'', ''hidraw3''], ())"
    and idents: "\<exists>u'. px_get_device_identity two_boards i u = (?ident i, u') \<and> True" for i u
    by (simp_all add: two_boards_def)
  have one: "dec 1 = ''1''" by code_simp
  have "spec_in ''EK68'' ''hidraw3'' ''Epomaker EK68''" "\<not> spec_in ''EK68'' ''hidraw0'' []"
    unfolding spec_in_def contains_iff[symmetric] by code_simp+
  then have hit: "spec_matches [''hidraw0'', ''hidraw3''] ?ident ''EK68'' = [''hidraw3'']" by (simp add: spec_matches_def)
  have word: "from_str_radix (2 ^ 64) 10 ''EK68'' = None"
    by (simp add: from_str_radix_def digit_val_def chr_code_def)
  have n: "''EK68'' \<notin> set [''hidraw0'', ''hidraw3'']" "dec 1 \<notin> set [''hidraw0'', ''hidraw3'']"
    unfolding one by simp_all
  show ?thesis
    using resolve_device_names_one[where stays = "\<lambda>_. True", OF listed TrueI idents, of "''EK68''" "''hidraw3''" 1] hit word n by simp
qed

end
