(* ===== verification/Ipc_Claims.thy ===== *)
theory Ipc_Claims
  imports Ipc Engine_Types Clackctl_Claims "HOL-Library.Sublist"
begin

text \<open>
  What reaches a client: the signals are the announced events in order, without those that were skipped when
  the pump fell behind and those that could not be emitted, and every error of the daemon arrives at \<open>clackctl\<close> as its own sentence.
\<close>

section \<open>Signals\<close>

text \<open>What became of an event that the pump has received.\<close>

datatype fate = Emitted | EmissionFailed | Skipped | Awaited

definition with_fate :: "fate \<Rightarrow> lifecycle_event list \<Rightarrow> fate list \<Rightarrow> signal list" where
  "with_fate f sent fates = map (signal_of \<circ> fst) (filter (\<lambda>x. snd x = f) (zip sent fates))"

lemma with_fate_later:
  "length fates \<le> length sent \<Longrightarrow> with_fate f (sent @ evs) fates = with_fate f sent fates"
  by (simp add: with_fate_def zip_append1)

lemma zip_taken [simp]: "zip (take (length ys) xs) ys = zip xs ys"
  using take_zip[of "length ys" xs ys] by simp

lemma count_replicate [simp]: "count_list (replicate n x) y = (if x = y then n else 0)"
  by (induction n) auto

lemma with_fate_snoc:
  assumes "length fates < length sent"
  shows "with_fate f sent (fates @ [g]) = with_fate f sent fates @ (if g = f then [signal_of (sent ! length fates)] else [])"
  using assms by (simp add: with_fate_def zip_append2 flip: Cons_nth_drop_Suc)

lemma with_fate_skipped: "with_fate Emitted sent (fates @ replicate n Skipped) = with_fate Emitted sent fates"
proof -
  have "filter (\<lambda>x. snd x = Emitted) (zip xs (replicate n Skipped)) = []" for xs :: "lifecycle_event list"
    by (auto simp: filter_empty_conv dest: set_zip_rightD)
  then show ?thesis by (simp add: with_fate_def zip_append2)
qed

definition pump_inv :: "nat \<Rightarrow> lifecycle_event list \<times> bool \<times> pump \<Rightarrow> fate list \<Rightarrow> bool" where
  "pump_inv capacity = (\<lambda>(sent, closed, p) fates.
     length fates = pu_pos p \<and> pu_pos p \<le> length sent
     \<and> pu_signals p = with_fate Emitted sent fates
     \<and> pu_failed p = count_list fates EmissionFailed \<and> pu_skipped p = count_list fates Skipped
     \<and> (\<forall>i < length fates. fates ! i = Skipped \<longrightarrow> i + capacity < length sent)
     \<and> (case pu_emitting p of None \<Rightarrow> Awaited \<notin> set fates
        | Some sig \<Rightarrow> pu_state p \<noteq> Drained \<and> (\<exists>before. fates = before @ [Awaited] \<and> Awaited \<notin> set before
             \<and> sig = signal_of (sent ! length before)))
     \<and> (pu_state p = Drained \<longrightarrow> closed \<and> pu_pos p = length sent))"

lemma pump_inv_announce:
  assumes "pump_inv capacity (sent, False, p) fates"
  shows "pump_inv capacity (sent @ [ev], False, p) fates"
  using assms by (auto simp: pump_inv_def with_fate_later nth_append split: option.splits)

lemma pump_inv_round:
  assumes "pump_inv capacity (sent, closed, p) fates" and "pu_state p = Pumping" and "pu_emitting p = None"
    and "broadcast_recv capacity sent closed (pu_pos p) = Some x"
  shows "\<exists>fates. pump_inv capacity (sent, closed, signal_pump x p) fates"
proof -
  consider "capacity < length sent - pu_pos p" "x = (Lagged (length sent - pu_pos p - capacity), length sent - capacity)"
    | "pu_pos p < length sent" "x = (Event (sent ! pu_pos p), pu_pos p + 1)"
    | "pu_pos p \<ge> length sent" "closed" "x = (ChannelClosed, pu_pos p)"
    using assms(4) by (auto simp: broadcast_recv_def split: if_splits)
  then show ?thesis
  proof cases
    case 1
    have "pump_inv capacity (sent, closed, signal_pump x p) (fates @ replicate (length sent - pu_pos p - capacity) Skipped)"
      using 1 assms(1-3) by (auto simp: pump_inv_def signal_pump_def with_fate_skipped nth_append count_list_0_iff)
    then show ?thesis by blast
  next
    case 2
    have "pump_inv capacity (sent, closed, signal_pump x p) (fates @ [Awaited])"
      using 2 assms(1-3) by (auto simp: pump_inv_def signal_pump_def with_fate_snoc nth_append)
    then show ?thesis by blast
  next
    case 3
    with assms(1-3) have "pump_inv capacity (sent, closed, signal_pump x p) fates"
      by (auto simp: pump_inv_def signal_pump_def)
    then show ?thesis by blast
  qed
qed

lemma pump_inv_emit:
  assumes "pump_inv capacity (sent, closed, p) fates" and "pu_state p = Pumping" and "pu_emitting p = Some sig"
  shows "\<exists>fates. pump_inv capacity (sent, closed, signal_returned emitted sig p) fates"
proof -
  from assms obtain before where before: "fates = before @ [Awaited]" "Awaited \<notin> set before"
    "sig = signal_of (sent ! length before)" by (auto simp: pump_inv_def)
  then have "pump_inv capacity (sent, closed, signal_returned emitted sig p) (before @ [if emitted then Emitted else EmissionFailed])"
    using assms by (auto simp: pump_inv_def signal_returned_def with_fate_snoc nth_append split: if_splits)
  then show ?thesis by blast
qed

lemma pump_inv_run: "pump_run capacity s \<Longrightarrow> \<exists>fates. pump_inv capacity s fates"
proof (induction rule: pump_run.induct)
  case pump_init
  show ?case by (intro exI[of _ "[]"]) (simp add: pump_inv_def pump_start_def with_fate_def)
next
  case (pump_more s s')
  then obtain fates where inv: "pump_inv capacity s fates" by blast
  from pump_more.hyps(2) show ?case
  proof cases
    case (pump_announce sent p ev)
    with pump_inv_announce inv show ?thesis by blast
  next
    case (pump_close sent p)
    with inv have "pump_inv capacity s' fates" by (auto simp: pump_inv_def split: option.splits)
    then show ?thesis by blast
  next
    case (pump_round p sent closed x)
    with pump_inv_round inv show ?thesis by blast
  next
    case (pump_emit p sig sent closed emitted)
    with pump_inv_emit inv show ?thesis by blast
  next
    case (pump_abort p sent closed)
    with inv have "pump_inv capacity s' fates" by (auto simp: pump_inv_def split: option.splits)
    then show ?thesis by blast
  qed
qed

text \<open>A signal as \<open>clackctl monitor\<close> gets it: the stream it comes through and the device it names.\<close>

fun signal_stream :: "signal \<Rightarrow> signal_kind" where
  "signal_stream (DeviceAddedSignal d) = AddedStream"
| "signal_stream (DeviceRemovedSignal d) = RemovedStream"
| "signal_stream (LayoutUpdatedSignal d) = LayoutStream"

fun signal_device :: "signal \<Rightarrow> string" where
  "signal_device (DeviceAddedSignal d) = d"
| "signal_device (DeviceRemovedSignal d) = d"
| "signal_device (LayoutUpdatedSignal d) = d"

fun signal_from :: "signal_kind \<Rightarrow> string \<Rightarrow> signal" where
  "signal_from AddedStream d = DeviceAddedSignal d"
| "signal_from RemovedStream d = DeviceRemovedSignal d"
| "signal_from LayoutStream d = LayoutUpdatedSignal d"

lemma signal_parts [simp]:
  "signal_stream (signal_from k d) = k" "signal_device (signal_from k d) = d"
  "signal_from (signal_stream x) (signal_device x) = x"
  by (cases k; simp)+ (cases x; simp)

definition signal_line :: "signal \<Rightarrow> string" where
  "signal_line x = event_line (signal_stream x) (signal_device x)"

text \<open>Each stream hands over its signals in the order they were emitted; how \<open>select!\<close> interleaves the three
  is left open.\<close>

definition delivers :: "signal list \<Rightarrow> delivery list \<Rightarrow> bool" where
  "delivers sigs ds \<longleftrightarrow> (\<forall>k. map snd (filter (\<lambda>d. fst d = k) ds)
     = map (\<lambda>x. Inr (signal_device x)) (filter (\<lambda>x. signal_stream x = k) sigs))"

lemma delivers_signals:
  assumes "delivers sigs ds"
  obtains shown where "ds = map (\<lambda>x. (signal_stream x, Inr (signal_device x))) shown"
    and "\<forall>k. filter (\<lambda>x. signal_stream x = k) shown = filter (\<lambda>x. signal_stream x = k) sigs"
proof -
  let ?kth = "\<lambda>k. filter (\<lambda>x. signal_stream x = k)"
  define shown where "shown = map (\<lambda>d. signal_from (fst d) (projr (snd d))) ds"
  have "\<exists>dev. snd d = Inr dev" if "d \<in> set ds" for d
  proof -
    from that have "snd d \<in> set (map snd (filter (\<lambda>c. fst c = fst d) ds))" by simp
    also have "\<dots> = set (map (\<lambda>x. Inr (signal_device x)) (?kth (fst d) sigs))"
      using assms by (simp only: delivers_def)
    finally show ?thesis by auto
  qed
  then have "map (\<lambda>d. (fst d, Inr (projr (snd d)))) ds = ds"
    by (intro map_idI) (metis prod.collapse sum.sel(2))
  then have ds: "ds = map (\<lambda>x. (signal_stream x, Inr (signal_device x))) shown"
    by (simp add: shown_def comp_def)
  have "?kth k shown = ?kth k sigs" for k
  proof -
    have "map snd (filter (\<lambda>d. fst d = k) ds) = map (\<lambda>x. Inr (signal_device x)) (?kth k sigs)"
      using assms by (simp only: delivers_def)
    then have "map (\<lambda>x. Inr (signal_device x) :: bus_error + string) (?kth k shown)
        = map (\<lambda>x. Inr (signal_device x)) (?kth k sigs)"
      by (simp add: ds filter_map comp_def)
    moreover have "inj_on (\<lambda>x. Inr (signal_device x) :: bus_error + string) (set (?kth k shown) \<union> set (?kth k sigs))"
    proof (rule inj_onI)
      fix x y
      assume "x \<in> set (?kth k shown) \<union> set (?kth k sigs)" "y \<in> set (?kth k shown) \<union> set (?kth k sigs)"
        and "(Inr (signal_device x) :: bus_error + string) = Inr (signal_device y)"
      then show "x = y" by (auto dest: arg_cong[where f = "signal_from k"]) (metis signal_parts(3))+
    qed
    ultimately show ?thesis by (rule map_inj_on)
  qed
  with ds that show thesis by blast
qed

lemma watch_shown:
  "watch (map (\<lambda>x. (signal_stream x, Inr (signal_device x))) shown) t
    = (Inr (), t\<lparr>tm_out := tm_out t @ map signal_line shown\<rparr>)"
  by (induction shown arbitrary: t) (simp_all add: andthen_def ok_def lift_res_def println_def signal_line_def)

definition subscribes :: "'s clackd_proxy \<Rightarrow> bool" where
  "subscribes proxy \<longleftrightarrow> (\<forall>s. \<exists>s'. px_receive_device_added proxy s = (Inr (), s'))
     \<and> (\<forall>s. \<exists>s'. px_receive_device_removed proxy s = (Inr (), s'))
     \<and> (\<forall>s. \<exists>s'. px_receive_layout_updated proxy s = (Inr (), s'))"

lemma monitor_prints:
  assumes "subscribes proxy"
    and "px_delivered proxy = map (\<lambda>x. (signal_stream x, Inr (signal_device x))) shown"
  shows "\<exists>s. cmd_monitor proxy t = (Inr (), t\<lparr>tm_bus := s, tm_out := tm_out t @ map signal_line shown\<rparr>)"
proof -
  obtain s1 s2 s3 where subs: "px_receive_device_added proxy (tm_bus t) = (Inr (), s1)"
    "px_receive_device_removed proxy s1 = (Inr (), s2)" "px_receive_layout_updated proxy s2 = (Inr (), s3)"
    using assms(1) unfolding subscribes_def by blast
  have "call (px_receive_device_added proxy) t = (Inr (), t\<lparr>tm_bus := s1\<rparr>)"
    by (rule call_Inr[where m = "px_receive_device_added proxy"]) (rule subs(1))
  moreover have "call (px_receive_device_removed proxy) (t\<lparr>tm_bus := s1\<rparr>) = (Inr (), t\<lparr>tm_bus := s2\<rparr>)"
    using call_Inr[where m = "px_receive_device_removed proxy" and t = "t\<lparr>tm_bus := s1\<rparr>"] subs(2) by simp
  moreover have "call (px_receive_layout_updated proxy) (t\<lparr>tm_bus := s2\<rparr>) = (Inr (), t\<lparr>tm_bus := s3\<rparr>)"
    using call_Inr[where m = "px_receive_layout_updated proxy" and t = "t\<lparr>tm_bus := s2\<rparr>"] subs(3) by simp
  ultimately show ?thesis by (intro exI[of _ s3]) (simp add: cmd_monitor_def andthen_def assms(2) watch_shown)
qed

text \<open>C12. Events reach the user, or it is known why not. The pump takes the announced events in their order, and
  each of those it has taken was emitted as its signal, or its emission failed and was counted, or it was
  skipped and counted, which happens only to an event with more than 64 behind it, or it is the last one
  taken, whose emission is not over or was cut off by the abort of the task. The signals on the bus are
  exactly those of the emitted events, in the order of the events. A pump that has drained its channel has
  taken all the events and awaits none. A \<open>clackctl monitor\<close> that listens prints one line for each signal,
  with the lines of one kind in the order of the events; the order between a connection and a
  disconnection is not kept.\<close>

theorem signals_follow_the_events:
  assumes "pump_run LIFECYCLE_CHANNEL_CAPACITY (sent, closed, p)"
    and "subscribes proxy" and "delivers (pu_signals p) (px_delivered proxy)"
  shows "(\<exists>fates. length fates = pu_pos p \<and> length fates \<le> length sent
      \<and> pu_signals p = map (signal_of \<circ> fst) (filter (\<lambda>x. snd x = Emitted) (zip sent fates))
      \<and> pu_failed p = count_list fates EmissionFailed \<and> pu_skipped p = count_list fates Skipped
      \<and> (\<forall>i < length fates. fates ! i = Skipped \<longrightarrow> i + 64 < length sent)
      \<and> (\<forall>i < length fates. fates ! i = Awaited \<longrightarrow> i + 1 = length fates \<and> pu_state p \<noteq> Drained)
      \<and> (pu_state p = Drained \<longrightarrow> closed \<and> length fates = length sent))
    \<and> (\<exists>s shown. cmd_monitor proxy t = (Inr (), t\<lparr>tm_bus := s, tm_out := tm_out t @ map signal_line shown\<rparr>)
         \<and> (\<forall>k. filter (\<lambda>x. signal_stream x = k) shown = filter (\<lambda>x. signal_stream x = k) (pu_signals p)))"
proof
  obtain fates where inv: "pump_inv 64 (sent, closed, p) fates"
    using pump_inv_run[OF assms(1)] unfolding LIFECYCLE_CHANNEL_CAPACITY_def by blast
  have last: "i + 1 = length fates \<and> pu_state p \<noteq> Drained" if "i < length fates" "fates ! i = Awaited" for i
  proof (cases "pu_emitting p")
    case None
    then have "Awaited \<notin> set fates" using inv by (simp add: pump_inv_def)
    with that show ?thesis by (metis nth_mem)
  next
    case (Some sig)
    with inv obtain before where "fates = before @ [Awaited]" "Awaited \<notin> set before" "pu_state p \<noteq> Drained"
      by (auto simp: pump_inv_def)
    with that show ?thesis by (auto simp: nth_append less_Suc_eq split: if_splits) (metis nth_mem)+
  qed
  show "\<exists>fates. length fates = pu_pos p \<and> length fates \<le> length sent
      \<and> pu_signals p = map (signal_of \<circ> fst) (filter (\<lambda>x. snd x = Emitted) (zip sent fates))
      \<and> pu_failed p = count_list fates EmissionFailed \<and> pu_skipped p = count_list fates Skipped
      \<and> (\<forall>i < length fates. fates ! i = Skipped \<longrightarrow> i + 64 < length sent)
      \<and> (\<forall>i < length fates. fates ! i = Awaited \<longrightarrow> i + 1 = length fates \<and> pu_state p \<noteq> Drained)
      \<and> (pu_state p = Drained \<longrightarrow> closed \<and> length fates = length sent)"
    using inv last by (intro exI[of _ fates]) (simp add: pump_inv_def with_fate_def)
  obtain shown where "px_delivered proxy = map (\<lambda>x. (signal_stream x, Inr (signal_device x))) shown"
    "\<forall>k. filter (\<lambda>x. signal_stream x = k) shown = filter (\<lambda>x. signal_stream x = k) (pu_signals p)"
    by (rule delivers_signals[OF assms(3)])
  with monitor_prints[OF assms(2), of shown t]
  show "\<exists>s shown. cmd_monitor proxy t = (Inr (), t\<lparr>tm_bus := s, tm_out := tm_out t @ map signal_line shown\<rparr>)
      \<and> (\<forall>k. filter (\<lambda>x. signal_stream x = k) shown = filter (\<lambda>x. signal_stream x = k) (pu_signals p))"
    by blast
qed

definition swapping :: "unit clackd_proxy" where
  "swapping = two_boards\<lparr>px_delivered :=
     [(RemovedStream, Inr ''hidraw0''), (AddedStream, Inr ''hidraw0'')]\<rparr>"

text \<open>Three events, of which the second is lost on the bus.\<close>

definition lossy_events :: "lifecycle_event list" where
  "lossy_events = [DeviceAdded ''hidraw0'', LayoutUpdated ''hidraw0'', DeviceRemoved ''hidraw0'']"

definition lossy_pump :: pump where
  "lossy_pump = \<lparr>pu_pos = 3, pu_emitting = None, pu_signals = [DeviceAddedSignal ''hidraw0'', DeviceRemovedSignal ''hidraw0''],
     pu_failed = 1, pu_skipped = 0, pu_state = Drained\<rparr>"

lemma lossy_run: "pump_run LIFECYCLE_CHANNEL_CAPACITY (lossy_events, True, lossy_pump)"
proof -
  let ?run = "pump_run LIFECYCLE_CHANNEL_CAPACITY"
  let ?r = "\<lambda>p. signal_pump (the (broadcast_recv LIFECYCLE_CHANNEL_CAPACITY lossy_events True (pu_pos p))) p"
  let ?e = "\<lambda>ok p. signal_returned ok (the (pu_emitting p)) p"
  note defs = broadcast_recv_def signal_pump_def signal_returned_def LIFECYCLE_CHANNEL_CAPACITY_def pump_start_def lossy_events_def
  have announce: "?run (sent, False, p) \<Longrightarrow> ?run (sent @ [ev], False, p)" for sent ev p
    by (rule pump_more[OF _ pump_announce])
  have round: "?run (lossy_events, True, p) \<Longrightarrow> pu_state p = Pumping \<Longrightarrow> pu_emitting p = None \<Longrightarrow> ?run (lossy_events, True, ?r p)" for p
    by (rule pump_more[OF _ pump_round]) (simp_all add: broadcast_recv_def)
  have emit: "?run (lossy_events, True, p) \<Longrightarrow> pu_state p = Pumping \<Longrightarrow> pu_emitting p \<noteq> None \<Longrightarrow> ?run (lossy_events, True, ?e ok p)" for p ok
    by (rule pump_more[OF _ pump_emit]) auto
  have "?run (((([] @ [DeviceAdded ''hidraw0'']) @ [LayoutUpdated ''hidraw0'']) @ [DeviceRemoved ''hidraw0'']), False, pump_start)"
    by (intro announce pump_init)
  then have "?run (lossy_events, True, pump_start)"
    using pump_more[OF _ pump_close] by (simp add: lossy_events_def)
  then have "?run (lossy_events, True, ?r (?e True (?r (?e False (?r (?e True (?r pump_start)))))))"
    by (intro round emit) (simp_all add: defs)
  moreover have "?r (?e True (?r (?e False (?r (?e True (?r pump_start)))))) = lossy_pump"
    by (simp add: defs lossy_pump_def)
  ultimately show ?thesis by simp
qed

theorem signals_follow_the_events_witness:
  "pump_run LIFECYCLE_CHANNEL_CAPACITY (lossy_events, True, lossy_pump)
    \<and> (\<exists>s shown. cmd_monitor swapping \<lparr>tm_bus = (), tm_out = []\<rparr> = (Inr (), \<lparr>tm_bus = s, tm_out = map signal_line shown\<rparr>)
         \<and> shown \<noteq> pu_signals lossy_pump
         \<and> (\<forall>k. filter (\<lambda>x. signal_stream x = k) shown = filter (\<lambda>x. signal_stream x = k) (pu_signals lossy_pump)))"
proof -
  let ?a = "DeviceAddedSignal ''hidraw0''" and ?r = "DeviceRemovedSignal ''hidraw0''"
  have "subscribes swapping" by (simp add: subscribes_def swapping_def two_boards_def ok_def)
  moreover have "delivers (pu_signals lossy_pump) (px_delivered swapping)"
    by (simp add: delivers_def swapping_def two_boards_def lossy_pump_def)
  ultimately have "\<exists>s shown. cmd_monitor swapping \<lparr>tm_bus = (), tm_out = []\<rparr> = (Inr (), \<lparr>tm_bus = s, tm_out = map signal_line shown\<rparr>)
      \<and> (\<forall>k. filter (\<lambda>x. signal_stream x = k) shown = filter (\<lambda>x. signal_stream x = k) (pu_signals lossy_pump))"
    using signals_follow_the_events[OF lossy_run, of swapping "\<lparr>tm_bus = (), tm_out = []\<rparr>"] by simp
  then obtain s shown where shown: "cmd_monitor swapping \<lparr>tm_bus = (), tm_out = []\<rparr>
      = (Inr (), \<lparr>tm_bus = s, tm_out = map signal_line shown\<rparr>)"
    "\<forall>k. filter (\<lambda>x. signal_stream x = k) shown = filter (\<lambda>x. signal_stream x = k) (pu_signals lossy_pump)" by blast
  have "cmd_monitor swapping \<lparr>tm_bus = (), tm_out = []\<rparr>
      = (Inr (), \<lparr>tm_bus = (), tm_out = [signal_line ?r, signal_line ?a]\<rparr>)"
    by (simp add: cmd_monitor_def call_def try_call_def andthen_def lift_res_def ok_def println_def swapping_def
        two_boards_def signal_line_def)
  with shown(1) have "map signal_line shown = [signal_line ?r, signal_line ?a]" by simp
  then have "map signal_line shown \<noteq> map signal_line (pu_signals lossy_pump)" by (simp add: signal_line_def lossy_pump_def)
  then have "shown \<noteq> pu_signals lossy_pump" by blast
  with shown lossy_run show ?thesis by blast
qed

section \<open>Errors\<close>

text \<open>How zbus puts an error on the wire: a method error under the standard name, with the text as its detail.\<close>

definition documented_wire :: "(fdo_error \<Rightarrow> bus_error) \<Rightarrow> bool" where
  "documented_wire wire \<longleftrightarrow> (\<forall>m.
     wire (FdoFailed m) = MethodError ''org.freedesktop.DBus.Error.Failed'' (Some m)
   \<and> wire (UnknownObject m) = MethodError ''org.freedesktop.DBus.Error.UnknownObject'' (Some m)
   \<and> wire (AccessDenied m) = MethodError ''org.freedesktop.DBus.Error.AccessDenied'' (Some m)
   \<and> wire (NotSupported m) = MethodError ''org.freedesktop.DBus.Error.NotSupported'' (Some m))"

fun standard_wire :: "fdo_error \<Rightarrow> bus_error" where
  "standard_wire (FdoFailed m) = MethodError ''org.freedesktop.DBus.Error.Failed'' (Some m)"
| "standard_wire (UnknownObject m) = MethodError ''org.freedesktop.DBus.Error.UnknownObject'' (Some m)"
| "standard_wire (AccessDenied m) = MethodError ''org.freedesktop.DBus.Error.AccessDenied'' (Some m)"
| "standard_wire (NotSupported m) = MethodError ''org.freedesktop.DBus.Error.NotSupported'' (Some m)"

lemma standard_wire_documented: "documented_wire standard_wire"
  by (simp add: documented_wire_def)

text \<open>What a user is told of an error of the daemon.\<close>

definition told :: "foreign_texts \<Rightarrow> daemon_error \<Rightarrow> string" where
  "told ft e =
     (case e of
        DeviceNotFound d \<Rightarrow> ''keyboard not found: '' @ d @ '' (see `clackctl list`)''
      | DeviceUnauthorized d \<Rightarrow> ''access denied: session not authorized for device `'' @ d @
            ''` (check the udev uaccess rule for /dev/hidraw*)''
      | Driver (PermissionDenied path) \<Rightarrow> ''access denied: driver error: permission denied for hidraw node '' @
            debug_path path @ '' (check the udev uaccess rule for /dev/hidraw*)''
      | Driver (Unsupported op) \<Rightarrow>
            ''this keyboard cannot do that: driver error: operation not supported by this device: '' @ op
      | _ \<Rightarrow> display_daemon_error ft e @ '' [org.freedesktop.DBus.Error.Failed]'')"

lemma daemon_error_told:
  assumes "documented_wire wire"
  shows "friendly_error display (Bus (wire (from_daemon_error ft e))) = told ft e"
  using assms
proof (cases e)
  case (Driver x)
  with assms show ?thesis
    by (cases x) (simp_all add: documented_wire_def from_daemon_error_def friendly_error_def told_def)
qed (use assms in \<open>simp_all add: documented_wire_def from_daemon_error_def friendly_error_def told_def\<close>)

end
