(* ===== verification/Daemon.thy ===== *)
theory Daemon
  imports Ipc_Claims Worker_Claims Clackctl_Claims
begin

text \<open>
  The whole daemon behind its D-Bus interface. A client that waits for each reply meets the daemon at
  rest; the schedule in which the daemon then works off the request and rests again is one of the
  interleavings of \<open>engine_step\<close>, and over it the methods of the frontend and the commands of
  \<open>clackctl\<close> compose with the engine, the worker and the driver.
\<close>

section \<open>A schedule\<close>

definition busy :: "'s channel \<Rightarrow> bool" where
  "busy ch \<longleftrightarrow> wk_phase (ch_worker ch) = Reporting \<or> wk_phase (ch_worker ch) = Running \<and> ch_queue ch \<noteq> []"

definition work :: "nat \<Rightarrow> ('w, 's) engine \<Rightarrow> ('w, 's) engine" where
  "work c e =
     (let ch = en_channels e ! c in
      if wk_phase (ch_worker ch) = Reporting then report_and_exit c (ch_worker ch) e
      else put_worker c (tl (ch_queue ch)) (worker_handle (en_now e) (hd (ch_queue ch)) (ch_worker ch)) e)"

definition daemon_round :: "('w, 's) engine \<Rightarrow> ('w, 's) engine" where
  "daemon_round e =
     (if en_queue e \<noteq> []
      then (if en_running e then supervise (hd (en_queue e)) (e\<lparr>en_queue := tl (en_queue e)\<rparr>) else e)
      else (case find (\<lambda>c. busy (en_channels e ! c)) [0..<length (en_channels e)] of
              None \<Rightarrow> e
            | Some c \<Rightarrow> work c e))"

fun settle :: "nat \<Rightarrow> ('w, 's) engine \<Rightarrow> ('w, 's) engine" where
  "settle 0 e = e"
| "settle (Suc n) e = settle n (daemon_round e)"

lemma find_upt_Some: "find P [0..<n] = Some c \<Longrightarrow> c < n \<and> P c"
  by (auto simp: find_Some_iff)

lemma daemon_round_run:
  assumes "engine_run idle start posted e"
  shows "engine_run idle start posted (daemon_round e)"
proof (cases "en_queue e")
  case (Cons cmd rest)
  with assms show ?thesis
    by (auto simp: daemon_round_def intro: run_silent step_supervise)
next
  case Nil
  show ?thesis
  proof (cases "find (\<lambda>c. busy (en_channels e ! c)) [0..<length (en_channels e)]")
    case None
    with assms Nil show ?thesis by (simp add: daemon_round_def)
  next
    case (Some c)
    note c = find_upt_Some[OF Some]
    have "engine_step idle e None (work c e)"
    proof (cases "wk_phase (ch_worker (en_channels e ! c)) = Reporting")
      case True
      moreover have "has_room e" using Nil by (simp add: has_room_def ENGINE_CHANNEL_CAPACITY_def)
      ultimately show ?thesis using c by (auto simp: work_def intro: step_report)
    next
      case False
      with c obtain op rest where "wk_phase (ch_worker (en_channels e ! c)) = Running"
        "ch_queue (en_channels e ! c) = op # rest" by (auto simp: busy_def neq_Nil_conv)
      with c False show ?thesis by (auto simp: work_def intro: step_recv)
    qed
    with assms Nil Some show ?thesis by (auto simp: daemon_round_def intro: run_silent)
  qed
qed

lemma settle_run: "engine_run idle start posted e \<Longrightarrow> engine_run idle start posted (settle n e)"
  by (induction n arbitrary: e) (simp_all add: daemon_round_run)

section \<open>Rest\<close>

definition quiet :: "('w, 's) engine \<Rightarrow> bool" where
  "quiet e \<longleftrightarrow> en_queue e = [] \<and> list_all (\<lambda>ch. \<not> busy ch) (en_channels e)"

lemma daemon_round_quiet: "quiet e \<Longrightarrow> daemon_round e = e"
proof -
  assume "quiet e"
  then have "find (\<lambda>c. busy (en_channels e ! c)) [0..<length (en_channels e)] = None"
    by (auto simp: quiet_def find_None_iff list_all_length)
  with \<open>quiet e\<close> show ?thesis by (simp add: daemon_round_def quiet_def)
qed

lemma settle_quiet: "quiet e \<Longrightarrow> settle n e = e"
  by (induction n) (simp_all add: daemon_round_quiet)

lemma find_only_busy:
  assumes "c < n" and "P c" and "\<And>i. i < n \<Longrightarrow> P i \<Longrightarrow> i = c"
  shows "find P [0..<n] = Some c"
proof (rule find_only)
  show "c \<in> set [0..<n]" using assms(1) by simp
  show "P c" by (rule assms(2))
  show "i = c" if "i \<in> set [0..<n]" "P i" for i
    using that(1) by (intro assms(3) that(2)) simp
qed

text \<open>A daemon at rest; \<open>n\<close> is the next reply channel. And one that serves a device.\<close>

definition resting :: "('w, 's) engine \<times> nat \<Rightarrow> bool" where
  "resting = (\<lambda>(e, n). en_running e \<and> quiet e \<and> (\<forall>i \<in> fst ` set (en_answers e). i < n)
     \<and> hm_wf (rg_devices (en_registry e)))"

definition serves :: "string \<Rightarrow> device_handle \<Rightarrow> ('w, 's) engine \<times> nat \<Rightarrow> bool" where
  "serves d h S \<longleftrightarrow> resting S \<and> devices (fst S) d = Some h \<and> dh_tx h < length (en_channels (fst S))
     \<and> wk_phase (ch_worker (en_channels (fst S) ! dh_tx h)) = Running"

lemmas serves_defs = serves_def resting_def prod.case fst_conv

definition post :: "engine_command \<Rightarrow> ('w, 's) engine \<Rightarrow> ('w, 's) engine" where
  "post cmd e = e\<lparr>en_queue := en_queue e @ [cmd]\<rparr>"

text \<open>The device's worker after it has handled an operation.\<close>

definition handled :: "device_handle \<Rightarrow> worker_op \<Rightarrow> ('w, 's) engine \<Rightarrow> ('w, 's) engine" where
  "handled h op e = put_worker (dh_tx h) [] (worker_handle (en_now e) op (ch_worker (en_channels e ! dh_tx h))) e"

lemma first_round:
  assumes "quiet e" and "en_running e" and "cmd \<noteq> Shutdown"
  shows "daemon_round (post cmd e) = handle_command cmd e"
proof -
  have "daemon_round (post cmd e) = supervise cmd ((post cmd e)\<lparr>en_queue := []\<rparr>)"
    using assms(1,2) by (simp add: daemon_round_def post_def quiet_def)
  also have "(post cmd e)\<lparr>en_queue := []\<rparr> = e" using assms(1) by (simp add: post_def quiet_def)
  finally show ?thesis using assms(3) by (simp add: supervise_def)
qed

lemma second_round:
  assumes "serves d h (e, n)"
  shows "daemon_round (send_to_worker h d op e) = handled h op e"
proof -
  let ?ch = "en_channels e ! dh_tx h"
  let ?e1 = "e\<lparr>en_channels := (en_channels e)[dh_tx h := ?ch\<lparr>ch_queue := [op]\<rparr>]\<rparr>"
  have tx: "dh_tx h < length (en_channels e)" "wk_phase (ch_worker ?ch) = Running" "en_queue e = []"
    and rest: "\<And>i. i < length (en_channels e) \<Longrightarrow> \<not> busy (en_channels e ! i)"
    using assms by (auto simp: serves_defs quiet_def list_all_length)
  from tx rest[OF tx(1)] have q: "ch_queue ?ch = []" by (simp add: busy_def)
  then have sent: "send_to_worker h d op e = ?e1"
    using tx(2) by (simp add: send_to_worker_def try_send_def Let_def WORKER_CHANNEL_CAPACITY_def)
  have "find (\<lambda>c. busy (en_channels ?e1 ! c)) [0..<length (en_channels ?e1)] = Some (dh_tx h)"
    using tx rest by (intro find_only_busy) (auto simp: busy_def nth_list_update split: if_splits)
  then have "daemon_round ?e1 = work (dh_tx h) ?e1" using tx(3) by (simp add: daemon_round_def)
  also have "\<dots> = handled h op e"
    using tx by (simp add: work_def handled_def put_worker_def apply_effects_def Let_def)
  finally show ?thesis unfolding sent .
qed

lemma worker_handle_phase:
  assumes "wk_phase w = Running"
  shows "wk_phase (fst (worker_handle now op w)) \<in> {Running, Reporting}"
  using assms by (cases rule: worker_handle_shape[of now op w]) (auto simp: retire_if_def)

lemma answers_of_one: "\<exists>a. answers_of (snd (worker_handle now op w)) = [(reply_of op, a)]"
  using worker_handle_answers[of now op w] by (auto simp: map_eq_Cons_conv)

text \<open>A request that the dispatcher hands to the worker is answered; if the worker stays in service, the
  daemon is at rest again after the worker's turn.\<close>

lemma request_served:
  assumes "serves d h (e, n)" and "handle_command cmd e = send_to_worker h d op e" and "cmd \<noteq> Shutdown"
    and "worker_handle (en_now e) op (ch_worker (en_channels e ! dh_tx h)) = (w', effs)" and "wk_phase w' = Running"
  shows "settle 4 (post cmd e) = handled h op e" and "quiet (handled h op e)"
proof -
  have "settle 4 (post cmd e) = settle 3 (handle_command cmd e)"
    using first_round[of e cmd] assms(1,3) by (simp add: numeral_eq_Suc serves_defs)
  also have "\<dots> = settle 2 (handled h op e)"
    using second_round[OF assms(1)] by (simp add: numeral_eq_Suc assms(2))
  finally have "settle 4 (post cmd e) = settle 2 (handled h op e)" .
  moreover show "quiet (handled h op e)"
    using assms(1,4,5)
    by (auto simp: quiet_def serves_defs handled_def put_worker_def apply_effects_def busy_def intro!: list_all_update)
  ultimately show "settle 4 (post cmd e) = handled h op e" by (simp add: settle_quiet)
qed

text \<open>A request that the supervisor answers itself.\<close>

lemma metadata_served:
  assumes "resting (e, n)" and "handle_command cmd e = answer n a e" and "cmd \<noteq> Shutdown"
  shows "settle 4 (post cmd e) = answer n a e" and "resting (answer n a e, n + 1)"
proof -
  have q: "quiet (answer n a e)" using assms(1) by (simp add: resting_def quiet_def)
  have "settle 4 (post cmd e) = settle 3 (handle_command cmd e)"
    using first_round[of e cmd] assms(1,3) by (simp add: numeral_eq_Suc resting_def)
  with settle_quiet[OF q] show "settle 4 (post cmd e) = answer n a e" by (simp add: assms(2))
  show "resting (answer n a e, n + 1)"
    using assms(1) q by (auto simp: resting_def) (simp_all add: answer_def less_SucI)
qed

section \<open>The methods over the schedule\<close>

definition daemon_port :: "(('w, 's) engine \<times> nat) engine_port" where
  "daemon_port =
     \<lparr>ep_oneshot = (\<lambda>(e, n). (n, (e, n + 1))),
      ep_send = (\<lambda>cmd (e, n). (en_running e, (if en_running e then post cmd e else e, n))),
      ep_recv = (\<lambda>i (e, n). (map_of (en_answers (settle 4 e)) i, (settle 4 e, n)))\<rparr>"

text \<open>
  What the client's generated proxy does: the method's result, with its error put on the wire. Its signal
  streams are subscriptions at the bus, which leave the daemon alone.
\<close>

definition over_the_wire :: "(fdo_error \<Rightarrow> bus_error) \<Rightarrow> ('s, fdo_error, 'a) act \<Rightarrow> ('s, bus_error, 'a) act" where
  "over_the_wire wire m s = (case m s of (r, s') \<Rightarrow> (map_sum wire id r, s'))"

definition daemon_proxy :: "foreign_texts \<Rightarrow> (fdo_error \<Rightarrow> bus_error) \<Rightarrow> (bus_error \<Rightarrow> string) \<Rightarrow> delivery list
    \<Rightarrow> (('w, 's) engine \<times> nat) clackd_proxy" where
  "daemon_proxy ft wire display delivered =
     \<lparr>px_list_devices = over_the_wire wire (list_devices daemon_port),
      px_get_device_info = (\<lambda>d. over_the_wire wire (get_device_info ft daemon_port d)),
      px_get_device_identity = (\<lambda>d. over_the_wire wire (get_device_identity ft daemon_port d)),
      px_get_keycode = (\<lambda>d l r c. over_the_wire wire (get_keycode ft daemon_port d l r c)),
      px_set_keycode = (\<lambda>d l r c k. over_the_wire wire (set_keycode ft daemon_port d l r c k)),
      px_commit = (\<lambda>d. over_the_wire wire (commit ft daemon_port d)),
      px_get_macro = (\<lambda>d off len. over_the_wire wire (get_macro ft daemon_port d off len)),
      px_set_macro = (\<lambda>d off data. over_the_wire wire (set_macro ft daemon_port d off data)),
      px_get_lighting = (\<lambda>d ch v. over_the_wire wire (get_lighting ft daemon_port d ch v)),
      px_set_lighting = (\<lambda>d ch v data. over_the_wire wire (set_lighting ft daemon_port d ch v data)),
      px_receive_device_added = ok (), px_receive_device_removed = ok (), px_receive_layout_updated = ok (),
      px_delivered = delivered, px_display = display\<rparr>"

lemma ask_daemon:
  "en_running e \<Longrightarrow> ask daemon_port mk as (e, n) =
    ((case Option.bind (map_of (en_answers (settle 4 (post (mk n) e))) n) as of
        None \<Rightarrow> Inl (FdoFailed ''engine reply channel dropped'') | Some x \<Rightarrow> Inr x),
     (settle 4 (post (mk n) e), n + 1))"
  by (simp add: ask_def daemon_port_def)

lemma fresh_answer: "\<forall>i \<in> fst ` set xs. i < n \<Longrightarrow> map_of (xs @ [(n, a)]) n = Some a" for n :: nat
proof -
  assume fresh: "\<forall>i \<in> fst ` set xs. i < n"
  have "n \<notin> fst ` set xs"
  proof
    assume "n \<in> fst ` set xs"
    with fresh have "n < n" by (rule bspec)
    then show False by simp
  qed
  then have "map_of xs n = None" by (simp only: map_of_eq_None_iff not_False_eq_True)
  then show "map_of (xs @ [(n, a)]) n = Some a" by (simp add: map_add_def)
qed

text \<open>Metadata.\<close>

lemma ask_metadata:
  assumes "resting (e, n)" and "handle_command (mk n) e = answer n a e" and "mk n \<noteq> Shutdown" and "as a = Some x"
  shows "ask daemon_port mk as (e, n) = (Inr x, (answer n a e, n + 1))" and "resting (answer n a e, n + 1)"
proof -
  show "resting (answer n a e, n + 1)" by (rule metadata_served(2)[OF assms(1-3)])
  have "map_of (en_answers (answer n a e)) n = Some a"
    unfolding small_updates using assms(1) by (intro fresh_answer) (simp add: resting_def)
  then show "ask daemon_port mk as (e, n) = (Inr x, (answer n a e, n + 1))"
    using ask_daemon[of e mk as n] assms(1,4) by (simp add: metadata_served(1)[OF assms(1-3)] resting_def)
qed

text \<open>An operation of the worker that leaves it in service.\<close>

lemma ask_worker:
  assumes "serves d h (e, n)" and "handle_command (mk n) e = send_to_worker h d op e" and "mk n \<noteq> Shutdown"
    and "worker_handle (en_now e) op (ch_worker (en_channels e ! dh_tx h)) = (w', effs)" and "wk_phase w' = Running"
    and "answers_of effs = [(n, a)]" and "as a = Some x"
  shows "ask daemon_port mk as (e, n) = (Inr x, (handled h op e, n + 1))" and "serves d h (handled h op e, n + 1)"
    and "ch_worker (en_channels (handled h op e) ! dh_tx h) = w'"
proof -
  note served = request_served[OF assms(1-5)]
  have answers: "en_answers (handled h op e) = en_answers e @ [(n, a)]"
    and channels: "en_channels (handled h op e) = (en_channels e)[dh_tx h := \<lparr>ch_queue = [], ch_worker = w'\<rparr>]"
    by (simp_all add: handled_def put_worker_def apply_effects_def assms(4,6))
  have same: "en_running (handled h op e) = en_running e" "devices (handled h op e) = devices e"
    "en_registry (handled h op e) = en_registry e"
    by (simp_all add: handled_def put_worker_def apply_effects_def devices_def)
  have "map_of (en_answers (handled h op e)) n = Some a"
    unfolding answers using assms(1) by (intro fresh_answer) (simp add: serves_defs)
  then show "ask daemon_port mk as (e, n) = (Inr x, (handled h op e, n + 1))"
    using ask_daemon[of e mk as n] assms(1,7) by (simp add: served(1) serves_defs)
  show "serves d h (handled h op e, n + 1)"
    using assms(1,5) served(2) by (auto simp: serves_defs same answers channels less_SucI)
  show "ch_worker (en_channels (handled h op e) ! dh_tx h) = w'"
    using assms(1) by (simp add: channels serves_defs)
qed

lemma over_the_wire_Inr: "m s = (Inr x, s') \<Longrightarrow> over_the_wire wire m s = (Inr x, s')"
  by (simp add: over_the_wire_def)

lemma ask_res_Inr: "ask port mk as s = (Inr (Inr x), s') \<Longrightarrow> ask_res ft port mk as s = (Inr x, s')"
  by (simp add: ask_res_def andthen_def lift_res_def)

section \<open>A keyboard on the bus\<close>

text \<open>
  The contract \<open>clackctl\<close> relies on: the keyboard \<open>dev\<close> is listed, and reads, writes and commits of its
  positions \<open>V\<close> behave as on the keymap \<open>keys\<close>.
\<close>

locale served_keyboard =
  fixes proxy :: "'s clackd_proxy" and ready :: "'s \<Rightarrow> bool" and keys :: "'s \<Rightarrow> key_pos \<Rightarrow> u16"
    and dev :: string and V :: "key_pos set"
  assumes listed: "ready s \<Longrightarrow> \<exists>devs s'. px_list_devices proxy s = (Inr devs, s') \<and> dev \<in> set devs
      \<and> ready s' \<and> keys s' = keys s"
    and read_key: "ready s \<Longrightarrow> (l, r, c) \<in> V \<Longrightarrow>
      \<exists>s'. px_get_keycode proxy dev l r c s = (Inr (keys s (l, r, c)), s') \<and> ready s' \<and> keys s' = keys s"
    and write_key: "ready s \<Longrightarrow> (l, r, c) \<in> V \<Longrightarrow>
      \<exists>s'. px_set_keycode proxy dev l r c k s = (Inr (), s') \<and> ready s' \<and> keys s' = (keys s)((l, r, c) := k)"
    and commit_keys: "ready s \<Longrightarrow> \<exists>s'. px_commit proxy dev s = (Inr (), s') \<and> ready s' \<and> keys s' = keys s"
begin

lemma resolved:
  assumes "ready (tm_bus t)"
  shows "\<exists>s'. resolve_device proxy dev t = (Inr dev, t\<lparr>tm_bus := s'\<rparr>) \<and> ready s' \<and> keys s' = keys (tm_bus t)"
proof -
  from listed[OF assms] obtain devs s' where s': "px_list_devices proxy (tm_bus t) = (Inr devs, s')"
    "dev \<in> set devs" "ready s'" "keys s' = keys (tm_bus t)" by blast
  from call_Inr[where m = "px_list_devices proxy", OF s'(1)] s'(2-) show ?thesis
    by (auto simp: resolve_device_def andthen_def ok_def)
qed

lemma get_prints:
  assumes "ready (tm_bus t)" and "(l, r, c) \<in> V"
  shows "\<exists>s'. run proxy (Get dev l r c) t = (Inr (), t\<lparr>tm_bus := s', tm_out := tm_out t @ [describe (keys (tm_bus t) (l, r, c))]\<rparr>)
    \<and> ready s' \<and> keys s' = keys (tm_bus t)"
proof -
  from resolved[OF assms(1)] obtain s1 where s1: "resolve_device proxy dev t = (Inr dev, t\<lparr>tm_bus := s1\<rparr>)"
    "ready s1" "keys s1 = keys (tm_bus t)" by blast
  from read_key[OF s1(2) assms(2)] obtain s2 where s2: "px_get_keycode proxy dev l r c s1 = (Inr (keys s1 (l, r, c)), s2)"
    "ready s2" "keys s2 = keys s1" by blast
  have "call (px_get_keycode proxy dev l r c) (t\<lparr>tm_bus := s1\<rparr>) = (Inr (keys s1 (l, r, c)), t\<lparr>tm_bus := s2\<rparr>)"
    using call_Inr[where m = "px_get_keycode proxy dev l r c" and t = "t\<lparr>tm_bus := s1\<rparr>"] s2(1) by simp
  with s1 s2 show ?thesis by (auto simp: cmd_get_def andthen_def println_def)
qed

lemma set_prints:
  assumes "ready (tm_bus t)" and "(l, r, c) \<in> V" and "parse_key key = Inr k"
  shows "\<exists>s'. run proxy (Set dev l r c key) t = (Inr (), t\<lparr>tm_bus := s', tm_out := tm_out t @
      [dev @ '': layer '' @ dec (unat l) @ '', row '' @ dec (unat r) @ '', col '' @ dec (unat c) @
       '' '' @ LEFT_ARROW @ '' '' @ describe k]\<rparr>)
    \<and> ready s' \<and> keys s' = (keys (tm_bus t))((l, r, c) := k)"
proof -
  from resolved[OF assms(1)] obtain s1 where s1: "resolve_device proxy dev t = (Inr dev, t\<lparr>tm_bus := s1\<rparr>)"
    "ready s1" "keys s1 = keys (tm_bus t)" by blast
  from write_key[OF s1(2) assms(2), of k] obtain s2 where s2: "px_set_keycode proxy dev l r c k s1 = (Inr (), s2)"
    "ready s2" "keys s2 = (keys s1)((l, r, c) := k)" by blast
  have "call (px_set_keycode proxy dev l r c k) (t\<lparr>tm_bus := s1\<rparr>) = (Inr (), t\<lparr>tm_bus := s2\<rparr>)"
    using call_Inr[where m = "px_set_keycode proxy dev l r c k" and t = "t\<lparr>tm_bus := s1\<rparr>"] s2(1) by simp
  with s1 s2 assms(3) show ?thesis by (auto simp: cmd_set_def andthen_def lift_res_def println_def)
qed

lemma commit_prints:
  assumes "ready (tm_bus t)"
  shows "\<exists>s'. run proxy (Commit dev) t = (Inr (), t\<lparr>tm_bus := s', tm_out := tm_out t @
      [dev @ '': pending changes saved to the keyboard'']\<rparr>) \<and> ready s' \<and> keys s' = keys (tm_bus t)"
proof -
  from resolved[OF assms] obtain s1 where s1: "resolve_device proxy dev t = (Inr dev, t\<lparr>tm_bus := s1\<rparr>)"
    "ready s1" "keys s1 = keys (tm_bus t)" by blast
  from commit_keys[OF s1(2)] obtain s2 where s2: "px_commit proxy dev s1 = (Inr (), s2)"
    "ready s2" "keys s2 = keys s1" by blast
  have "call (px_commit proxy dev) (t\<lparr>tm_bus := s1\<rparr>) = (Inr (), t\<lparr>tm_bus := s2\<rparr>)"
    using call_Inr[where m = "px_commit proxy dev" and t = "t\<lparr>tm_bus := s1\<rparr>"] s2(1) by simp
  with s1 s2 show ?thesis by (auto simp: cmd_commit_def andthen_def println_def)
qed

end

section \<open>Sessions of the client\<close>

text \<open>Invocations one after the other, and what they print on a plain keymap.\<close>

fun session :: "'s clackd_proxy \<Rightarrow> command list \<Rightarrow> 's terminal \<Rightarrow> (cli_error + unit) list \<times> 's terminal" where
  "session proxy [] t = ([], t)"
| "session proxy (cmd # cmds) t =
     (let (r, t') = run proxy cmd t; (rs, t'') = session proxy cmds t' in (r # rs, t''))"

fun on_keymap :: "command \<Rightarrow> (key_pos \<Rightarrow> u16) \<Rightarrow> (string \<times> (key_pos \<Rightarrow> u16)) option" where
  "on_keymap (Get d l r c) m = Some (describe (m (l, r, c)), m)"
| "on_keymap (Set d l r c key) m =
     (case parse_key key of
        Inl _ \<Rightarrow> None
      | Inr k \<Rightarrow> Some (d @ '': layer '' @ dec (unat l) @ '', row '' @ dec (unat r) @ '', col '' @ dec (unat c) @
          '' '' @ LEFT_ARROW @ '' '' @ describe k, m((l, r, c) := k)))"
| "on_keymap (Commit d) m = Some (d @ '': pending changes saved to the keyboard'', m)"
| "on_keymap _ m = None"

fun session_on_keymap :: "command list \<Rightarrow> (key_pos \<Rightarrow> u16) \<Rightarrow> (string list \<times> (key_pos \<Rightarrow> u16)) option" where
  "session_on_keymap [] m = Some ([], m)"
| "session_on_keymap (cmd # cmds) m =
     (case on_keymap cmd m of
        None \<Rightarrow> None
      | Some (l, m') \<Rightarrow> map_option (\<lambda>(ls, m''). (l # ls, m'')) (session_on_keymap cmds m'))"

fun about :: "string \<Rightarrow> key_pos set \<Rightarrow> command \<Rightarrow> bool" where
  "about dev V (Get d l r c) \<longleftrightarrow> d = dev \<and> (l, r, c) \<in> V"
| "about dev V (Set d l r c key) \<longleftrightarrow> d = dev \<and> (l, r, c) \<in> V"
| "about dev V (Commit d) \<longleftrightarrow> d = dev"
| "about dev V _ \<longleftrightarrow> False"

context served_keyboard
begin

lemma run_refines:
  assumes "ready (tm_bus t)" and "about dev V cmd" and "on_keymap cmd (keys (tm_bus t)) = Some (l, m)"
  shows "\<exists>s'. run proxy cmd t = (Inr (), t\<lparr>tm_bus := s', tm_out := tm_out t @ [l]\<rparr>) \<and> ready s' \<and> keys s' = m"
proof (cases cmd)
  case (Get d lay r c)
  with get_prints[OF assms(1)] assms(2,3) show ?thesis by auto
next
  case (Set d lay r c key)
  then obtain k where "parse_key key = Inr k" using assms(3) by (auto split: sum.splits)
  with set_prints[OF assms(1) _ this] Set assms(2,3) show ?thesis by auto
next
  case (Commit d)
  with commit_prints[OF assms(1)] assms(2,3) show ?thesis by auto
qed (use assms(2) in simp_all)

lemma session_refines:
  assumes "ready (tm_bus t)" and "list_all (about dev V) cmds"
    and "session_on_keymap cmds (keys (tm_bus t)) = Some (ls, m)"
  shows "\<exists>s'. session proxy cmds t = (replicate (length cmds) (Inr ()), t\<lparr>tm_bus := s', tm_out := tm_out t @ ls\<rparr>)
    \<and> ready s' \<and> keys s' = m"
  using assms
proof (induction cmds arbitrary: t ls)
  case Nil
  then show ?case by (intro exI[of _ "tm_bus t"]) simp
next
  case (Cons cmd cmds)
  from Cons.prems(3) obtain l m' ls' where step: "on_keymap cmd (keys (tm_bus t)) = Some (l, m')"
    and rest: "session_on_keymap cmds m' = Some (ls', m)" and ls: "ls = l # ls'"
    by (auto split: option.splits)
  from run_refines[OF Cons.prems(1) _ step] Cons.prems(2) obtain s1 where
    s1: "run proxy cmd t = (Inr (), t\<lparr>tm_bus := s1, tm_out := tm_out t @ [l]\<rparr>)" "ready s1" "keys s1 = m'" by auto
  from Cons.IH[of "t\<lparr>tm_bus := s1, tm_out := tm_out t @ [l]\<rparr>" ls'] Cons.prems(2) rest s1 ls show ?case by auto
qed

end

section \<open>Any driver that keeps the contract\<close>

definition kb_ready :: "('s worker \<Rightarrow> bool) \<Rightarrow> string \<Rightarrow> device_handle \<Rightarrow> key_pos set \<Rightarrow> ('w, 's) engine \<times> nat \<Rightarrow> bool" where
  "kb_ready P dev h V S \<longleftrightarrow> serves dev h S \<and> P (ch_worker (en_channels (fst S) ! dh_tx h))
     \<and> (\<forall>(l, r, c) \<in> V. topology_contains (dh_topology h) l r c)"

definition kb_keys :: "('s \<Rightarrow> key_pos \<Rightarrow> u16) \<Rightarrow> device_handle \<Rightarrow> ('w, 's) engine \<times> nat \<Rightarrow> key_pos \<Rightarrow> u16" where
  "kb_keys view h S = view (bx_state (wk_driver (ch_worker (en_channels (fst S) ! dh_tx h))))"

lemma served_devices: "serves d h (e, n) \<Longrightarrow> devices e d = Some h"
  by (simp add: serves_def)

context keyboard_task
begin

lemma key_op_on_the_bus:
  assumes "kb_ready serving dev h V (e, n)" and "key_op_of op = Some x" and "op_within V x" and "reply_of op = n"
    and "handle_command (mk n) e = send_to_worker h dev op e" and "mk n \<noteq> Shutdown"
    and "as (answer_of_reply (fst (keymap_step x (kb_keys view h (e, n))))) = Some (Inr v)"
  shows "\<exists>S. over_the_wire wire (ask_res ft daemon_port mk as) (e, n) = (Inr v, S)
    \<and> kb_ready serving dev h V S \<and> kb_keys view h S = snd (keymap_step x (kb_keys view h (e, n)))"
proof -
  let ?w = "ch_worker (en_channels e ! dh_tx h)"
  have served: "serves dev h (e, n)" and "serving ?w" using assms(1) by (simp_all add: kb_ready_def)
  obtain w' effs where w': "worker_handle (en_now e) op ?w = (w', effs)" by fastforce
  from worker_handle_refines[OF \<open>serving ?w\<close> assms(2,3) w'] have
    r: "serving w'" "shown w' = snd (keymap_step x (shown ?w))"
    "answers_of effs = [(n, answer_of_reply (fst (keymap_step x (kb_keys view h (e, n)))))]"
    using assms(4) by (simp_all add: kb_keys_def)
  from r(1) have "wk_phase w' = Running" by simp
  note asked = ask_worker[where mk = mk and as = as and n = n and e = e, OF served assms(5,6) w' this r(3) assms(7)]
  have "over_the_wire wire (ask_res ft daemon_port mk as) (e, n) = (Inr v, (handled h op e, n + 1))"
    by (intro over_the_wire_Inr ask_res_Inr) (rule asked(1))
  moreover have "kb_ready serving dev h V (handled h op e, n + 1)"
    using assms(1) asked(2,3) r(1) by (simp add: kb_ready_def)
  ultimately show ?thesis using asked(3) r(2) by (auto simp: kb_keys_def)
qed

lemma list_on_the_bus:
  assumes "kb_ready serving dev h V (e, n)"
  shows "\<exists>devs S. over_the_wire wire (list_devices daemon_port) (e, n) = (Inr devs, S) \<and> dev \<in> set devs
    \<and> kb_ready serving dev h V S \<and> kb_keys view h S = kb_keys view h (e, n)"
proof -
  have served: "serves dev h (e, n)" using assms by (simp add: kb_ready_def)
  let ?ids = "sort (hm_keys (rg_devices (en_registry e)))"
  have "dev \<in> set ?ids"
    using served by (auto simp: serves_defs set_hm_keys devices_def)
  have "resting (e, n)" using served by (simp add: serves_def)
  note asked = ask_metadata[OF this, of ListDevices "AnsIds ?ids" as_ids ?ids]
  have "over_the_wire wire (list_devices daemon_port) (e, n) = (Inr ?ids, (answer n (AnsIds ?ids) e, n + 1))"
    unfolding list_devices_def by (intro over_the_wire_Inr) (rule asked(1); simp)
  moreover have "kb_ready serving dev h V (answer n (AnsIds ?ids) e, n + 1)"
    using assms asked(2) by (simp add: kb_ready_def serves_def)
  ultimately show ?thesis using \<open>dev \<in> set ?ids\<close> by (auto simp: kb_keys_def)
qed

lemma on_the_bus: "served_keyboard (daemon_proxy ft wire display delivered) (kb_ready serving dev h V) (kb_keys view h) dev V"
proof
  fix s assume "kb_ready serving dev h V s"
  moreover obtain e n where s: "s = (e, n)" by fastforce
  ultimately have ready: "kb_ready serving dev h V (e, n)" by simp
  have d: "devices e dev = Some h" using ready by (auto simp: kb_ready_def intro: served_devices)
  show "\<exists>devs s'. px_list_devices (daemon_proxy ft wire display delivered) s = (Inr devs, s') \<and> dev \<in> set devs
      \<and> kb_ready serving dev h V s' \<and> kb_keys view h s' = kb_keys view h s"
    using list_on_the_bus[OF ready] by (simp add: s daemon_proxy_def)
  show "\<exists>s'. px_commit (daemon_proxy ft wire display delivered) dev s = (Inr (), s') \<and> kb_ready serving dev h V s'
      \<and> kb_keys view h s' = kb_keys view h s"
    using key_op_on_the_bus[OF ready, of "WCommit n" KCommit "CommitToNvram dev" as_unit "()"] d
    by (simp add: s daemon_proxy_def commit_def dispatch_op_def map_driver_err_def)
  fix l r c assume V: "(l, r, c) \<in> V"
  with ready have fits: "topology_contains (dh_topology h) l r c" by (auto simp: kb_ready_def)
  show "\<exists>s'. px_get_keycode (daemon_proxy ft wire display delivered) dev l r c s = (Inr (kb_keys view h s (l, r, c)), s')
      \<and> kb_ready serving dev h V s' \<and> kb_keys view h s' = kb_keys view h s"
    using key_op_on_the_bus[OF ready, of "WGetKeycode l r c n" "KGet l r c" "CmdGetKeycode dev l r c" as_u16] d V fits
    by (simp add: s daemon_proxy_def get_keycode_def dispatch_get_def dispatch_key_op_def map_driver_err_def)
  show "\<exists>s'. px_set_keycode (daemon_proxy ft wire display delivered) dev l r c k s = (Inr (), s')
      \<and> kb_ready serving dev h V s' \<and> kb_keys view h s' = (kb_keys view h s)((l, r, c) := k)" for k
    using key_op_on_the_bus[OF ready, of "WSetKeycode l r c k n" "KSet l r c k" "CmdSetKeycode dev l r c k" as_unit "()"] d V fits
    by (simp add: s daemon_proxy_def set_keycode_def dispatch_set_def dispatch_key_op_def map_driver_err_def)
qed

end

interpretation via_cli: served_keyboard "daemon_proxy ft wire display delivered" "kb_ready (via_kt.serving V H F) dev h V"
    "kb_keys (vd_view V) h" dev V
  for ft wire display delivered and V :: "key_pos set" and H :: "u8 set" and F :: "bytes set" and dev h
  by (rule via_kt.on_the_bus)

interpretation gmk_cli: served_keyboard "daemon_proxy ft wire display delivered" "kb_ready gmk_kt.serving dev h gmk_positions"
    "kb_keys gmk_view h" dev gmk_positions
  for ft wire display delivered dev h
  by (rule gmk_kt.on_the_bus)

end
