(* ===== verification/Main_Boot.thy ===== *)
theory Main_Boot
  imports Daemon
begin

text \<open>
  The entry point \<open>src/main.rs\<close>: the configuration becomes the driver table and two process-wide
  options, the factories box a driver of either family, and udev devices and events become engine
  commands.
\<close>

section \<open>Either driver in a box\<close>

text \<open>\<open>Box<dyn KeyboardDriver>\<close> holds a driver of one of the two families; the methods of a family are only
  ever called on its own state.\<close>

definition on_left :: "('a, driver_error, 'x) act \<Rightarrow> ('a + 'b, driver_error, 'x) act" where
  "on_left m s = (case s of Inl a \<Rightarrow> (case m a of (r, a') \<Rightarrow> (r, Inl a')) | Inr b \<Rightarrow> (Inl Disconnected, Inr b))"

definition on_right :: "('b, driver_error, 'x) act \<Rightarrow> ('a + 'b, driver_error, 'x) act" where
  "on_right m s = (case s of Inr b \<Rightarrow> (case m b of (r, b') \<Rightarrow> (r, Inr b')) | Inl a \<Rightarrow> (Inl Disconnected, Inl a))"

definition left_ops :: "'a driver_ops \<Rightarrow> ('a + 'b) driver_ops" where
  "left_ops ops =
     \<lparr>kd_get_matrix_dimensions = on_left (kd_get_matrix_dimensions ops),
      kd_get_layer_count = on_left (kd_get_layer_count ops),
      kd_get_keycode = (\<lambda>l r c. on_left (kd_get_keycode ops l r c)),
      kd_set_keycode = (\<lambda>l r c k. on_left (kd_set_keycode ops l r c k)),
      kd_get_macro_buffer = (\<lambda>off len. on_left (kd_get_macro_buffer ops off len)),
      kd_set_macro_buffer = (\<lambda>off data. on_left (kd_set_macro_buffer ops off data)),
      kd_get_lighting = (\<lambda>ch v. on_left (kd_get_lighting ops ch v)),
      kd_set_lighting = (\<lambda>ch v data. on_left (kd_set_lighting ops ch v data)),
      kd_commit_to_nvram = on_left (kd_commit_to_nvram ops),
      kd_emits_layout_event_per_set = case_sum (kd_emits_layout_event_per_set ops) (\<lambda>_. True),
      kd_model_name = case_sum (kd_model_name ops) (\<lambda>_. [])\<rparr>"

definition right_ops :: "'b driver_ops \<Rightarrow> ('a + 'b) driver_ops" where
  "right_ops ops =
     \<lparr>kd_get_matrix_dimensions = on_right (kd_get_matrix_dimensions ops),
      kd_get_layer_count = on_right (kd_get_layer_count ops),
      kd_get_keycode = (\<lambda>l r c. on_right (kd_get_keycode ops l r c)),
      kd_set_keycode = (\<lambda>l r c k. on_right (kd_set_keycode ops l r c k)),
      kd_get_macro_buffer = (\<lambda>off len. on_right (kd_get_macro_buffer ops off len)),
      kd_set_macro_buffer = (\<lambda>off data. on_right (kd_set_macro_buffer ops off data)),
      kd_get_lighting = (\<lambda>ch v. on_right (kd_get_lighting ops ch v)),
      kd_set_lighting = (\<lambda>ch v data. on_right (kd_set_lighting ops ch v data)),
      kd_commit_to_nvram = on_right (kd_commit_to_nvram ops),
      kd_emits_layout_event_per_set = case_sum (\<lambda>_. True) (kd_emits_layout_event_per_set ops),
      kd_model_name = case_sum (\<lambda>_. []) (kd_model_name ops)\<rparr>"

section \<open>The host\<close>

text \<open>What the factories find outside: the hidraw nodes as either family opens them, the file system, the
  clock, and the iteration orders of the hash tables they create.\<close>

record ('d, 'f) host =
  ho_via_node :: "string \<Rightarrow> 'd hid_node"
  ho_gmk_node :: "string \<Rightarrow> 'd gmk_node"
  ho_os :: "'f disk_ops"
  ho_disk :: "'f"
  ho_now :: nat
  ho_key_order :: "key_pos list \<Rightarrow> key_pos list"
  ho_channel_order :: "u8 list \<Rightarrow> u8 list"

type_synonym ('d, 'f) any_driver = "'d via_driver + ('d gmk_transport, 'f) gmk_driver"

section \<open>Configuration\<close>

record device_config =
  dc_vid :: u16
  dc_pid :: u16
  dc_rows :: u8
  dc_cols :: u8
  dc_layer_count_override :: "u8 option"
  dc_driver :: "string option"
  dc_sync_on_attach :: bool

text \<open>Reading \<open>devices.toml\<close>: no project directory, no such file, unreadable, not parsed, or its entries.\<close>

datatype config_read = NoProjectDirs | ConfigNotFound | ConfigUnreadable | ConfigInvalid | Config "device_config list"

text \<open>\<open>init_coalesce_config\<close>: the value of \<open>CLACKD_VIA_COALESCE_MS\<close>, if any, to the interval in milliseconds.\<close>

definition init_coalesce_config :: "string option \<Rightarrow> nat option" where
  "init_coalesce_config env =
     (case Option.bind env (\<lambda>s. from_str_radix (2 ^ 64) 10 (trim s)) of
        Some n \<Rightarrow> if 0 < n then Some n else None
      | None \<Rightarrow> None)"

definition via_fallback_factory :: "nat option \<Rightarrow> (('d, 'f) host, ('d, 'f) any_driver) driver_factory" where
  "via_fallback_factory coalesce path w =
     (case (case coalesce of
              Some interval \<Rightarrow> via_with_coalescing (ho_key_order w) (ho_channel_order w) path (ho_via_node w path) (16, 16)
                interval False (ho_now w)
            | None \<Rightarrow> via_new (ho_channel_order w) path (ho_via_node w path) (16, 16) (ho_now w)) of
        Inl e \<Rightarrow> Inl (Driver e)
      | Inr d \<Rightarrow> Inr \<lparr>bx_ops = left_ops via_driver_ops, bx_state = Inl d\<rparr>, w)"

definition EK68_MATRIX :: "u8 \<times> u8" where "EK68_MATRIX = (5, 15)"
definition EK68_LAYERS :: u8 where "EK68_LAYERS = 2"

definition gmk67_factory :: "bool \<Rightarrow> (('d, 'f) host, ('d, 'f) any_driver) driver_factory" where
  "gmk67_factory sync path w =
     (case gmk_new (ho_os w) (ho_disk w) path (ho_gmk_node w path) EK68_MATRIX EK68_LAYERS sync of
        Inl e \<Rightarrow> Inl (Driver e)
      | Inr d \<Rightarrow> Inr \<lparr>bx_ops = right_ops gmk_driver_ops, bx_state = Inr d\<rparr>, w)"

text \<open>The loop over the entries: which backend each \<open>(vid, pid)\<close> gets, and whether any entry has switched
  on the process-wide \<open>GMK67_SYNC_ON_ATTACH\<close>. The factories read the two options only when they run.\<close>

datatype backend = ViaBackend | Gmk67Backend

definition register_device :: "device_config \<Rightarrow> (u16 \<times> u16 \<Rightarrow> backend option) \<times> bool
    \<Rightarrow> (u16 \<times> u16 \<Rightarrow> backend option) \<times> bool" where
  "register_device dev = (\<lambda>(by_vid_pid, sync).
     let backend = (case dc_driver dev of Some s \<Rightarrow> s | None \<Rightarrow> ''via'');
         (factory, sync') =
           (if backend = ''gmk67'' then (Gmk67Backend, sync \<or> dc_sync_on_attach dev)
            else if backend = ''epomaker'' then (Gmk67Backend, sync)
            else (ViaBackend, sync))
     in (by_vid_pid((dc_vid dev, dc_pid dev) \<mapsto> factory), sync'))"

definition build_driver_table :: "nat option \<Rightarrow> config_read \<Rightarrow> (('d, 'f) host, ('d, 'f) any_driver) driver_table" where
  "build_driver_table coalesce cfg =
     (let (by_vid_pid, sync) = (case cfg of Config devs \<Rightarrow> fold register_device devs (Map.empty, False)
                                | _ \<Rightarrow> (Map.empty, False))
      in \<lparr>dt_by_vid_pid = (\<lambda>k. map_option (\<lambda>b. case b of
              ViaBackend \<Rightarrow> via_fallback_factory coalesce | Gmk67Backend \<Rightarrow> gmk67_factory sync) (by_vid_pid k)),
          dt_via_fallback = Some (via_fallback_factory coalesce)\<rparr>)"

section \<open>Devices of udev\<close>

text \<open>What the daemon asks of a udev device: its node, its system name, and its USB parent, if it has one,
  as the attributes that parent holds in UTF-8.\<close>

record udev_device =
  ud_devnode :: "string option"
  ud_sysname :: string
  ud_usb_parent :: "(string \<Rightarrow> string option) option"

datatype udev_event_type = Add | Remove | OtherEvent

definition stable_device_id :: "udev_device \<Rightarrow> string option" where
  "stable_device_id d = Some (ud_sysname d)"

definition parse_usb_id :: "(string \<Rightarrow> string option) \<Rightarrow> string \<Rightarrow> u16 option" where
  "parse_usb_id usb_parent attr =
     Option.bind (usb_parent attr) (\<lambda>raw. map_option of_nat (from_str_radix 65536 16 (trim raw)))"

definition device_to_connect_command :: "udev_device \<Rightarrow> engine_command option" where
  "device_to_connect_command d =
     Option.bind (ud_devnode d) (\<lambda>devnode.
     Option.bind (stable_device_id d) (\<lambda>device_id.
     Option.bind (ud_usb_parent d) (\<lambda>usb_parent.
     Option.bind (parse_usb_id usb_parent ''idVendor'') (\<lambda>vendor_id.
     Option.bind (parse_usb_id usb_parent ''idProduct'') (\<lambda>product_id.
       Some (DeviceConnected device_id vendor_id product_id devnode))))))"

definition event_to_command :: "udev_event_type \<times> udev_device \<Rightarrow> engine_command option" where
  "event_to_command ev =
     (case fst ev of
        Add \<Rightarrow> device_to_connect_command (snd ev)
      | Remove \<Rightarrow> Option.bind (stable_device_id (snd ev)) (\<lambda>device_id. Some (DeviceDisconnected device_id))
      | OtherEvent \<Rightarrow> None)"

definition scan_initial_devices :: "udev_device list \<Rightarrow> engine_command list" where
  "scan_initial_devices ds = List.map_filter device_to_connect_command ds"

text \<open>The pump over the items of the event stream, with an error of the stream as None: the commands sent,
  when the engine accepts the first \<open>open\<close> of them and is gone from then on. A refused send ends it.\<close>

fun run_udev_pump :: "nat \<Rightarrow> (udev_event_type \<times> udev_device) option list \<Rightarrow> engine_command list" where
  "run_udev_pump open [] = []"
| "run_udev_pump open (None # evs) = run_udev_pump open evs"
| "run_udev_pump open (Some ev # evs) =
     (case event_to_command ev of
        None \<Rightarrow> run_udev_pump open evs
      | Some cmd \<Rightarrow> (case open of 0 \<Rightarrow> [] | Suc k \<Rightarrow> cmd # run_udev_pump k evs))"

text \<open>The seeding loop of \<open>main\<close>, with the same break.\<close>

definition seed_engine :: "nat \<Rightarrow> engine_command list \<Rightarrow> engine_command list" where
  "seed_engine open cmds = take open cmds"

section \<open>One life of the daemon\<close>

text \<open>How the wait for the D-Bus frontend ends, at most 5 s after the start, and what systemd is told.\<close>

datatype ipc_ready = IpcReady | IpcDropped | IpcLate

text \<open>The receiver resolves when \<open>run_ipc\<close> has used its sender, or has returned without using it.\<close>

definition ipc_ready_of :: "bool \<Rightarrow> bool \<Rightarrow> ipc_ready" where
  "ipc_ready_of within_5s ready_sent = (if \<not> within_5s then IpcLate else if ready_sent then IpcReady else IpcDropped)"

datatype notify_state = Ready | Stopping

definition notify_systemd_ready :: "ipc_ready \<Rightarrow> notify_state list" where
  "notify_systemd_ready r = (case r of IpcReady \<Rightarrow> [Ready] | IpcDropped \<Rightarrow> [Ready] | IpcLate \<Rightarrow> [Ready])"

definition notify_systemd_stopping :: "notify_state list" where
  "notify_systemd_stopping = [Stopping]"

text \<open>
  The body of \<open>main\<close> over what it meets: the end of the wait, the enumeration of udev (None when it
  fails), whether the monitor can be built, the events up to the signal that ends the daemon, whether the
  signal handlers can be installed, and how many commands the engine accepts. The result is the commands
  the engine got, the notifications, and whether \<open>main\<close> returns \<open>Ok\<close>.
\<close>

definition daemon_main :: "ipc_ready \<Rightarrow> udev_device list option \<Rightarrow> bool \<Rightarrow> (udev_event_type \<times> udev_device) option list
    \<Rightarrow> bool \<Rightarrow> nat \<Rightarrow> engine_command list \<times> notify_state list \<times> bool" where
  "daemon_main ipc_ready scanned monitor_built events handlers_installed open =
     (let ready = notify_systemd_ready ipc_ready;
          seeded = (case scanned of Some ds \<Rightarrow> seed_engine open (scan_initial_devices ds) | None \<Rightarrow> [])
      in if \<not> monitor_built then (seeded, ready, False)
         else if \<not> handlers_installed then (seeded, ready, False)
         else let live = run_udev_pump (open - length seeded) events;
                  stop = (if length seeded + length live < open then [Shutdown] else [])
              in (seeded @ live @ stop, ready @ notify_systemd_stopping, True))"

declare notify_systemd_stopping_def [simp]

end
