(* ===== verification/Boot_Claims.thy ===== *)
theory Boot_Claims
  imports Main_Boot
begin

text \<open>
  From the boot to the keyboard: udev events become the right commands in order, the configuration selects
  drivers and nothing else, and a plugged-in keyboard is one that \<open>clackctl\<close> can edit.
\<close>

section \<open>udev\<close>

lemma trim_trailing:
  assumes "s \<noteq> []" and "\<forall>c \<in> set s. \<not> is_space c" and "\<forall>c \<in> set ws. is_space c"
  shows "trim (s @ ws) = s"
proof -
  have "dropWhile is_space (s @ ws) = s @ ws" using assms(1,2) by (cases s) simp_all
  moreover have "dropWhile is_space (rev ws @ rev s) = rev s"
    using assms by (cases "rev s") (simp_all add: dropWhile_append dropWhile_eq_Nil_conv)
  ultimately show ?thesis by (simp add: trim_def)
qed

lemma parse_usb_id_printed:
  assumes "attrs a = Some (hexw 4 (unat v) @ ws)" and "\<forall>c \<in> set ws. is_space c"
  shows "parse_usb_id attrs a = Some v"
proof -
  have "trim (hexw 4 (unat v) @ ws) = hexw 4 (unat v)"
    using assms(2) by (intro trim_trailing) (auto dest!: hexw_chars simp: plain_digit simp flip: length_0_conv)
  moreover have "from_str_radix 65536 16 (hexw 4 (unat v)) = Some (unat v)"
    using unsigned_less[of v, where 'a = nat] by (subst from_str_radix_hexw) simp_all
  ultimately show ?thesis by (simp add: parse_usb_id_def assms(1))
qed

lemma run_udev_pump_take:
  "run_udev_pump open evs = take open (List.map_filter event_to_command (List.map_filter id evs))"
proof (induction "open" evs rule: run_udev_pump.induct)
  case (3 "open" ev evs)
  then show ?case by (cases "event_to_command ev"; cases "open") (simp_all add: map_filter_simps)
qed (simp_all add: map_filter_simps)

text \<open>C20. Hot-plug events reach the engine: a USB device whose ids the kernel prints as four hexadecimal
  digits, with white space behind, is connected under its system name with exactly these ids and its
  node, its removal disconnects the same name, a device without a node or a USB parent is ignored; and the
  pump forwards the commands of its events in their order, none twice, until the engine is gone.\<close>

theorem hotplug_events_become_commands:
  assumes "ud_devnode u = Some node" and "ud_usb_parent u = Some attrs"
    and "attrs ''idVendor'' = Some (hexw 4 (unat vid) @ ws)" and "attrs ''idProduct'' = Some (hexw 4 (unat pid) @ ws)"
    and "\<forall>c \<in> set ws. is_space c"
  shows "event_to_command (Add, u) = Some (DeviceConnected (ud_sysname u) vid pid node)
    \<and> event_to_command (Remove, u) = Some (DeviceDisconnected (ud_sysname u))
    \<and> event_to_command (Add, u\<lparr>ud_usb_parent := None\<rparr>) = None \<and> event_to_command (Add, u\<lparr>ud_devnode := None\<rparr>) = None
    \<and> run_udev_pump open evs = take open (List.map_filter event_to_command (List.map_filter id evs))"
  using assms parse_usb_id_printed[where attrs = attrs and v = vid and ws = ws, OF assms(3,5)]
    parse_usb_id_printed[where attrs = attrs and v = pid and ws = ws, OF assms(4,5)]
  by (simp add: event_to_command_def device_to_connect_command_def stable_device_id_def run_udev_pump_take)

definition ek68_usb :: udev_device where
  "ek68_usb = \<lparr>ud_devnode = Some ''/dev/hidraw1'', ud_sysname = ''hidraw1'',
     ud_usb_parent = Some (\<lambda>a. if a = ''idVendor'' then Some (hexw 4 0x05AC @ [CHR 0x0A])
                             else if a = ''idProduct'' then Some (hexw 4 0x024F @ [CHR 0x0A]) else None)\<rparr>"

lemma ek68_connects: "event_to_command (Add, ek68_usb) = Some (DeviceConnected ''hidraw1'' 0x05AC 0x024F ''/dev/hidraw1'')"
proof -
  have "\<forall>c \<in> set [CHR 0x0A]. is_space c" by code_simp
  then have "parse_usb_id attrs a = Some v" if "attrs a = Some (hexw 4 (unat v) @ [CHR 0x0A])" for attrs a v
    using parse_usb_id_printed that by blast
  from this[of _ _ "0x05AC"] this[of _ _ "0x024F"] show ?thesis
    by (simp add: ek68_usb_def event_to_command_def device_to_connect_command_def stable_device_id_def)
qed

theorem hotplug_events_become_commands_witness:
  "run_udev_pump 8 [Some (Add, ek68_usb), None, Some (OtherEvent, ek68_usb), Some (Remove, ek68_usb)]
    = [DeviceConnected ''hidraw1'' 0x05AC 0x024F ''/dev/hidraw1'', DeviceDisconnected ''hidraw1'']"
proof -
  have "\<forall>c \<in> set [CHR 0x0A]. is_space c" by code_simp
  from hotplug_events_become_commands[of ek68_usb "''/dev/hidraw1''"
      "\<lambda>a. if a = ''idVendor'' then Some (hexw 4 0x05AC @ [CHR 0x0A])
           else if a = ''idProduct'' then Some (hexw 4 0x024F @ [CHR 0x0A]) else None" "0x05AC" "[CHR 0x0A]" "0x024F" 8
      "[Some (Add, ek68_usb), None, Some (OtherEvent, ek68_usb), Some (Remove, ek68_usb)]", OF _ _ _ _ this]
  show ?thesis
    by (simp add: ek68_usb_def) (simp add: map_filter_simps event_to_command_def)
qed

lemma event_command_external: "event_to_command ev = Some cmd \<Longrightarrow> external cmd"
  by (auto simp: event_to_command_def device_to_connect_command_def
      split: udev_event_type.splits Option.bind_splits)

text \<open>Only \<open>main\<close> itself ends the supervisor: no device and no event of udev becomes \<open>Shutdown\<close>, and an orderly
  run of the daemon sends it once, as the last command.\<close>

lemma connect_command: "device_to_connect_command u = Some cmd \<Longrightarrow> cmd \<noteq> Shutdown"
  by (auto simp: device_to_connect_command_def split: Option.bind_splits)

lemma pump_never_stops: "Shutdown \<notin> set (run_udev_pump open evs)"
  by (induction "open" evs rule: run_udev_pump.induct)
    (auto simp: event_to_command_def dest: connect_command split: option.splits nat.splits udev_event_type.splits
      Option.bind_splits)

lemma scan_never_stops: "Shutdown \<notin> set (scan_initial_devices ds)"
  by (induction ds) (auto simp: scan_initial_devices_def map_filter_simps dest: connect_command split: option.splits)

lemma shutdown_is_last:
  assumes "daemon_main ipc scanned True evs True open = (cmds, notes, success)"
    and "case scanned of Some ds \<Rightarrow> length ds + length evs < open | None \<Rightarrow> length evs < open"
  shows "success \<and> notes = [Ready, Stopping] \<and> (\<exists>before. cmds = before @ [Shutdown] \<and> Shutdown \<notin> set before)"
proof -
  let ?seeded = "case scanned of Some ds \<Rightarrow> seed_engine open (scan_initial_devices ds) | None \<Rightarrow> []"
  have short: "length (run_udev_pump k evs) \<le> length evs" for k
    by (induction k evs rule: run_udev_pump.induct) (auto split: option.splits nat.splits)
  have "length ?seeded \<le> (case scanned of Some ds \<Rightarrow> length ds | None \<Rightarrow> 0)"
    by (auto simp: seed_engine_def scan_initial_devices_def List.map_filter_def intro: order_trans[OF min.cobounded1 length_filter_le] split: option.splits)
  with assms(2) short[of "open - length ?seeded"]
  have "length ?seeded + length (run_udev_pump (open - length ?seeded) evs) < open"
    by (auto split: option.splits)
  moreover have "Shutdown \<notin> set ?seeded"
    using scan_never_stops by (auto simp: seed_engine_def dest: in_set_takeD split: option.splits)
  ultimately show ?thesis
    using assms(1) pump_never_stops by (auto simp: daemon_main_def Let_def notify_systemd_ready_def split: ipc_ready.splits)
qed

section \<open>Configuration\<close>

lemma register_ignores_matrix:
  "register_device (dev\<lparr>dc_rows := r, dc_cols := c, dc_layer_count_override := n\<rparr>) = register_device dev"
  by (simp add: register_device_def fun_eq_iff Let_def cong: if_cong)

lemma fold_register_ignores_matrix:
  "fold register_device (map (\<lambda>dev. dev\<lparr>dc_rows := f dev, dc_cols := g dev, dc_layer_count_override := k dev\<rparr>) devs)
    = fold register_device devs"
  by (induction devs) (simp_all add: register_ignores_matrix)

lemma via_factory_matrix:
  "via_fallback_factory coalesce path w = (Inr b, w') \<Longrightarrow> \<exists>d. bx_state b = Inl d \<and> vd_matrix d = (16, 16)"
  by (auto simp: via_fallback_factory_def via_new_def via_with_coalescing_def split: option.splits sum.splits prod.splits)

text \<open>The dimensions in \<open>devices.toml\<close> have no effect: tables built from configurations that differ only in
  rows, columns and layer overrides are equal, so every VIA board is opened with 16 by 16 positions
  whatever its entry says, and every GMK67 board with 5 by 15.\<close>

theorem configured_matrix_is_ignored:
  "build_driver_table coalesce (Config (map (\<lambda>dev. dev\<lparr>dc_rows := f dev, dc_cols := g dev, dc_layer_count_override := k dev\<rparr>) devs))
     = build_driver_table coalesce (Config devs)
   \<and> (select_factory (build_driver_table coalesce (Config devs)) vid pid = Some factory \<and> factory path w = (Inr b, w') \<longrightarrow>
        (\<exists>d. bx_state b = Inl d \<and> vd_matrix d = (16, 16)) \<or> (\<exists>d. bx_state b = Inr d \<and> gd_matrix d = (5, 15)))"
proof (intro conjI impI)
  show "build_driver_table coalesce (Config (map (\<lambda>dev. dev\<lparr>dc_rows := f dev, dc_cols := g dev, dc_layer_count_override := k dev\<rparr>) devs))
     = build_driver_table coalesce (Config devs)"
    by (simp add: build_driver_table_def fold_register_ignores_matrix)
  assume "select_factory (build_driver_table coalesce (Config devs)) vid pid = Some factory \<and> factory path w = (Inr b, w')"
  then have "(\<exists>sync. factory = gmk67_factory sync) \<or> factory = via_fallback_factory coalesce"
    and f: "factory path w = (Inr b, w')"
    by (auto simp: select_factory_def build_driver_table_def split: prod.splits option.splits backend.splits)
  then show "(\<exists>d. bx_state b = Inl d \<and> vd_matrix d = (16, 16)) \<or> (\<exists>d. bx_state b = Inr d \<and> gd_matrix d = (5, 15))"
  proof (elim disjE exE)
    fix sync assume "factory = gmk67_factory sync"
    with f show ?thesis
      by (auto simp: gmk67_factory_def gmk_new_def EK68_MATRIX_def Let_def split: sum.splits)
  qed (use f via_factory_matrix in blast)
qed

section \<open>A keyboard is plugged in\<close>

lemma resting_start: "reorders ord \<Longrightarrow> resting (engine_start ord table w, 0)"
  by (simp add: resting_def engine_start_def quiet_def)

text \<open>A working node: opened, probed and asked for its size, it is registered and its worker runs.\<close>

lemma connect_serves:
  assumes "resting (e, n)" and "devices e dev = None"
    and "select_factory (en_table e) vid pid = Some factory" and "factory path (en_world e) = (Inr b, w')"
    and "kd_get_matrix_dimensions (bx_ops b) (bx_state b) = (Inr (rows, cols), s1)"
    and "kd_get_layer_count (bx_ops b) s1 = (Inr layers, s2)"
  obtains h where "serves dev h (settle 2 (post (DeviceConnected dev vid pid path) e), n)"
    and "ch_worker (en_channels (settle 2 (post (DeviceConnected dev vid pid path) e)) ! dh_tx h)
      = worker_start dev (b\<lparr>bx_state := s2\<rparr>)"
    and "dh_topology h = \<lparr>dt_matrix = \<lparr>km_rows = rows, km_cols = cols\<rparr>, dt_layer_count = layers\<rparr>"
    and "devices (settle 2 (post (DeviceConnected dev vid pid path) e)) = (devices e)(dev \<mapsto> h)"
proof -
  let ?h = "\<lparr>dh_topology = \<lparr>dt_matrix = \<lparr>km_rows = rows, km_cols = cols\<rparr>, dt_layer_count = layers\<rparr>,
    dh_model = kd_model_name (bx_ops b) s2, dh_tx = length (en_channels e), dh_vendor_id = vid, dh_product_id = pid,
    dh_hidraw_path = path\<rparr>"
  let ?ch = "\<lparr>ch_queue = [], ch_worker = worker_start dev (b\<lparr>bx_state := s2\<rparr>)\<rparr>"
  let ?e1 = "announce (DeviceAdded dev) (put_device dev ?h
     ((drop_reconnecting dev e)\<lparr>en_world := w', en_channels := en_channels e @ [?ch]\<rparr>))"
  have same: "en_table (drop_reconnecting dev e) = en_table e" "en_world (drop_reconnecting dev e) = en_world e"
    by (simp_all add: drop_reconnecting_def)
  have "handle_command (DeviceConnected dev vid pid path) e = ?e1"
    using assms(2-6)
    by (simp add: handle_connected_def Let_def same open_and_attach_def run_factory_def attach_device_def)
  moreover have "quiet e" "en_running e" using assms(1) by (simp_all add: resting_def)
  ultimately have one: "daemon_round (post (DeviceConnected dev vid pid path) e) = ?e1"
    using first_round[of e "DeviceConnected dev vid pid path"] by simp
  have q: "quiet ?e1" using \<open>quiet e\<close> by (simp add: quiet_def busy_def worker_start_def)
  have settled: "settle 2 (post (DeviceConnected dev vid pid path) e) = ?e1"
    using one settle_quiet[OF q, of 1] by (simp add: numeral_2_eq_2)
  have run: "en_running ?e1" using \<open>en_running e\<close>
    by (simp add: announce_def put_device_def drop_reconnecting_def)
  have wf: "hm_wf (rg_devices (en_registry ?e1))" using assms(1)
    by (simp add: resting_def announce_def put_device_def drop_reconnecting_def)
  have "serves dev ?h (?e1, n)"
    using assms(1) q run wf by (auto simp: serves_def resting_def worker_start_def)
  then show thesis by (intro that[of ?h]) (simp_all add: settled)
qed

text \<open>A registered keyboard is edited over the bus as its keymap; and the box of a driver keeps the driver's
  contract.\<close>

context keyboard_task
begin

lemma plugged_session:
  fixes start :: "('w, 's) engine"
  assumes "kb_ready serving dev h V (settle 2 (post cmd start), 0)"
    and "event_to_command (Add, u) = Some cmd" and "en_queue start = []" and "list_all (about dev V) cmds"
    and "en_running start" and "kb_keys view h (settle 2 (post cmd start), 0) = keymap"
    and "session_on_keymap cmds keymap = Some (ls, m)"
  shows "\<exists>e S. engine_run busy_idle start (run_udev_pump 1 [Some (Add, u)]) e
    \<and> session (daemon_proxy ft wire display delivered) cmds \<lparr>tm_bus = (e, 0), tm_out = []\<rparr>
      = (replicate (length cmds) (Inr ()), \<lparr>tm_bus = S, tm_out = ls\<rparr>)"
proof -
  have "engine_step busy_idle start (Some cmd) (post cmd start)"
    using engine_step.step_post[of start cmd busy_idle] assms(3,5) event_command_external[OF assms(2)]
    by (simp add: has_room_def ENGINE_CHANNEL_CAPACITY_def post_def)
  from run_step[OF run_start this] have "engine_run busy_idle start [cmd] (post cmd start)" by simp
  then have "engine_run busy_idle start (run_udev_pump 1 [Some (Add, u)]) (settle 2 (post cmd start))"
    by (simp add: assms(2) settle_run)
  moreover have "served_keyboard (daemon_proxy ft wire display delivered :: (('w, 's) engine \<times> nat) clackd_proxy)
      (kb_ready serving dev h V) (kb_keys view h) dev V"
    by (rule on_the_bus)
  from served_keyboard.session_refines[OF this, of "\<lparr>tm_bus = (settle 2 (post cmd start), 0), tm_out = []\<rparr>" cmds ls m]
  have "\<exists>S. session (daemon_proxy ft wire display delivered) cmds \<lparr>tm_bus = (settle 2 (post cmd start), 0), tm_out = []\<rparr>
      = (replicate (length cmds) (Inr ()), \<lparr>tm_bus = S, tm_out = ls\<rparr>)"
    using assms(1,4,6,7) by auto
  ultimately show ?thesis by blast
qed

lemma boxed_left:
  "keyboard_task (left_ops ops) (case_sum healthy (\<lambda>_. False)) (case_sum view (\<lambda>_ _. 0)) V
    (\<lambda>s s'. case (s, s') of (Inl b, Inl b') \<Rightarrow> idle b b' | _ \<Rightarrow> False)"
proof
  fix s :: "'s + 'x" and l r c k
  assume "case_sum healthy (\<lambda>_. False) s"
  then obtain b where s: "s = Inl b" "healthy b" by (cases s) auto
  show "\<exists>s'. kd_commit_to_nvram (left_ops ops) s = (Inr (), s') \<and> case_sum healthy (\<lambda>_. False) s'
      \<and> case_sum view (\<lambda>_ _. 0) s' = case_sum view (\<lambda>_ _. 0) s"
    using commit_view[OF s(2)] by (auto simp: left_ops_def on_left_def s(1))
  show "case_sum healthy (\<lambda>_. False) s' \<and> case_sum view (\<lambda>_ _. 0) s' = case_sum view (\<lambda>_ _. 0) s"
    if "case (s, s') of (Inl b, Inl b') \<Rightarrow> idle b b' | _ \<Rightarrow> False" for s'
    using that idle_view[OF s(2)] by (cases s') (simp_all add: s(1))
  assume "(l, r, c) \<in> V"
  then show "\<exists>s'. kd_get_keycode (left_ops ops) l r c s = (Inr (case_sum view (\<lambda>_ _. 0) s (l, r, c)), s')
      \<and> case_sum healthy (\<lambda>_. False) s' \<and> case_sum view (\<lambda>_ _. 0) s' = case_sum view (\<lambda>_ _. 0) s"
    and "\<exists>s'. kd_set_keycode (left_ops ops) l r c k s = (Inr (), s') \<and> case_sum healthy (\<lambda>_. False) s'
      \<and> case_sum view (\<lambda>_ _. 0) s' = (case_sum view (\<lambda>_ _. 0) s)((l, r, c) := k)"
    using get_view[OF s(2), of l r c] set_view[OF s(2), of l r c k] by (auto simp: left_ops_def on_left_def s(1))
qed

lemma boxed_right:
  "keyboard_task (right_ops ops) (case_sum (\<lambda>_. False) healthy) (case_sum (\<lambda>_ _. 0) view) V
    (\<lambda>s s'. case (s, s') of (Inr b, Inr b') \<Rightarrow> idle b b' | _ \<Rightarrow> False)"
proof
  fix s :: "'x + 's" and l r c k
  assume "case_sum (\<lambda>_. False) healthy s"
  then obtain b where s: "s = Inr b" "healthy b" by (cases s) auto
  show "\<exists>s'. kd_commit_to_nvram (right_ops ops) s = (Inr (), s') \<and> case_sum (\<lambda>_. False) healthy s'
      \<and> case_sum (\<lambda>_ _. 0) view s' = case_sum (\<lambda>_ _. 0) view s"
    using commit_view[OF s(2)] by (auto simp: right_ops_def on_right_def s(1))
  show "case_sum (\<lambda>_. False) healthy s' \<and> case_sum (\<lambda>_ _. 0) view s' = case_sum (\<lambda>_ _. 0) view s"
    if "case (s, s') of (Inr b, Inr b') \<Rightarrow> idle b b' | _ \<Rightarrow> False" for s'
    using that idle_view[OF s(2)] by (cases s') (simp_all add: s(1))
  assume "(l, r, c) \<in> V"
  then show "\<exists>s'. kd_get_keycode (right_ops ops) l r c s = (Inr (case_sum (\<lambda>_ _. 0) view s (l, r, c)), s')
      \<and> case_sum (\<lambda>_. False) healthy s' \<and> case_sum (\<lambda>_ _. 0) view s' = case_sum (\<lambda>_ _. 0) view s"
    and "\<exists>s'. kd_set_keycode (right_ops ops) l r c k s = (Inr (), s') \<and> case_sum (\<lambda>_. False) healthy s'
      \<and> case_sum (\<lambda>_ _. 0) view s' = (case_sum (\<lambda>_ _. 0) view s)((l, r, c) := k)"
    using get_view[OF s(2), of l r c] set_view[OF s(2), of l r c k] by (auto simp: right_ops_def on_right_def s(1))
qed

end

interpretation via_box: keyboard_task "left_ops via_driver_ops" "case_sum (vd_healthy V H F) (\<lambda>_. False)"
    "case_sum (vd_view V) (\<lambda>_ _. 0)" V "\<lambda>s s'. case (s, s') of (Inl b, Inl b') \<Rightarrow> via_idle b b' | _ \<Rightarrow> False"
  for V :: "key_pos set" and H :: "u8 set" and F :: "bytes set"
  by (rule via_kt.boxed_left)

interpretation gmk_box: keyboard_task "right_ops gmk_driver_ops" "case_sum (\<lambda>_. False) gmk_healthy"
    "case_sum (\<lambda>_ _. 0) gmk_view" gmk_positions "\<lambda>s s'. case (s, s') of (Inr b, Inr b') \<Rightarrow> False | _ \<Rightarrow> False"
  by (rule gmk_kt.boxed_right)

section \<open>From the plug to the command line\<close>

lemma gmk_positions_fit:
  assumes "(l, r, c) \<in> gmk_positions"
  shows "topology_contains \<lparr>dt_matrix = \<lparr>km_rows = 5, km_cols = 15\<rparr>, dt_layer_count = 2\<rparr> l r c"
proof -
  from assms obtain ki where "key_index_for r c = Some ki" "keydef_command l \<noteq> None"
    by (auto simp: gmk_positions_def)
  with key_index_for_bounds[of r c ki] show ?thesis
    by (auto simp: topology_contains_def matrix_contains_def keydef_command_def word_less_nat_alt split: if_splits)
qed

text \<open>An entry for the GMK67 family without read-back, and a board under it that takes every frame.\<close>

definition ek68_entry :: "device_config \<Rightarrow> bool" where
  "ek68_entry dev \<longleftrightarrow> dc_driver dev = Some ''gmk67'' \<and> \<not> dc_sync_on_attach dev"

definition working_ek68 :: "('d, 'f) host \<Rightarrow> string \<Rightarrow> bool" where
  "working_ek68 w path \<longleftrightarrow> (\<exists>fd hw up. gn_open (ho_gmk_node w path) = Inr (fd, hw)
     \<and> probe_vendor_feature_interface (ho_gmk_node w path) = Inr ()
     \<and> board_takes_frames gmk_transport_io up
     \<and> up \<lparr>gt_fd = fd, gt_dev = hw, gt_device_id = device_id_of_path path, gt_timeout = GMK_TIMEOUT_MS\<rparr>)"

definition booted :: "(string list \<Rightarrow> string list) \<Rightarrow> nat option \<Rightarrow> device_config list \<Rightarrow> ('d, 'f) host
    \<Rightarrow> (('d, 'f) host, ('d, 'f) any_driver) engine" where
  "booted ord coalesce devs w = engine_start ord (build_driver_table coalesce (Config devs)) w"

lemma ek68_opened:
  fixes w :: "('d, 'f) host"
  assumes "ek68_entry cfg" and "working_ek68 w path"
  obtains d where
    "select_factory (build_driver_table coalesce (Config [cfg]) :: (('d, 'f) host, ('d, 'f) any_driver) driver_table) (dc_vid cfg) (dc_pid cfg) = Some (gmk67_factory False)"
    and "gmk67_factory False path w = (Inr \<lparr>bx_ops = right_ops gmk_driver_ops, bx_state = Inr d\<rparr>, w)"
    and "kd_get_matrix_dimensions (right_ops gmk_driver_ops) (Inr d :: ('d, 'f) any_driver) = (Inr (5, 15), Inr d)"
    and "kd_get_layer_count (right_ops gmk_driver_ops) (Inr d :: ('d, 'f) any_driver) = (Inr 2, Inr d)"
    and "gmk_healthy d" and "gmk_view d = (\<lambda>(l, r, c). shadow_get_keycode l r c (shadow_load (ho_os w) (ho_disk w) persist_id))"
proof -
  from assms(2) obtain fd hw up where board: "gn_open (ho_gmk_node w path) = Inr (fd, hw)"
    "probe_vendor_feature_interface (ho_gmk_node w path) = Inr ()" "board_takes_frames gmk_transport_io up"
    "up \<lparr>gt_fd = fd, gt_dev = hw, gt_device_id = device_id_of_path path, gt_timeout = GMK_TIMEOUT_MS\<rparr>"
    unfolding working_ek68_def by blast
  obtain d where new: "gmk_new (ho_os w) (ho_disk w) path (ho_gmk_node w path) (5, 15) 2 False = Inr d"
    and d: "gd_matrix d = (5, 15)" "gd_layers d = 2" "\<not> gd_sync_on_attach d" "gd_io d = gmk_transport_io"
      "gd_dev d = \<lparr>gt_fd = fd, gt_dev = hw, gt_device_id = device_id_of_path path, gt_timeout = GMK_TIMEOUT_MS\<rparr>"
      "gd_shadow d = shadow_load (ho_os w) (ho_disk w) persist_id"
    using board(1,2) by (simp add: gmk_new_def Let_def)
  have "gmk_healthy d" using board(3,4) d by (auto simp: gmk_healthy_def gmk_up_def)
  with new d assms(1) show thesis
    by (intro that[of d])
       (simp_all add: select_factory_def build_driver_table_def register_device_def ek68_entry_def gmk67_factory_def
          EK68_MATRIX_def EK68_LAYERS_def right_ops_def on_right_def gmk_driver_ops_def gd_get_matrix_dimensions_def
          maybe_sync_on_attach_def gd_get_layer_count_def gmk_view_def)
qed

lemma ek68_attached:
  fixes w :: "('d, 'f) host"
  assumes "ek68_entry cfg" and "working_ek68 w path" and "reorders ord"
  obtains h where "kb_ready gmk_box.serving dev h gmk_positions
      (settle 2 (post (DeviceConnected dev (dc_vid cfg) (dc_pid cfg) path) (booted ord coalesce [cfg] w)), 0)"
    and "kb_keys (case_sum (\<lambda>_ _. 0) gmk_view) h
      (settle 2 (post (DeviceConnected dev (dc_vid cfg) (dc_pid cfg) path) (booted ord coalesce [cfg] w)), 0)
      = (\<lambda>(l, r, c). shadow_get_keycode l r c (shadow_load (ho_os w) (ho_disk w) persist_id))"
    and "devices (settle 2 (post (DeviceConnected dev (dc_vid cfg) (dc_pid cfg) path) (booted ord coalesce [cfg] w)))
      = [dev \<mapsto> h]"
proof -
  let ?e = "booted ord coalesce [cfg] w"
  obtain d where opened: "select_factory (build_driver_table coalesce (Config [cfg]) :: (('d, 'f) host, ('d, 'f) any_driver) driver_table) (dc_vid cfg) (dc_pid cfg) = Some (gmk67_factory False)"
    "gmk67_factory False path w = (Inr \<lparr>bx_ops = right_ops gmk_driver_ops, bx_state = Inr d\<rparr>, w)"
    and asked: "kd_get_matrix_dimensions (right_ops gmk_driver_ops) (Inr d :: ('d, 'f) any_driver) = (Inr (5, 15), Inr d)"
    "kd_get_layer_count (right_ops gmk_driver_ops) (Inr d :: ('d, 'f) any_driver) = (Inr 2, Inr d)"
    and d: "gmk_healthy d" "gmk_view d = (\<lambda>(l, r, c). shadow_get_keycode l r c (shadow_load (ho_os w) (ho_disk w) persist_id))"
    by (rule ek68_opened[OF assms(1,2), of coalesce])
  have factory: "select_factory (en_table ?e) (dc_vid cfg) (dc_pid cfg) = Some (gmk67_factory False)"
    "gmk67_factory False path (en_world ?e) = (Inr \<lparr>bx_ops = right_ops gmk_driver_ops, bx_state = Inr d\<rparr>, w)"
    using opened by (simp_all add: booted_def engine_start_def)
  have "resting (?e, 0)" unfolding booted_def by (rule resting_start[OF assms(3)])
  have none: "devices ?e = Map.empty" by (simp add: booted_def engine_start_def devices_def)
  obtain h where
    "serves dev h (settle 2 (post (DeviceConnected dev (dc_vid cfg) (dc_pid cfg) path) ?e), 0)"
    "ch_worker (en_channels (settle 2 (post (DeviceConnected dev (dc_vid cfg) (dc_pid cfg) path) ?e)) ! dh_tx h)
      = worker_start dev \<lparr>bx_ops = right_ops gmk_driver_ops, bx_state = Inr d\<rparr>"
    "dh_topology h = \<lparr>dt_matrix = \<lparr>km_rows = 5, km_cols = 15\<rparr>, dt_layer_count = 2\<rparr>"
    "devices (settle 2 (post (DeviceConnected dev (dc_vid cfg) (dc_pid cfg) path) ?e)) = [dev \<mapsto> h]"
    by (rule connect_serves[OF \<open>resting (?e, 0)\<close> _ factory, of dev 5 15 "Inr d" 2 "Inr d"]) (use asked none in simp_all)
  then show thesis
    using d gmk_positions_fit by (intro that[of h]) (auto simp: kb_ready_def kb_keys_def worker_start_def)
qed

text \<open>C1. The stack as a whole is a keymap: configure an EK68, plug in a board that takes frames, and let the
  udev event through the supervisor; then any session of \<open>clackctl get\<close>, \<open>set\<close> and \<open>commit\<close> on its physical
  keys, through D-Bus frontend, engine, worker and driver, prints exactly what a plain keymap prescribes
  that starts as the persisted shadow, with every invocation a success. The schedule is a run of the engine.\<close>

theorem clackctl_edits_a_plugged_in_ek68:
  assumes "ek68_entry cfg" and "working_ek68 w path" and "reorders ord"
    and "event_to_command (Add, u) = Some (DeviceConnected dev (dc_vid cfg) (dc_pid cfg) path)"
    and "list_all (about dev gmk_positions) cmds"
    and "session_on_keymap cmds (\<lambda>(l, r, c). shadow_get_keycode l r c (shadow_load (ho_os w) (ho_disk w) persist_id)) = Some (ls, m)"
  shows "\<exists>e S. engine_run idle (booted ord coalesce [cfg] w) (run_udev_pump 1 [Some (Add, u)]) e
    \<and> session (daemon_proxy ft wire display delivered) cmds \<lparr>tm_bus = (e, 0), tm_out = []\<rparr>
      = (replicate (length cmds) (Inr ()), \<lparr>tm_bus = S, tm_out = ls\<rparr>)"
proof -
  let ?cmd = "DeviceConnected dev (dc_vid cfg) (dc_pid cfg) path" and ?start = "booted ord coalesce [cfg] w"
  obtain h where h: "kb_ready gmk_box.serving dev h gmk_positions (settle 2 (post ?cmd ?start), 0)"
    "kb_keys (case_sum (\<lambda>_ _. 0) gmk_view) h (settle 2 (post ?cmd ?start), 0)
      = (\<lambda>(l, r, c). shadow_get_keycode l r c (shadow_load (ho_os w) (ho_disk w) persist_id))"
    using ek68_attached[OF assms(1-3)] by blast
  show ?thesis
    by (rule gmk_box.plugged_session[OF h(1) assms(4) _ assms(5) _ h(2) assms(6)])
       (simp_all add: booted_def engine_start_def)
qed

definition yes_fd :: "unit feature_fd" where
  "yes_fd = \<lparr>ff_hidiocsfeature = (\<lambda>_ _ d. (IoctlDone (), d)), ff_hidiocgfeature = (\<lambda>_ _ d. (IoctlDone [], d))\<rparr>"

definition ek68_host :: "(unit, unit) host" where
  "ek68_host =
     \<lparr>ho_via_node = (\<lambda>_. \<lparr>hn_open = Inl 2, hn_desc_size = Inl 2, hn_desc = (\<lambda>_. Inl 2), hn_register = Inr ()\<rparr>),
      ho_gmk_node = (\<lambda>_. \<lparr>gn_open = Inr (yes_fd, ()), gn_desc_size = Inr 4,
         gn_desc = (\<lambda>_. Inr (4, [0x95, 0x40, 0xB1, 0x02]))\<rparr>),
      ho_os = null_disk, ho_disk = (), ho_now = 0, ho_key_order = (\<lambda>xs. xs), ho_channel_order = (\<lambda>xs. xs)\<rparr>"

definition ek68_config :: device_config where
  "ek68_config = \<lparr>dc_vid = 0x05AC, dc_pid = 0x024F, dc_rows = 5, dc_cols = 15, dc_layer_count_override = None,
     dc_driver = Some ''gmk67'', dc_sync_on_attach = False\<rparr>"

lemma ek68_host_works: "working_ek68 ek68_host path"
proof -
  have "probe_vendor_feature_interface (ho_gmk_node ek68_host path) = Inr ()"
  proof -
    have "descriptor_has_feature_report [0x95, 0x40, 0xB1, 0x02] 64 = Some True" by code_simp
    then show ?thesis by (simp add: probe_vendor_feature_interface_def ek68_host_def FRAME_LEN_def)
  qed
  moreover have "board_takes_frames gmk_transport_io (\<lambda>t. gt_fd t = yes_fd)"
    by (auto simp: board_takes_frames_def gmk_transport_io_def gt_set_feature_def gt_get_feature_def yes_fd_def Let_def)
  ultimately show ?thesis unfolding working_ek68_def by (fastforce simp: ek68_host_def)
qed

theorem configured_matrix_is_ignored_witness:
  "\<exists>factory d w'. dc_rows (ek68_config\<lparr>dc_rows := 4, dc_cols := 12\<rparr>) = 4
    \<and> select_factory (build_driver_table None (Config [ek68_config\<lparr>dc_rows := 4, dc_cols := 12\<rparr>])) 0x05AC 0x024F
        = Some factory
    \<and> factory ''/dev/hidraw1'' ek68_host = (Inr \<lparr>bx_ops = right_ops gmk_driver_ops, bx_state = Inr d\<rparr>, w')
    \<and> gd_matrix d = (5, 15)"
proof -
  let ?devs = "[ek68_config]" and ?f = "\<lambda>_. 4" and ?g = "\<lambda>_. 12" and ?k = "\<lambda>_. None :: u8 option"
  let ?table = "build_driver_table None (Config ?devs) :: ((unit, unit) host, (unit, unit) any_driver) driver_table"
  have "probe_vendor_feature_interface (ho_gmk_node ek68_host ''/dev/hidraw1'') = Inr ()"
    using ek68_host_works[of "''/dev/hidraw1''"] by (auto simp: working_ek68_def)
  then obtain d w' where opened: "gmk67_factory False ''/dev/hidraw1'' ek68_host
      = (Inr \<lparr>bx_ops = right_ops gmk_driver_ops, bx_state = Inr d\<rparr>, w')"
    by (simp add: gmk67_factory_def gmk_new_def ek68_host_def EK68_MATRIX_def Let_def)
  have picked: "select_factory ?table 0x05AC 0x024F = Some (gmk67_factory False)"
    by (simp add: select_factory_def build_driver_table_def register_device_def ek68_config_def)
  note ignored = configured_matrix_is_ignored[where coalesce = None and f = ?f and g = ?g and k = ?k and devs = ?devs
      and vid = "0x05AC" and pid = "0x024F" and factory = "gmk67_factory False" and path = "''/dev/hidraw1''" and w = ek68_host
      and b = "\<lparr>bx_ops = right_ops gmk_driver_ops, bx_state = Inr d\<rparr>" and w' = w']
  from ignored picked opened have "gd_matrix d = (5, 15)" by (auto dest: conjunct2)
  moreover have "map (\<lambda>dev. dev\<lparr>dc_rows := ?f dev, dc_cols := ?g dev, dc_layer_count_override := ?k dev\<rparr>) ?devs
      = [ek68_config\<lparr>dc_rows := 4, dc_cols := 12\<rparr>]"
    by (simp add: ek68_config_def)
  from conjunct1[OF ignored, unfolded this]
  have "build_driver_table None (Config [ek68_config\<lparr>dc_rows := 4, dc_cols := 12\<rparr>]) = ?table" .
  ultimately show ?thesis using picked opened by auto
qed

theorem clackctl_edits_a_plugged_in_ek68_witness:
  "\<exists>e S ls. engine_run (\<lambda>_ _. False) (booted (\<lambda>xs. xs) None [ek68_config] ek68_host)
      [DeviceConnected ''hidraw1'' 0x05AC 0x024F ''/dev/hidraw1''] e
    \<and> session (daemon_proxy \<lparr>ft_io = (\<lambda>_. []), ft_recv = [], ft_elapsed = []\<rparr> standard_wire (\<lambda>_. []) [])
        [Set ''hidraw1'' 0 1 1 ''a'', Commit ''hidraw1'', Get ''hidraw1'' 0 1 1] \<lparr>tm_bus = (e, 0), tm_out = []\<rparr>
      = ([Inr (), Inr (), Inr ()], \<lparr>tm_bus = S, tm_out = ls @ [''KC_A (0x0004)'']\<rparr>)"
proof -
  let ?cmds = "[Set ''hidraw1'' 0 1 1 ''a'', Commit ''hidraw1'', Get ''hidraw1'' 0 1 1]"
  let ?m = "\<lambda>(l, r, c). shadow_get_keycode l r c (shadow_load (ho_os ek68_host) (ho_disk ek68_host) persist_id)"
  have a: "parse_key ''a'' = Inr 4" "describe 4 = ''KC_A (0x0004)''" by code_simp+
  have entry: "ek68_entry ek68_config" by (simp add: ek68_entry_def ek68_config_def)
  have ev: "event_to_command (Add, ek68_usb)
      = Some (DeviceConnected ''hidraw1'' (dc_vid ek68_config) (dc_pid ek68_config) ''/dev/hidraw1'')"
    by (simp add: ek68_connects ek68_config_def)
  have "keydef_command 0 \<noteq> None" "key_index_for 1 1 \<noteq> None" by code_simp+
  then have keys: "list_all (about ''hidraw1'' gmk_positions) ?cmds" by (simp add: gmk_positions_def)
  have "\<exists>ls m. session_on_keymap ?cmds ?m = Some (ls @ [''KC_A (0x0004)''], m)" by (simp add: a)
  then obtain ls m where printed: "session_on_keymap ?cmds ?m = Some (ls @ [''KC_A (0x0004)''], m)" by blast
  from clackctl_edits_a_plugged_in_ek68[OF entry ek68_host_works reorders_id ev keys printed, of "\<lambda>_ _. False" None
      "\<lparr>ft_io = (\<lambda>_. []), ft_recv = [], ft_elapsed = []\<rparr>" standard_wire "\<lambda>_. []" "[]"]
  obtain e S where run: "engine_run (\<lambda>_ _. False) (booted (\<lambda>xs. xs) None [ek68_config] ek68_host)
      (run_udev_pump 1 [Some (Add, ek68_usb)]) e"
    and out: "session (daemon_proxy \<lparr>ft_io = (\<lambda>_. []), ft_recv = [], ft_elapsed = []\<rparr> standard_wire (\<lambda>_. []) [])
        ?cmds \<lparr>tm_bus = (e, 0), tm_out = []\<rparr>
      = (replicate (length ?cmds) (Inr ()), \<lparr>tm_bus = S, tm_out = ls @ [''KC_A (0x0004)'']\<rparr>)" by blast
  have "run_udev_pump 1 [Some (Add, ek68_usb)] = [DeviceConnected ''hidraw1'' 0x05AC 0x024F ''/dev/hidraw1'']"
    by (simp add: ek68_connects)
  moreover have "replicate (length ?cmds) (Inr ()) = [Inr (), Inr (), Inr ()]" by simp
  ultimately show ?thesis using run out by metis
qed

section \<open>Product names\<close>

text \<open>The supervisor answers every identity with an empty product name.\<close>

lemma identity_has_no_name:
  assumes "resting (tm_bus t)"
  shows "\<exists>S. name_matches (daemon_proxy ft wire display delivered) needle i t
      = (Inr (if contains (ascii_lower i) needle \<or> needle = [] then [i] else []), t\<lparr>tm_bus := S\<rparr>) \<and> resting S"
proof -
  obtain e n where t: "tm_bus t = (e, n)" by fastforce
  let ?r = "case devices e i of Some h \<Rightarrow> Inr (dh_vendor_id h, dh_product_id h, []) | None \<Rightarrow> Inl (DeviceNotFound i)"
  note asked = ask_metadata[OF assms[unfolded t], of "GetDeviceIdentity i" "AnsIdentity ?r" as_identity ?r]
  have "ask daemon_port (GetDeviceIdentity i) as_identity (e, n) = (Inr ?r, (answer n (AnsIdentity ?r) e, n + 1))"
    by (rule asked(1)) simp_all
  moreover have "resting (answer n (AnsIdentity ?r) e, n + 1)" by (rule asked(2)) simp_all
  ultimately show ?thesis
    by (intro exI[of _ "(answer n (AnsIdentity ?r) e, n + 1)"])
       (cases "devices e i", simp_all add: name_matches_def try_call_def daemon_proxy_def get_device_identity_def
          ask_res_def over_the_wire_def andthen_def lift_res_def ok_def t ascii_lower_def)
qed

text \<open>C25. A product name never finds a keyboard: the documentation of \<open>clackctl\<close> lets a device be named by a
  part of its USB product name, but the daemon always answers an empty name, so on every daemon at rest an
  argument that is no id, no number and no part of an id is refused, whatever keyboards are attached.\<close>

theorem product_names_find_no_keyboard:
  assumes "resting (e, n)" and "spec \<noteq> []" and "from_str_radix (2 ^ 64) 10 spec = None"
    and "\<forall>i. devices e i \<noteq> None \<longrightarrow> \<not> contains (ascii_lower i) (ascii_lower spec)"
  shows "\<exists>m S. resolve_device (daemon_proxy ft wire display delivered) spec \<lparr>tm_bus = (e, n), tm_out = out\<rparr>
      = (Inl (Msg (''no keyboard matching '' @ m)), \<lparr>tm_bus = S, tm_out = out\<rparr>)"
proof -
  let ?p = "daemon_proxy ft wire display delivered :: (('a, 'b) engine \<times> nat) clackd_proxy" and ?t = "\<lparr>tm_bus = (e, n), tm_out = out\<rparr>"
  let ?ids = "sort (hm_keys (rg_devices (en_registry e)))" and ?needle = "ascii_lower spec"
  have ids: "\<not> contains (ascii_lower i) ?needle" if "i \<in> set ?ids" for i
    using that assms(1,4) by (auto simp: resting_def set_hm_keys devices_def)
  have needle: "?needle \<noteq> []" using assms(2) by (simp add: ascii_lower_def)
  have no: "spec \<notin> set ?ids"
  proof
    assume "spec \<in> set ?ids"
    moreover have "contains ?needle ?needle" unfolding contains_iff by (intro exI[of _ "[]"]) simp
    ultimately show False using ids by blast
  qed
  have "ask daemon_port ListDevices as_ids (e, n) = (Inr ?ids, (answer n (AnsIds ?ids) e, n + 1))"
    and rest: "resting (answer n (AnsIds ?ids) e, n + 1)"
    by (rule ask_metadata[OF assms(1), of ListDevices "AnsIds ?ids" as_ids ?ids]; simp)+
  then have "px_list_devices ?p (tm_bus ?t) = (Inr ?ids, (answer n (AnsIds ?ids) e, n + 1))"
    by (simp add: daemon_proxy_def list_devices_def over_the_wire_def)
  from call_Inr[where m = "px_list_devices ?p", OF this]
  have listed: "call (px_list_devices ?p) ?t = (Inr ?ids, ?t\<lparr>tm_bus := (answer n (AnsIds ?ids) e, n + 1)\<rparr>)" .
  let ?P = "\<lambda>t. resting (tm_bus t) \<and> tm_out t = out"
  have round: "\<exists>t'. name_matches ?p ?needle i t = (Inr (if contains (ascii_lower i) ?needle then [i] else []), t') \<and> ?P t'"
    if "?P t" for i t
    using identity_has_no_name[of t ft wire display delivered ?needle i] that needle by auto
  have "?P (?t\<lparr>tm_bus := (answer n (AnsIds ?ids) e, n + 1)\<rparr>)" using rest by simp
  from for_each_keeps[where P = ?P and xs = ?ids and f = "name_matches ?p ?needle"
      and g = "\<lambda>i. if contains (ascii_lower i) ?needle then [i] else []", OF round this] obtain t' where
    loop: "for_each ?ids (name_matches ?p ?needle) (?t\<lparr>tm_bus := (answer n (AnsIds ?ids) e, n + 1)\<rparr>)
      = (Inr (map (\<lambda>i. if contains (ascii_lower i) ?needle then [i] else []) ?ids), t')" "?P t'" by blast
  have none: "concat (map (\<lambda>i. if contains (ascii_lower i) ?needle then [i] else []) ?ids) = []"
    using ids by simp
  have "resolve_device ?p spec ?t = throw (Msg (''no keyboard matching '' @ [CHR 0x27] @ spec @ [CHR 0x27] @ '' (available: '' @
      (if ?ids = [] then ''none connected'' else join '', '' ?ids) @ '')'')) t'"
    unfolding resolve_device_def andthen_def listed using no assms(3) loop(1) by (simp add: none)
  moreover have "t' = \<lparr>tm_bus = tm_bus t', tm_out = out\<rparr>" using loop(2) by simp
  ultimately show ?thesis unfolding throw_def by (metis append.assoc)
qed

theorem product_names_find_no_keyboard_witness:
  "\<exists>e m S. engine_run (\<lambda>_ _. False) (booted (\<lambda>xs. xs) None [ek68_config] ek68_host)
      [DeviceConnected ''hidraw1'' 0x05AC 0x024F ''/dev/hidraw1''] e \<and> devices e ''hidraw1'' \<noteq> None
    \<and> resolve_device (daemon_proxy \<lparr>ft_io = (\<lambda>_. []), ft_recv = [], ft_elapsed = []\<rparr> standard_wire (\<lambda>_. []) [])
        ''EK68'' \<lparr>tm_bus = (e, 0), tm_out = []\<rparr>
      = (Inl (Msg (''no keyboard matching '' @ m)), \<lparr>tm_bus = S, tm_out = []\<rparr>)"
proof -
  let ?start = "booted (\<lambda>xs. xs) None [ek68_config] ek68_host"
    and ?cmd = "DeviceConnected ''hidraw1'' (dc_vid ek68_config) (dc_pid ek68_config) ''/dev/hidraw1''"
  let ?e = "settle 2 (post ?cmd ?start)"
  have entry: "ek68_entry ek68_config" by (simp add: ek68_entry_def ek68_config_def)
  obtain h where h: "kb_ready gmk_box.serving ''hidraw1'' h gmk_positions (?e, 0)"
    and devs: "devices ?e = [''hidraw1'' \<mapsto> h]"
    by (rule ek68_attached[OF entry ek68_host_works reorders_id, of "''hidraw1''" "''/dev/hidraw1''" None]) (rule that)
  from h have rest: "resting (?e, 0)" by (simp add: kb_ready_def serves_def)
  have "\<not> contains (ascii_lower ''hidraw1'') (ascii_lower ''EK68'')" by code_simp
  then have other: "\<forall>i. devices ?e i \<noteq> None \<longrightarrow> \<not> contains (ascii_lower i) (ascii_lower ''EK68'')"
    by (simp add: devs)
  have word: "from_str_radix (2 ^ 64) 10 ''EK68'' = None"
    by (simp add: from_str_radix_def digit_val_def chr_code_def)
  from product_names_find_no_keyboard[OF rest _ word other]
  obtain m S where refused: "resolve_device (daemon_proxy \<lparr>ft_io = (\<lambda>_. []), ft_recv = [], ft_elapsed = []\<rparr> standard_wire (\<lambda>_. []) [])
        ''EK68'' \<lparr>tm_bus = (?e, 0), tm_out = []\<rparr>
      = (Inl (Msg (''no keyboard matching '' @ m)), \<lparr>tm_bus = S, tm_out = []\<rparr>)" by blast
  have "engine_step (\<lambda>_ _. False) ?start (Some ?cmd) (post ?cmd ?start)"
    using engine_step.step_post[of ?start ?cmd]
    by (simp add: booted_def engine_start_def has_room_def ENGINE_CHANNEL_CAPACITY_def post_def)
  from settle_run[OF run_step[OF run_start this]]
  have "engine_run (\<lambda>_ _. False) ?start [DeviceConnected ''hidraw1'' 0x05AC 0x024F ''/dev/hidraw1''] ?e"
    by (simp add: ek68_config_def)
  with refused devs show ?thesis by (intro exI[of _ ?e] exI[of _ m] exI[of _ S]) simp
qed

end
