(* ===== verification/Via_Boot.thy ===== *)
theory Via_Boot
  imports Boot_Claims
begin

text \<open>
  A VIA board is plugged in: the node is opened and probed, the firmware is asked for its protocol
  version and its layers, and the keyboard is then edited from the command line, with or without write
  coalescing.
\<close>

section \<open>What a VIA board reports at attach time\<close>

text \<open>The documented answers to the two queries: the command byte back, then the version, or the count.\<close>

definition via_reports :: "'d hidraw \<Rightarrow> nat \<Rightarrow> ('d \<Rightarrow> bool) \<Rightarrow> ('d \<Rightarrow> key_pos \<Rightarrow> u16) \<Rightarrow> u8 \<Rightarrow> bool" where
  "via_reports hw ms ready km n \<longleftrightarrow> (\<forall>d. ready d \<longrightarrow>
     (\<exists>resp d'. exchange hw ms (req_frame [0x01]) d = (Inr resp, d') \<and> take 1 resp = [0x01]
        \<and> ready d' \<and> km d' = km d)
   \<and> (\<exists>resp d'. exchange hw ms (req_frame [0x11]) d = (Inr resp, d') \<and> resp ! 0 = 0x11 \<and> resp ! 1 = n
        \<and> ready d' \<and> km d' = km d))"

abbreviation opened_at :: "'d hidraw \<Rightarrow> 'd \<Rightarrow> string \<Rightarrow> 'd via_transport" where
  "opened_at hw dev i \<equiv> via_transport_on hw dev i DEFAULT_TIMEOUT_MS"

lemma via_version_reported:
  assumes "via_reports hw DEFAULT_TIMEOUT_MS ready km n" and "ready dev"
  shows "\<exists>v dev'. (\<forall>i. via_get_protocol_version (opened_at hw dev i) = (Inr v, opened_at hw dev' i))
    \<and> ready dev' \<and> km dev' = km dev"
proof -
  from assms obtain resp dev' where x: "exchange hw DEFAULT_TIMEOUT_MS (req_frame [0x01]) dev = (Inr resp, dev')"
    "take 1 resp = [0x01]" "ready dev'" "km dev' = km dev"
    unfolding via_reports_def by blast
  have "via_get_protocol_version (opened_at hw dev i)
      = (Inr (u16_of (resp ! 1) (resp ! 2)), opened_at hw dev' i)" for i
    using roundtrip_Inr[of "opened_at hw dev i" "req_frame [0x01]" resp dev'] x(1)
    by (simp add: via_get_protocol_version_def andthen_def lift_res_def ok_def validate_echo_take[OF x(2)]
        ID_GET_PROTOCOL_VERSION_def via_transport_on_def)
  with x(3,4) show ?thesis by blast
qed

lemma via_layers_reported:
  assumes "via_reports hw DEFAULT_TIMEOUT_MS ready km n" and "ready dev"
  shows "\<exists>dev'. (\<forall>i. via_get_layer_count (opened_at hw dev i) = (Inr n, opened_at hw dev' i))
    \<and> ready dev' \<and> km dev' = km dev"
proof -
  from assms obtain resp dev' where x: "exchange hw DEFAULT_TIMEOUT_MS (req_frame [0x11]) dev = (Inr resp, dev')"
    "resp ! 0 = 0x11" "resp ! 1 = n" "ready dev'" "km dev' = km dev"
    unfolding via_reports_def by blast
  have "via_get_layer_count (opened_at hw dev i) = (Inr n, opened_at hw dev' i)" for i
    using roundtrip_Inr[of "opened_at hw dev i" "req_frame [0x11]" resp dev'] x(1-3)
    by (simp add: via_get_layer_count_def andthen_def ok_def ID_DYNAMIC_KEYMAP_GET_LAYER_COUNT_def via_transport_on_def)
  with x(4,5) show ?thesis by blast
qed

section \<open>The driver up to its registration\<close>

text \<open>The driver has only asked questions so far: nothing is buffered and no channel was touched.\<close>

definition idle_at :: "'d hidraw \<Rightarrow> 'd \<Rightarrow> 'd via_driver \<Rightarrow> bool" where
  "idle_at hw dev d \<longleftrightarrow>
     (\<exists>i cord. reorders cord \<and> vd_inner d = Direct (opened_at hw dev i) (hs_new cord))
   \<or> (\<exists>i ms lc kord cord. reorders kord \<and> reorders cord
        \<and> vd_inner d = Coalesced (Some (run_coalescer_init (opened_at hw dev i) ms i lc kord cord)))"

lemma idle_atI:
  "reorders cord \<Longrightarrow> vd_inner d = Direct (opened_at hw dev i) (hs_new cord) \<Longrightarrow> idle_at hw dev d"
  "reorders kord \<Longrightarrow> reorders cord
    \<Longrightarrow> vd_inner d = Coalesced (Some (run_coalescer_init (opened_at hw dev i) ms i lc kord cord)) \<Longrightarrow> idle_at hw dev d"
  unfolding idle_at_def by blast+

lemma freshly_opened_idle:
  assumes "freshly_opened node d" and "hn_open node = Inr (hw, dev)"
  shows "idle_at hw dev d"
  by (rule freshly_opened_cases[OF assms]) (blast intro: idle_atI)+

lemma idle_healthy:
  assumes "idle_at hw dev d" and "via_firmware hw DEFAULT_TIMEOUT_MS V H ready km"
    and "answers_also hw DEFAULT_TIMEOUT_MS F ready km" and "ready dev"
  shows "vd_healthy V H F d \<and> vd_view V d = (\<lambda>p. if p \<in> V then km dev p else 0)"
proof -
  have "vt_healthy V H F (opened_at hw dev i)" "vt_view V (opened_at hw dev i) = (\<lambda>p. if p \<in> V then km dev p else 0)" for i
    using vt_view_firmware[of "opened_at hw dev i" V H ready km] assms(2-4)
    by (auto simp: vt_healthy_def via_transport_on_def)
  with assms(1) show ?thesis
    by (auto simp: idle_at_def vd_healthy_def vd_view_def run_coalescer_init_def via_tr.co_good_def
        via_tr.co_view_def co_wf_def)
qed

text \<open>A question that leaves the transport open at another state of the device.\<close>

lemma idle_asks:
  assumes "idle_at hw dev d" and "\<And>i. m (opened_at hw dev i) = (Inr x, opened_at hw dev' i)"
    and "\<And>now c. proj (fst (co_handle via_transport_ops now op c)) = fst (m (co_transport c))"
    and "\<And>now c. snd (co_handle via_transport_ops now op c) = c\<lparr>co_transport := snd (m (co_transport c))\<rparr>"
  shows "\<exists>d'. via_dispatch m proj op d = (Inr x, d') \<and> idle_at hw dev' d' \<and> vd_matrix d' = vd_matrix d"
  using assms(1)[unfolded idle_at_def]
proof (elim disjE exE conjE)
  fix i cord
  assume "reorders cord" "vd_inner d = Direct (opened_at hw dev i) (hs_new cord)"
  then show ?thesis by (auto simp: via_dispatch_def direct_def assms(2) intro: idle_atI)
next
  fix i ms lc kord cord
  let ?c = "\<lambda>dev. run_coalescer_init (opened_at hw dev i) ms i lc kord cord"
  assume "reorders kord" "reorders cord" "vd_inner d = Coalesced (Some (?c dev))"
  moreover have "co_handle via_transport_ops (vd_now d) op (?c dev) = (fst (co_handle via_transport_ops (vd_now d) op (?c dev)), ?c dev')"
    using assms(4)[of "vd_now d" "?c dev"] by (simp add: prod_eq_iff run_coalescer_init_def assms(2))
  moreover have "proj (fst (co_handle via_transport_ops (vd_now d) op (?c dev))) = Inr x"
    using assms(3)[of "vd_now d" "?c dev"] by (simp add: run_coalescer_init_def assms(2))
  ultimately show ?thesis
    by (auto simp: via_dispatch_def relay_def intro: idle_atI split: prod.splits)
qed

lemma idle_version:
  assumes "idle_at hw dev d" and "via_reports hw DEFAULT_TIMEOUT_MS ready km n" and "ready dev"
  shows "\<exists>v dev' d'. ensure_protocol_version d = (Inr v, d') \<and> idle_at hw dev' d' \<and> ready dev' \<and> km dev' = km dev
    \<and> vd_matrix d' = vd_matrix d"
proof (cases "vd_protocol_version d")
  case None
  obtain v dev' where q: "\<forall>i. via_get_protocol_version (opened_at hw dev i) = (Inr v, opened_at hw dev' i)"
    "ready dev'" "km dev' = km dev"
    using via_version_reported[OF assms(2,3)] by blast
  have "\<exists>d'. via_dispatch via_get_protocol_version reply_u16 CoGetProtocolVersion d = (Inr v, d') \<and> idle_at hw dev' d'
      \<and> vd_matrix d' = vd_matrix d"
    by (rule idle_asks[OF assms(1) q(1)[rule_format]])
       (simp_all add: reply_with_def co_forward_def via_transport_ops_def split: prod.split)
  then obtain d' where "via_dispatch via_get_protocol_version reply_u16 CoGetProtocolVersion d = (Inr v, d')"
    "idle_at hw dev' d'" "vd_matrix d' = vd_matrix d" by blast
  with None q(2,3) show ?thesis
    by (intro exI[of _ v] exI[of _ dev'] exI[of _ "d'\<lparr>vd_protocol_version := Some v\<rparr>"])
      (simp add: ensure_protocol_version_def andthen_def idle_at_def)
next
  case (Some v)
  with assms(1,3) show ?thesis by (auto simp: ensure_protocol_version_def)
qed

lemma idle_topology:
  assumes "idle_at hw dev d" and "via_reports hw DEFAULT_TIMEOUT_MS ready km n" and "ready dev"
  shows "\<exists>d1 d2 dev'. vd_get_matrix_dimensions d = (Inr (vd_matrix d), d1) \<and> vd_get_layer_count d1 = (Inr n, d2)
    \<and> idle_at hw dev' d2 \<and> ready dev' \<and> km dev' = km dev"
proof -
  from idle_version[OF assms] obtain v dev1 d1 where d1: "ensure_protocol_version d = (Inr v, d1)" "idle_at hw dev1 d1"
    "ready dev1" "km dev1 = km dev" "vd_matrix d1 = vd_matrix d" by blast
  from idle_version[OF d1(2) assms(2) d1(3)] obtain v' dev2 d2 where
    d2: "ensure_protocol_version d1 = (Inr v', d2)" "idle_at hw dev2 d2" "ready dev2" "km dev2 = km dev1" by blast
  obtain dev3 where q: "\<forall>i. via_get_layer_count (opened_at hw dev2 i) = (Inr n, opened_at hw dev3 i)"
    "ready dev3" "km dev3 = km dev2"
    using via_layers_reported[OF assms(2) d2(3)] by blast
  have "\<exists>d3. via_dispatch via_get_layer_count reply_u8 CoGetLayerCount d2 = (Inr n, d3) \<and> idle_at hw dev3 d3
      \<and> vd_matrix d3 = vd_matrix d2"
    by (rule idle_asks[OF d2(2) q(1)[rule_format]])
       (simp_all add: reply_with_def co_forward_def via_transport_ops_def split: prod.split)
  with d1 d2 q show ?thesis
    by (auto simp: vd_get_matrix_dimensions_def vd_get_layer_count_def andthen_def)
qed

section \<open>From the plug to the command line\<close>

text \<open>
  A node with a VIA firmware behind it that stores the positions \<open>V\<close> on \<open>n\<close> layers, holding the keymap \<open>m\<close>. It
  saves the lighting channels \<open>H\<close> and answers the requests \<open>F\<close>; to edit keys neither matters.
\<close>

definition answering_via :: "('d, 'f) host \<Rightarrow> string \<Rightarrow> key_pos set \<Rightarrow> u8 set \<Rightarrow> bytes set \<Rightarrow> u8 \<Rightarrow> (key_pos \<Rightarrow> u16) \<Rightarrow> bool" where
  "answering_via w path V H F n m \<longleftrightarrow> (\<exists>hw dev ready km. hn_open (ho_via_node w path) = Inr (hw, dev)
     \<and> probe_via_usage_page (ho_via_node w path) = Inr () \<and> hn_register (ho_via_node w path) = Inr ()
     \<and> via_firmware hw DEFAULT_TIMEOUT_MS V H ready km \<and> answers_also hw DEFAULT_TIMEOUT_MS F ready km
     \<and> via_reports hw DEFAULT_TIMEOUT_MS ready km n \<and> ready dev
     \<and> reorders (ho_key_order w) \<and> reorders (ho_channel_order w) \<and> m = (\<lambda>p. if p \<in> V then km dev p else 0)
     \<and> (\<forall>(l, r, c) \<in> V. l < n \<and> r < 16 \<and> c < 16))"

definition working_via :: "('d, 'f) host \<Rightarrow> string \<Rightarrow> key_pos set \<Rightarrow> u8 \<Rightarrow> (key_pos \<Rightarrow> u16) \<Rightarrow> bool" where
  "working_via w path V n m \<longleftrightarrow> (\<exists>H. answering_via w path V H {} n m)"

text \<open>No entry sends the board to the other driver; it may have no entry at all.\<close>

definition via_entries :: "device_config list \<Rightarrow> u16 \<Rightarrow> u16 \<Rightarrow> bool" where
  "via_entries devs vid pid \<longleftrightarrow> (\<forall>dev \<in> set devs. dc_vid dev = vid \<and> dc_pid dev = pid
     \<longrightarrow> dc_driver dev \<noteq> Some ''gmk67'' \<and> dc_driver dev \<noteq> Some ''epomaker'')"

lemma via_entries_table:
  assumes "via_entries devs vid pid" and "fst t (vid, pid) \<noteq> Some Gmk67Backend"
  shows "fst (fold register_device devs t) (vid, pid) \<noteq> Some Gmk67Backend"
  using assms
proof (induction devs arbitrary: t)
  case (Cons dev devs)
  have "fst (register_device dev t) (vid, pid) \<noteq> Some Gmk67Backend"
    using Cons.prems by (cases t) (auto simp: register_device_def Let_def via_entries_def split: if_splits option.splits)
  with Cons show ?case by (simp add: via_entries_def)
qed simp

lemma via_selected:
  assumes "via_entries devs vid pid"
  shows "select_factory (build_driver_table coalesce (Config devs)) vid pid = Some (via_fallback_factory coalesce)"
proof -
  obtain by_vid_pid sync where t: "fold register_device devs (Map.empty, False) = (by_vid_pid, sync)" by fastforce
  with via_entries_table[OF assms, of "(Map.empty, False)"] have "by_vid_pid (vid, pid) \<noteq> Some Gmk67Backend" by simp
  then show ?thesis
    by (auto simp: select_factory_def build_driver_table_def t split: option.split backend.split)
qed

lemma via_box_opened:
  assumes "answering_via w path V H F n m"
  shows "\<exists>d hw dev ready km. via_fallback_factory coalesce path w = (Inr \<lparr>bx_ops = left_ops via_driver_ops, bx_state = Inl d\<rparr>, w)
    \<and> idle_at hw dev d \<and> vd_matrix d = (16, 16) \<and> via_firmware hw DEFAULT_TIMEOUT_MS V H ready km
    \<and> answers_also hw DEFAULT_TIMEOUT_MS F ready km \<and> via_reports hw DEFAULT_TIMEOUT_MS ready km n \<and> ready dev
    \<and> m = (\<lambda>p. if p \<in> V then km dev p else 0)"
proof -
  from assms obtain hw dev ready km where w: "hn_open (ho_via_node w path) = Inr (hw, dev)"
    "probe_via_usage_page (ho_via_node w path) = Inr ()" "hn_register (ho_via_node w path) = Inr ()"
    "reorders (ho_key_order w)" "reorders (ho_channel_order w)"
    and fw: "via_firmware hw DEFAULT_TIMEOUT_MS V H ready km" "answers_also hw DEFAULT_TIMEOUT_MS F ready km"
      "via_reports hw DEFAULT_TIMEOUT_MS ready km n" "ready dev" "m = (\<lambda>p. if p \<in> V then km dev p else 0)"
    unfolding answering_via_def by blast
  obtain d where opened: "via_fallback_factory coalesce path w = (Inr \<lparr>bx_ops = left_ops via_driver_ops, bx_state = Inl d\<rparr>, w)"
    and d: "vd_matrix d = (16, 16)" "idle_at hw dev d"
  proof (cases coalesce)
    case None
    let ?i = "device_id_of_path path"
    let ?d = "\<lparr>vd_inner = Direct (opened_at hw dev ?i) (hs_new (ho_channel_order w)), vd_matrix = (16, 16),
      vd_device_id = ?i, vd_protocol_version = None, vd_now = ho_now w\<rparr>"
    have "idle_at hw dev ?d" using w by (intro idle_atI(1)) simp_all
    with None w that[of ?d] show thesis
      by (simp add: via_fallback_factory_def via_new_def open_transport_def via_transport_new_def Let_def)
  next
    case (Some ms)
    let ?i = "device_id_of_path path"
    let ?d = "\<lparr>vd_inner = Coalesced (Some (run_coalescer_init (opened_at hw dev ?i) ms ?i False (ho_key_order w) (ho_channel_order w))),
      vd_matrix = (16, 16), vd_device_id = ?i, vd_protocol_version = None, vd_now = ho_now w\<rparr>"
    have "idle_at hw dev ?d" using w by (intro idle_atI(2)) simp_all
    with Some w that[of ?d] show thesis
      by (simp add: via_fallback_factory_def via_with_coalescing_def open_transport_def via_transport_new_def Let_def)
  qed
  with fw show ?thesis by blast
qed

lemma via_box_ready:
  fixes w :: "('d, 'f) host"
  assumes "answering_via w path V H F n m"
  shows "\<exists>d d1 d2. via_fallback_factory coalesce path w = (Inr \<lparr>bx_ops = left_ops via_driver_ops, bx_state = Inl d\<rparr>, w)
    \<and> kd_get_matrix_dimensions (left_ops via_driver_ops) (Inl d :: ('d, 'f) any_driver) = (Inr (16, 16), Inl d1)
    \<and> kd_get_layer_count (left_ops via_driver_ops) (Inl d1 :: ('d, 'f) any_driver) = (Inr n, Inl d2)
    \<and> vd_healthy V H F d2 \<and> vd_view V d2 = m"
proof -
  from via_box_opened[OF assms, of coalesce] obtain d hw hd ready km where
    opened: "via_fallback_factory coalesce path w = (Inr \<lparr>bx_ops = left_ops via_driver_ops, bx_state = Inl d\<rparr>, w)"
    and d: "idle_at hw hd d" "vd_matrix d = (16, 16)" and fw: "via_firmware hw DEFAULT_TIMEOUT_MS V H ready km"
      "answers_also hw DEFAULT_TIMEOUT_MS F ready km" "via_reports hw DEFAULT_TIMEOUT_MS ready km n" "ready hd" "m = (\<lambda>p. if p \<in> V then km hd p else 0)" by blast
  from idle_topology[OF d(1) fw(3,4)] obtain d1 d2 hd' where
    asked: "vd_get_matrix_dimensions d = (Inr (16, 16), d1)" "vd_get_layer_count d1 = (Inr n, d2)"
    and d2: "idle_at hw hd' d2" "ready hd'" "km hd' = km hd" using d(2) by auto
  have "vd_healthy V H F d2" "vd_view V d2 = m" using idle_healthy[OF d2(1) fw(1,2) d2(2)] unfolding d2(3) fw(5) by blast+
  with opened asked show ?thesis by (auto simp: left_ops_def on_left_def via_driver_ops_def)
qed

lemma via_attached:
  fixes w :: "('d, 'f) host"
  assumes "via_entries devs vid pid" and "working_via w path V n m" and "reorders ord"
  shows "\<exists>H h. kb_ready (via_box.serving V H {}) dev h V (settle 2 (post (DeviceConnected dev vid pid path) (booted ord coalesce devs w)), 0)
    \<and> kb_keys (case_sum (vd_view V) (\<lambda>_ _. 0)) h (settle 2 (post (DeviceConnected dev vid pid path) (booted ord coalesce devs w)), 0) = m"
proof -
  let ?e = "booted ord coalesce devs w" and ?cmd = "DeviceConnected dev vid pid path"
  from assms(2) obtain H where board: "answering_via w path V H {} n m" by (auto simp: working_via_def)
  from via_box_ready[OF this, of coalesce] obtain d d1 d2 where
    opened: "via_fallback_factory coalesce path (en_world ?e) = (Inr \<lparr>bx_ops = left_ops via_driver_ops, bx_state = Inl d\<rparr>, w)"
    and asked: "kd_get_matrix_dimensions (left_ops via_driver_ops) (Inl d :: ('d, 'f) any_driver) = (Inr (16, 16), Inl d1)"
      "kd_get_layer_count (left_ops via_driver_ops) (Inl d1 :: ('d, 'f) any_driver) = (Inr n, Inl d2)"
    and d2: "vd_healthy V H {} d2" "vd_view V d2 = m"
    by (auto simp: booted_def engine_start_def)
  have factory: "select_factory (en_table ?e) vid pid = Some (via_fallback_factory coalesce)"
    using via_selected[OF assms(1)] by (simp add: booted_def engine_start_def)
  have rest: "resting (?e, 0)" unfolding booted_def by (rule resting_start[OF assms(3)])
  have none: "devices ?e = Map.empty" by (simp add: booted_def engine_start_def devices_def)
  obtain h where
    h: "serves dev h (settle 2 (post ?cmd ?e), 0)"
    "ch_worker (en_channels (settle 2 (post ?cmd ?e)) ! dh_tx h)
      = worker_start dev \<lparr>bx_ops = left_ops via_driver_ops, bx_state = Inl d2\<rparr>"
    "dh_topology h = \<lparr>dt_matrix = \<lparr>km_rows = 16, km_cols = 16\<rparr>, dt_layer_count = n\<rparr>"
    by (rule connect_serves[OF rest _ factory opened, of dev 16 16 "Inl d1" n "Inl d2"]) (use asked none in simp_all)
  have "\<forall>(l, r, c) \<in> V. topology_contains (dh_topology h) l r c"
    using board by (auto simp: answering_via_def h(3) topology_contains_def matrix_contains_def)
  then have "kb_ready (via_box.serving V H {}) dev h V (settle 2 (post ?cmd ?e), 0)"
    using h(1,2) d2(1) by (simp add: kb_ready_def worker_start_def)
  moreover have "kb_keys (case_sum (vd_view V) (\<lambda>_ _. 0)) h (settle 2 (post ?cmd ?e), 0) = m"
    using h(2) d2(2) by (simp add: kb_keys_def worker_start_def)
  ultimately show ?thesis by blast
qed

text \<open>C2. The same holds for VIA boards, plugged in with or without an entry of their own and with coalescing
  on or off: a board whose firmware answers as documented is opened, asked for its layers and registered, and
  then any session of \<open>clackctl get\<close>, \<open>set\<close> and \<open>commit\<close> on its keys prints exactly what a plain keymap
  prescribes that starts as the keymap in the board's memory, with every invocation a success.\<close>

theorem clackctl_edits_a_plugged_in_via_board:
  assumes "via_entries devs vid pid" and "working_via w path V n m0" and "reorders ord"
    and "event_to_command (Add, u) = Some (DeviceConnected dev vid pid path)"
    and "list_all (about dev V) cmds" and "session_on_keymap cmds m0 = Some (ls, m)"
  shows "\<exists>e S. engine_run idle (booted ord coalesce devs w) (run_udev_pump 1 [Some (Add, u)]) e
    \<and> session (daemon_proxy ft wire display delivered) cmds \<lparr>tm_bus = (e, 0), tm_out = []\<rparr>
      = (replicate (length cmds) (Inr ()), \<lparr>tm_bus = S, tm_out = ls\<rparr>)"
proof -
  let ?start = "booted ord coalesce devs w"
  from via_attached[OF assms(1-3), of dev coalesce] obtain H h where
    h: "kb_ready (via_box.serving V H {}) dev h V (settle 2 (post (DeviceConnected dev vid pid path) ?start), 0)"
    "kb_keys (case_sum (vd_view V) (\<lambda>_ _. 0)) h (settle 2 (post (DeviceConnected dev vid pid path) ?start), 0) = m0"
    by blast
  show ?thesis
    by (rule via_box.plugged_session[OF h(1) assms(4) _ assms(5) _ h(2) assms(6)])
      (simp_all add: booted_def engine_start_def)
qed

text \<open>The simulated board of the VIA claims, on a host whose coalescing window is 50 ms.\<close>

definition via_host :: "(sim_board, unit) host" where
  "via_host = \<lparr>ho_via_node = (\<lambda>_. sim_node), ho_gmk_node = (\<lambda>_. \<lparr>gn_open = Inl 2, gn_desc_size = Inl 2, gn_desc = (\<lambda>_. Inl 2)\<rparr>),
     ho_os = null_disk, ho_disk = (), ho_now = 0, ho_key_order = (\<lambda>xs. xs), ho_channel_order = (\<lambda>xs. xs)\<rparr>"

definition via_usb :: udev_device where
  "via_usb = \<lparr>ud_devnode = Some ''/dev/hidraw3'', ud_sysname = ''hidraw3'',
     ud_usb_parent = Some (\<lambda>a. if a = ''idVendor'' then Some (hexw 4 0xFEED @ [CHR 0x0A])
                             else if a = ''idProduct'' then Some (hexw 4 0x6060 @ [CHR 0x0A]) else None)\<rparr>"

lemma via_connects: "event_to_command (Add, via_usb) = Some (DeviceConnected ''hidraw3'' 0xFEED 0x6060 ''/dev/hidraw3'')"
proof -
  have "\<forall>c \<in> set [CHR 0x0A]. is_space c" by code_simp
  then have "parse_usb_id attrs a = Some v" if "attrs a = Some (hexw 4 (unat v) @ [CHR 0x0A])" for attrs a v
    using parse_usb_id_printed that by blast
  from this[of _ _ "0xFEED"] this[of _ _ "0x6060"] show ?thesis
    by (simp add: via_usb_def event_to_command_def device_to_connect_command_def stable_device_id_def)
qed

definition sim_positions :: "key_pos set" where
  "sim_positions = {(l, r, c). l < 4 \<and> r < 16 \<and> c < 16}"

text \<open>It answers every frame that is not for its keymap.\<close>

definition sim_requests :: "bytes set" where
  "sim_requests = {bs. bs \<noteq> [] \<and> hd bs \<in> {0x07, 0x08, 0x0D, 0x0E, 0x0F}}"

lemma sim_keeps_keys: "cmd \<noteq> 0x05 \<Longrightarrow> snd (sim_answer (z # cmd # bs) s) = sim_keys s"
  by (cases "(z # cmd # bs, s)" rule: sim_answer.cases) (auto simp: Let_def)

lemma sim_answers_also: "0 < ms \<Longrightarrow> answers_also sim_hw ms sim_requests (\<lambda>_. True) sim_keys"
  unfolding answers_also_def
proof (intro allI impI ballI)
  fix s :: sim_board and bs assume ms: "0 < ms" and "bs \<in> sim_requests"
  then obtain cmd rest where bs: "bs = cmd # rest" "cmd \<in> {0x07, 0x08, 0x0D, 0x0E, 0x0F}"
    by (cases bs) (auto simp: sim_requests_def)
  then have "cmd \<noteq> 0x05" by auto
  then have "snd (sim_answer (0 # req_frame bs) s) = sim_keys s"
    unfolding bs(1) req_frame_def append_Cons by (rule sim_keeps_keys)
  then show "\<exists>resp s'. exchange sim_hw ms (req_frame bs) s = (Inr resp, s') \<and> True \<and> sim_keys s' = sim_keys s"
    by (simp add: sim_exchange[OF ms] prod.case_eq_if)
qed

lemma via_host_answers:
  "answering_via via_host path sim_positions {c. c < 4} sim_requests 4 (\<lambda>p. if p \<in> sim_positions then 0x29 else 0)"
proof -
  have "probe_via_usage_page sim_node = Inr ()"
    using sim_probe by (simp add: probe_via_usage_page_def sim_node_def Let_def HID_MAX_DESCRIPTOR_SIZE_def)
  moreover have "via_firmware sim_hw ms sim_positions {c. c < 4} (\<lambda>_. True) sim_keys" if "0 < ms" for ms
    using sim_firmware[OF that] unfolding via_firmware_def by blast
  moreover have "via_reports sim_hw ms (\<lambda>_. True) sim_keys 4" if "0 < ms" for ms
  proof -
    have "replicate 31 (0 :: u8) = 0 # 0 # 0 # 0 # 0 # replicate 26 0" by (simp add: numeral_eq_Suc)
    then have "req_frame [x] = x # 0 # 0 # 0 # 0 # 0 # replicate 26 0" for x
      by (simp add: req_frame_def VIA_FRAME_LEN_def)
    then show ?thesis by (simp add: via_reports_def sim_exchange[OF that] sim_pad_def)
  qed
  moreover have "sim_keys sim_start = (\<lambda>_. 0x29)" by (simp add: sim_start_def)
  ultimately show ?thesis unfolding answering_via_def
    by (intro exI[of _ sim_hw] exI[of _ sim_start] exI[of _ "\<lambda>_. True"] exI[of _ sim_keys])
      (auto simp: sim_answers_also via_host_def sim_node_def sim_positions_def)
qed

lemma answering_less: "answering_via w path V H F n m \<Longrightarrow> answering_via w path V H {} n m"
  by (auto simp: answering_via_def)

lemma via_host_works: "working_via via_host path sim_positions 4 (\<lambda>p. if p \<in> sim_positions then 0x29 else 0)"
  using answering_less[OF via_host_answers] by (auto simp: working_via_def)

theorem clackctl_edits_a_plugged_in_via_board_witness:
  "\<exists>e S ls. engine_run (\<lambda>_ _. False) (booted (\<lambda>xs. xs) (Some 50) [] via_host)
      [DeviceConnected ''hidraw3'' 0xFEED 0x6060 ''/dev/hidraw3''] e
    \<and> session (daemon_proxy \<lparr>ft_io = (\<lambda>_. []), ft_recv = [], ft_elapsed = []\<rparr> standard_wire (\<lambda>_. []) [])
        [Set ''hidraw3'' 3 15 2 ''a'', Get ''hidraw3'' 3 15 2, Commit ''hidraw3''] \<lparr>tm_bus = (e, 0), tm_out = []\<rparr>
      = ([Inr (), Inr (), Inr ()], \<lparr>tm_bus = S, tm_out = ls\<rparr>) \<and> ls ! 1 = ''KC_A (0x0004)''"
proof -
  let ?cmds = "[Set ''hidraw3'' 3 15 2 ''a'', Get ''hidraw3'' 3 15 2, Commit ''hidraw3'']"
  let ?m = "\<lambda>p. if p \<in> sim_positions then 0x29 else 0 :: u16"
  have a: "parse_key ''a'' = Inr 4" "describe 4 = ''KC_A (0x0004)''" by code_simp+
  have "via_entries [] 0xFEED 0x6060" by (simp add: via_entries_def)
  moreover have "list_all (about ''hidraw3'' sim_positions) ?cmds" by (simp add: sim_positions_def)
  moreover have "\<exists>ls m. session_on_keymap ?cmds ?m = Some (ls, m) \<and> ls ! 1 = ''KC_A (0x0004)''" by (simp add: a)
  then obtain ls m where printed: "session_on_keymap ?cmds ?m = Some (ls, m)" "ls ! 1 = ''KC_A (0x0004)''" by blast
  ultimately obtain e S where
    "engine_run (\<lambda>_ _. False) (booted (\<lambda>xs. xs) (Some 50) [] via_host) (run_udev_pump 1 [Some (Add, via_usb)]) e"
    "session (daemon_proxy \<lparr>ft_io = (\<lambda>_. []), ft_recv = [], ft_elapsed = []\<rparr> standard_wire (\<lambda>_. []) [])
        ?cmds \<lparr>tm_bus = (e, 0), tm_out = []\<rparr>
      = (replicate (length ?cmds) (Inr ()), \<lparr>tm_bus = S, tm_out = ls\<rparr>)"
    using clackctl_edits_a_plugged_in_via_board[OF _ via_host_works reorders_id via_connects _ printed(1),
        of "[]" "\<lambda>_ _. False" "Some 50"]
    by blast
  with printed(2) show ?thesis by (auto simp: via_connects)
qed

end
