(* ===== verification/Side_Requests.thy ===== *)
theory Side_Requests
  imports Via_Boot
begin

text \<open>
  Macro and lighting requests for a keyboard whose keys are being edited. They are answered, they do not retire
  the worker, and they do not touch the keymap: for an EK68 always, for a VIA board when it answers the frames
  of the request. The locale \<open>shared_keyboard\<close> is that contract, and the worker keeps it.
\<close>

section \<open>Calls that leave the keymap alone\<close>

definition unharmed :: "('s \<Rightarrow> bool) \<Rightarrow> ('s \<Rightarrow> 'v) \<Rightarrow> ('s, driver_error, 'a) act \<Rightarrow> bool" where
  "unharmed healthy view m \<longleftrightarrow> (\<forall>s r s'. healthy s \<longrightarrow> m s = (r, s') \<longrightarrow>
     healthy s' \<and> view s' = view s \<and> (\<forall>e. r = Inl e \<longrightarrow> \<not> retires_worker e))"

named_theorems unharmed_intros "introduction rules for calls that leave the keymap alone"

lemma unharmedD:
  assumes "unharmed healthy view m" and "healthy s" and "m s = (r, s')"
  shows "healthy s'" and "view s' = view s" and "r = Inl e \<Longrightarrow> \<not> retires_worker e"
  using assms unfolding unharmed_def by blast+

lemma unharmed_andthen [unharmed_intros]:
  assumes "unharmed healthy view m" and "\<And>x. unharmed healthy view (k x)"
  shows "unharmed healthy view (andthen m k)"
  unfolding unharmed_def
proof (intro allI impI)
  fix s r s'
  assume s: "healthy s" and run: "andthen m k s = (r, s')"
  from run show "healthy s' \<and> view s' = view s \<and> (\<forall>e. r = Inl e \<longrightarrow> \<not> retires_worker e)"
  proof (cases rule: andthen_cases)
    case (failed e)
    with unharmedD[OF assms(1) s failed(1)] show ?thesis by simp
  next
    case (continued x s1)
    note first = unharmedD[OF assms(1) s continued(1)]
    from unharmedD[OF assms(2) first(1) continued(2)] first(2) show ?thesis by simp
  qed
qed

lemma unharmed_ok [unharmed_intros]: "unharmed healthy view (ok x)"
  by (simp add: unharmed_def ok_def)

lemma unharmed_throw [unharmed_intros]: "\<not> retires_worker e \<Longrightarrow> unharmed healthy view (throw e)"
  by (auto simp: unharmed_def throw_def)

lemma unharmed_lift [unharmed_intros]: "(\<And>e. r = Inl e \<Longrightarrow> \<not> retires_worker e) \<Longrightarrow> unharmed healthy view (lift_res r)"
  by (auto simp: unharmed_def lift_res_def)

section \<open>The VIA transport\<close>

abbreviation vt_unharmed :: "key_pos set \<Rightarrow> u8 set \<Rightarrow> bytes set \<Rightarrow> ('d, 'a) via_act \<Rightarrow> bool" where
  "vt_unharmed V H F \<equiv> unharmed (vt_healthy V H F) (vt_view V)"

lemma validate_not_fatal [unharmed_intros]:
  "validate_echo resp expected reason = Inl e \<Longrightarrow> \<not> retires_worker e"
  "validate_macro_range offset len sz = Inl e' \<Longrightarrow> \<not> retires_worker e'"
  by (auto simp: validate_echo_def validate_macro_range_def split: if_splits)

lemma unharmed_roundtrip [unharmed_intros]:
  assumes "bs \<in> F"
  shows "vt_unharmed V H F (roundtrip (req_frame bs) op)"
  unfolding unharmed_def using vt_also_law[OF _ assms, of V H _ op] by fastforce

lemma vt_macro_size:
  assumes "vt_healthy V H F t"
  shows "vt_healthy V H F (t\<lparr>vt_macro_buffer_size := x\<rparr>)" and "vt_view V (t\<lparr>vt_macro_buffer_size := x\<rparr>) = vt_view V t"
proof -
  from assms obtain ready km where f: "via_firmware (vt_fd t) (vt_timeout t) V H ready km" "ready (vt_dev t)"
    and side: "answers_also (vt_fd t) (vt_timeout t) F ready km" by (auto simp: vt_healthy_def)
  then show "vt_healthy V H F (t\<lparr>vt_macro_buffer_size := x\<rparr>)" by (auto simp: vt_healthy_def)
  show "vt_view V (t\<lparr>vt_macro_buffer_size := x\<rparr>) = vt_view V t"
    using vt_view_firmware[OF f] vt_view_firmware[of "t\<lparr>vt_macro_buffer_size := x\<rparr>" V H ready km] f by (simp cong: if_cong)
qed

lemma unharmed_ensure [unharmed_intros]:
  assumes "[ID_MACRO_GET_BUFFER_SIZE] \<in> F"
  shows "vt_unharmed V H F ensure_macro_buffer_size"
proof -
  have note_size: "vt_unharmed V H F (\<lambda>t. (Inr sz, t\<lparr>vt_macro_buffer_size := Some sz\<rparr>))" for sz :: u16
    by (simp add: unharmed_def vt_macro_size)
  have "vt_unharmed V H F
      (andthen (roundtrip (req_frame [ID_MACRO_GET_BUFFER_SIZE]) ''get_macro_buffer_size'') (\<lambda>resp.
       andthen (lift_res (validate_echo resp [ID_MACRO_GET_BUFFER_SIZE]
                  ''command-id echo mismatch on get_macro_buffer_size'')) (\<lambda>_ t.
       (Inr (u16_of (resp ! 1) (resp ! 2)), t\<lparr>vt_macro_buffer_size := Some (u16_of (resp ! 1) (resp ! 2))\<rparr>))))"
    by (intro unharmed_andthen unharmed_roundtrip unharmed_lift note_size) (use assms in \<open>auto dest: validate_not_fatal\<close>)
  then show ?thesis
    unfolding unharmed_def ensure_macro_buffer_size_def Let_def by (auto split: option.splits)
qed

fun via_calm :: "u8 set \<Rightarrow> bytes set \<Rightarrow> worker_op \<Rightarrow> bool" where
  "via_calm H F (WGetMacro offset len _) \<longleftrightarrow>
     [ID_MACRO_GET_BUFFER_SIZE] \<in> F \<and> [ID_MACRO_GET_BUFFER, u16_hi offset, u16_lo offset, len] \<in> F"
| "via_calm H F (WSetMacro offset data _) \<longleftrightarrow> [ID_MACRO_GET_BUFFER_SIZE] \<in> F
     \<and> [ID_MACRO_SET_BUFFER, u16_hi offset, u16_lo offset, word_of_nat (length data)] @ data \<in> F"
| "via_calm H F (WGetLighting channel value_id _) \<longleftrightarrow> [ID_LIGHTING_GET_VALUE, channel, value_id] \<in> F"
| "via_calm H F (WSetLighting channel value_id data _) \<longleftrightarrow>
     [ID_LIGHTING_SET_VALUE, channel, value_id] @ data \<in> F \<and> channel \<in> H"
| "via_calm H F _ \<longleftrightarrow> False"

lemma unharmed_transport:
  "via_calm H F (WGetMacro offset len i) \<Longrightarrow> vt_unharmed V H F (via_get_macro_buffer offset len)"
  "via_calm H F (WSetMacro offset data i) \<Longrightarrow> vt_unharmed V H F (via_set_macro_buffer offset data)"
  "via_calm H F (WGetLighting channel value_id i) \<Longrightarrow> vt_unharmed V H F (via_get_lighting channel value_id)"
  "via_calm H F (WSetLighting channel value_id data i) \<Longrightarrow> vt_unharmed V H F (via_set_lighting channel value_id data)"
  unfolding via_get_macro_buffer_def via_set_macro_buffer_def via_get_lighting_def via_set_lighting_def Let_def
  by (auto intro!: unharmed_andthen unharmed_ensure unharmed_roundtrip unharmed_lift unharmed_ok unharmed_throw
        dest: validate_not_fatal)

section \<open>The VIA driver\<close>

abbreviation vd_unharmed :: "key_pos set \<Rightarrow> u8 set \<Rightarrow> bytes set \<Rightarrow> ('d, 'a) vd_act \<Rightarrow> bool" where
  "vd_unharmed V H F \<equiv> unharmed (vd_healthy V H F) (vd_view V)"

lemma co_transport_good:
  assumes "via_tr.co_good V H F c" and "vt_healthy V H F t" and "vt_view V t = vt_view V (co_transport c)"
  shows "via_tr.co_good V H F (c\<lparr>co_transport := t\<rparr>)" and "via_tr.co_view V (c\<lparr>co_transport := t\<rparr>) = via_tr.co_view V c"
  using assms by (simp_all add: via_tr.co_good_def via_tr.co_view_def co_wf_def)

lemma vd_dispatch_unharmed:
  assumes "vt_unharmed V H F m" and "\<And>now c. co_handle via_transport_ops now op c = reply_with mk (co_forward m c)"
    and "\<And>r. proj (mk r) = r"
  shows "vd_unharmed V H F (via_dispatch m proj op)"
  unfolding unharmed_def
proof (intro allI impI)
  fix d r d'
  assume d: "vd_healthy V H F d" and run: "via_dispatch m proj op d = (r, d')"
  from d show "vd_healthy V H F d' \<and> vd_view V d' = vd_view V d \<and> (\<forall>e. r = Inl e \<longrightarrow> \<not> retires_worker e)"
  proof (cases rule: vd_healthy_cases)
    case (direct t touched)
    obtain x t' where t': "m t = (x, t')" by fastforce
    from unharmedD[OF assms(1) direct(2) t'] direct run t' show ?thesis
      by (auto simp: via_dispatch_def direct_def vd_healthy_def vd_view_def)
  next
    case (coalesced c)
    obtain x t' where t': "m (co_transport c) = (x, t')" by fastforce
    have "vt_healthy V H F (co_transport c)" using coalesced(2) by (simp add: via_tr.co_good_def)
    note t = unharmedD[OF assms(1) this t']
    with co_transport_good[OF coalesced(2) t(1,2)] coalesced run t' show ?thesis
      by (auto simp: via_dispatch_def relay_def assms(2,3) reply_with_def co_forward_def vd_healthy_def vd_view_def)
  qed
qed

lemma vd_set_lighting_unharmed:
  assumes "via_calm H F (WSetLighting channel value_id data i)"
  shows "vd_unharmed V H F (vd_set_lighting channel value_id data)"
  unfolding unharmed_def
proof (intro allI impI)
  fix d r d'
  assume d: "vd_healthy V H F d" and run: "vd_set_lighting channel value_id data d = (r, d')"
  note m = unharmed_transport(4)[OF assms, of V]
  from d show "vd_healthy V H F d' \<and> vd_view V d' = vd_view V d \<and> (\<forall>e. r = Inl e \<longrightarrow> \<not> retires_worker e)"
  proof (cases rule: vd_healthy_cases)
    case (direct t touched)
    obtain x t' where t': "via_set_lighting channel value_id data t = (x, t')" by fastforce
    from unharmedD[OF m direct(2) t'] direct run t' assms show ?thesis
      by (cases x) (auto simp: vd_set_lighting_def vd_healthy_def vd_view_def)
  next
    case (coalesced c)
    obtain x t' where t': "via_set_lighting channel value_id data (co_transport c) = (x, t')" by fastforce
    have "vt_healthy V H F (co_transport c)" using coalesced(2) by (simp add: via_tr.co_good_def)
    note t = unharmedD[OF m this t']
    note good = co_transport_good[OF coalesced(2) t(1,2)]
    have touched: "via_tr.co_good V H F (c'\<lparr>co_touched := hs_insert channel (co_touched c')\<rparr>)"
      "via_tr.co_view V (c'\<lparr>co_touched := hs_insert channel (co_touched c')\<rparr>) = via_tr.co_view V c'"
      if "via_tr.co_good V H F c'" for c'
      using that assms by (simp_all add: via_tr.co_good_def via_tr.co_view_def co_wf_def)
    have "co_forward (tr_set_lighting via_transport_ops channel value_id data) c = (x, c\<lparr>co_transport := t'\<rparr>)"
      by (simp add: co_forward_def via_transport_ops_def t')
    with coalesced run good touched[OF good(1)] t(3) show ?thesis
      by (cases x) (auto simp: vd_set_lighting_def relay_def vd_healthy_def vd_view_def)
  qed
qed

lemma unharmed_via_driver:
  "via_calm H F (WGetMacro offset len i) \<Longrightarrow> vd_unharmed V H F (kd_get_macro_buffer via_driver_ops offset len)"
  "via_calm H F (WSetMacro offset data i) \<Longrightarrow> vd_unharmed V H F (kd_set_macro_buffer via_driver_ops offset data)"
  "via_calm H F (WGetLighting channel value_id i) \<Longrightarrow> vd_unharmed V H F (kd_get_lighting via_driver_ops channel value_id)"
  "via_calm H F (WSetLighting channel value_id data i) \<Longrightarrow> vd_unharmed V H F (kd_set_lighting via_driver_ops channel value_id data)"
proof -
  show "vd_unharmed V H F (kd_get_macro_buffer via_driver_ops offset len)" if "via_calm H F (WGetMacro offset len i)"
    unfolding via_driver_ops_def driver_ops.simps vd_get_macro_buffer_def
    by (rule vd_dispatch_unharmed[OF unharmed_transport(1)[OF that], where mk = ReplyBytes]) (simp_all add: via_transport_ops_def)
  show "vd_unharmed V H F (kd_set_macro_buffer via_driver_ops offset data)" if "via_calm H F (WSetMacro offset data i)"
    unfolding via_driver_ops_def driver_ops.simps vd_set_macro_buffer_def
    by (rule vd_dispatch_unharmed[OF unharmed_transport(2)[OF that], where mk = ReplyUnit]) (simp_all add: via_transport_ops_def)
  show "vd_unharmed V H F (kd_get_lighting via_driver_ops channel value_id)" if "via_calm H F (WGetLighting channel value_id i)"
    unfolding via_driver_ops_def driver_ops.simps vd_get_lighting_def
    by (rule vd_dispatch_unharmed[OF unharmed_transport(3)[OF that], where mk = ReplyBytes]) (simp_all add: via_transport_ops_def)
  show "vd_unharmed V H F (kd_set_lighting via_driver_ops channel value_id data)"
    if "via_calm H F (WSetLighting channel value_id data i)"
    unfolding via_driver_ops_def driver_ops.simps by (rule vd_set_lighting_unharmed[OF that])
qed

section \<open>The GMK67 driver\<close>

abbreviation gmk_unharmed :: "('i, 'f, 'a) gd_act \<Rightarrow> bool" where
  "gmk_unharmed \<equiv> unharmed gmk_healthy gmk_view"

lemma chosen_not_fatal: "chosen_lighting channel value_id data l = Inl e \<Longrightarrow> \<not> retires_worker e"
  by (auto simp: chosen_lighting_def lighting_with_via_value_def unsupported_channel_def Let_def
      split: if_splits list.splits prod.splits)

lemma gmk_set_lighting_unharmed: "gmk_unharmed (gd_set_lighting channel value_id data)"
  unfolding unharmed_def
proof (intro allI impI)
  fix d :: "('i, 'f) gmk_driver" and r d'
  assume d: "gmk_healthy d" and run: "gd_set_lighting channel value_id data d = (r, d')"
  show "gmk_healthy d' \<and> gmk_view d' = gmk_view d \<and> (\<forall>e. r = Inl e \<longrightarrow> \<not> retires_worker e)"
  proof (cases "chosen_lighting channel value_id data (gd_lighting d)")
    case (Inl e)
    with run d chosen_not_fatal[OF Inl] show ?thesis by (auto simp: gd_set_lighting_def)
  next
    case (Inr l)
    obtain x d1 where d1: "render_effect l d = (x, d1)" by fastforce
    have "is_ok x \<and> gmk_up d1"
      using frames_ok_render_effect[of l] d d1 unfolding frames_ok_def gmk_healthy_def by (metis fst_conv snd_conv)
    moreover have "gd_shadow d1 = gd_shadow d" by (rule io_only_shadow(1)[OF io_only_render_effect d1])
    moreover have "shadow_get_keycode l' r' c' (shadow_persist_lighting (shadow_set_lighting x' s)) = shadow_get_keycode l' r' c' s"
      for l' r' c' x' and s :: "'f shadow_state"
      by (simp add: shadow_get_keycode_def shadow_defs)
    ultimately show ?thesis
      using d run Inr d1
      by (cases x) (auto simp: gd_set_lighting_def andthen_def gmk_healthy_def gmk_up_def gmk_view_def split: if_splits)
  qed
qed

lemma unharmed_gmk_driver:
  "gmk_unharmed (kd_get_macro_buffer gmk_driver_ops offset len)" "gmk_unharmed (kd_set_macro_buffer gmk_driver_ops offset data)"
  "gmk_unharmed (kd_get_lighting gmk_driver_ops channel value_id)" "gmk_unharmed (kd_set_lighting gmk_driver_ops channel value_id data)"
  using gmk_set_lighting_unharmed[of channel value_id data]
  by (simp_all add: gmk_driver_ops_def gd_get_macro_buffer_def gd_set_macro_buffer_def unharmed_throw)
     (auto simp: unharmed_def gd_get_lighting_def Let_def unsupported_channel_def split: if_splits prod.splits)

section \<open>Drivers in the box of the factory\<close>

lemma unharmed_left:
  "unharmed healthy view m \<Longrightarrow> unharmed (case_sum healthy (\<lambda>_. False)) (case_sum view v) (on_left m)"
  by (auto simp: unharmed_def on_left_def split: sum.splits prod.splits)

lemma unharmed_right:
  "unharmed healthy view m \<Longrightarrow> unharmed (case_sum (\<lambda>_. False) healthy) (case_sum v view) (on_right m)"
  by (auto simp: unharmed_def on_right_def split: sum.splits prod.splits)

lemma boxed_calls:
  "kd_get_macro_buffer (left_ops ops) offset len = on_left (kd_get_macro_buffer ops offset len)"
  "kd_set_macro_buffer (left_ops ops) offset data = on_left (kd_set_macro_buffer ops offset data)"
  "kd_get_lighting (left_ops ops) channel value_id = on_left (kd_get_lighting ops channel value_id)"
  "kd_set_lighting (left_ops ops) channel value_id data = on_left (kd_set_lighting ops channel value_id data)"
  "kd_get_macro_buffer (right_ops ops') offset len = on_right (kd_get_macro_buffer ops' offset len)"
  "kd_set_macro_buffer (right_ops ops') offset data = on_right (kd_set_macro_buffer ops' offset data)"
  "kd_get_lighting (right_ops ops') channel value_id = on_right (kd_get_lighting ops' channel value_id)"
  "kd_set_lighting (right_ops ops') channel value_id data = on_right (kd_set_lighting ops' channel value_id data)"
  by (simp_all add: left_ops_def right_ops_def)

section \<open>The contract of a shared keyboard\<close>

locale shared_keyboard = keyboard_task ops healthy view V idle
  for ops :: "'s driver_ops" and healthy view V idle +
  fixes calm :: "worker_op \<Rightarrow> bool"
  assumes get_macro_calm: "calm (WGetMacro offset len i) \<Longrightarrow> unharmed healthy view (kd_get_macro_buffer ops offset len)"
    and set_macro_calm: "calm (WSetMacro offset data i) \<Longrightarrow> unharmed healthy view (kd_set_macro_buffer ops offset data)"
    and get_lighting_calm: "calm (WGetLighting channel value_id i) \<Longrightarrow> unharmed healthy view (kd_get_lighting ops channel value_id)"
    and set_lighting_calm: "calm (WSetLighting channel value_id data i) \<Longrightarrow>
      unharmed healthy view (kd_set_lighting ops channel value_id data)"
begin

lemma call_calm:
  assumes "unharmed healthy view (m ops)" and "serving w"
    and "answer_op mk i (call_driver m w) = (w', effs)"
  shows "serving w' \<and> shown w' = shown w
    \<and> (\<exists>r. effs = [Answered i (mk r)] \<and> \<not> is_fatal_driver_error r)"
proof -
  obtain x s' where x: "m ops (bx_state (wk_driver w)) = (x, s')" by fastforce
  from assms(2) have "healthy (bx_state (wk_driver w))" by simp
  note calm = unharmedD[OF assms(1) this x]
  have nf: "\<not> is_fatal_driver_error (map_driver_err x)"
    using calm(3) unfolding fatal_iff_retires by blast
  with nf calm(1,2) assms(2,3) x show ?thesis
    by (auto simp: answer_op_def call_driver_def Let_def retire_if_def)
qed

text \<open>What the worker answers to such a request: something of its type that is not a reason to retire.\<close>

lemma worker_handle_calm:
  assumes "serving w" and "key_op_of op = None" and "calm op" and "worker_handle now op w = (w', effs)"
  shows "serving w' \<and> shown w' = shown w \<and> (\<exists>a. answers_of effs = [(reply_of op, a)] \<and> \<not> fatal_answer a)"
proof (cases op)
  case (WGetMacro offset len i)
  with assms call_calm[where m = "\<lambda>ops. kd_get_macro_buffer ops offset len", OF get_macro_calm[of offset len i] assms(1), of AnsBytes i w' effs] show ?thesis
    by (auto simp: fatal_answer_simps)
next
  case (WSetMacro offset data i)
  with assms call_calm[where m = "\<lambda>ops. kd_set_macro_buffer ops offset data", OF set_macro_calm[of offset data i] assms(1), of AnsUnit i w' effs] show ?thesis
    by (auto simp: fatal_answer_simps)
next
  case (WGetLighting channel value_id i)
  with assms call_calm[where m = "\<lambda>ops. kd_get_lighting ops channel value_id", OF get_lighting_calm[of channel value_id i] assms(1), of AnsBytes i w' effs] show ?thesis
    by (auto simp: fatal_answer_simps)
next
  case (WSetLighting channel value_id data i)
  with assms call_calm[where m = "\<lambda>ops. kd_set_lighting ops channel value_id data", OF set_lighting_calm[of channel value_id data i] assms(1), of AnsUnit i w' effs] show ?thesis
    by (auto simp: fatal_answer_simps)
qed (use assms(2) in simp_all)

end

end
