(* ===== verification/Engine_Linear.thy ===== *)
theory Engine_Linear
  imports Engine_Desk Engine_Settle Side_Requests
begin

text \<open>
  Concurrent clients of one keyboard. Whatever other clients, other keyboards, timers and hot-plug events do
  in between, the requests for a keyboard take effect one after the other in the order in which they were
  posted, refused only while 16 are queued, and each accepted read, write or commit is answered as a
  plain keymap answers it. Requests for macros and lighting are answered in their place in the order.
\<close>

section \<open>One order for all clients\<close>

text \<open>
  What the clients should see is a plain keymap behind a queue of 16 places. A request is taken while there is a
  place, and turned away as busy only when all 16 are occupied; those taken are served in their order, a read, a
  write or a commit as the keymap answers it, the others with something that is not a reason for the worker to
  retire and that changes no key. \<open>keymap_server dev m ops replies q m'\<close>: from the contents \<open>m\<close> on, \<open>ops\<close> have been
  decided and \<open>replies\<close> given, \<open>q\<close> is in the queue and \<open>m'\<close> are the contents.
\<close>

inductive keymap_server :: "string \<Rightarrow> (key_pos \<Rightarrow> u16) \<Rightarrow> worker_op list \<Rightarrow> (reply_id \<times> answer) list
    \<Rightarrow> worker_op list \<Rightarrow> (key_pos \<Rightarrow> u16) \<Rightarrow> bool" for dev m where
  ks_opens: "keymap_server dev m [] [] [] m"
| ks_takes: "keymap_server dev m ops replies q m' \<Longrightarrow> length q < 16 \<Longrightarrow>
    keymap_server dev m (ops @ [op]) replies (q @ [op]) m'"
| ks_refuses: "keymap_server dev m ops replies q m' \<Longrightarrow> length q = 16 \<Longrightarrow>
    keymap_server dev m (ops @ [op]) (replies @ [refusal dev op]) q m'"
| ks_serves_key: "keymap_server dev m ops replies (op # q) m' \<Longrightarrow> key_op_of op = Some x \<Longrightarrow>
    keymap_step x m' = (r, m'') \<Longrightarrow> keymap_server dev m ops (replies @ [(reply_of op, answer_of_reply r)]) q m''"
| ks_serves_other: "keymap_server dev m ops replies (op # q) m' \<Longrightarrow> key_op_of op = None \<Longrightarrow> \<not> fatal_answer a \<Longrightarrow>
    keymap_server dev m ops (replies @ [(reply_of op, a)]) q m'"

lemma keymap_server_room: "keymap_server dev m ops replies q m' \<Longrightarrow> length q \<le> 16"
  by (induction rule: keymap_server.induct) auto

text \<open>
  The requests in their order are those decided by such a server and those still waiting; its replies stand in
  the list of all answers in their order, between the answers to the requests for others.
\<close>

definition linearized :: "string \<Rightarrow> (key_pos \<Rightarrow> u16) \<Rightarrow> worker_op list \<Rightarrow> worker_op list \<Rightarrow> worker_op list
    \<Rightarrow> (reply_id \<times> answer) list \<Rightarrow> (key_pos \<Rightarrow> u16) \<Rightarrow> bool" where
  "linearized dev m posted waiting queue answers m' \<longleftrightarrow> (\<exists>decided replies others.
     posted = decided @ waiting \<and> keymap_server dev m decided replies queue m' \<and> answers \<in> shuffles replies others)"

definition key_ops :: "worker_op list \<Rightarrow> keymap_op list" where
  "key_ops ops = List.map_filter key_op_of ops"

lemma key_ops_simps [simp]:
  "key_ops [] = []" "key_ops (op # ops) = (case key_op_of op of Some x \<Rightarrow> [x] | None \<Rightarrow> []) @ key_ops ops"
  "key_ops (ops @ ops') = key_ops ops @ key_ops ops'"
  by (simp_all add: key_ops_def List.map_filter_def split: option.split)

lemma keymap_server_serves:
  assumes "keymap_server dev m ops replies (op # q) m'"
    and "case key_op_of op of Some x \<Rightarrow> a = answer_of_reply (fst (keymap_step x m')) | None \<Rightarrow> \<not> fatal_answer a"
  shows "keymap_server dev m ops (replies @ [(reply_of op, a)]) q (snd (keymap_run (key_ops [op]) m'))"
proof (cases "key_op_of op")
  case None
  with ks_serves_other[OF assms(1) None] assms(2) show ?thesis by simp
next
  case (Some x)
  obtain r m'' where "keymap_step x m' = (r, m'')" by fastforce
  with ks_serves_key[OF assms(1) Some this] assms(2) Some show ?thesis by simp
qed

lemma shuffles_append_left: "zs \<in> shuffles xs ys \<Longrightarrow> zs @ us \<in> shuffles (xs @ us) ys"
proof (induction zs arbitrary: xs ys)
  case (Cons z zs)
  then have "xs \<noteq> [] \<and> hd xs = z \<and> zs @ us \<in> shuffles (tl xs @ us) ys \<or> ys \<noteq> [] \<and> hd ys = z \<and> zs @ us \<in> shuffles (xs @ us) (tl ys)"
    unfolding Cons_in_shuffles_iff by blast
  then show ?case unfolding append_Cons Cons_in_shuffles_iff by (metis Nil_is_append_conv hd_append2 tl_append2)
qed (cases us; simp)

lemma shuffles_append: "zs \<in> shuffles xs ys \<Longrightarrow> zs @ us \<in> shuffles (xs @ us) ys"
  "zs \<in> shuffles xs ys \<Longrightarrow> zs @ us \<in> shuffles xs (ys @ us)"
  using shuffles_append_left shuffles_commutes by blast+

lemma linearized_start: "linearized dev m posted posted [] [] m"
proof -
  have "posted = [] @ posted \<and> keymap_server dev m [] [] [] m \<and> [] \<in> shuffles [] ([] :: (reply_id \<times> answer) list)"
    by (simp add: ks_opens)
  then show ?thesis unfolding linearized_def by blast
qed

lemma linearizedI:
  "posted = decided @ waiting \<Longrightarrow> keymap_server dev m decided replies queue m' \<Longrightarrow> answers \<in> shuffles replies others
    \<Longrightarrow> linearized dev m posted waiting queue answers m'"
  unfolding linearized_def by blast

lemma posts_are_external: "engine_run idle e0 cmds e \<Longrightarrow> list_all external cmds"
  by (induction rule: engine_run.induct) (auto elim: engine_step.cases)

lemma external_handle: "external cmd \<Longrightarrow> handle_of_command cmd = None"
  by (cases cmd) (simp_all add: handle_of_command_def)

text \<open>What can be waiting: reads and writes inside \<open>V\<close>, commits, and macro and lighting requests that are \<open>calm\<close>.\<close>

definition request_ok :: "key_pos set \<Rightarrow> (worker_op \<Rightarrow> bool) \<Rightarrow> worker_op \<Rightarrow> bool" where
  "request_ok V calm op \<longleftrightarrow> (case key_op_of op of Some x \<Rightarrow> op_within V x | None \<Rightarrow> calm op)"

context shared_keyboard
begin

abbreviation allowed :: "worker_op \<Rightarrow> bool" where
  "allowed \<equiv> request_ok V calm"

lemma worker_handle_allowed:
  assumes "serving w" and "allowed op" and "worker_handle now op w = (w', effs)"
  shows "serving w' \<and> shown w' = snd (keymap_run (key_ops [op]) (shown w))
    \<and> (\<exists>a. answers_of effs = [(reply_of op, a)] \<and> (case key_op_of op of
          Some x \<Rightarrow> a = answer_of_reply (fst (keymap_step x (shown w))) | None \<Rightarrow> \<not> fatal_answer a))"
proof (cases "key_op_of op")
  case None
  with assms(2) have "calm op" by (simp add: request_ok_def)
  from worker_handle_calm[OF assms(1) None this assms(3)] None show ?thesis by simp
next
  case (Some x)
  with assms(2) have "op_within V x" by (simp add: request_ok_def)
  from worker_handle_refines[OF assms(1) Some this assms(3)] Some show ?thesis by (simp add: prod.case_eq_if)
qed

definition in_order :: "string \<Rightarrow> (key_pos \<Rightarrow> u16) \<Rightarrow> worker_op list \<Rightarrow> 's desk \<Rightarrow> bool" where
  "in_order dev m posted d \<longleftrightarrow> serving (dk_worker d) \<and> list_all allowed (dk_waiting d) \<and> list_all allowed (dk_queue d)
     \<and> linearized dev m posted (dk_waiting d) (dk_queue d) (dk_answers d) (shown (dk_worker d))"

lemma desk_keeps_order:
  assumes "desk_step idle dev d new d'" and "in_order dev m posted d" and "list_all allowed new"
  shows "in_order dev m (posted @ new) d'"
proof -
  from assms(2) obtain decided replies others where lin: "posted = decided @ dk_waiting d"
      "keymap_server dev m decided replies (dk_queue d) (shown (dk_worker d))" "dk_answers d \<in> shuffles replies others"
    and ok: "serving (dk_worker d)" "list_all allowed (dk_waiting d)" "list_all allowed (dk_queue d)"
    unfolding in_order_def linearized_def by blast
  show ?thesis
    using assms(1)
  proof cases
    case desk_ask
    then show ?thesis using lin ok assms(3) by (auto simp: in_order_def intro!: linearizedI[OF _ lin(2,3)])
  next
    case (desk_accept op rest)
    then have "linearized dev m posted rest (dk_queue d @ [op]) (dk_answers d) (shown (dk_worker d))"
      by (intro linearizedI[OF _ ks_takes[OF lin(2)] lin(3)]) (simp_all add: lin(1) WORKER_CHANNEL_CAPACITY_def)
    with desk_accept ok show ?thesis by (simp add: in_order_def)
  next
    case (desk_refuse op rest)
    then have "length (dk_queue d) = 16"
      using keymap_server_room[OF lin(2)] by (simp add: WORKER_CHANNEL_CAPACITY_def)
    then have "linearized dev m posted rest (dk_queue d) (dk_answers d @ [refusal dev op]) (shown (dk_worker d))"
      by (intro linearizedI[OF _ ks_refuses[OF lin(2)] shuffles_append(1)[OF lin(3)]]) (simp_all add: lin(1) desk_refuse)
    with desk_refuse ok show ?thesis by (simp add: in_order_def)
  next
    case (desk_work op rest now w effs)
    with ok(3) have "allowed op" by simp
    from worker_handle_allowed[OF ok(1) this desk_work(4)] obtain a where w: "serving w"
      "shown w = snd (keymap_run (key_ops [op]) (shown (dk_worker d)))" "answers_of effs = [(reply_of op, a)]"
      "case key_op_of op of Some x \<Rightarrow> a = answer_of_reply (fst (keymap_step x (shown (dk_worker d)))) | None \<Rightarrow> \<not> fatal_answer a"
      by blast
    have "linearized dev m posted (dk_waiting d) rest (dk_answers d @ answers_of effs) (shown w)"
      unfolding w(2,3) using lin(2) desk_work(3)
      by (intro linearizedI[OF lin(1) keymap_server_serves[OF _ w(4)] shuffles_append(1)[OF lin(3)]]) simp
    with desk_work ok w(1) show ?thesis by (simp add: in_order_def)
  next
    case (desk_debounce w effs)
    from worker_debounce_refines[OF ok(1) desk_debounce(3)] have "serving w" "shown w = shown (dk_worker d)" "answers_of effs = []"
      by auto
    with desk_debounce ok linearizedI[OF lin] show ?thesis by (simp add: in_order_def)
  next
    case (desk_idle s')
    from idle_view[OF _ desk_idle(3)] ok(1) have "healthy s'" "view s' = shown (dk_worker d)" by auto
    with desk_idle ok linearizedI[OF lin] show ?thesis by (simp add: in_order_def)
  next
    case (desk_elsewhere os)
    with ok linearizedI[OF lin(1,2) shuffles_append(2)[OF lin(3), of os]] show ?thesis by (simp add: in_order_def)
  qed
qed

lemma order_of_run:
  assumes "engine_run idle e0 cmds e" and "tended dev h allowed e0" and "in_order dev m posted (desk_of dev h e0)"
    and "list_all (orderly dev (dh_topology h) allowed) cmds"
  shows "tended dev h allowed e \<and> in_order dev m (posted @ requests dev (dh_topology h) cmds) (desk_of dev h e)"
  using assms
proof (induction rule: engine_run.induct)
  case (run_step e0 cmds e cmd e')
  then have IH: "tended dev h allowed e" "in_order dev m (posted @ requests dev (dh_topology h) cmds) (desk_of dev h e)"
    and cmd: "orderly dev (dh_topology h) allowed cmd" by auto
  then have "wk_phase (ch_worker (en_channels e ! dh_tx h)) = Running" by (simp add: in_order_def desk_of_def)
  from desk_simulates[OF run_step.hyps(2) IH(1) this, of] cmd have
    sim: "tended dev h allowed e'" "desk_step idle dev (desk_of dev h e) (asked dev (dh_topology h) (Some cmd)) (desk_of dev h e')" by auto
  from desk_keeps_order[OF sim(2) IH(2)] requests_satisfy[of dev "dh_topology h" allowed "[cmd]"] cmd sim(1)
  show ?case by (simp add: asked_def)
next
  case (run_silent e0 cmds e e')
  then have IH: "tended dev h allowed e" "in_order dev m (posted @ requests dev (dh_topology h) cmds) (desk_of dev h e)" by auto
  then have "wk_phase (ch_worker (en_channels e ! dh_tx h)) = Running" by (simp add: in_order_def desk_of_def)
  from desk_simulates[OF run_silent.hyps(2) IH(1) this] have
    sim: "tended dev h allowed e'" "desk_step idle dev (desk_of dev h e) (asked dev (dh_topology h) None) (desk_of dev h e')" by auto
  from desk_keeps_order[OF sim(2) IH(2)] sim(1) show ?case by (simp add: asked_def)
qed simp

text \<open>
  The daemon starts and the keyboard is plugged in before anything else is posted. Until the supervisor takes
  the plug, commands only pile up; from then on the keyboard is tended.
\<close>

lemma order_from_boot:
  fixes start :: "('w, 's) engine"
  assumes "engine_run idle start cmds e" and "start = engine_start ord table w"
    and "cmds \<noteq> [] \<longrightarrow> hd cmds = DeviceConnected dev vid pid path \<and> list_all (orderly dev t allowed) (tl cmds)"
    and "select_factory table vid pid = Some factory" and "factory path w = (Inr \<lparr>bx_ops = ops, bx_state = s\<rparr>, w')"
    and "kd_get_matrix_dimensions ops s = (Inr (rows, cols), s1)" and "kd_get_layer_count ops s1 = (Inr layers, s2)"
    and "t = \<lparr>dt_matrix = \<lparr>km_rows = rows, km_cols = cols\<rparr>, dt_layer_count = layers\<rparr>" and "healthy s2"
  shows "(\<exists>now. e = start\<lparr>en_queue := cmds, en_now := now\<rparr>)
    \<or> cmds \<noteq> [] \<and> (\<exists>h. dh_topology h = t \<and> tended dev h allowed e \<and> in_order dev (view s2) (requests dev t (tl cmds)) (desk_of dev h e))"
  using assms(1-3)
proof (induction rule: engine_run.induct)
  case (run_start e)
  then have "e = e\<lparr>en_queue := [], en_now := 0\<rparr>" by (simp add: engine_start_def)
  then show ?case by blast
next
  case (run_step start cmds e cmd e')
  have ok: "cmds \<noteq> [] \<longrightarrow> hd cmds = DeviceConnected dev vid pid path \<and> list_all (orderly dev t allowed) (tl cmds)"
    using run_step.prems(2) by (cases cmds) simp_all
  from run_step.IH[OF run_step.prems(1) ok] show ?case
  proof (elim disjE exE conjE)
    fix now
    assume e: "e = start\<lparr>en_queue := cmds, en_now := now\<rparr>"
    from run_step.hyps(2) have "e' = e\<lparr>en_queue := en_queue e @ [cmd]\<rparr>" by cases simp_all
    with e have "e' = start\<lparr>en_queue := cmds @ [cmd], en_now := now\<rparr>" by simp
    then show ?thesis by blast
  next
    fix h
    assume h: "cmds \<noteq> []" "dh_topology h = t" "tended dev h allowed e"
      "in_order dev (view s2) (requests dev t (tl cmds)) (desk_of dev h e)"
    have "list_all (orderly dev (dh_topology h) allowed) [cmd]" using run_step.prems(2) h(1,2) by auto
    from order_of_run[OF engine_run.run_step[OF run_start run_step.hyps(2)], simplified, OF h(3,4)] this
    have "tended dev h allowed e' \<and> in_order dev (view s2) (requests dev t (tl cmds) @ requests dev t [cmd]) (desk_of dev h e')"
      using h(2) by simp
    then show ?thesis using h(1,2) by auto
  qed
next
  case (run_silent start cmds e e')
  from run_silent.IH[OF run_silent.prems] show ?case
  proof (elim disjE exE conjE)
    fix now
    assume e: "e = start\<lparr>en_queue := cmds, en_now := now\<rparr>"
    with run_silent.prems(1) have none: "en_channels e = []" "en_tasks e = []" "devices e = Map.empty" "en_running e"
      "en_answers e = []" by (simp_all add: engine_start_def devices_def)
    from run_silent.hyps(2) show ?thesis
    proof cases
      case (step_supervise cmd rest)
      with e run_silent.prems(2) have cmds: "cmds \<noteq> []" "cmd = DeviceConnected dev vid pid path" "tl cmds = rest"
        "list_all (orderly dev t allowed) rest" by auto
      let ?h = "\<lparr>dh_topology = t, dh_model = kd_model_name ops s2, dh_tx = 0, dh_vendor_id = vid, dh_product_id = pid,
        dh_hidraw_path = path\<rparr>"
      let ?e0 = "e\<lparr>en_queue := rest\<rparr>"
      have same: "en_table e = table" "en_world (drop_reconnecting dev ?e0) = w"
        using e run_silent.prems(1) by (simp_all add: drop_reconnecting_def engine_start_def)
      have e': "e' = announce (DeviceAdded dev) (put_device dev ?h ((drop_reconnecting dev ?e0)\<lparr>en_world := w',
          en_channels := [\<lparr>ch_queue = [], ch_worker = worker_start dev \<lparr>bx_ops = ops, bx_state = s2\<rparr>\<rparr>]\<rparr>))"
        using assms(4-8) by (simp add: step_supervise cmds(2) supervise_def handle_connected_def Let_def same none
            open_and_attach_def run_factory_def attach_device_def)
      have "list_all external cmds" by (rule posts_are_external[OF run_silent.hyps(1)])
      then have "list_all external rest" using cmds(1,3) by (cases cmds) simp_all
      then have "\<forall>cmd \<in> set rest. handle_of_command cmd = None" by (simp add: list_all_iff external_handle)
      then have "tended dev ?h allowed e'"
        using none cmds(4) assms(8) by (auto simp: e' tended_def foreign_def lone_def split: if_splits)
      moreover have "desk_of dev ?h e' = \<lparr>dk_waiting = requests dev t rest, dk_queue = [],
          dk_worker = worker_start dev \<lparr>bx_ops = ops, bx_state = s2\<rparr>, dk_answers = []\<rparr>"
        using none assms(8) by (simp add: desk_of_def e')
      then have "in_order dev (view s2) (requests dev t rest) (desk_of dev ?h e')"
        using requests_satisfy[OF cmds(4)] assms(9) linearized_start by (simp add: in_order_def worker_start_def)
      ultimately show ?thesis using cmds by auto
    next
      case (step_elapse now')
      with e have "e' = start\<lparr>en_queue := cmds, en_now := now'\<rparr>" by simp
      then show ?thesis by blast
    qed (use none in simp_all)
  next
    fix h
    assume h: "cmds \<noteq> []" "dh_topology h = t" "tended dev h allowed e"
      "in_order dev (view s2) (requests dev t (tl cmds)) (desk_of dev h e)"
    from order_of_run[OF engine_run.run_silent[OF run_start run_silent.hyps(2)] h(3,4)] h(1,2) show ?thesis by auto
  qed
qed

end

section \<open>The two kinds of keyboard\<close>

text \<open>Between its calls a driver of a VIA board may run the timers of its coalescer; one of an EK68 does nothing.\<close>

definition daemon_idle :: "('d, 'f) any_driver \<Rightarrow> ('d, 'f) any_driver \<Rightarrow> bool" where
  "daemon_idle s s' \<longleftrightarrow> (case (s, s') of (Inl b, Inl b') \<Rightarrow> via_idle b b' | _ \<Rightarrow> False)"

interpretation via_daemon: shared_keyboard "left_ops via_driver_ops" "case_sum (vd_healthy V H F) (\<lambda>_. False)"
    "case_sum (vd_view V) (\<lambda>_ _. 0)" V daemon_idle "via_calm H F"
  for V :: "key_pos set" and H :: "u8 set" and F :: "bytes set"
proof (rule shared_keyboard.intro)
  show "keyboard_task (left_ops via_driver_ops) (case_sum (vd_healthy V H F) (\<lambda>_. False)) (case_sum (vd_view V) (\<lambda>_ _. 0)) V
      (daemon_idle :: ('d, 'f) any_driver \<Rightarrow> _)"
    by unfold_locales (use via_box.idle_view[of V H F] in \<open>auto simp: daemon_idle_def\<close>)
  show "shared_keyboard_axioms (left_ops via_driver_ops :: ('d, 'f) any_driver driver_ops) (case_sum (vd_healthy V H F) (\<lambda>_. False))
      (case_sum (vd_view V) (\<lambda>_ _. 0)) (via_calm H F)"
    by unfold_locales (simp_all only: boxed_calls unharmed_left unharmed_via_driver)
qed

interpretation gmk_daemon: shared_keyboard "right_ops gmk_driver_ops" "case_sum (\<lambda>_. False) gmk_healthy"
    "case_sum (\<lambda>_ _. 0) gmk_view" gmk_positions daemon_idle "\<lambda>_. True"
proof (rule shared_keyboard.intro)
  show "keyboard_task (right_ops gmk_driver_ops) (case_sum (\<lambda>_. False) gmk_healthy) (case_sum (\<lambda>_ _. 0) gmk_view) gmk_positions
      (daemon_idle :: ('d, 'f) any_driver \<Rightarrow> _)"
    by unfold_locales (auto simp: daemon_idle_def split: sum.splits)
  show "shared_keyboard_axioms (right_ops gmk_driver_ops :: ('d, 'f) any_driver driver_ops) (case_sum (\<lambda>_. False) gmk_healthy)
      (case_sum (\<lambda>_ _. 0) gmk_view) (\<lambda>_. True)"
    by unfold_locales (simp_all only: boxed_calls unharmed_right unharmed_gmk_driver)
qed

text \<open>What is left when no task can go on.\<close>

lemma nothing_waits_at_rest:
  assumes "engine_run idle (engine_start ord table w) cmds e" and "at_rest e"
  shows "en_queue e = []" and "tended dev h Q e \<Longrightarrow> ch_queue (en_channels e ! dh_tx h) = []"
proof -
  note inv = rest_inv_run[OF assms(1)]
  show "en_queue e = []" by (rule at_rest_queue[OF assms(2) inv])
  then show "tended dev h Q e \<Longrightarrow> ch_queue (en_channels e ! dh_tx h) = []"
    by (intro at_rest_channels(1)[OF assms(2) inv]) (simp_all add: tended_def)
qed

text \<open>The outcome for the clients, from either phase of the boot.\<close>

lemma linearized_outcome:
  assumes "engine_run idle (engine_start ord table w) (cmd # posted) e" and "request_for dev t cmd = None"
    and "(\<exists>now. e = (engine_start ord table w)\<lparr>en_queue := cmd # posted, en_now := now\<rparr>)
      \<or> (\<exists>h. dh_topology h = t \<and> tended dev h Q e
           \<and> linearized dev m (requests dev t posted) (requests dev t (en_queue e)) (ch_queue (en_channels e ! dh_tx h))
               (en_answers e) (f h))"
  shows "\<exists>queue m'. linearized dev m (requests dev t posted) (requests dev t (en_queue e)) queue (en_answers e) m'
    \<and> (at_rest e \<longrightarrow> requests dev t (en_queue e) = [] \<and> queue = [])"
  using assms(3)
proof (elim disjE exE conjE)
  fix now
  assume e: "e = (engine_start ord table w)\<lparr>en_queue := cmd # posted, en_now := now\<rparr>"
  then have "requests dev t (en_queue e) = requests dev t posted" "en_answers e = []"
    using assms(2) by (simp_all add: engine_start_def)
  with linearized_start[of dev m "requests dev t posted"] nothing_waits_at_rest(1)[OF assms(1)] show ?thesis by fastforce
next
  fix h
  assume "tended dev h Q e"
    and "linearized dev m (requests dev t posted) (requests dev t (en_queue e)) (ch_queue (en_channels e ! dh_tx h)) (en_answers e) (f h)"
  with nothing_waits_at_rest[OF assms(1)] show ?thesis by fastforce
qed

definition ek68_topology :: device_topology where
  "ek68_topology = \<lparr>dt_matrix = \<lparr>km_rows = 5, km_cols = 15\<rparr>, dt_layer_count = 2\<rparr>"

text \<open>C3. All clients of an EK68 see one keymap. Plug the keyboard in when the daemon has started, and let any
  number of clients post requests while other keyboards come, work, fail and go, in every interleaving of
  the supervisor, the workers, the reconnect tasks and the timers: the requests for this keyboard take effect
  one by one in the order in which they were posted. One is refused as busy only when it finds 16 others in the
  queue, and then it is. Each other read, write and commit is answered as a plain keymap would in this order,
  which starts as the persisted shadow; requests for macros and lighting are answered too and change no key.
  When the tasks have come to rest, every one of them has been answered or refused.\<close>

theorem ek68_requests_take_effect_in_order:
  fixes w :: "('d, 'f) host"
  assumes "ek68_entry cfg" and "working_ek68 w path"
    and "engine_run daemon_idle (booted ord coalesce [cfg] w) (DeviceConnected dev (dc_vid cfg) (dc_pid cfg) path # posted) e"
    and "list_all (orderly dev ek68_topology (request_ok gmk_positions (\<lambda>_. True))) posted"
  shows "\<exists>queue m'. linearized dev (\<lambda>(l, r, c). shadow_get_keycode l r c (shadow_load (ho_os w) (ho_disk w) persist_id))
      (requests dev ek68_topology posted) (requests dev ek68_topology (en_queue e)) queue (en_answers e) m'
    \<and> (at_rest e \<longrightarrow> requests dev ek68_topology (en_queue e) = [] \<and> queue = [])"
proof -
  obtain d where "select_factory (build_driver_table coalesce (Config [cfg]) :: (('d, 'f) host, ('d, 'f) any_driver) driver_table) (dc_vid cfg) (dc_pid cfg) = Some (gmk67_factory False)"
    "gmk67_factory False path w = (Inr \<lparr>bx_ops = right_ops gmk_driver_ops, bx_state = Inr d\<rparr>, w)"
    "kd_get_matrix_dimensions (right_ops gmk_driver_ops) (Inr d :: ('d, 'f) any_driver) = (Inr (5, 15), Inr d)"
    "kd_get_layer_count (right_ops gmk_driver_ops) (Inr d :: ('d, 'f) any_driver) = (Inr 2, Inr d)"
    and d: "gmk_healthy d" "gmk_view d = (\<lambda>(l, r, c). shadow_get_keycode l r c (shadow_load (ho_os w) (ho_disk w) persist_id))"
    by (rule ek68_opened[OF assms(1,2), of coalesce])
  note boot = gmk_daemon.order_from_boot[OF assms(3) booted_def _ this(1-4) ek68_topology_def]
  show ?thesis
    by (rule linearized_outcome[OF assms(3)[unfolded booted_def]])
       (use boot assms(4) d in \<open>auto simp: gmk_daemon.in_order_def desk_of_def booted_def\<close>)
qed

text \<open>The commands are posted at once, and the tasks then work until they rest.\<close>

lemma posted_and_rested:
  assumes "list_all external cmds" and "length cmds \<le> ENGINE_CHANNEL_CAPACITY"
  shows "\<exists>e. engine_run idle (engine_start ord table w) cmds e \<and> at_rest e"
proof -
  let ?s = "engine_start ord table w"
  have "engine_run idle ?s cmds (?s\<lparr>en_queue := cmds\<rparr>)"
    using assms
  proof (induction cmds rule: rev_induct)
    case Nil
    have "?s\<lparr>en_queue := []\<rparr> = ?s" by (simp add: engine_start_def)
    then show ?case by (simp add: run_start)
  next
    case (snoc cmd cmds)
    then have "engine_run idle ?s cmds (?s\<lparr>en_queue := cmds\<rparr>)" by simp
    from run_posted[OF this, of cmd] snoc.prems show ?case
      by (simp add: posted_to_def has_room_def engine_start_def)
  qed
  moreover from this have "\<exists>e. works\<^sup>*\<^sup>* (?s\<lparr>en_queue := cmds\<rparr>) e \<and> at_rest e"
    by (intro works_until_rest tasks_inv_run)
  ultimately show ?thesis using works_run by blast
qed

theorem ek68_requests_take_effect_in_order_witness:
  "\<exists>e m'. engine_run daemon_idle (booted (\<lambda>xs. xs) None [ek68_config] ek68_host)
      [DeviceConnected ''hidraw1'' 0x05AC 0x024F ''/dev/hidraw1'', CmdSetKeycode ''hidraw1'' 0 1 1 4 7,
       CmdSetLighting ''hidraw1'' 3 1 [0x7F] 9, CmdGetKeycode ''hidraw1'' 0 1 1 8] e \<and> at_rest e
    \<and> linearized ''hidraw1'' (\<lambda>(l, r, c). shadow_get_keycode l r c (shadow_load null_disk () persist_id))
        [WSetKeycode 0 1 1 4 7, WSetLighting 3 1 [0x7F] 9, WGetKeycode 0 1 1 8] [] [] (en_answers e) m'"
proof -
  let ?posted = "[CmdSetKeycode ''hidraw1'' 0 1 1 4 7, CmdSetLighting ''hidraw1'' 3 1 [0x7F] 9, CmdGetKeycode ''hidraw1'' 0 1 1 8]"
  have entry: "ek68_entry ek68_config" by (simp add: ek68_entry_def ek68_config_def)
  have "\<exists>e. engine_run daemon_idle (booted (\<lambda>xs. xs) None [ek68_config] ek68_host)
      (DeviceConnected ''hidraw1'' (dc_vid ek68_config) (dc_pid ek68_config) ''/dev/hidraw1'' # ?posted) e \<and> at_rest e"
    unfolding booted_def by (rule posted_and_rested) (simp_all add: ENGINE_CHANNEL_CAPACITY_def)
  then obtain e where run: "engine_run daemon_idle (booted (\<lambda>xs. xs) None [ek68_config] ek68_host)
      (DeviceConnected ''hidraw1'' (dc_vid ek68_config) (dc_pid ek68_config) ''/dev/hidraw1'' # ?posted) e" and rest: "at_rest e"
    by blast
  have "keydef_command 0 \<noteq> None" "key_index_for 1 1 \<noteq> None" by code_simp+
  then have "list_all (orderly ''hidraw1'' ek68_topology (request_ok gmk_positions (\<lambda>_. True))) ?posted"
    by (simp add: gmk_positions_def request_ok_def)
  from ek68_requests_take_effect_in_order[OF entry ek68_host_works run this] rest
  have "\<exists>m'. linearized ''hidraw1'' (\<lambda>(l, r, c). shadow_get_keycode l r c (shadow_load (ho_os ek68_host) (ho_disk ek68_host) persist_id))
      (requests ''hidraw1'' ek68_topology ?posted) [] [] (en_answers e) m'" by auto
  moreover have "topology_contains ek68_topology 0 1 1" by (simp add: ek68_topology_def topology_contains_def matrix_contains_def)
  ultimately show ?thesis using run rest by (auto simp: ek68_config_def ek68_host_def)
qed

definition via_topology :: "u8 \<Rightarrow> device_topology" where
  "via_topology n = \<lparr>dt_matrix = \<lparr>km_rows = 16, km_cols = 16\<rparr>, dt_layer_count = n\<rparr>"

text \<open>C4. The same holds for a VIA board that answers as documented, with coalescing on or off: the requests of
  all its clients take effect in the order in which they were posted, on a keymap that starts as the one in
  the board's memory. A macro or lighting request is one whose frames the board answers, with whatever
  content, and a lighting write goes to a channel that it can save.\<close>

theorem via_requests_take_effect_in_order:
  fixes w :: "('d, 'f) host"
  assumes "via_entries devs vid pid" and "answering_via w path V H F n m0"
    and "engine_run daemon_idle (booted ord coalesce devs w) (DeviceConnected dev vid pid path # posted) e"
    and "list_all (orderly dev (via_topology n) (request_ok V (via_calm H F))) posted"
  shows "\<exists>queue m'. linearized dev m0 (requests dev (via_topology n) posted) (requests dev (via_topology n) (en_queue e)) queue
      (en_answers e) m'
    \<and> (at_rest e \<longrightarrow> requests dev (via_topology n) (en_queue e) = [] \<and> queue = [])"
proof -
  obtain d d1 d2 where opened: "via_fallback_factory coalesce path w = (Inr \<lparr>bx_ops = left_ops via_driver_ops, bx_state = Inl d\<rparr>, w)"
    "kd_get_matrix_dimensions (left_ops via_driver_ops) (Inl d :: ('d, 'f) any_driver) = (Inr (16, 16), Inl d1)"
    "kd_get_layer_count (left_ops via_driver_ops) (Inl d1 :: ('d, 'f) any_driver) = (Inr n, Inl d2)"
    and d2: "vd_healthy V H F d2" "vd_view V d2 = m0"
    using via_box_ready[OF assms(2), of coalesce] by blast
  note boot = via_daemon.order_from_boot[OF assms(3) booted_def _ via_selected[OF assms(1)] opened via_topology_def, where V = V and H = H and F = F]
  show ?thesis
    by (rule linearized_outcome[OF assms(3)[unfolded booted_def]])
       (use boot assms(4) d2 in \<open>auto simp: via_daemon.in_order_def desk_of_def booted_def\<close>)
qed

theorem via_requests_take_effect_in_order_witness:
  "\<exists>e m'. engine_run daemon_idle (booted (\<lambda>xs. xs) (Some 50) [] via_host)
      [DeviceConnected ''hidraw3'' 0xFEED 0x6060 ''/dev/hidraw3'', CmdSetKeycode ''hidraw3'' 3 15 2 4 7,
       CmdSetLighting ''hidraw3'' 3 1 [0x7F] 5, CmdGetMacro ''hidraw3'' 0 16 6, CommitToNvram ''hidraw3'' 8,
       CmdGetKeycode ''hidraw3'' 3 15 2 9] e \<and> at_rest e
    \<and> linearized ''hidraw3'' (\<lambda>p. if p \<in> sim_positions then 0x29 else 0)
        [WSetKeycode 3 15 2 4 7, WSetLighting 3 1 [0x7F] 5, WGetMacro 0 16 6, WCommit 8, WGetKeycode 3 15 2 9] [] [] (en_answers e) m'"
proof -
  let ?posted = "[CmdSetKeycode ''hidraw3'' 3 15 2 4 7, CmdSetLighting ''hidraw3'' 3 1 [0x7F] 5, CmdGetMacro ''hidraw3'' 0 16 6,
    CommitToNvram ''hidraw3'' 8, CmdGetKeycode ''hidraw3'' 3 15 2 9]"
  have "\<exists>e. engine_run daemon_idle (booted (\<lambda>xs. xs) (Some 50) [] via_host)
      (DeviceConnected ''hidraw3'' 0xFEED 0x6060 ''/dev/hidraw3'' # ?posted) e \<and> at_rest e"
    unfolding booted_def by (rule posted_and_rested) (simp_all add: ENGINE_CHANNEL_CAPACITY_def)
  then obtain e where run: "engine_run daemon_idle (booted (\<lambda>xs. xs) (Some 50) [] via_host)
      (DeviceConnected ''hidraw3'' 0xFEED 0x6060 ''/dev/hidraw3'' # ?posted) e" and rest: "at_rest e" by blast
  have "via_entries [] 0xFEED 0x6060" by (simp add: via_entries_def)
  moreover have "list_all (orderly ''hidraw3'' (via_topology 4) (request_ok sim_positions (via_calm {c. c < 4} sim_requests))) ?posted"
    by (simp add: sim_positions_def request_ok_def sim_requests_def via_ids)
  ultimately have "\<exists>m'. linearized ''hidraw3'' (\<lambda>p. if p \<in> sim_positions then 0x29 else 0)
      (requests ''hidraw3'' (via_topology 4) ?posted) [] [] (en_answers e) m'"
    using via_requests_take_effect_in_order[OF _ via_host_answers run] rest by auto
  moreover have "topology_contains (via_topology 4) 3 15 2" by (simp add: via_topology_def topology_contains_def matrix_contains_def)
  ultimately show ?thesis using run rest by auto
qed

end
