(* ===== verification/Tests_Via.thy ===== *)
theory Tests_Via
  imports Via_Driver
begin

text \<open>
  The unit tests of \<open>src/hal/via.rs\<close>, each as a proposition over the model, and the proof that it holds:
  the frame checks, the command identifiers, the descriptor walk, and the write coalescer in front of the
  tests' transport in memory. A test of the coalescer that flushes several keys holds for every order in which
  a \<open>HashMap\<close> may be iterated. A sleep of the test lets the actor's timer fire each time it comes due.
\<close>

section \<open>Frames, identifiers and descriptors\<close>

definition via_descriptor :: bytes where
  "via_descriptor = [0x06, 0x60, 0xFF, 0x09, 0x61, 0xA1, 0x01, 0xC0]"

definition mouse_descriptor :: bytes where
  "mouse_descriptor = [0x05, 0x01, 0x09, 0x02, 0xA1, 0x01, 0xC0]"

definition multi_page_descriptor :: bytes where
  "multi_page_descriptor =
     [0x05, 0x01, 0x09, 0x06, 0xA1, 0x01, 0xC0, 0x06, 0x60, 0xFF, 0x09, 0x61, 0xA1, 0x01, 0xC0]"

fun violates_protocol :: "driver_error + 'a \<Rightarrow> bool" where
  "violates_protocol (Inl (ProtocolViolation _)) = True"
| "violates_protocol _ = False"

definition validate_echo_accepts_matching_prefix :: bool where
  "validate_echo_accepts_matching_prefix \<longleftrightarrow>
     (let resp = [ID_DYNAMIC_KEYMAP_GET_KEYCODE, 1, 2, 3] @ replicate (VIA_FRAME_LEN - 4) 0
      in is_ok (validate_echo resp [ID_DYNAMIC_KEYMAP_GET_KEYCODE, 1, 2, 3] ''x''))"

definition validate_echo_rejects_mismatch :: bool where
  "validate_echo_rejects_mismatch \<longleftrightarrow>
     (let resp = [ID_DYNAMIC_KEYMAP_GET_KEYCODE, 1, 2, 3] @ replicate (VIA_FRAME_LEN - 4) 0
      in violates_protocol (validate_echo resp [ID_DYNAMIC_KEYMAP_GET_KEYCODE, 9, 2, 3] ''x''))"

definition frame_capacity_constants_match_protocol_layout :: bool where
  "frame_capacity_constants_match_protocol_layout \<longleftrightarrow>
     MAX_MACRO_CHUNK = VIA_FRAME_LEN - 4 \<and> MAX_LIGHTING_VALUE = VIA_FRAME_LEN - 3"

definition via_command_ids_match_canonical_protocol :: bool where
  "via_command_ids_match_canonical_protocol \<longleftrightarrow>
     ID_GET_PROTOCOL_VERSION = 0x01
   \<and> ID_DYNAMIC_KEYMAP_GET_KEYCODE = 0x04
   \<and> ID_DYNAMIC_KEYMAP_SET_KEYCODE = 0x05
   \<and> ID_LIGHTING_SET_VALUE = 0x07
   \<and> ID_LIGHTING_GET_VALUE = 0x08
   \<and> ID_CUSTOM_SAVE = 0x09
   \<and> ID_MACRO_GET_COUNT = 0x0C
   \<and> ID_MACRO_GET_BUFFER_SIZE = 0x0D
   \<and> ID_MACRO_GET_BUFFER = 0x0E
   \<and> ID_MACRO_SET_BUFFER = 0x0F
   \<and> ID_DYNAMIC_KEYMAP_GET_LAYER_COUNT = 0x11"

definition macro_range_validation :: bool where
  "macro_range_validation \<longleftrightarrow>
     is_ok (validate_macro_range 0 28 1024) \<and> is_ok (validate_macro_range 1000 24 1024)
   \<and> violates_protocol (validate_macro_range 0 29 1024)
   \<and> violates_protocol (validate_macro_range 1020 5 1024)
   \<and> violates_protocol (validate_macro_range 0 1 0)"

text \<open>A walk that panics has no value; the tests ask for an answer.\<close>

definition test_via_descriptor_matches :: bool where
  "test_via_descriptor_matches \<longleftrightarrow> hid_descriptor_has_usage_page via_descriptor VIA_USAGE_PAGE = Some True"

definition test_mouse_descriptor_does_not_match :: bool where
  "test_mouse_descriptor_does_not_match \<longleftrightarrow>
     hid_descriptor_has_usage_page mouse_descriptor VIA_USAGE_PAGE = Some False"

definition test_multi_page_descriptor_matches :: bool where
  "test_multi_page_descriptor_matches \<longleftrightarrow>
     hid_descriptor_has_usage_page multi_page_descriptor VIA_USAGE_PAGE = Some True"

definition test_empty_descriptor_does_not_match :: bool where
  "test_empty_descriptor_does_not_match \<longleftrightarrow> hid_descriptor_has_usage_page [] VIA_USAGE_PAGE = Some False"

definition test_truncated_descriptor_does_not_panic :: bool where
  "test_truncated_descriptor_does_not_panic \<longleftrightarrow>
     hid_descriptor_has_usage_page [0x06, 0x60] VIA_USAGE_PAGE = Some False"

lemma frame_tests:
  "validate_echo_accepts_matching_prefix" "validate_echo_rejects_mismatch"
  "frame_capacity_constants_match_protocol_layout" "via_command_ids_match_canonical_protocol"
  "macro_range_validation" "test_via_descriptor_matches" "test_mouse_descriptor_does_not_match"
  "test_multi_page_descriptor_matches" "test_empty_descriptor_does_not_match"
  "test_truncated_descriptor_does_not_panic"
  by code_simp+

section \<open>The transport in memory\<close>

datatype mock_call =
    MockGet u8 u8 u8 | MockSet u8 u8 u8 u16 | MockLayerCount | MockSetLighting u8 u8 | MockCustomSave u8

record mock_transport =
  mt_storage :: "(key_pos, u16) hash_map"
  mt_calls :: "mock_call list"
  mt_layer_count :: u8
  mt_fail_on_set :: "key_pos option"

definition mt_record :: "mock_call \<Rightarrow> mock_transport \<Rightarrow> mock_transport" where
  "mt_record call m = m\<lparr>mt_calls := mt_calls m @ [call]\<rparr>"

definition shared_mock :: "mock_transport transport_ops" where
  "shared_mock =
     \<lparr>tr_get_protocol_version = (\<lambda>m. (Inr 0x000C, m)),
      tr_get_keycode = (\<lambda>layer row col m.
        (Inr (case hm_get (mt_storage m) (layer, row, col) of Some k \<Rightarrow> k | None \<Rightarrow> 0),
         mt_record (MockGet layer row col) m)),
      tr_set_keycode = (\<lambda>layer row col keycode m.
        if mt_fail_on_set m = Some (layer, row, col) then (Inl Disconnected, m)
        else (Inr (), (mt_record (MockSet layer row col keycode) m)
                \<lparr>mt_storage := hm_insert (layer, row, col) keycode (mt_storage m)\<rparr>)),
      tr_get_layer_count = (\<lambda>m. (Inr (mt_layer_count m), mt_record MockLayerCount m)),
      tr_custom_save = (\<lambda>channel m. (Inr (), mt_record (MockCustomSave channel) m)),
      tr_get_macro_buffer = (\<lambda>_ len m. (Inr (replicate (unat len) 0), m)),
      tr_set_macro_buffer = (\<lambda>_ _ m. (Inr (), m)),
      tr_get_lighting = (\<lambda>_ _ m. (Inr (replicate 4 0), m)),
      tr_set_lighting = (\<lambda>channel value_id _ m. (Inr (), mt_record (MockSetLighting channel value_id) m))\<rparr>"

type_synonym orders = "(key_pos list \<Rightarrow> key_pos list) \<times> (u8 list \<Rightarrow> u8 list)"

definition spawn_test_coalescer :: "orders \<Rightarrow> nat \<Rightarrow> mock_transport coalescer" where
  "spawn_test_coalescer ord flush_interval =
     run_coalescer_init
       \<lparr>mt_storage = hm_new (\<lambda>ks. ks), mt_calls = [], mt_layer_count = 4, mt_fail_on_set = None\<rparr>
       flush_interval ''test-hidraw'' True (fst ord) (snd ord)"

definition send_set :: "nat \<Rightarrow> u8 \<Rightarrow> u8 \<Rightarrow> u8 \<Rightarrow> u16 \<Rightarrow> mock_transport coalescer
    \<Rightarrow> co_reply \<times> mock_transport coalescer" where
  "send_set now layer row col keycode = co_handle shared_mock now (CoSetKeycode layer row col keycode)"

definition send_get :: "nat \<Rightarrow> u8 \<Rightarrow> u8 \<Rightarrow> u8 \<Rightarrow> mock_transport coalescer
    \<Rightarrow> co_reply \<times> mock_transport coalescer" where
  "send_get now layer row col = co_handle shared_mock now (CoGetKeycode layer row col)"

definition send_flush :: "nat \<Rightarrow> mock_transport coalescer \<Rightarrow> co_reply \<times> mock_transport coalescer" where
  "send_flush now = co_handle shared_mock now CoFlush"

definition send_set_lighting :: "nat \<Rightarrow> u8 \<Rightarrow> u8 \<Rightarrow> mock_transport coalescer
    \<Rightarrow> co_reply \<times> mock_transport coalescer" where
  "send_set_lighting now channel value_id = co_handle shared_mock now (CoSetLighting channel value_id [0x7F])"

text \<open>The time passes to \<open>til\<close>, and the timer fires whenever its deadline is reached, \<open>n\<close> times at most.\<close>

fun sleep_until :: "nat \<Rightarrow> nat \<Rightarrow> mock_transport coalescer \<Rightarrow> mock_transport coalescer" where
  "sleep_until 0 til c = c"
| "sleep_until (Suc n) til c =
     (case co_deadline c of
        Some d \<Rightarrow> if d \<le> til then sleep_until n til (co_auto_flush shared_mock d c) else c
      | None \<Rightarrow> c)"

definition set_fault :: "key_pos option \<Rightarrow> mock_transport coalescer \<Rightarrow> mock_transport coalescer" where
  "set_fault f c = c\<lparr>co_transport := (co_transport c)\<lparr>mt_fail_on_set := f\<rparr>\<rparr>"

abbreviation stored :: "mock_transport coalescer \<Rightarrow> key_pos \<Rightarrow> u16 option" where
  "stored c \<equiv> hm_get (mt_storage (co_transport c))"

abbreviation calls_of :: "mock_transport coalescer \<Rightarrow> mock_call list" where
  "calls_of c \<equiv> mt_calls (co_transport c)"

abbreviation done_ok :: co_reply where
  "done_ok \<equiv> ReplyUnit (Inr ())"

fun is_mock_set :: "mock_call \<Rightarrow> bool" where
  "is_mock_set (MockSet _ _ _ _) = True" | "is_mock_set _ = False"

fun is_mock_get :: "mock_call \<Rightarrow> bool" where
  "is_mock_get (MockGet _ _ _) = True" | "is_mock_get _ = False"

fun mock_saved :: "mock_call \<Rightarrow> u8 option" where
  "mock_saved (MockCustomSave ch) = Some ch" | "mock_saved _ = None"

fun mock_written :: "mock_call \<Rightarrow> key_pos option" where
  "mock_written (MockSet l r c _) = Some (l, r, c)" | "mock_written _ = None"

section \<open>The tests of the coalescer\<close>

definition set_is_buffered_no_transport_call :: "orders \<Rightarrow> bool" where
  "set_is_buffered_no_transport_call ord \<longleftrightarrow>
     (let (r, c) = send_set 0 0 1 2 0x004C (spawn_test_coalescer ord 60000)
      in r = done_ok \<and> hm_is_empty (mt_storage (co_transport c)) \<and> \<not> list_ex is_mock_set (calls_of c))"

definition get_on_buffered_key_returns_from_buffer :: "orders \<Rightarrow> bool" where
  "get_on_buffered_key_returns_from_buffer ord \<longleftrightarrow>
     (let (r, c) = send_set 0 0 1 2 0x1234 (spawn_test_coalescer ord 60000);
          (got, c) = send_get 0 0 1 2 c
      in r = done_ok \<and> got = ReplyU16 (Inr 0x1234) \<and> \<not> list_ex is_mock_get (calls_of c))"

definition get_on_unbuffered_key_falls_through_to_transport :: "orders \<Rightarrow> bool" where
  "get_on_unbuffered_key_falls_through_to_transport ord \<longleftrightarrow>
     (let c = spawn_test_coalescer ord 60000;
          c = c\<lparr>co_transport := (co_transport c)
                \<lparr>mt_storage := hm_insert (3, 4, 5) 0xBEEF (mt_storage (co_transport c))\<rparr>\<rparr>;
          (got, c) = send_get 0 3 4 5 c
      in got = ReplyU16 (Inr 0xBEEF) \<and> length (filter (\<lambda>x. x = MockGet 3 4 5) (calls_of c)) = 1)"

definition flush_drains_buffer_to_transport :: "orders \<Rightarrow> bool" where
  "flush_drains_buffer_to_transport ord \<longleftrightarrow>
     (let c = spawn_test_coalescer ord 60000;
          (r1, c) = send_set 0 0 0 0 0x01 c;
          (r2, c) = send_set 0 1 0 0 0x02 c;
          (r3, c) = send_set 0 2 0 0 0x03 c;
          (r4, c1) = send_flush 0 c;
          (_, c2) = send_get 0 0 0 0 c1
      in r1 = done_ok \<and> r2 = done_ok \<and> r3 = done_ok \<and> r4 = done_ok
       \<and> stored c1 (0, 0, 0) = Some 0x01 \<and> stored c1 (1, 0, 0) = Some 0x02 \<and> stored c1 (2, 0, 0) = Some 0x03
       \<and> list_ex (\<lambda>x. x = MockGet 0 0 0) (calls_of c2))"

definition auto_flush_fires_after_deadline :: "orders \<Rightarrow> bool" where
  "auto_flush_fires_after_deadline ord \<longleftrightarrow>
     (let (r, c) = send_set 0 7 7 7 0xABCD (spawn_test_coalescer ord 50);
          c1 = sleep_until 3 150 c
      in r = done_ok \<and> hm_is_empty (mt_storage (co_transport c)) \<and> stored c1 (7, 7, 7) = Some 0xABCD)"

definition final_flush_on_channel_close :: "orders \<Rightarrow> bool" where
  "final_flush_on_channel_close ord \<longleftrightarrow>
     (let (r, c) = send_set 0 5 5 5 0xDEAD (spawn_test_coalescer ord 60000);
          c = co_shutdown shared_mock c
      in r = done_ok \<and> stored c (5, 5, 5) = Some 0xDEAD)"

definition deadline_not_extended_by_subsequent_writes :: "orders \<Rightarrow> bool" where
  "deadline_not_extended_by_subsequent_writes ord \<longleftrightarrow>
     (let (r1, c) = send_set 0 0 0 0 1 (spawn_test_coalescer ord 80);
          c = sleep_until 2 20 c;
          (r2, c) = send_set 20 0 0 1 2 c;
          c = sleep_until 2 40 c;
          (r3, c) = send_set 40 0 0 2 3 c;
          c = sleep_until 2 140 c;
          written = List.map_filter mock_written (calls_of c)
      in r1 = done_ok \<and> r2 = done_ok \<and> r3 = done_ok
       \<and> (0, 0, 0) \<in> set written \<and> (0, 0, 1) \<in> set written \<and> (0, 0, 2) \<in> set written)"

definition get_layer_count_routes_through_actor :: "orders \<Rightarrow> bool" where
  "get_layer_count_routes_through_actor ord \<longleftrightarrow>
     (let (r, c) = co_handle shared_mock 0 CoGetLayerCount (spawn_test_coalescer ord 60000)
      in r = ReplyU8 (Inr 4) \<and> length (filter (\<lambda>x. x = MockLayerCount) (calls_of c)) = 1)"

definition flush_lifecycle_event_emission :: "orders \<Rightarrow> bool" where
  "flush_lifecycle_event_emission ord \<longleftrightarrow>
     (let (r1, c) = send_set 0 0 0 0 0x01 (spawn_test_coalescer ord 60000);
          (r2, c) = send_set 0 0 0 1 0x02 c;
          (r3, c1) = send_flush 0 c
      in r1 = done_ok \<and> r2 = done_ok \<and> co_events c = [] \<and> r3 = done_ok
       \<and> (case co_events c1 of [LayoutUpdated _] \<Rightarrow> True | _ \<Rightarrow> False))"

definition partial_flush_retains_unflushed_entries :: "orders \<Rightarrow> bool" where
  "partial_flush_retains_unflushed_entries ord \<longleftrightarrow>
     (let (r1, c) = send_set 0 0 0 0 0x01 (spawn_test_coalescer ord 60000);
          (r2, c) = send_set 0 0 0 1 0x02 c;
          (r3, c) = send_set 0 0 0 2 0x03 c;
          (err, c) = send_flush 0 (set_fault (Some (0, 0, 1)) c);
          (r4, c) = send_flush 0 (set_fault None c)
      in r1 = done_ok \<and> r2 = done_ok \<and> r3 = done_ok \<and> err = ReplyUnit (Inl Disconnected) \<and> r4 = done_ok
       \<and> stored c (0, 0, 0) = Some 0x01 \<and> stored c (0, 0, 1) = Some 0x02 \<and> stored c (0, 0, 2) = Some 0x03)"

definition flush_saves_touched_lighting_channels_once :: "orders \<Rightarrow> bool" where
  "flush_saves_touched_lighting_channels_once ord \<longleftrightarrow>
     (let (r1, c) = send_set_lighting 0 3 1 (spawn_test_coalescer ord 60000);
          (r2, c) = send_set_lighting 0 3 3 c;
          (r3, c) = send_set_lighting 0 2 1 c;
          (r4, c1) = send_flush 0 c;
          saves = List.map_filter mock_saved (calls_of c1);
          (r5, c2) = send_flush 0 c1
      in r1 = done_ok \<and> r2 = done_ok \<and> r3 = done_ok \<and> List.map_filter mock_saved (calls_of c) = []
       \<and> r4 = done_ok \<and> length saves = 2 \<and> 3 \<in> set saves \<and> 2 \<in> set saves
       \<and> r5 = done_ok \<and> length (List.map_filter mock_saved (calls_of c2)) = 2)"

definition failed_auto_flush_retries_on_next_interval :: "orders \<Rightarrow> bool" where
  "failed_auto_flush_retries_on_next_interval ord \<longleftrightarrow>
     (let c = set_fault (Some (1, 2, 3)) (spawn_test_coalescer ord 50);
          (r, c) = send_set 0 1 2 3 0xABCD c;
          c1 = sleep_until 3 120 c;
          c2 = sleep_until 3 240 (set_fault None c1)
      in r = done_ok \<and> hm_is_empty (mt_storage (co_transport c1)) \<and> stored c2 (1, 2, 3) = Some 0xABCD)"

text \<open>What a \<open>HashMap\<close> of one, two or three keys can be iterated as.\<close>

lemma distinct_Cons_set: "distinct zs \<Longrightarrow> set zs = A \<Longrightarrow> A \<noteq> {} \<Longrightarrow>
    \<exists>z ws. zs = z # ws \<and> z \<in> A \<and> distinct ws \<and> set ws = A - {z}"
  by (cases zs) auto

lemma set_eq_1: "distinct zs \<Longrightarrow> set zs = {x} \<Longrightarrow> zs = [x]"
  by (drule (1) distinct_Cons_set) auto

lemma set_eq_2:
  assumes "distinct zs" and "set zs = {x, y}" and "x \<noteq> y"
  shows "zs = [x, y] \<or> zs = [y, x]"
proof -
  obtain z ws where z: "zs = z # ws" "z \<in> {x, y}" "distinct ws" "set ws = {x, y} - {z}"
    using distinct_Cons_set[OF assms(1,2)] by auto
  with assms(3) have "set ws = {if z = x then y else x}" by auto
  with z set_eq_1[OF z(3)] show ?thesis by (auto split: if_splits)
qed

lemma set_eq_3:
  assumes "distinct zs" and "set zs = {x, y, w}" and "x \<noteq> y" "x \<noteq> w" "y \<noteq> w"
  shows "zs \<in> {[x, y, w], [x, w, y], [y, x, w], [y, w, x], [w, x, y], [w, y, x]}"
proof -
  obtain z ws where z: "zs = z # ws" "z \<in> {x, y, w}" "distinct ws" "set ws = {x, y, w} - {z}"
    using distinct_Cons_set[OF assms(1,2)] by auto
  then consider "z = x" "set ws = {y, w}" | "z = y" "set ws = {x, w}" | "z = w" "set ws = {x, y}"
    using assms(3-5) by auto
  then show ?thesis using z set_eq_2[OF z(3)] assms(3-5) by cases auto
qed

lemma reorders_few:
  assumes "reorders f"
  shows "f [] = []" and "f [x] = [x]"
    and "x \<noteq> y \<Longrightarrow> f [x, y] = [x, y] \<or> f [x, y] = [y, x]"
    and "x \<noteq> y \<Longrightarrow> x \<noteq> w \<Longrightarrow> y \<noteq> w \<Longrightarrow>
      f [x, y, w] = [x, y, w] \<or> f [x, y, w] = [x, w, y] \<or> f [x, y, w] = [y, x, w]
        \<or> f [x, y, w] = [y, w, x] \<or> f [x, y, w] = [w, x, y] \<or> f [x, y, w] = [w, y, x]"
proof -
  have f: "set (f xs) = set xs" "distinct xs \<Longrightarrow> distinct (f xs)" for xs
    using assms by (simp_all add: reorders_def)
  show "f [] = []" using f(1)[of "[]"] by simp
  show "f [x] = [x]" by (rule set_eq_1) (simp_all add: f)
  show "f [x, y] = [x, y] \<or> f [x, y] = [y, x]" if "x \<noteq> y"
    by (rule set_eq_2) (simp_all add: f that)
  show "f [x, y, w] = [x, y, w] \<or> f [x, y, w] = [x, w, y] \<or> f [x, y, w] = [y, x, w]
        \<or> f [x, y, w] = [y, w, x] \<or> f [x, y, w] = [w, x, y] \<or> f [x, y, w] = [w, y, x]"
    if "x \<noteq> y" "x \<noteq> w" "y \<noteq> w"
    using set_eq_3[of "f [x, y, w]" x y w] that by (simp add: f)
qed

text \<open>What the tests assume of a \<open>HashMap\<close> and a \<open>HashSet\<close>.\<close>

definition orders_ok :: "orders \<Rightarrow> bool" where
  "orders_ok ord \<longleftrightarrow> reorders (fst ord) \<and> reorders (snd ord)"

lemma sleep_until_numeral: "sleep_until (numeral k) til c =
    (case co_deadline c of
       Some d \<Rightarrow> if d \<le> til then sleep_until (pred_numeral k) til (co_auto_flush shared_mock d c) else c
     | None \<Rightarrow> c)"
  by (simp add: numeral_eq_Suc)

lemmas mock_run =
  spawn_test_coalescer_def run_coalescer_init_def send_set_def send_get_def send_flush_def
  send_set_lighting_def set_fault_def co_handle_flush_def co_auto_flush_def co_shutdown_def co_flush_def co_save_def
  flush_buffer_def save_touched_channels_def co_forward_def reply_with_def shared_mock_def mt_record_def
  emit_layout_updated_def hm_get_def hm_new_def hm_insert_def hm_remove_def hm_keys_def hm_is_empty_def
  hs_new_def hs_insert_def hs_remove_def hs_iter_def sleep_until_numeral map_filter_simps Let_def

lemma coalescer_tests_no_order:
  "set_is_buffered_no_transport_call ord" "get_on_buffered_key_returns_from_buffer ord"
  "get_on_unbuffered_key_falls_through_to_transport ord" "get_layer_count_routes_through_actor ord"
     apply (simp add: set_is_buffered_no_transport_call_def mock_run)
    apply (simp add: get_on_buffered_key_returns_from_buffer_def mock_run)
   apply (simp add: get_on_unbuffered_key_falls_through_to_transport_def mock_run)
  apply (simp add: get_layer_count_routes_through_actor_def mock_run)
  done

lemma coalescer_tests_one_key:
  assumes "orders_ok ord"
  shows "auto_flush_fires_after_deadline ord" "final_flush_on_channel_close ord"
    "failed_auto_flush_retries_on_next_interval ord"
proof -
  have k: "fst ord [p] = [p]" for p by (rule reorders_few(2)) (use assms in \<open>simp add: orders_ok_def\<close>)
  show "auto_flush_fires_after_deadline ord"
    by (simp add: auto_flush_fires_after_deadline_def mock_run k)
  show "final_flush_on_channel_close ord"
    by (simp add: final_flush_on_channel_close_def mock_run k)
  show "failed_auto_flush_retries_on_next_interval ord"
    by (simp add: failed_auto_flush_retries_on_next_interval_def mock_run k)
qed


lemma coalescer_tests_several_keys:
  assumes "orders_ok ord"
  shows "flush_drains_buffer_to_transport ord" "deadline_not_extended_by_subsequent_writes ord"
    "flush_lifecycle_event_emission ord" "flush_saves_touched_lighting_channels_once ord"
proof -
  have f: "reorders (fst ord)" "reorders (snd ord)" using assms by (simp_all add: orders_ok_def)
  note few = reorders_few(1,2)[OF f(1)] reorders_few(1,2)[OF f(2)]
  show "flush_drains_buffer_to_transport ord"
    using reorders_few(4)[OF f(1), of "(0, 0, 0)" "(1, 0, 0)" "(2, 0, 0)", simplified]
    by (elim disjE) (simp_all add: flush_drains_buffer_to_transport_def mock_run few)
  show "deadline_not_extended_by_subsequent_writes ord"
    using reorders_few(4)[OF f(1), of "(0, 0, 0)" "(0, 0, 1)" "(0, 0, 2)", simplified]
    by (elim disjE) (simp_all add: deadline_not_extended_by_subsequent_writes_def mock_run few)
  show "flush_lifecycle_event_emission ord"
    using reorders_few(3)[OF f(1), of "(0, 0, 0)" "(0, 0, 1)", simplified]
    by (elim disjE) (simp_all add: flush_lifecycle_event_emission_def mock_run few)
  show "flush_saves_touched_lighting_channels_once ord"
    using reorders_few(3)[OF f(2), of 2 3, simplified]
    by (elim disjE) (simp_all add: flush_saves_touched_lighting_channels_once_def mock_run few)
qed

lemma coalescer_test_partial:
  assumes "orders_ok ord"
  shows "partial_flush_retains_unflushed_entries ord"
proof -
  have f: "reorders (fst ord)" "reorders (snd ord)" using assms by (simp_all add: orders_ok_def)
  note few = reorders_few(1,2)[OF f(1)] reorders_few(1,2)[OF f(2)]
  note two = reorders_few(3)[OF f(1), of "(0, 0, 1)" "(0, 0, 2)", simplified]
    reorders_few(3)[OF f(1), of "(0, 0, 0)" "(0, 0, 1)", simplified]
    reorders_few(4)[OF f(1), of "(0, 0, 0)" "(0, 0, 1)" "(0, 0, 2)", simplified]
  show ?thesis
    using two by (elim disjE) (simp_all add: partial_flush_retains_unflushed_entries_def mock_run few)
qed

end
