(* ===== verification/Tests_Shadow.thy ===== *)
theory Tests_Shadow
  imports Shadow "HOL-Library.AList"
begin

text \<open>
  The unit tests of \<open>src/hal/legacy/mod.rs\<close>, each as a proposition over the model, and the proof that it
  holds. The temporary directory is a small file system in memory, which refuses to write below a directory
  that does not exist. \<open>serde_json\<close> stays a parameter: the tests that go through a file hold for every
  codec that parses what it printed.
\<close>

section \<open>A temporary directory\<close>

record temp_dir =
  td_dirs :: "string list"
  td_files :: "(path \<times> string) list"

definition temp_dir_new :: temp_dir where
  "temp_dir_new = \<lparr>td_dirs = [''/tmp/t''], td_files = []\<rparr>"

definition td_read :: "path \<Rightarrow> temp_dir \<Rightarrow> io_error + string" where
  "td_read p d = (case map_of (td_files d) p of None \<Rightarrow> Inl (OsError ENOENT) | Some x \<Rightarrow> Inr x)"

definition td_create_dir_all :: "string \<Rightarrow> (temp_dir, io_error, unit) act" where
  "td_create_dir_all dir d = (Inr (), d\<lparr>td_dirs := List.insert dir (td_dirs d)\<rparr>)"

definition td_write :: "path \<Rightarrow> string \<Rightarrow> (temp_dir, io_error, unit) act" where
  "td_write p x d =
     (if fst p \<in> set (td_dirs d) then (Inr (), d\<lparr>td_files := AList.update p x (td_files d)\<rparr>)
      else (Inl (OsError ENOENT), d))"

definition td_rename :: "path \<Rightarrow> path \<Rightarrow> (temp_dir, io_error, unit) act" where
  "td_rename a b d =
     (case map_of (td_files d) a of
        None \<Rightarrow> (Inl (OsError ENOENT), d)
      | Some x \<Rightarrow> (Inr (), d\<lparr>td_files := AList.update b x (AList.delete a (td_files d))\<rparr>))"

type_synonym json_codec = "(string \<Rightarrow> shadow_file option) \<times> (shadow_file \<Rightarrow> string option)"

definition temp_os :: "json_codec \<Rightarrow> temp_dir disk_ops" where
  "temp_os js =
     \<lparr>dk_data_dir = None, dk_read_to_string = td_read, dk_create_dir_all = td_create_dir_all,
      dk_write = td_write, dk_rename = td_rename, js_from_str = fst js, js_to_string_pretty = snd js\<rparr>"

text \<open>What is relied on of \<open>serde_json\<close>: a document is printed, and what is printed is parsed back.\<close>

definition codec_lawful :: "json_codec \<Rightarrow> bool" where
  "codec_lawful js \<longleftrightarrow> (\<forall>f. \<exists>x. snd js f = Some x \<and> fst js x = Some f)"

text \<open>It is a file system in the sense of the shadow's file lemmas, for renames to another name.\<close>

lemma temp_dir_read:
  "td_read p (snd (td_create_dir_all dir d)) = td_read p d"
  "td_write q x d = (Inr (), d') \<Longrightarrow> td_read p d' = (if p = q then Inr x else td_read p d)"
  "td_rename a b d = (Inr (), d') \<Longrightarrow> td_read b d' = td_read a d"
  "td_rename a b d = (Inl e, d') \<Longrightarrow> d' = d"
  by (auto simp: td_read_def td_create_dir_all_def td_write_def td_rename_def AList.update_conv
        split: if_splits option.splits)

lemma temp_os_lawful: "disk_lawful (temp_os js)"
  by (auto simp: disk_lawful_def temp_os_def td_read_def td_create_dir_all_def td_write_def td_rename_def
        AList.update_conv split: if_splits option.splits)

definition shadow_at :: "json_codec \<Rightarrow> temp_dir \<Rightarrow> path \<Rightarrow> temp_dir shadow_state" where
  "shadow_at js dir path =
     \<lparr>sh_keymap = [], sh_confirmed = [], sh_dirty = [], sh_lighting = lighting_state_default,
      sh_status = Confirmed, sh_data_path = Some path, sh_os = temp_os js, sh_disk = dir\<rparr>"

definition shadow_with_tmpdir :: "json_codec \<Rightarrow> temp_dir \<Rightarrow> string \<Rightarrow> temp_dir shadow_state" where
  "shadow_with_tmpdir js dir filename = shadow_at js dir (''/tmp/t'', filename)"

definition no_json :: json_codec where
  "no_json = (\<lambda>_. None, \<lambda>_. None)"

definition ephemeral :: "temp_dir shadow_state" where
  "ephemeral = shadow_ephemeral (temp_os no_json) temp_dir_new"

text \<open>The document a test finds in a file.\<close>

definition file_at :: "path \<Rightarrow> temp_dir shadow_state \<Rightarrow> shadow_file option" where
  "file_at p s =
     (case td_read p (sh_disk s) of Inr contents \<Rightarrow> js_from_str (sh_os s) contents | Inl _ \<Rightarrow> None)"

lemma saved_file:
  assumes "codec_lawful js" and "sh_os s = temp_os js" and "sh_data_path s = Some (dir, stem @ ''.json'')"
  shows "file_at (dir, stem @ ''.json'') (shadow_save s) = Some (file_of_shadow s)"
proof -
  let ?p = "(dir, stem @ ''.json'')"
  from assms(1) obtain x where x: "snd js (file_of_shadow s) = Some x" "fst js x = Some (file_of_shadow s)"
    by (auto simp: codec_lawful_def)
  have tmp: "with_extension ''json.tmp'' ?p \<noteq> ?p" by (rule tmp_path_differs)
  have "fst (with_extension ''json.tmp'' ?p) = dir" by (simp add: with_extension_def Let_def)
  then show ?thesis
    using x assms(2,3) tmp
    by (simp add: file_at_def shadow_save_def Let_def temp_os_def td_create_dir_all_def td_write_def td_rename_def
          td_read_def AList.update_conv)
qed

section \<open>In memory\<close>

definition ephemeral_starts_empty_and_confirmed :: bool where
  "ephemeral_starts_empty_and_confirmed \<longleftrightarrow>
     (let s = ephemeral
      in sh_keymap s = [] \<and> \<not> shadow_is_dirty s \<and> sh_status s = Confirmed)"

definition set_keycode_marks_dirty_and_pending :: bool where
  "set_keycode_marks_dirty_and_pending \<longleftrightarrow>
     (let s = shadow_set_keycode 0 0 0 0x0004 ephemeral
      in shadow_is_dirty s \<and> sh_status s = Pending \<and> shadow_get_keycode 0 0 0 s = 0x0004)"

definition get_keycode_returns_zero_for_unset :: bool where
  "get_keycode_returns_zero_for_unset \<longleftrightarrow> shadow_get_keycode 0 5 5 ephemeral = 0"

definition dirty_layers_deduplicates :: bool where
  "dirty_layers_deduplicates \<longleftrightarrow>
     (let s = ephemeral;
          s = shadow_set_keycode 0 0 0 4 s;
          s = shadow_set_keycode 0 1 1 5 s;
          s = shadow_set_keycode 1 0 0 6 s
      in shadow_dirty_layers s = [0, 1])"

definition prepare_and_confirm_clears_dirty :: bool where
  "prepare_and_confirm_clears_dirty \<longleftrightarrow>
     (let s = shadow_set_keycode 0 0 0 0x0004 ephemeral;
          s1 = shadow_prepare_commit s;
          s2 = shadow_confirm_commit s1
      in sh_status s1 = Pending
       \<and> \<not> shadow_is_dirty s2 \<and> sh_status s2 = Confirmed \<and> shadow_get_keycode 0 0 0 s2 = 0x0004)"

definition rollback_restores_last_committed_state :: bool where
  "rollback_restores_last_committed_state \<longleftrightarrow>
     (let s = shadow_set_keycode 0 0 0 0x0004 ephemeral;
          s = shadow_confirm_commit (shadow_prepare_commit s);
          s1 = shadow_set_keycode 0 0 0 0x0005 s;
          s2 = shadow_rollback (shadow_prepare_commit s1)
      in shadow_get_keycode 0 0 0 s1 = 0x0005
       \<and> shadow_get_keycode 0 0 0 s2 = 0x0004 \<and> sh_status s2 = Failed \<and> \<not> shadow_is_dirty s2)"

definition rollback_with_no_prior_commit_clears_everything :: bool where
  "rollback_with_no_prior_commit_clears_everything \<longleftrightarrow>
     (let s = shadow_set_keycode 0 0 0 0x0005 ephemeral;
          s = shadow_rollback (shadow_prepare_commit s)
      in shadow_get_keycode 0 0 0 s = 0 \<and> sh_status s = Failed)"

definition layer_entries_filters_correctly :: bool where
  "layer_entries_filters_correctly \<longleftrightarrow>
     (let s = ephemeral;
          s = shadow_set_keycode 0 0 0 4 s;
          s = shadow_set_keycode 0 1 1 5 s;
          s = shadow_set_keycode 1 0 0 6 s;
          l0 = shadow_layer_entries 0 s;
          l1 = shadow_layer_entries 1 s
      in length l0 = 2 \<and> length l1 = 1 \<and> l1 ! 0 = (0, 0, 6))"

lemma shadow_memory_tests:
  "ephemeral_starts_empty_and_confirmed" "set_keycode_marks_dirty_and_pending"
  "get_keycode_returns_zero_for_unset" "dirty_layers_deduplicates" "prepare_and_confirm_clears_dirty"
  "rollback_restores_last_committed_state" "rollback_with_no_prior_commit_clears_everything"
  "layer_entries_filters_correctly"
  by code_simp+

section \<open>Through a file\<close>

definition save_and_load_round_trip :: "json_codec \<Rightarrow> bool" where
  "save_and_load_round_trip js \<longleftrightarrow>
     (let s = shadow_with_tmpdir js temp_dir_new ''test_device.json'';
          s = shadow_set_keycode 0 0 0 0x0004 s;
          s = shadow_set_keycode 1 2 3 0x0042 s;
          s = shadow_confirm_commit (shadow_prepare_commit s)
      in case file_at (''/tmp/t'', ''test_device.json'') s of
           None \<Rightarrow> False
         | Some sf \<Rightarrow>
             sf_version sf = 1 \<and> length (sf_keymap sf) = 2
           \<and> list_ex (\<lambda>e. ke_layer e = 0 \<and> ke_row e = 0 \<and> ke_col e = 0 \<and> ke_keycode e = 0x0004) (sf_keymap sf)
           \<and> list_ex (\<lambda>e. ke_layer e = 1 \<and> ke_row e = 2 \<and> ke_col e = 3 \<and> ke_keycode e = 0x0042) (sf_keymap sf))"

lemma save_and_load_test:
  assumes "codec_lawful js"
  shows "save_and_load_round_trip js"
proof -
  let ?s = "shadow_set_keycode 1 2 3 0x0042 (shadow_set_keycode 0 0 0 0x0004
      (shadow_with_tmpdir js temp_dir_new ''test_device.json''))"
  let ?c = "shadow_prepare_commit ?s\<lparr>sh_confirmed := sh_keymap ?s, sh_dirty := [], sh_status := Confirmed\<rparr>"
  have "file_at (''/tmp/t'', ''test_device'' @ ''.json'') (shadow_save ?c) = Some (file_of_shadow ?c)"
    by (rule saved_file[OF assms])
       (simp_all add: shadow_defs shadow_with_tmpdir_def shadow_at_def)
  moreover have "shadow_confirm_commit (shadow_prepare_commit ?s) = shadow_save ?c"
    by (simp add: shadow_confirm_commit_def shadow_prepare_commit_def)
  ultimately have f: "file_at (''/tmp/t'', ''test_device.json'') (shadow_confirm_commit (shadow_prepare_commit ?s))
      = Some (file_of_shadow ?c)" by simp
  show ?thesis
    unfolding save_and_load_round_trip_def Let_def f
    by (simp add: file_of_shadow_def shadow_defs shadow_with_tmpdir_def shadow_at_def)
qed

definition existing_json :: string where
  \<open>existing_json = concat (map (\<lambda>l. l @ [CHR 0x0A])
     [''{'',
      ''            "version": 1,'',
      ''            "keymap": ['',
      ''                {"layer": 0, "row": 1, "col": 2, "keycode": 99}'',
      ''            ],'',
      ''            "lighting": {'',
      ''                "mode": 5, "r": 128, "g": 64, "b": 32,'',
      ''                "brightness": 8, "speed": 3, "direction": 1, "random": true'',
      ''            }'']) @ ''        }''\<close>

definition existing_file :: shadow_file where
  "existing_file = \<lparr>sf_version = 1, sf_keymap = [\<lparr>ke_layer = 0, ke_row = 1, ke_col = 2, ke_keycode = 99\<rparr>],
     sf_lighting = Some \<lparr>ls_mode = 5, ls_r = 128, ls_g = 64, ls_b = 32, ls_brightness = 8, ls_speed = 3,
       ls_direction = 1, ls_random = True\<rparr>\<rparr>"

definition load_from_existing_json :: "json_codec \<Rightarrow> bool" where
  "load_from_existing_json js \<longleftrightarrow>
     (let path = (''/tmp/t'', ''existing.json'');
          dir = snd (td_write path existing_json temp_dir_new);
          s = shadow_at js dir path
      in case file_at path s of
           None \<Rightarrow> False
         | Some sf \<Rightarrow>
             let keymap = foldl (\<lambda>km e. bt_insert (ke_layer e, ke_row e, ke_col e) (ke_keycode e) km)
                   (sh_keymap s) (sf_keymap sf);
                 s = s\<lparr>sh_keymap := keymap, sh_confirmed := keymap,
                   sh_lighting := (case sf_lighting sf of Some l \<Rightarrow> l | None \<Rightarrow> sh_lighting s)\<rparr>
             in shadow_get_keycode 0 1 2 s = 99 \<and> ls_mode (sh_lighting s) = 5
              \<and> ls_r (sh_lighting s) = 128 \<and> ls_random (sh_lighting s))"

lemma load_existing_test:
  "fst js existing_json = Some existing_file \<Longrightarrow> load_from_existing_json js"
  by (simp add: load_from_existing_json_def Let_def file_at_def shadow_at_def temp_os_def td_read_def td_write_def
        temp_dir_new_def existing_file_def shadow_get_keycode_def bt_get_def)

definition save_creates_parent_dirs :: "json_codec \<Rightarrow> bool" where
  "save_creates_parent_dirs js \<longleftrightarrow>
     (let nested = ''/tmp/t/deep/nested'';
          s = shadow_at js temp_dir_new (nested, ''device.json'');
          s = shadow_set_keycode 0 0 0 42 s;
          s = shadow_confirm_commit (shadow_prepare_commit s)
      in map_of (td_files (sh_disk s)) (nested, ''device.json'') \<noteq> None)"

lemma file_at_exists: "file_at p s = Some f \<Longrightarrow> map_of (td_files (sh_disk s)) p \<noteq> None"
  by (auto simp: file_at_def td_read_def split: option.splits)

lemma parent_dirs_test:
  assumes "codec_lawful js"
  shows "save_creates_parent_dirs js"
proof -
  let ?s = "shadow_prepare_commit (shadow_set_keycode 0 0 0 42
      (shadow_at js temp_dir_new (''/tmp/t/deep/nested'', ''device.json'')))"
  have "file_at (''/tmp/t/deep/nested'', ''device'' @ ''.json'') (shadow_confirm_commit ?s) \<noteq> None"
    unfolding shadow_confirm_commit_def
    by (subst saved_file[OF assms]) (simp_all add: shadow_defs shadow_at_def)
  then show ?thesis
    unfolding save_creates_parent_dirs_def Let_def using file_at_exists by fastforce
qed

definition persist_lighting_writes_json_without_keymap_commit :: "json_codec \<Rightarrow> bool" where
  "persist_lighting_writes_json_without_keymap_commit js \<longleftrightarrow>
     (let s = shadow_with_tmpdir js temp_dir_new ''light.json'';
          s = shadow_set_lighting \<lparr>ls_mode = 0x07, ls_r = 1, ls_g = 2, ls_b = 3, ls_brightness = 5, ls_speed = 6,
            ls_direction = 1, ls_random = True\<rparr> s;
          s = shadow_persist_lighting s
      in sh_status s = Confirmed
       \<and> (case file_at (''/tmp/t'', ''light.json'') s of
            None \<Rightarrow> False
          | Some sf \<Rightarrow>
              (case sf_lighting sf of
                 None \<Rightarrow> False
               | Some l \<Rightarrow> ls_mode l = 0x07 \<and> ls_brightness l = 5 \<and> ls_random l)
            \<and> sf_keymap sf = []))"

lemma persist_lighting_test:
  assumes "codec_lawful js"
  shows "persist_lighting_writes_json_without_keymap_commit js"
proof -
  let ?l = "\<lparr>ls_mode = 0x07, ls_r = 1, ls_g = 2, ls_b = 3, ls_brightness = 5, ls_speed = 6, ls_direction = 1,
    ls_random = True\<rparr>"
  let ?s = "shadow_set_lighting ?l (shadow_with_tmpdir js temp_dir_new ''light.json'')"
  have "file_at (''/tmp/t'', ''light'' @ ''.json'') (shadow_save ?s) = Some (file_of_shadow ?s)"
    by (rule saved_file[OF assms]) (simp_all add: shadow_defs shadow_with_tmpdir_def shadow_at_def)
  then show ?thesis
    by (simp add: persist_lighting_writes_json_without_keymap_commit_def Let_def shadow_persist_lighting_def)
       (simp add: file_of_shadow_def shadow_set_lighting_def shadow_with_tmpdir_def shadow_at_def)
qed

end
