(* ===== verification/Tests_Gmk67.thy ===== *)
theory Tests_Gmk67
  imports Gmk67_Claims
begin

text \<open>
  The unit tests of \<open>src/hal/legacy/gmk67.rs\<close>, each as a proposition over the model with the test's
  calls in order and its assertions as conjuncts, and the proof that it holds. The mock board of the tests
  records the frames it is sent and can be told to fail.
\<close>

section \<open>Assertions on results\<close>

fun is_unsupported :: "driver_error + 'a \<Rightarrow> bool" where
  "is_unsupported (Inl (Unsupported _)) = True"
| "is_unsupported _ = False"

fun is_protocol_violation :: "driver_error + 'a \<Rightarrow> bool" where
  "is_protocol_violation (Inl (ProtocolViolation _)) = True"
| "is_protocol_violation _ = False"

fun is_disconnected :: "driver_error + 'a \<Rightarrow> bool" where
  "is_disconnected (Inl Disconnected) = True"
| "is_disconnected _ = False"

section \<open>The mock board\<close>

record mock_io =
  mo_sent :: "bytes list"
  mo_fail :: bool
  mo_fail_nth_set :: "nat option"
  mo_fail_get :: bool
  mo_get_response :: bytes

definition mock_new :: mock_io where
  "mock_new = \<lparr>mo_sent = [], mo_fail = False, mo_fail_nth_set = None, mo_fail_get = False,
     mo_get_response = replicate FRAME_LEN 0\<rparr>"

definition mock_failing :: mock_io where
  "mock_failing = mock_new\<lparr>mo_fail := True\<rparr>"

definition mock_set_feature :: "bytes \<Rightarrow> (mock_io, driver_error, unit) act" where
  "mock_set_feature payload m =
     (if mo_fail m then (Inl Disconnected, m)
      else if mo_fail_nth_set m = Some (length (mo_sent m)) then (Inl Disconnected, m\<lparr>mo_fail_nth_set := None\<rparr>)
      else (Inr (), m\<lparr>mo_sent := mo_sent m @ [payload]\<rparr>))"

definition mock_get_feature :: "u8 \<Rightarrow> (mock_io, driver_error, bytes) act" where
  "mock_get_feature report_id m = (if mo_fail_get m then Inl Disconnected else Inr (mo_get_response m), m)"

definition mock_gmk67_io :: "mock_io gmk_io" where
  "mock_gmk67_io = \<lparr>gio_set_feature = mock_set_feature, gio_get_feature = mock_get_feature\<rparr>"

definition driver_with :: "mock_io \<Rightarrow> (mock_io, unit) gmk_driver" where
  "driver_with io = gmk_with_io mock_gmk67_io io null_disk () ''ek68'' (5, 15) 2"

abbreviation sent_by :: "(mock_io, unit) gmk_driver \<Rightarrow> bytes list" where
  "sent_by d \<equiv> mo_sent (gd_dev d)"

section \<open>Encoders\<close>

definition lighting_static_red_layout :: bool where
  "lighting_static_red_layout \<longleftrightarrow>
     (let f = lighting_encode \<lparr>lg_mode = MODE_STATIC, lg_r = 0xFF, lg_g = 0, lg_b = 0, lg_brightness = 0x0F,
                lg_speed = 0x08, lg_direction = 0x01, lg_random = False\<rparr>
      in f ! MF_MODE = 0x01 \<and> f ! MF_R = 0xFF \<and> f ! MF_G = 0x00 \<and> f ! MF_B = 0x00 \<and> f ! MF_RANDOM = 0x00
        \<and> f ! MF_BRIGHTNESS = 0x0F \<and> f ! MF_SPEED = 0x08 \<and> f ! MF_DIRECTION = 0x01
        \<and> slice MF_FOOTER 2 f = FOOTER_MAGIC)"

definition lighting_off_mode_is_0x80 :: bool where
  "lighting_off_mode_is_0x80 \<longleftrightarrow>
     (let f = lighting_encode (lighting_default\<lparr>lg_mode := MODE_LIGHTS_OFF\<rparr>)
      in f ! MF_MODE = 0x80 \<and> slice MF_FOOTER 2 f = FOOTER_MAGIC)"

definition brightness_and_speed_are_clamped :: bool where
  "brightness_and_speed_are_clamped \<longleftrightarrow>
     (let f = lighting_encode (lighting_default\<lparr>lg_brightness := 0xFF, lg_speed := 0xFF\<rparr>);
          f0 = lighting_encode (lighting_default\<lparr>lg_brightness := 0x00\<rparr>)
      in f ! MF_BRIGHTNESS = BRIGHTNESS_MAX \<and> f ! MF_SPEED = SPEED_MAX \<and> f0 ! MF_BRIGHTNESS = BRIGHTNESS_MIN)"

definition key_index_for_maps_matrix :: bool where
  "key_index_for_maps_matrix \<longleftrightarrow>
     key_index_for 0 0 = Some 1 \<and> key_index_for 2 7 = Some 62 \<and> key_index_for 4 3 = Some 94
   \<and> key_index_for 4 9 = None \<and> key_index_for 0 14 = None \<and> key_index_for 9 9 = None"

definition keydef_command_per_layer :: bool where
  "keydef_command_per_layer \<longleftrightarrow> keydef_command 0 = Some CMD_WRITE_KEY_DEFINITION_AREA
     \<and> keydef_command 1 = Some CMD_WRITE_KEY_DEFINITION_AREA_FN \<and> keydef_command 2 = None"

definition keydef_buffer_places_entry_at_index_times_4 :: bool where
  "keydef_buffer_places_entry_at_index_times_4 \<longleftrightarrow>
     (let buf = encode_keydef_buffer [(1, 0x0004), (94, 0x0004)]
      in buf ! 4 = KEY_DEF_ENTRY_MARKER \<and> buf ! 6 = 0x04 \<and> buf ! 7 = 0x00
        \<and> buf ! (94 * 4) = KEY_DEF_ENTRY_MARKER \<and> buf ! (94 * 4 + 2) = 0x04
        \<and> buf ! (KEY_DEF_BUF_LEN - 2) = FOOTER_MAGIC ! 0 \<and> buf ! (KEY_DEF_BUF_LEN - 1) = FOOTER_MAGIC ! 1
        \<and> length buf = 9 * FRAME_LEN)"

definition via_scale_helpers_round_trip_extremes :: bool where
  "via_scale_helpers_round_trip_extremes \<longleftrightarrow> scale_255_to_15 0 = 0x00 \<and> scale_255_to_15 255 = 0x0F
     \<and> scale_255_to_15 128 = 0x08 \<and> scale_15_to_255 0x0F = 255 \<and> scale_15_to_255 0x00 = 0"

definition hs_rgb_conversion_primaries :: bool where
  "hs_rgb_conversion_primaries \<longleftrightarrow> hs_to_rgb 0 255 = (255, 0, 0) \<and> fst (snd (hs_to_rgb 85 255)) = 255
     \<and> hs_to_rgb 0 0 = (255, 255, 255) \<and> rgb_to_hs 255 0 0 = (0, 255) \<and> rgb_to_hs 128 128 128 = (0, 0)"

definition descriptor_feature_report_detection :: bool where
  "descriptor_feature_report_detection \<longleftrightarrow>
     descriptor_has_feature_report [0x95, 0x40, 0x75, 0x08, 0xB1, 0x02] 64 = Some True
   \<and> descriptor_has_feature_report [0x95, 0x08, 0x75, 0x08, 0x81, 0x02] 64 = Some False
   \<and> descriptor_has_feature_report [0x95, 0x03, 0x75, 0x08, 0xB1, 0x02] 64 = Some False"

lemma encoder_tests:
  "lighting_static_red_layout" "lighting_off_mode_is_0x80" "brightness_and_speed_are_clamped"
  "key_index_for_maps_matrix" "keydef_command_per_layer" "keydef_buffer_places_entry_at_index_times_4"
  "via_scale_helpers_round_trip_extremes" "hs_rgb_conversion_primaries" "descriptor_feature_report_detection"
  by code_simp+

section \<open>Lighting\<close>

definition set_lighting_runs_full_transaction :: bool where
  "set_lighting_runs_full_transaction \<longleftrightarrow>
     (let (r, d) = gd_set_lighting 0 0 [MODE_STATIC, 0x00, 0xFF, 0x00, 0x08, 0] (driver_with mock_new);
          sent = sent_by d
      in r = Inr () \<and> length sent = 5
        \<and> sent ! 0 ! 0 = PACKET_HEADER \<and> sent ! 0 ! 1 = CMD_TURN_ON_CUSTOMIZATION
        \<and> sent ! 1 ! 0 = PACKET_HEADER \<and> sent ! 1 ! 1 = CMD_WRITE_LED_SPECIAL_EFFECT_AREA
        \<and> sent ! 1 ! 8 = LED_SPECIAL_EFFECT_PACKETS
        \<and> sent ! 2 ! MF_MODE = MODE_STATIC \<and> sent ! 2 ! MF_G = 0xFF \<and> sent ! 2 ! MF_BRIGHTNESS = 0x08
        \<and> slice MF_FOOTER 2 (sent ! 2) = FOOTER_MAGIC
        \<and> sent ! 3 ! 0 = PACKET_HEADER \<and> sent ! 3 ! 1 = CMD_COMMUNICATION_END
        \<and> sent ! 4 ! 0 = PACKET_HEADER \<and> sent ! 4 ! 1 = CMD_LED_EFFECT_START
        \<and> (case fst (gd_get_lighting 0 0 d) of Inr got \<Rightarrow> got ! 2 = 0xFF | Inl _ \<Rightarrow> False))"

definition out_of_range_mode_rejected :: bool where
  "out_of_range_mode_rejected \<longleftrightarrow>
     (let (r, d) = gd_set_lighting 0 0 [0x14, 0, 0, 0] (driver_with mock_new)
      in is_protocol_violation r \<and> sent_by d = [])"

definition lighting_transaction_propagates_failure :: bool where
  "lighting_transaction_propagates_failure \<longleftrightarrow>
     is_disconnected (fst (gd_set_lighting 0 0 [MODE_STATIC, 0xFF, 0, 0] (driver_with mock_failing)))"

definition via_channel_brightness_patches_single_field :: bool where
  "via_channel_brightness_patches_single_field \<longleftrightarrow>
     (let (r1, d1) = gd_set_lighting 0 0 [MODE_STATIC, 0xFF, 0x00, 0x00, 0x0F, 0] (driver_with mock_new);
          (r2, d2) = gd_set_lighting VIA_CHANNEL_RGB_MATRIX VIA_VALUE_BRIGHTNESS [128] d1;
          mode_frame = sent_by d2 ! 7
      in r1 = Inr () \<and> r2 = Inr () \<and> mode_frame ! MF_BRIGHTNESS = 0x08 \<and> mode_frame ! MF_MODE = MODE_STATIC
        \<and> mode_frame ! MF_R = 0xFF
        \<and> fst (gd_get_lighting VIA_CHANNEL_RGB_MATRIX VIA_VALUE_BRIGHTNESS d2) = Inr [scale_15_to_255 0x08])"

definition via_channel_color_sets_rgb_from_hue_sat :: bool where
  "via_channel_color_sets_rgb_from_hue_sat \<longleftrightarrow>
     (let (r, d) = gd_set_lighting VIA_CHANNEL_RGB_MATRIX VIA_VALUE_COLOR [0, 255] (driver_with mock_new);
          mode_frame = sent_by d ! 2
      in r = Inr () \<and> mode_frame ! MF_R = 255 \<and> mode_frame ! MF_G = 0 \<and> mode_frame ! MF_B = 0
        \<and> fst (gd_get_lighting VIA_CHANNEL_RGB_MATRIX VIA_VALUE_COLOR d) = Inr [0, 255])"

definition via_effect_zero_maps_to_lights_off :: bool where
  "via_effect_zero_maps_to_lights_off \<longleftrightarrow>
     (let (r, d) = gd_set_lighting VIA_CHANNEL_RGB_MATRIX VIA_VALUE_EFFECT [0] (driver_with mock_new)
      in r = Inr () \<and> sent_by d ! 2 ! MF_MODE = MODE_LIGHTS_OFF
        \<and> fst (gd_get_lighting VIA_CHANNEL_RGB_MATRIX VIA_VALUE_EFFECT d) = Inr [0])"

definition unsupported_lighting_channels_and_values_rejected :: bool where
  "unsupported_lighting_channels_and_values_rejected \<longleftrightarrow>
     (let (r1, d1) = gd_set_lighting 2 1 [10] (driver_with mock_new);
          (r2, d2) = gd_get_lighting VIA_CHANNEL_RGB_MATRIX 9 d1
      in is_unsupported r1 \<and> is_unsupported r2 \<and> sent_by d2 = [])"

definition failed_transaction_sends_abort_frame :: bool where
  "failed_transaction_sends_abort_frame \<longleftrightarrow>
     (let (r, d) = gd_set_lighting 0 0 [MODE_STATIC, 0xFF, 0, 0] (driver_with (mock_new\<lparr>mo_fail_nth_set := Some 2\<rparr>));
          sent = sent_by d
      in isl r \<and> length sent = 3 \<and> last sent ! 0 = PACKET_HEADER \<and> last sent ! 1 = CMD_COMMUNICATION_END)"

lemma lighting_tests:
  "set_lighting_runs_full_transaction" "out_of_range_mode_rejected" "lighting_transaction_propagates_failure"
  "via_channel_brightness_patches_single_field" "via_channel_color_sets_rgb_from_hue_sat"
  "via_effect_zero_maps_to_lights_off" "unsupported_lighting_channels_and_values_rejected"
  "failed_transaction_sends_abort_frame"
  by code_simp+

section \<open>The keymap\<close>

definition set_keycode_is_buffered_until_commit :: bool where
  "set_keycode_is_buffered_until_commit \<longleftrightarrow>
     (let (r1, d1) = gd_set_keycode 0 0 0 0x0004 (driver_with mock_new);
          (r2, d2) = gd_get_keycode 0 0 0 d1;
          (r3, d3) = gd_commit_to_nvram d2;
          sent = sent_by d3;
          (r4, d4) = gd_commit_to_nvram d3
      in r1 = Inr () \<and> sent_by d1 = [] \<and> r2 = Inr 0x0004
        \<and> r3 = Inr () \<and> length sent = 2 + KEY_DEF_PAGES + 2
        \<and> sent ! 0 ! 0 = PACKET_HEADER \<and> sent ! 0 ! 1 = CMD_TURN_ON_CUSTOMIZATION
        \<and> sent ! 1 ! 0 = PACKET_HEADER \<and> sent ! 1 ! 1 = CMD_WRITE_KEY_DEFINITION_AREA
        \<and> sent ! 1 ! 8 = word_of_nat KEY_DEF_PAGES
        \<and> sent ! 2 ! 4 = KEY_DEF_ENTRY_MARKER \<and> sent ! 2 ! 6 = 0x04
        \<and> sent ! (2 + KEY_DEF_PAGES - 1) ! 62 = 0xAA \<and> sent ! (2 + KEY_DEF_PAGES - 1) ! 63 = 0x55
        \<and> sent ! 11 ! 0 = PACKET_HEADER \<and> sent ! 11 ! 1 = CMD_COMMUNICATION_END
        \<and> sent ! 12 ! 0 = PACKET_HEADER \<and> sent ! 12 ! 1 = CMD_LED_EFFECT_START
        \<and> r4 = Inr () \<and> length (sent_by d4) = 13)"

lemma buffered_test: "set_keycode_is_buffered_until_commit"
  by code_simp

definition commit_sends_full_keymap_not_just_dirty :: bool where
  "commit_sends_full_keymap_not_just_dirty \<longleftrightarrow>
     (let (r1, d1) = gd_set_keycode 0 0 0 0x0004 (driver_with mock_new);
          (r2, d2) = gd_set_keycode 0 2 7 0x0005 d1;
          (r3, d3) = gd_commit_to_nvram d2;
          sent = sent_by d3
      in r1 = Inr () \<and> r2 = Inr () \<and> r3 = Inr () \<and> sent ! 2 ! 4 = KEY_DEF_ENTRY_MARKER
        \<and> sent ! (2 + 3) ! 56 = KEY_DEF_ENTRY_MARKER \<and> sent ! (2 + 3) ! 58 = 0x05)"

lemma full_keymap_test: "commit_sends_full_keymap_not_just_dirty"
  by code_simp

definition fn_layer_remap_uses_command_0x27 :: bool where
  "fn_layer_remap_uses_command_0x27 \<longleftrightarrow>
     (let (r1, d1) = gd_set_keycode 1 2 1 0x0042 (driver_with mock_new);
          (r2, d2) = gd_commit_to_nvram d1;
          sent = sent_by d2
      in r1 = Inr () \<and> r2 = Inr () \<and> length sent = 2 + KEY_DEF_PAGES + 2
        \<and> sent ! 1 ! 1 = CMD_WRITE_KEY_DEFINITION_AREA_FN
        \<and> sent ! (2 + 3) ! 32 = KEY_DEF_ENTRY_MARKER \<and> sent ! (2 + 3) ! 34 = 0x42)"

lemma fn_layer_test: "fn_layer_remap_uses_command_0x27"
  by code_simp

definition commit_sends_one_transaction_per_dirty_layer :: bool where
  "commit_sends_one_transaction_per_dirty_layer \<longleftrightarrow>
     (let (r1, d1) = gd_set_keycode 0 0 0 0x0004 (driver_with mock_new);
          (r2, d2) = gd_set_keycode 1 0 0 0x0042 d1;
          (r3, d3) = gd_commit_to_nvram d2;
          sent = sent_by d3;
          txn = 2 + KEY_DEF_PAGES + 2
      in r1 = Inr () \<and> r2 = Inr () \<and> r3 = Inr () \<and> length sent = 2 * txn
        \<and> sent ! 1 ! 1 = CMD_WRITE_KEY_DEFINITION_AREA
        \<and> sent ! (txn + 1) ! 1 = CMD_WRITE_KEY_DEFINITION_AREA_FN)"

lemma per_layer_test: "commit_sends_one_transaction_per_dirty_layer"
  by code_simp

definition set_keycode_rejects_invalid_positions_early :: bool where
  "set_keycode_rejects_invalid_positions_early \<longleftrightarrow>
     (let (r1, d1) = gd_set_keycode 0 4 9 0x0004 (driver_with mock_new);
          (r2, d2) = gd_set_keycode 2 0 0 0x0004 d1;
          (r3, d3) = gd_commit_to_nvram d2
      in is_unsupported r1 \<and> is_unsupported r2 \<and> r3 = Inr () \<and> sent_by d3 = [])"

definition macros_report_unsupported :: bool where
  "macros_report_unsupported \<longleftrightarrow>
     (let (r1, d1) = gd_get_macro_buffer 0 8 (driver_with mock_new);
          (r2, d2) = gd_set_macro_buffer 0 [1, 2, 3] d1
      in is_unsupported r1 \<and> is_unsupported r2 \<and> sent_by d2 = [])"

definition commit_propagates_transport_failure_and_rolls_back :: bool where
  "commit_propagates_transport_failure_and_rolls_back \<longleftrightarrow>
     (let (r1, d1) = gd_set_keycode 0 0 0 0x0004 (driver_with mock_failing);
          (r2, d2) = gd_commit_to_nvram d1
      in r1 = Inr () \<and> is_disconnected r2 \<and> fst (gd_get_keycode 0 0 0 d2) = Inr 0x0000)"

definition rollback_preserves_last_successful_commit :: bool where
  "rollback_preserves_last_successful_commit \<longleftrightarrow>
     (let (r1, d1) = gd_set_keycode 0 0 0 0x0004 (driver_with mock_new);
          (r2, d2) = gd_commit_to_nvram d1;
          (r3, d3) = gd_get_keycode 0 0 0 d2;
          (r4, d4) = gd_set_keycode 0 0 0 0x0005 (d3\<lparr>gd_dev := mock_failing\<rparr>);
          (r5, d5) = gd_get_keycode 0 0 0 d4;
          (r6, d6) = gd_commit_to_nvram d5
      in r1 = Inr () \<and> r2 = Inr () \<and> r3 = Inr 0x0004 \<and> r4 = Inr () \<and> r5 = Inr 0x0005 \<and> isl r6
        \<and> fst (gd_get_keycode 0 0 0 d6) = Inr 0x0004)"

definition failed_keymap_commit_sends_abort_frame :: bool where
  "failed_keymap_commit_sends_abort_frame \<longleftrightarrow>
     (let (r1, d1) = gd_set_keycode 0 0 0 0x0004 (driver_with mock_new);
          (r2, d2) = gd_commit_to_nvram (d1\<lparr>gd_dev := (gd_dev d1)\<lparr>mo_fail_nth_set := Some 4\<rparr>\<rparr>);
          sent = sent_by d2
      in r1 = Inr () \<and> isl r2 \<and> last sent ! 0 = PACKET_HEADER \<and> last sent ! 1 = CMD_COMMUNICATION_END)"

lemma keymap_tests:
  "set_keycode_rejects_invalid_positions_early" "macros_report_unsupported"
  "commit_propagates_transport_failure_and_rolls_back" "rollback_preserves_last_successful_commit"
  "failed_keymap_commit_sends_abort_frame"
  by code_simp+

section \<open>Reading back\<close>

text \<open>The reading loops with their state argument, so that the evaluation does not go into their continuations.\<close>

lemma read_pages_code [code]:
  "read_pages layer [] entries d = (Inr entries, d)"
  "read_pages layer (p # ps) entries d =
     (case get_feature REPORT_ID d of
        (Inl e, d') \<Rightarrow> (Inl e, d')
      | (Inr page, d') \<Rightarrow> read_pages layer ps (scan_page page layer p entries) d')"
  by (simp_all add: ok_def andthen_def split: prod.split sum.split)

lemma sync_layers_code [code]:
  "sync_layers [] entries d = (Inr entries, d)"
  "sync_layers (layer # layers) entries d =
     (case keydef_read_command layer of
        None \<Rightarrow> sync_layers layers entries d
      | Some command \<Rightarrow>
          (case or_abort (read_keydef_layer command layer entries) d of
             (Inl e, d') \<Rightarrow> (Inl e, d')
           | (Inr entries', d') \<Rightarrow> sync_layers layers entries' d'))"
  by (simp_all add: ok_def andthen_def split: option.split prod.split sum.split)

definition sync_eeprom_failure_leaves_shadow_untouched :: bool where
  "sync_eeprom_failure_leaves_shadow_untouched \<longleftrightarrow>
     (let (r1, d1) = gd_set_keycode 0 0 0 0x0004 (driver_with mock_new);
          (r2, d2) = gd_commit_to_nvram d1;
          (r3, d3) = sync_eeprom (d2\<lparr>gd_dev := (gd_dev d2)\<lparr>mo_fail_get := True\<rparr>\<rparr>);
          sent = sent_by d3
      in r1 = Inr () \<and> r2 = Inr () \<and> isl r3 \<and> fst (gd_get_keycode 0 0 0 d3) = Inr 0x0004
        \<and> last sent ! 0 = PACKET_HEADER \<and> last sent ! 1 = CMD_COMMUNICATION_END)"

lemma failed_sync_test: "sync_eeprom_failure_leaves_shadow_untouched"
  by code_simp

definition sync_eeprom_adopts_device_keymap :: bool where
  "sync_eeprom_adopts_device_keymap \<longleftrightarrow>
     (let (r1, d1) = gd_set_keycode 0 2 7 0x0099 (driver_with mock_new);
          (r2, d2) = gd_commit_to_nvram d1;
          resp = (mo_get_response (gd_dev d2))[4 := KEY_DEF_ENTRY_MARKER, 6 := 0x04, 7 := 0x00];
          (r3, d3) = sync_eeprom (d2\<lparr>gd_dev := (gd_dev d2)\<lparr>mo_get_response := resp\<rparr>\<rparr>)
      in r1 = Inr () \<and> r2 = Inr () \<and> r3 = Inr () \<and> fst (gd_get_keycode 0 0 0 d3) = Inr 0x0004
        \<and> fst (gd_get_keycode 0 2 7 d3) = Inr 0x0000)"

lemma sync_test: "sync_eeprom_adopts_device_keymap"
  by code_simp

end
