(* ===== verification/Tests_Engine.thy ===== *)
theory Tests_Engine
  imports Engine
begin

text \<open>
  The unit tests of \<open>src/engine/mod.rs\<close>, each as a proposition over the model, and the proof that it
  holds: the debounced commits of a worker over a driver that counts them, on a paused clock, and
  \<open>handle_command\<close> on small registries. A sender whose receiver the test dropped is the channel of an
  exited worker.
\<close>

section \<open>A driver that counts its commits\<close>

definition counting_driver :: "nat driver_ops" where
  "counting_driver =
     \<lparr>kd_get_matrix_dimensions = ok (5, 15), kd_get_layer_count = ok 2,
      kd_get_keycode = (\<lambda>_ _ _. ok 0), kd_set_keycode = (\<lambda>_ _ _ _. ok ()),
      kd_get_macro_buffer = (\<lambda>_ len. ok (replicate (unat len) 0)), kd_set_macro_buffer = (\<lambda>_ _. ok ()),
      kd_get_lighting = (\<lambda>_ _. ok (replicate 4 0)), kd_set_lighting = (\<lambda>_ _ _. ok ()),
      kd_commit_to_nvram = (\<lambda>commits. (Inr (), commits + 1)),
      kd_emits_layout_event_per_set = (\<lambda>_. False), kd_model_name = default_model_name\<rparr>"

text \<open>The worker, what it has done so far, and the paused clock.\<close>

record bench =
  be_worker :: "nat worker"
  be_effects :: "effect list"
  be_now :: nat

definition spawn_counting_worker :: bench where
  "spawn_counting_worker =
     \<lparr>be_worker = worker_start ''dev'' \<lparr>bx_ops = counting_driver, bx_state = 0\<rparr>, be_effects = [], be_now = 0\<rparr>"

definition bench_op :: "worker_op \<Rightarrow> bench \<Rightarrow> bench" where
  "bench_op op b =
     (case worker_handle (be_now b) op (be_worker b) of
        (w, effs) \<Rightarrow> b\<lparr>be_worker := w, be_effects := be_effects b @ effs\<rparr>)"

definition bench_set :: "u16 \<Rightarrow> bench \<Rightarrow> bench" where
  "bench_set keycode = bench_op (WSetKeycode 0 0 0 keycode 0)"

text \<open>\<open>tokio::time::advance\<close>: the timer fires if its deadline has come.\<close>

definition advance :: "nat \<Rightarrow> bench \<Rightarrow> bench" where
  "advance ms b =
     (let b1 = b\<lparr>be_now := be_now b + ms\<rparr> in
      case wk_deadline (be_worker b1) of
        Some d \<Rightarrow>
          if d \<le> be_now b1 then
            (case worker_debounced_commit (be_worker b1) of
               (w, effs) \<Rightarrow> b1\<lparr>be_worker := w, be_effects := be_effects b1 @ effs\<rparr>)
          else b1
      | None \<Rightarrow> b1)"

definition commits :: "bench \<Rightarrow> nat" where
  "commits b = bx_state (wk_driver (be_worker b))"

definition events :: "bench \<Rightarrow> lifecycle_event list" where
  "events b = announced_of (be_effects b)"

text \<open>Every request so far was answered with success.\<close>

definition replies_ok :: "bench \<Rightarrow> bool" where
  "replies_ok b = list_all (\<lambda>(_, a). answer_error a = None) (answers_of (be_effects b))"

definition legacy_set_debounces_then_commits_once :: bool where
  "legacy_set_debounces_then_commits_once \<longleftrightarrow>
     (let b = bench_set 0x0004 spawn_counting_worker;
          b1 = advance (LEGACY_COMMIT_DEBOUNCE + 1) b
      in replies_ok b \<and> commits b = 0 \<and> events b1 = [LayoutUpdated ''dev''] \<and> commits b1 = 1)"

definition legacy_repeated_sets_coalesce_to_one_commit :: bool where
  "legacy_repeated_sets_coalesce_to_one_commit \<longleftrightarrow>
     (let b = fold (\<lambda>kc b. advance 100 (bench_set kc b)) [0x0004, 0x0005, 0x0006] spawn_counting_worker;
          b1 = advance LEGACY_COMMIT_DEBOUNCE b
      in replies_ok b \<and> commits b = 0 \<and> events b1 \<noteq> [] \<and> commits b1 = 1)"

definition legacy_explicit_commit_cancels_pending_debounce :: bool where
  "legacy_explicit_commit_cancels_pending_debounce \<longleftrightarrow>
     (let b = bench_set 0x0004 spawn_counting_worker;
          b1 = bench_op (WCommit 1) b;
          b2 = advance (LEGACY_COMMIT_DEBOUNCE + 10) b1
      in replies_ok b1 \<and> commits b1 = 1 \<and> events b1 = [LayoutUpdated ''dev'']
       \<and> commits b2 = 1 \<and> events b2 = events b1)"

lemma worker_tests:
  "legacy_set_debounces_then_commits_once" "legacy_repeated_sets_coalesce_to_one_commit"
  "legacy_explicit_commit_cancels_pending_debounce"
  by code_simp+

section \<open>Commands on a registry\<close>

definition dropped_receiver :: "nat channel" where
  "dropped_receiver = \<lparr>ch_queue = [], ch_worker = (be_worker spawn_counting_worker)\<lparr>wk_phase := Exited\<rparr>\<rparr>"

definition no_drivers :: "(unit, nat) driver_table" where
  "no_drivers = \<lparr>dt_by_vid_pid = (\<lambda>_. None), dt_via_fallback = None\<rparr>"

definition registry_new :: registry where
  "registry_new = \<lparr>rg_devices = hm_new (\<lambda>ks. ks), rg_reconnecting = hm_new (\<lambda>ks. ks), rg_next_token = 0\<rparr>"

definition registry_len :: "registry \<Rightarrow> nat" where
  "registry_len reg = length (hm_keys (rg_devices reg))"

definition registry_is_empty :: "registry \<Rightarrow> bool" where
  "registry_is_empty reg = hm_is_empty (rg_devices reg)"

definition harness :: "(unit, nat) driver_table \<Rightarrow> (unit, nat) engine" where
  "harness dt =
     \<lparr>en_registry = registry_new,
      en_running = True, en_queue = [], en_channels = [dropped_receiver], en_tasks = [], en_events = [],
      en_answers = [], en_dropped = [], en_world = (), en_now = 0, en_table = dt\<rparr>"

definition test_handle :: device_handle where
  "test_handle =
     \<lparr>dh_topology = \<lparr>dt_matrix = \<lparr>km_rows = 2, km_cols = 2\<rparr>, dt_layer_count = 1\<rparr>, dh_model = ''test_model'',
      dh_tx = 0, dh_vendor_id = 0, dh_product_id = 0, dh_hidraw_path = ''''\<rparr>"

definition test_device_not_found :: bool where
  "test_device_not_found \<longleftrightarrow>
     (let e = handle_command (CmdGetKeycode ''test1'' 0 0 0 0) (harness no_drivers)
      in case en_answers e of [(0, AnsU16 (Inl (DeviceNotFound _)))] \<Rightarrow> True | _ \<Rightarrow> False)"

definition test_out_of_bounds :: bool where
  "test_out_of_bounds \<longleftrightarrow>
     (let e = put_device ''dev1'' test_handle (harness no_drivers);
          e = handle_command (CmdGetKeycode ''dev1'' 1 0 0 0) e
      in case en_answers e of [(0, AnsU16 (Inl (DbusRouting _)))] \<Rightarrow> True | _ \<Rightarrow> False)"

definition test_duplicate_device_connected :: bool where
  "test_duplicate_device_connected \<longleftrightarrow>
     (let e = put_device ''dev1'' test_handle (harness no_drivers);
          e = handle_command (DeviceConnected ''dev1'' 0 0 '''') e
      in registry_len (en_registry e) = 1)"

definition test_device_disconnected_unregistered :: bool where
  "test_device_disconnected_unregistered \<longleftrightarrow>
     (let e = handle_command (DeviceDisconnected ''dev1'') (harness no_drivers)
      in registry_is_empty (en_registry e))"

definition test_reattach_token_matching :: bool where
  "test_reattach_token_matching \<longleftrightarrow>
     (let e = harness no_drivers;
          reg = en_registry e;
          e = e\<lparr>en_registry := reg\<lparr>rg_reconnecting := hm_insert ''dev1'' 42 (rg_reconnecting reg)\<rparr>\<rparr>;
          e1 = handle_command (DeviceReattached ''dev1'' test_handle 41) e;
          e2 = handle_command (DeviceReattached ''dev1'' test_handle 42) e1
      in hm_is_empty (rg_devices (en_registry e1)) \<and> reconnecting e1 ''dev1'' = Some 42
       \<and> registry_len (en_registry e2) = 1 \<and> \<not> Option.is_none (devices e2 ''dev1'') \<and> reconnecting e2 ''dev1'' = None)"

definition permission_denied_factory :: "(unit, nat) driver_factory" where
  "permission_denied_factory path w = (Inl (Driver (PermissionDenied path)), w)"

definition protocol_violation_factory :: "(unit, nat) driver_factory" where
  "protocol_violation_factory _ w =
     (Inl (Driver (ProtocolViolation ''no VIA Usage Page (0xFF60) in HID descriptor'')), w)"

definition ek68_with :: "(unit, nat) driver_factory \<Rightarrow> (unit, nat) driver_table" where
  "ek68_with f =
     \<lparr>dt_by_vid_pid = (\<lambda>k. if k = (0x05AC, 0x024F) then Some f else None), dt_via_fallback = None\<rparr>"

definition test_attach_permission_denied_starts_backoff :: bool where
  "test_attach_permission_denied_starts_backoff \<longleftrightarrow>
     (let e = handle_command (DeviceConnected ''dev1'' 0x05AC 0x024F ''/dev/hidraw7'')
           (harness (ek68_with permission_denied_factory))
      in hm_is_empty (rg_devices (en_registry e)) \<and> \<not> Option.is_none (reconnecting e ''dev1''))"

definition test_attach_protocol_violation_does_not_retry :: bool where
  "test_attach_protocol_violation_does_not_retry \<longleftrightarrow>
     (let e = handle_command (DeviceConnected ''dev1'' 0x05AC 0x024F ''/dev/hidraw7'')
           (harness (ek68_with protocol_violation_factory))
      in hm_is_empty (rg_devices (en_registry e)) \<and> reconnecting e ''dev1'' = None)"

definition test_reattach_without_reconnect_state :: bool where
  "test_reattach_without_reconnect_state \<longleftrightarrow>
     (let e = handle_command (DeviceReattached ''dev1'' test_handle 0) (harness no_drivers)
      in hm_is_empty (rg_devices (en_registry e)))"

lemma command_tests:
  "test_device_not_found" "test_out_of_bounds" "test_duplicate_device_connected"
  "test_device_disconnected_unregistered" "test_reattach_token_matching"
  "test_attach_permission_denied_starts_backoff" "test_attach_protocol_violation_does_not_retry"
  "test_reattach_without_reconnect_state"
  by code_simp+

end
