(* ===== verification/Tests_Ipc.thy ===== *)
theory Tests_Ipc
  imports Ipc
begin

text \<open>
  The unit tests of \<open>src/ipc/frontend.rs\<close>, each as a proposition over the model, and the proof that it
  holds. The tests' engine is a task that takes one command and answers it, drops its reply, or is not there.
\<close>

section \<open>Daemon errors on the bus\<close>

definition device_not_found_maps_to_unknown_object :: "foreign_texts \<Rightarrow> bool" where
  "device_not_found_maps_to_unknown_object ft \<longleftrightarrow>
     (let err = DeviceNotFound ''hidraw0''
      in case from_daemon_error ft err of UnknownObject s \<Rightarrow> s = ''hidraw0'' | _ \<Rightarrow> False)"

fun is_access_denied :: "fdo_error \<Rightarrow> bool" where
  "is_access_denied (AccessDenied _) = True" | "is_access_denied _ = False"

fun is_not_supported :: "fdo_error \<Rightarrow> bool" where
  "is_not_supported (NotSupported _) = True" | "is_not_supported _ = False"

fun is_fdo_failed :: "fdo_error \<Rightarrow> bool" where
  "is_fdo_failed (FdoFailed _) = True" | "is_fdo_failed _ = False"

definition device_unauthorized_maps_to_access_denied :: "foreign_texts \<Rightarrow> bool" where
  "device_unauthorized_maps_to_access_denied ft \<longleftrightarrow>
     (let err = DeviceUnauthorized ''hidraw1''
      in is_access_denied (from_daemon_error ft err))"

definition driver_unsupported_maps_to_not_supported :: "foreign_texts \<Rightarrow> bool" where
  "driver_unsupported_maps_to_not_supported ft \<longleftrightarrow>
     (let err = Driver (Unsupported ''macro storage'')
      in is_not_supported (from_daemon_error ft err))"

definition permission_denied_maps_to_access_denied :: "foreign_texts \<Rightarrow> bool" where
  "permission_denied_maps_to_access_denied ft \<longleftrightarrow>
     (let err = Driver (PermissionDenied ''/dev/hidraw2'')
      in is_access_denied (from_daemon_error ft err))"

text \<open>For every I/O error, the test's among them.\<close>

definition driver_io_maps_to_failed :: "io_error \<Rightarrow> foreign_texts \<Rightarrow> bool" where
  "driver_io_maps_to_failed io ft \<longleftrightarrow>
     (let err = Driver (Io io)
      in is_fdo_failed (from_daemon_error ft err))"

definition driver_disconnected_maps_to_failed :: "foreign_texts \<Rightarrow> bool" where
  "driver_disconnected_maps_to_failed ft \<longleftrightarrow>
     (let err = Driver Disconnected
      in is_fdo_failed (from_daemon_error ft err))"

lemma error_mapping_tests:
  "device_not_found_maps_to_unknown_object ft" "device_unauthorized_maps_to_access_denied ft"
  "driver_unsupported_maps_to_not_supported ft" "permission_denied_maps_to_access_denied ft"
  "driver_io_maps_to_failed io ft" "driver_disconnected_maps_to_failed ft"
  by (simp_all add: device_not_found_maps_to_unknown_object_def device_unauthorized_maps_to_access_denied_def
      driver_unsupported_maps_to_not_supported_def permission_denied_maps_to_access_denied_def
      driver_io_maps_to_failed_def driver_disconnected_maps_to_failed_def from_daemon_error_def)

section \<open>Methods against a mock engine\<close>

text \<open>The command the mock engine received, and its answer.\<close>

record mock_engine =
  me_command :: "engine_command option"
  me_closed :: bool
  me_reply :: "engine_command \<Rightarrow> answer option"

definition mock_port :: "mock_engine engine_port" where
  "mock_port =
     \<lparr>ep_oneshot = (\<lambda>m. (0, m)),
      ep_send = (\<lambda>cmd m. if me_closed m then (False, m) else (True, m\<lparr>me_command := Some cmd\<rparr>)),
      ep_recv = (\<lambda>_ m. (Option.bind (me_command m) (me_reply m), m))\<rparr>"

definition mock_engine_replies :: "(engine_command \<Rightarrow> answer option) \<Rightarrow> mock_engine" where
  "mock_engine_replies f = \<lparr>me_command = None, me_closed = False, me_reply = f\<rparr>"

definition mock_engine_gone :: mock_engine where
  "mock_engine_gone = \<lparr>me_command = None, me_closed = True, me_reply = (\<lambda>_. None)\<rparr>"

definition get_keycode_happy_path :: "foreign_texts \<Rightarrow> bool" where
  "get_keycode_happy_path ft \<longleftrightarrow>
     (let m = mock_engine_replies (\<lambda>cmd. case cmd of CmdGetKeycode _ _ _ _ _ \<Rightarrow> Some (AnsU16 (Inr 0x004C)) | _ \<Rightarrow> None)
      in fst (get_keycode ft mock_port ''dev0'' 0 1 2 m) = Inr 0x004C)"

definition get_device_identity_happy_path :: "foreign_texts \<Rightarrow> bool" where
  "get_device_identity_happy_path ft \<longleftrightarrow>
     (let m = mock_engine_replies (\<lambda>cmd. case cmd of
            GetDeviceIdentity _ _ \<Rightarrow> Some (AnsIdentity (Inr (0x1234, 0xABCD, ''Test Board''))) | _ \<Rightarrow> None)
      in case fst (get_device_identity ft mock_port ''dev0'' m) of
           Inr (vid, pid, name) \<Rightarrow> vid = 0x1234 \<and> pid = 0xABCD \<and> name = ''Test Board''
         | Inl _ \<Rightarrow> False)"

definition set_keycode_happy_path :: "foreign_texts \<Rightarrow> bool" where
  "set_keycode_happy_path ft \<longleftrightarrow>
     (let m = mock_engine_replies (\<lambda>cmd. case cmd of CmdSetKeycode _ _ _ _ _ _ \<Rightarrow> Some (AnsUnit (Inr ())) | _ \<Rightarrow> None)
      in is_ok (fst (set_keycode ft mock_port ''dev0'' 0 1 2 0x004C m)))"

definition get_keycode_engine_closed :: "foreign_texts \<Rightarrow> bool" where
  "get_keycode_engine_closed ft \<longleftrightarrow>
     (case fst (get_keycode ft mock_port ''dev0'' 0 0 0 mock_engine_gone) of
        Inl (FdoFailed msg) \<Rightarrow> msg = ''engine command channel closed''
      | _ \<Rightarrow> False)"

definition get_keycode_reply_dropped :: "foreign_texts \<Rightarrow> bool" where
  "get_keycode_reply_dropped ft \<longleftrightarrow>
     (case fst (get_keycode ft mock_port ''dev0'' 0 0 0 (mock_engine_replies (\<lambda>_. None))) of
        Inl (FdoFailed msg) \<Rightarrow> msg = ''engine reply channel dropped''
      | _ \<Rightarrow> False)"

lemma method_tests:
  "get_keycode_happy_path ft" "get_device_identity_happy_path ft" "set_keycode_happy_path ft"
  "get_keycode_engine_closed ft" "get_keycode_reply_dropped ft"
  by (simp_all add: get_keycode_happy_path_def get_device_identity_happy_path_def set_keycode_happy_path_def
      get_keycode_engine_closed_def get_keycode_reply_dropped_def get_keycode_def get_device_identity_def
      set_keycode_def ask_res_def ask_def andthen_def lift_res_def mock_port_def mock_engine_replies_def
      mock_engine_gone_def)

end
