(* ===== verification/Tests_Clackctl.thy ===== *)
theory Tests_Clackctl
  imports Clackctl "HOL-Library.Code_Target_Nat"
begin

text \<open>
  The unit tests of \<open>src/bin/clackctl/keycodes.rs\<close> and \<open>src/bin/clackctl/main.rs\<close>, each as a proposition
  over the model, and the proof that it holds.
\<close>

section \<open>Keycodes\<close>

definition canonical_names_resolve :: bool where
  "canonical_names_resolve \<longleftrightarrow>
     by_name ''KC_A'' = Some 0x0004
   \<and> by_name ''KC_ENTER'' = Some 0x0028
   \<and> by_name ''KC_RIGHT_GUI'' = Some 0x00E7"

definition prefixless_and_case_insensitive_names_resolve :: bool where
  "prefixless_and_case_insensitive_names_resolve \<longleftrightarrow>
     by_name ''a'' = Some 0x0004
   \<and> by_name ''enter'' = Some 0x0028
   \<and> by_name ''Page-Up'' = Some 0x004B
   \<and> by_name ''left_shift'' = Some 0x00E1"

definition aliases_resolve :: bool where
  "aliases_resolve \<longleftrightarrow>
     by_name ''esc'' = Some 0x0029
   \<and> by_name ''bspc'' = Some 0x002A
   \<and> by_name ''lwin'' = Some 0x00E3
   \<and> by_name ''-'' = Some 0x002D
   \<and> by_name ''['' = Some 0x002F"

definition digits_resolve_to_number_row :: bool where
  "digits_resolve_to_number_row \<longleftrightarrow> by_name ''1'' = Some 0x001E \<and> by_name ''0'' = Some 0x0027"

definition unknown_names_do_not_resolve :: bool where
  "unknown_names_do_not_resolve \<longleftrightarrow> by_name ''notakey'' = None \<and> by_name ''0x004C'' = None"

definition describe_names_known_and_unknown :: bool where
  "describe_names_known_and_unknown \<longleftrightarrow>
     describe 0x0004 = ''KC_A (0x0004)'' \<and> list_ex (\<lambda>n. take 7 (drop n (describe 0x5F00)) = ''no name'') [0..<40]"

definition table_is_sorted_and_unique_by_code :: bool where
  "table_is_sorted_and_unique_by_code \<longleftrightarrow>
     list_all (\<lambda>(k, k'). key_code k < key_code k') (zip ALL_KEYS (drop 1 ALL_KEYS))"

definition every_name_round_trips :: bool where
  "every_name_round_trips \<longleftrightarrow> list_all (\<lambda>k. by_name (key_name k) = Some (key_code k)) ALL_KEYS"

lemma keycode_tests_1:
  "canonical_names_resolve" "prefixless_and_case_insensitive_names_resolve" "aliases_resolve"
  by code_simp+

lemma keycode_tests_2:
  "digits_resolve_to_number_row" "unknown_names_do_not_resolve"
  "describe_names_known_and_unknown" "table_is_sorted_and_unique_by_code"
  by code_simp+

text \<open>Every name is its own normal form, so the lookup finds the key that has it.\<close>

lemma names_are_normal:
  "list_all (\<lambda>k. replace_char [CHR ''-''] (CHR ''_'') (ascii_upper (trim (key_name k)))
      = ''KC_'' @ drop 3 (key_name k) \<and> drop 3 (key_name k) \<noteq> ''-'') ALL_KEYS"
  by code_simp

lemma round_trip_test: "every_name_round_trips"
  unfolding every_name_round_trips_def list_all_iff
proof
  fix k assume k: "k \<in> set ALL_KEYS"
  with names_are_normal have "replace_char [CHR ''-''] (CHR ''_'') (ascii_upper (trim (key_name k)))
      \<in> {drop 3 (key_name k), ''KC_'' @ drop 3 (key_name k)}" "drop 3 (key_name k) \<noteq> ''-''"
    by (simp_all add: list_all_iff)
  then show "by_name (key_name k) = Some (key_code k)"
    by (intro by_name_dashed[OF k, of "drop 3 (key_name k)"]) (simp_all add: spellings_def)
qed

section \<open>Arguments\<close>

definition parse_key_prefers_names_over_numbers :: bool where
  "parse_key_prefers_names_over_numbers \<longleftrightarrow>
     parse_key ''1'' = Inr 0x001E
   \<and> parse_key ''76'' = Inr 76
   \<and> parse_key ''0x004C'' = Inr 0x004C
   \<and> parse_key ''esc'' = Inr 0x0029
   \<and> \<not> is_ok (parse_key ''notakey'')"

definition parse_level_accepts_percent_and_raw :: bool where
  "parse_level_accepts_percent_and_raw \<longleftrightarrow>
     parse_level ''0%'' = Inr 0
   \<and> parse_level ''100%'' = Inr 255
   \<and> parse_level ''50%'' = Inr 128
   \<and> parse_level ''255'' = Inr 255
   \<and> parse_level ''0x80'' = Inr 0x80
   \<and> \<not> is_ok (parse_level ''101%'') \<and> \<not> is_ok (parse_level ''256'') \<and> \<not> is_ok (parse_level ''bright'')"

definition parse_effect_accepts_names_off_and_ids :: bool where
  "parse_effect_accepts_names_off_and_ids \<longleftrightarrow>
     parse_effect ''static'' = Inr 0x01
   \<and> parse_effect ''Spectrum Cycle'' = Inr 0x08
   \<and> parse_effect ''spectrum_cycle'' = Inr 0x08
   \<and> parse_effect ''off'' = Inr 0
   \<and> parse_effect ''0x13'' = Inr 0x13
   \<and> \<not> is_ok (parse_effect ''disco'')"

definition parse_color_accepts_names_and_hex :: bool where
  "parse_color_accepts_names_and_hex \<longleftrightarrow>
     parse_color ''red'' = Inr (0xFF, 0x00, 0x00)
   \<and> parse_color ''RED'' = Inr (0xFF, 0x00, 0x00)
   \<and> parse_color ''#00ff00'' = Inr (0x00, 0xFF, 0x00)
   \<and> parse_color ''0000ff'' = Inr (0x00, 0x00, 0xFF)
   \<and> \<not> is_ok (parse_color ''beige'') \<and> \<not> is_ok (parse_color ''#12345'')"

definition abs_diff :: "u8 \<Rightarrow> u8 \<Rightarrow> u8" where
  "abs_diff a b = (if a < b then b - a else a - b)"

definition color_round_trips_through_hue_sat :: bool where
  "color_round_trips_through_hue_sat \<longleftrightarrow>
     list_all (\<lambda>(name, r, g, b).
         name \<in> set [''red'', ''green'', ''blue'', ''white''] \<longrightarrow>
           (let (h, s) = ctl_rgb_to_hs r g b;
                (r2, g2, b2) = ctl_hs_to_rgb h s
            in list_all (\<lambda>(a, b). abs_diff a b \<le> 3) [(r, r2), (g, g2), (b, b2)])) COLORS"

definition parse_hex_bytes_round_trips :: bool where
  "parse_hex_bytes_round_trips \<longleftrightarrow>
     parse_hex_bytes ''01ff00'' = Inr [0x01, 0xFF, 0x00]
   \<and> parse_hex_bytes ''0x01FF'' = Inr [0x01, 0xFF]
   \<and> \<not> is_ok (parse_hex_bytes ''abc'') \<and> \<not> is_ok (parse_hex_bytes ''zz'')"

definition percent_rounds_to_nearest :: bool where
  "percent_rounds_to_nearest \<longleftrightarrow> percent 255 = ''100%'' \<and> percent 0 = ''0%'' \<and> percent 128 = ''50%''"

lemma parse_key_test: "parse_key_prefers_names_over_numbers"
  by code_simp

lemma argument_tests:
  "parse_level_accepts_percent_and_raw" "parse_effect_accepts_names_off_and_ids"
  "parse_color_accepts_names_and_hex" "color_round_trips_through_hue_sat" "parse_hex_bytes_round_trips"
  "percent_rounds_to_nearest"
  by code_simp+

end
