(* ===== verification/Spec2Isabelle.thy ===== *)
theory Spec2Isabelle
  imports Via_Claims Gmk67_Color Gmk67_Claims Engine_Claims Worker_Claims Engine_Linear
    Tests_Via Tests_Shadow Tests_Gmk67 Tests_Engine Tests_Ipc Tests_Clackctl
begin

text \<open>
  \<^bold>\<open>Verification of clackd\<close>, the session daemon that reads and edits the keymap, macros and lighting of
  keyboards through their hidraw nodes, and of its command line client \<open>clackctl\<close>.

  \<^bold>\<open>The program.\<close> A request goes down and its reply comes up through five layers, each a task of its own:
  \<open>clackctl\<close> (\<open>src/src/bin/clackctl\<close>) calls a D-Bus proxy; the frontend (\<open>src/src/ipc\<close>) turns each method into one
  command on the engine's bounded channel and waits for the reply; the supervisor (\<open>src/src/engine/mod.rs\<close>)
  looks the device up, checks the position against its topology and forwards the operation to the device's
  worker; the worker drives the keyboard through a boxed \<open>KeyboardDriver\<close> (\<open>src/src/hal\<close>), which is the VIA
  driver, plain or behind its write coalescer, or the GMK67 driver over a shadow keymap. Beside that path,
  \<open>src/src/main.rs\<close> turns the configuration into the driver table and udev events into commands, workers that
  fail report to the supervisor and are reconnected with backoff, and lifecycle events go to the bus as signals.

  \<^bold>\<open>Theories, in the order of the layers.\<close>

  \<^item> \<open>Prelude\<close>: words, bytes, the state-passing form \<open>('s, 'e, 'a) act\<close> of a fallible method (a result that is
    an error or a value, and the state after it), hash maps with an explicit iteration order. \<open>Text\<close>: the
    string functions of std.
  \<^item> \<open>Hal\<close> (\<open>hal/mod.rs\<close>): \<open>DriverError\<close>, the trait as a record of operations, the classification of errno
    values; the locale \<open>keyboard_driver\<close> is the trait's contract.
  \<^item> \<open>Hid_Descriptor\<close>: the two walks over untrusted report descriptors, with every index a checked access.
  \<^item> \<open>Via_Transport\<close>, \<open>Coalescer\<close>, \<open>Coalescer_Spec\<close>, \<open>Via_Driver\<close>, \<open>Via_Props\<close>, \<open>Via_Claims\<close> (\<open>hal/via.rs\<close>): the
    32-byte round trips, the actor \<open>run_coalescer\<close> with its timer, the driver in both modes.
  \<^item> \<open>Shadow\<close> (\<open>hal/legacy/mod.rs\<close>), \<open>Gmk67_Codec\<close>, \<open>Gmk67_Color\<close>, \<open>Gmk67_Driver\<close>, \<open>Gmk67_Props\<close>, \<open>Gmk67_Claims\<close>
    (\<open>hal/legacy/gmk67.rs\<close>): the persisted shadow keymap, the frames and areas of the EK68, commits with
    rollback, the read-back at attach time, lighting transactions.
  \<^item> \<open>Topology\<close> (\<open>engine/topology.rs\<close>), \<open>Worker\<close>, \<open>Engine\<close>, \<open>Engine_Steps\<close> (\<open>engine/mod.rs\<close>, \<open>messages.rs\<close>): every
    handler as a function on the engine's state, and the tasks side by side as the step relation
    \<open>engine_step\<close>, with a case for each point where the code awaits. \<open>Engine_Inv\<close>, \<open>Engine_Census\<close>, \<open>Engine_Bounds\<close>,
    \<open>Engine_Presence\<close>, \<open>Engine_Types\<close> are the invariants of its runs; \<open>Engine_Claims\<close> and \<open>Worker_Claims\<close> the results.
  \<^item> \<open>Engine_Settle\<close>: the work that is left, a measure that every step of the tasks decreases. \<open>Engine_Desk\<close>: one
    keyboard seen from the outside, a small transition system that simulates the engine. \<open>Side_Requests\<close>: macro and
    lighting requests leave the keymap alone, the contract \<open>shared_keyboard\<close>. \<open>Engine_Linear\<close>: the order in which
    the requests of concurrent clients take effect, for either driver.
  \<^item> \<open>Ipc\<close>, \<open>Ipc_Claims\<close> (\<open>ipc/mod.rs\<close>, \<open>ipc/frontend.rs\<close>): the methods, the errors on the bus, the signal pump.
  \<^item> \<open>Keycodes\<close>, \<open>Clackctl\<close>, \<open>Clackctl_Claims\<close> (\<open>bin/clackctl\<close>): the table of key names, the parsers, the device
    resolution, every command over a proxy, and what it prints.
  \<^item> \<open>Daemon\<close>: the engine behind the frontend as one proxy, and the contract \<open>served_keyboard\<close> that a client uses.
  \<^item> \<open>Main_Boot\<close>, \<open>Boot_Claims\<close>, \<open>Via_Boot\<close> (\<open>main.rs\<close>): configuration, factories, udev, seeding, the body of
    \<open>main\<close>, and from the plug to the command line for either driver.
  \<^item> \<open>Tests_Via\<close>, \<open>Tests_Shadow\<close>, \<open>Tests_Gmk67\<close>, \<open>Tests_Engine\<close>, \<open>Tests_Ipc\<close>, \<open>Tests_Clackctl\<close>: the unit tests of the
    source, which validate the model against the expectations of the code's authors. Each test is a
    proposition under its name in the source, with the test's calls in their order on the model's definitions,
    and is proved; the mocks are the tests' own. What a test leaves to chance (the order of a \<open>HashMap\<close>, the
    text of an error of the operating system, the printed form of JSON) is quantified over.

  Structs are records, enums are datatypes, both with the fields and variants of the source under a short
  prefix (\<open>co_\<close> coalescer, \<open>gd_\<close> GMK67 driver, \<open>sh_\<close> shadow, \<open>wk_\<close> worker, \<open>en_\<close> engine, \<open>px_\<close> proxy). Integers keep
  their width. A \<open>Result\<close> is a sum with the error on the left. A slice access that could panic is an option.
\<close>

text \<open>
  \<^bold>\<open>What is shown.\<close>

  \<^item> End to end: plug in a configured EK68, or a VIA board, and any session of \<open>clackctl get\<close>, \<open>set\<close> and
    \<open>commit\<close> prints what a plain keymap prescribes. The proof composes the contracts of the layers: \<open>keyboard_driver\<close>
    (interpreted for the VIA and for the GMK67 driver), \<open>keyboard_task\<close> (a driver behind its worker and in the
    box of the factory), \<open>served_keyboard\<close> (a worker behind engine and bus), and \<open>clackctl\<close> as their client.
  \<^item> Concurrent clients: after the plug, in every interleaving of supervisor, workers, reconnect tasks, timers and
    other keyboards, the requests for a keyboard behave as those to \<open>keymap_server\<close>, a queue of 16 in front of a plain
    keymap: they take effect in posting order, one is refused as busy exactly when it finds 16 others waiting,
    every other read, write and commit is answered as the keymap would, and macro and lighting requests are
    answered in between without harm. The engine is simulated by \<open>desk_step\<close>, and \<open>shared_keyboard\<close> gives the order
    on it. A hypothesis (\<open>orderly\<close>) excludes the removal of the keyboard and the shutdown; for a VIA board the
    macro and lighting requests are those whose frames its firmware answers (\<open>answers_also\<close>).
  \<^item> The engine comes to rest: without new commands the tasks can take only \<open>work_left\<close> more steps, after
    which every request has been answered or dropped; after a shutdown nothing runs on.
  \<^item> Engine: a reply channel is in one place at any moment and is answered once with its own type, and only the
    exit of a failed worker and the shutdown drop any; queues stay bounded; a forwarded position is inside the
    matrix and the layers that the driver of the worker itself reported; registration and reconnection exclude
    each other; presence signals agree with the registry; a reconnect task sleeps the documented pauses and
    ends. All of these are invariants of \<open>engine_step\<close>, so they hold under every interleaving of the tasks.
  \<^item> VIA: the frames on the wire, the equivalence of both modes with a keymap, the conservation of buffered
    writes under failing transports, the timer of the coalescer, the deadline of a round trip that would hang.
  \<^item> GMK67: framing of transactions, commit or rollback, the round trip of the key area, the read-back of
    exactly the pages the board gave, atomic saves.
  \<^item> Interfaces: hot-plug events as commands, device arguments, key names, hexadecimal data, and the signals of
    a pump that may fall behind, fail to emit, or be aborted.
  \<^item> Where the code deviates from what it means to do, a theorem states the deviation: a lighting write that
    blocks later commits, a failed flush that strands its entries, an eviction that swallows a retirement, a
    stale report that evicts a live worker, product names that match nothing, dimensions that are ignored.

  \<^bold>\<open>Time.\<close> A round trip of the VIA transport is a \<open>future\<close>, a codatatype: it has returned, or it awaits the
  descriptor for some microseconds or for ever and goes on. Its poll loops are corecursive and may never end;
  \<open>returns\<close> says that a future ends by itself, and \<open>timeout_after\<close> is the deadline around it, the only reason why \<open>exchange\<close>
  is total. How long the descriptor takes is up to the device. The reconnect pauses and the debounce use
  \<open>en_now\<close>, which the environment advances at any time; a timer that is due may fire late, never early.

  \<^bold>\<open>Bounds.\<close> Loops over data are structural or have a measure. The channel capacities are those of the code: 32 commands, 16
  operations, 64 events. \<open>settle\<close> lets the daemon work for a number of rounds: 4 after a request (supervise,
  work, and, when the worker retires, its report and the supervisor's reaction) and 2 after a plug; it is a
  run of \<open>engine_step\<close> for every number, and from a daemon at rest these suffice to come back to rest. The pump of
  udev events takes how many commands the engine accepts before it is gone; any number is allowed.

  \<^bold>\<open>Parameters.\<close> Kernel and keyboard (open, read, write, ioctl), the file system with serde_json, the iteration
  order of hash tables, the clock, the texts of foreign errors, the wire form of a D-Bus error, and the
  order in which \<open>select!\<close> takes ready signals are arguments of the definitions. Assumptions on them are named
  predicates (\<open>board_takes_frames\<close>, \<open>reorders\<close>, \<open>subscribes\<close>, \<open>delivers\<close> and the like), each met by a concrete instance
  in a witness.

  \<^bold>\<open>Not modelled.\<close> Logging with tracing and the texts of log lines; the argument grammar of clap, the proxies
  generated by zbus, the parser of TOML and the netlink side of udev, which are libraries; the installation
  of signal handlers (only its success or failure matters to \<open>main\<close>). Strings are bytes: arguments are taken to
  be ASCII, since the source compares and changes case in ASCII, while printed text is in UTF-8. A driver
  call is one step of its worker; the state of a driver between calls changes only as its own timers allow.
\<close>

end
